(* ===== verification/Prelude.thy ===== *)
theory Prelude
  imports Main "HOL-Library.Word"
begin

text \<open>
  Shared vocabulary of the development: Go's byte slices, the outcome of a Go call (a value,
  an error value or a panic), \<open>encoding/binary\<close>'s big-endian integers, \<open>copy\<close>,
  \<open>bytes.Buffer\<close> and \<open>io.ReadFull\<close>, the wrap-around of \<open>int64\<close>, and the loop
  that cuts a buffer into cells. The collections \<open>go_simps\<close> and \<open>go_splits\<close> carry
  the component proofs.
\<close>

unbundle bit_operations_syntax

named_theorems go_simps \<open>unfolding of the small Go library functions\<close>
named_theorems buf_simps \<open>lengths and round trips of byte buffers\<close>

type_synonym byte = "8 word"
type_synonym bytes = "byte list"
type_synonym u16 = "16 word"
type_synonym u32 = "32 word"
type_synonym u64 = "64 word"

section \<open>Outcomes of Go calls\<close>

datatype ('e, 'a) outcome = Ok 'a | Err 'e | Panic

fun is_ok :: "('e, 'a) outcome \<Rightarrow> bool" where
  "is_ok (Ok _) = True"
| "is_ok _ = False"

fun and_then :: "('e, 'a) outcome \<Rightarrow> ('a \<Rightarrow> ('e, 'b) outcome) \<Rightarrow> ('e, 'b) outcome" where
  "and_then (Ok x) f = f x"
| "and_then (Err e) f = Err e"
| "and_then Panic f = Panic"

lemma and_then_Ok_iff: "and_then m f = Ok y \<longleftrightarrow> (\<exists>x. m = Ok x \<and> f x = Ok y)"
  by (cases m) auto

section \<open>Big-endian integers\<close>

primrec be_of_nat :: "nat \<Rightarrow> nat \<Rightarrow> bytes" where
  "be_of_nat 0 n = []"
| "be_of_nat (Suc k) n = be_of_nat k (n div 256) @ [of_nat n]"

definition nat_of_be :: "bytes \<Rightarrow> nat" where
  "nat_of_be bs = foldl (\<lambda>a b. a * 256 + unat b) 0 bs"

lemma length_be_of_nat [simp]: "length (be_of_nat k n) = k"
  by (induction k arbitrary: n) auto

lemma nat_of_be_snoc [simp]: "nat_of_be (bs @ [b]) = nat_of_be bs * 256 + unat b"
  by (simp add: nat_of_be_def)

lemma nat_of_be_Nil [simp]: "nat_of_be [] = 0"
  by (simp add: nat_of_be_def)

lemma unat_byte_of_nat [simp]: "unat (of_nat n :: byte) = n mod 256"
  by (simp add: unat_of_nat)

lemma nat_of_be_be_of_nat [simp]: "nat_of_be (be_of_nat k n) = n mod 256 ^ k"
proof (induction k arbitrary: n)
  case (Suc k)
  have "n mod (256 * 256 ^ k) = 256 * (n div 256 mod 256 ^ k) + n mod 256"
    by (rule mod_mult2_eq)
  with Suc show ?case by (simp add: algebra_simps)
qed simp

lemma unat_byte_lt: "unat (b :: byte) < 256"
  using unsigned_less [where ?'a = nat, of b] by simp

lemma be_of_nat_nat_of_be [simp]: "length bs = k \<Longrightarrow> be_of_nat k (nat_of_be bs) = bs"
proof (induction bs arbitrary: k rule: rev_induct)
  case (snoc b bs)
  have "(nat_of_be bs * 256 + unat b) div 256 = nat_of_be bs"
    using unat_byte_lt [of b] by simp
  moreover have "(of_nat (nat_of_be bs * 256 + unat b) :: byte) = b"
  proof -
    have "unat (of_nat (nat_of_be bs * 256 + unat b) :: byte) = unat b"
      using unat_byte_lt [of b] by (simp only: unat_byte_of_nat) simp
    then show ?thesis by (simp add: word_unat_eq_iff)
  qed
  ultimately show ?case using snoc by auto
qed simp

lemma nat_of_be_bound: "nat_of_be bs < 256 ^ length bs"
proof (induction bs rule: rev_induct)
  case (snoc b bs)
  then have "nat_of_be bs + 1 \<le> 256 ^ length bs" by simp
  then have "(nat_of_be bs + 1) * 256 \<le> 256 ^ length bs * 256" by (rule mult_le_mono1)
  with unat_byte_lt [of b] show ?case by (simp add: algebra_simps)
qed simp

text \<open>\<open>binary.BigEndian.PutUint16\<close>, \<open>PutUint32\<close>, \<open>PutUint64\<close> and their readers.
  A reader of a slice that is too short panics (index out of range).\<close>

definition put_u16 :: "u16 \<Rightarrow> bytes" where
  "put_u16 w = be_of_nat 2 (unat w)"

definition put_u32 :: "u32 \<Rightarrow> bytes" where
  "put_u32 w = be_of_nat 4 (unat w)"

definition put_u64 :: "u64 \<Rightarrow> bytes" where
  "put_u64 w = be_of_nat 8 (unat w)"

definition get_u16 :: "bytes \<Rightarrow> ('e, u16) outcome" where
  "get_u16 b = (if length b < 2 then Panic else Ok (of_nat (nat_of_be (take 2 b))))"

definition get_u32 :: "bytes \<Rightarrow> ('e, u32) outcome" where
  "get_u32 b = (if length b < 4 then Panic else Ok (of_nat (nat_of_be (take 4 b))))"

definition get_u64 :: "bytes \<Rightarrow> ('e, u64) outcome" where
  "get_u64 b = (if length b < 8 then Panic else Ok (of_nat (nat_of_be (take 8 b))))"

lemma length_put [buf_simps, simp]:
  "length (put_u16 w) = 2" "length (put_u32 x) = 4" "length (put_u64 y) = 8"
  by (simp_all add: put_u16_def put_u32_def put_u64_def)

lemma of_nat_unat_mod:
  "of_nat (unat (w :: 'a :: len word) mod 256 ^ k) = w" if "2 ^ LENGTH('a) \<le> (256::nat) ^ k"
proof -
  have "unat w < 256 ^ k" using unsigned_less [where ?'a = nat, of w] that by (rule less_le_trans)
  then show ?thesis by simp
qed

lemma get_put [buf_simps, simp]:
  "get_u16 (put_u16 w @ r) = Ok w" "get_u32 (put_u32 x @ r) = Ok x"
  "get_u64 (put_u64 y @ r) = Ok y"
  using of_nat_unat_mod [of 2 w] of_nat_unat_mod [of 4 x] of_nat_unat_mod [of 8 y]
  by (simp_all add: get_u16_def get_u32_def get_u64_def put_u16_def put_u32_def put_u64_def
      del: be_of_nat.simps)

lemma get_put_Nil [buf_simps, simp]:
  "get_u16 (put_u16 w) = Ok w" "get_u32 (put_u32 x) = Ok x" "get_u64 (put_u64 y) = Ok y"
  using get_put(1) [of w "[]"] get_put(2) [of x "[]"] get_put(3) [of y "[]"] by simp_all

lemma unat_u16_of_int: "0 \<le> v \<Longrightarrow> v < 2 ^ 16 \<Longrightarrow> unat (word_of_int v :: u16) = nat v"
proof -
  assume "0 \<le> v" "v < 2 ^ 16"
  then have "uint (word_of_int v :: u16) = v" by (simp add: uint_word_of_int)
  then show ?thesis by (simp only: unat_eq_nat_uint)
qed

lemma word_less_succ: "w + 1 \<noteq> 0 \<Longrightarrow> w < w + 1" for w :: "'a :: len word"
  using unatSuc [of w] by (simp add: word_less_nat_alt add.commute)

lemma inj_put_u64: "put_u64 x = put_u64 y \<Longrightarrow> x = y"
  by (metis get_put_Nil(3) outcome.inject(1))

section \<open>Slices and buffers\<close>

text \<open>\<open>copy(dst, src)\<close>: the first \<open>min(len dst, len src)\<close> bytes of \<open>dst\<close> change.\<close>

definition go_copy :: "'a list \<Rightarrow> 'a list \<Rightarrow> 'a list" where
  "go_copy dst src = take (length dst) src @ drop (length src) dst"

lemma length_go_copy [simp]: "length (go_copy dst src) = length dst"
  by (simp add: go_copy_def)

lemma go_copy_full [simp]: "length dst = length src \<Longrightarrow> go_copy dst src = src"
  by (simp add: go_copy_def)

lemma go_copy_truncate: "length dst \<le> length src \<Longrightarrow> go_copy dst src = take (length dst) src"
  by (simp add: go_copy_def)

text \<open>\<open>bytes.Buffer.Read(p)\<close> with \<open>len(p) = n\<close>: \<open>io.EOF\<close> exactly when the buffer is
  empty and \<open>n > 0\<close>.\<close>

datatype io_error = EOF | ErrUnexpectedEOF | ErrShortBuffer | ErrShortWrite

definition buf_read :: "bytes \<Rightarrow> nat \<Rightarrow> (io_error, bytes) outcome \<times> bytes" where
  "buf_read b n = (if b = [] \<and> n > 0 then (Err EOF, []) else (Ok (take n b), drop n b))"

text \<open>\<open>io.ReadFull(buf, p)\<close> with \<open>len(p) = n\<close> on a \<open>bytes.Buffer\<close>.\<close>

definition read_full :: "bytes \<Rightarrow> nat \<Rightarrow> (io_error, bytes) outcome \<times> bytes" where
  "read_full b n = (if n \<le> length b then (Ok (take n b), drop n b)
     else if b = [] then (Err EOF, []) else (Err ErrUnexpectedEOF, []))"

text \<open>Go's \<open>int\<close> and \<open>int64\<close> on 64-bit platforms: two's complement wrap-around.\<close>

definition i64 :: "int \<Rightarrow> int" where
  "i64 x = (x + 2 ^ 63) mod 2 ^ 64 - 2 ^ 63"

definition in_i64 :: "int \<Rightarrow> bool" where
  "in_i64 x \<longleftrightarrow> - (2 ^ 63) \<le> x \<and> x < 2 ^ 63"

lemma i64_id [simp]: "in_i64 x \<Longrightarrow> i64 x = x"
  by (simp add: i64_def in_i64_def)

lemma i64_add: "i64 (i64 a + b) = i64 (a + b)"
proof -
  have "i64 a + b + 2 ^ 63 = (a + 2 ^ 63) mod 2 ^ 64 + b" by (simp add: i64_def)
  moreover have "((a + 2 ^ 63) mod 2 ^ 64 + b) mod 2 ^ 64 = (a + b + 2 ^ 63) mod (2 ^ 64 :: int)"
    by (simp only: mod_add_left_eq) (simp add: algebra_simps)
  ultimately show ?thesis by (simp only: i64_def)
qed

lemma concat_singletons: "concat (map (\<lambda>b. [b]) w) = w \<and> [] \<notin> set (map (\<lambda>b. [b]) w)"
  by (induction w) auto

lemma in_i64_i64 [simp]: "in_i64 (i64 x)"
  using pos_mod_sign [of "2 ^ 64" "x + 2 ^ 63"] pos_mod_bound [of "2 ^ 64" "x + 2 ^ 63"]
  by (simp add: i64_def in_i64_def)

text \<open>Go's \<open>int32\<close>.\<close>

definition i32 :: "int \<Rightarrow> int" where
  "i32 x = (x + 2 ^ 31) mod 2 ^ 32 - 2 ^ 31"

definition in_i32 :: "int \<Rightarrow> bool" where
  "in_i32 x \<longleftrightarrow> - (2 ^ 31) \<le> x \<and> x < 2 ^ 31"

lemma i32_id [simp]: "in_i32 x \<Longrightarrow> i32 x = x"
  by (simp add: i32_def in_i32_def)

text \<open>Go's integer division truncates towards zero.\<close>

definition go_div :: "int \<Rightarrow> int \<Rightarrow> int" where
  "go_div a b = sgn a * sgn b * (\<bar>a\<bar> div \<bar>b\<bar>)"

lemma go_div_nonneg [simp]: "0 \<le> a \<Longrightarrow> 0 < b \<Longrightarrow> go_div a b = a div b"
  by (cases "a = 0") (simp_all add: go_div_def)

text \<open>\<open>bytes.Index(s, sep)\<close>: the first position of \<open>sep\<close>, \<open>None\<close> for \<open>-1\<close>.\<close>

fun bytes_Index :: "'a list \<Rightarrow> 'a list \<Rightarrow> nat option" where
  "bytes_Index [] sep = (if sep = [] then Some 0 else None)"
| "bytes_Index (x # xs) sep = (if take (length sep) (x # xs) = sep then Some 0
     else map_option Suc (bytes_Index xs sep))"

definition occurs_at :: "'a list \<Rightarrow> 'a list \<Rightarrow> nat \<Rightarrow> bool" where
  "occurs_at s sep i \<longleftrightarrow> i \<le> length s \<and> take (length sep) (drop i s) = sep"

lemma bytes_Index_Some:
  "bytes_Index s sep = Some i \<longleftrightarrow> occurs_at s sep i \<and> (\<forall>j < i. \<not> occurs_at s sep j)"
proof (induction s arbitrary: i)
  case (Cons x xs)
  show ?case
  proof (cases "take (length sep) (x # xs) = sep")
    case True
    then have "occurs_at (x # xs) sep 0" by (simp add: occurs_at_def)
    with True show ?thesis by (cases i) auto
  next
    case False
    then have z: "\<not> occurs_at (x # xs) sep 0" by (simp add: occurs_at_def)
    have s: "occurs_at (x # xs) sep (Suc j) = occurs_at xs sep j" for j by (simp add: occurs_at_def)
    from False z s Cons show ?thesis
      by (cases i) (auto simp: less_Suc_eq_0_disj)
  qed
qed (auto simp: occurs_at_def)

lemma bytes_Index_None: "bytes_Index s sep = None \<longleftrightarrow> (\<forall>i. \<not> occurs_at s sep i)"
proof
  show "\<forall>i. \<not> occurs_at s sep i" if "bytes_Index s sep = None"
  proof (rule ccontr)
    assume "\<not> ?thesis"
    then have e: "\<exists>i. occurs_at s sep i" by blast
    have "bytes_Index s sep = Some (LEAST i. occurs_at s sep i)"
      unfolding bytes_Index_Some using LeastI_ex [OF e] not_less_Least by blast
    with that show False by simp
  qed
  show "bytes_Index s sep = None" if "\<forall>i. \<not> occurs_at s sep i"
    using that bytes_Index_Some by (cases "bytes_Index s sep") blast+
qed

section \<open>Cutting a buffer into cells\<close>

text \<open>The loop \<open>for buf.Len() > 0 { n, _ := buf.Read(payload[:k]); send(payload[:n]) }\<close>.\<close>

function chop :: "nat \<Rightarrow> 'a list \<Rightarrow> 'a list list" where
  "chop k xs = (if xs = [] \<or> k = 0 then [] else take k xs # chop k (drop k xs))"
  by pat_completeness auto
termination
  by (relation "measure (\<lambda>(k, xs). length xs)") auto

declare chop.simps [simp del]

lemma chop_Nil [simp]: "chop k [] = []"
  by (simp add: chop.simps)

lemma concat_chop [simp]: "0 < k \<Longrightarrow> concat (chop k xs) = xs"
  by (induction k xs rule: chop.induct) (subst chop.simps, auto)

lemma chop_cells: "c \<in> set (chop k xs) \<Longrightarrow> c \<noteq> [] \<and> length c \<le> k"
  by (induction k xs rule: chop.induct) (subst (asm) (2) chop.simps, auto split: if_splits)

lemma length_chop: "0 < k \<Longrightarrow> length (chop k xs) = (length xs + k - 1) div k"
proof (induction k xs rule: chop.induct)
  case (1 k xs)
  show ?case
  proof (cases "xs = []")
    case True
    with "1.prems" show ?thesis by simp
  next
    case False
    with 1 have IH: "length (chop k (drop k xs)) = (length xs - k + k - 1) div k" by simp
    have step: "length (chop k xs) = Suc (length (chop k (drop k xs)))"
      using False "1.prems" by (simp add: chop.simps [of k xs])
    show ?thesis
    proof (cases "length xs \<le> k")
      case True
      moreover from True False "1.prems" have "(length xs + k - 1) div k = 1"
        by (cases "length xs") (auto simp: div_nat_eqI)
      ultimately show ?thesis using step by simp
    next
      case big: False
      then have "length xs + k - 1 = (length xs - k + k - 1) + k" using "1.prems" by simp
      then have "(length xs + k - 1) div k = Suc ((length xs - k + k - 1) div k)"
        using "1.prems" by (simp only: div_add_self2)
      then show ?thesis using step IH by simp
    qed
  qed
qed

lemmas [go_simps] = go_copy_def buf_read_def read_full_def get_u16_def get_u32_def get_u64_def

end
