(* ===== verification/External.thy ===== *)
theory External
  imports Prelude
begin

text \<open>
  The primitives that the protocol code calls, gathered in one record so that a definition takes
  one argument for all of them: SipHash-2-4 (\<open>github.com/dchest/siphash\<close>), the NaCl secretbox and
  X25519 (\<open>golang.org/x/crypto\<close>), HMAC-SHA256, HKDF-SHA256 and SHA-256, which other packages
  implement, and the two maps of Elligator 2, which \<open>internal/extra25519\<close> implements: the theory
  \<open>Elligator\<close> models them and fills them in (\<open>repo_crypto\<close>).
  What the code relies on is stated as the predicates below; each is documented behaviour of
  the primitive. \<open>demo_crypto\<close> is a concrete (not secure) instance that satisfies
  all of them and is used to evaluate closed examples.
\<close>

record crypto =
  siphash :: "bytes \<Rightarrow> bytes \<Rightarrow> bytes"          \<comment> \<open>16 byte key, message\<close>
  box_seal :: "bytes \<Rightarrow> bytes \<Rightarrow> bytes \<Rightarrow> bytes" \<comment> \<open>message, 24 byte nonce, 32 byte key\<close>
  box_open :: "bytes \<Rightarrow> bytes \<Rightarrow> bytes \<Rightarrow> bytes option"
  hmac256 :: "bytes \<Rightarrow> bytes \<Rightarrow> bytes"          \<comment> \<open>key, message\<close>
  hkdf256 :: "bytes \<Rightarrow> bytes \<Rightarrow> bytes \<Rightarrow> nat \<Rightarrow> bytes" \<comment> \<open>secret, salt, info, length\<close>
  sha256 :: "bytes \<Rightarrow> bytes"
  scalar_base_mult :: "bytes \<Rightarrow> bytes"
  scalar_mult :: "bytes \<Rightarrow> bytes \<Rightarrow> bytes"       \<comment> \<open>scalar, point\<close>
  elligator_base_mult :: "bytes \<Rightarrow> (bytes \<times> bytes) option" \<comment> \<open>public key, representative\<close>
  repr_to_public :: "bytes \<Rightarrow> bytes"
  siphash_Hash :: "u64 \<Rightarrow> u64 \<Rightarrow> bytes \<Rightarrow> u64"   \<comment> \<open>key halves, message\<close>

definition siphash_ok :: "crypto \<Rightarrow> bool" where
  "siphash_ok c \<longleftrightarrow> (\<forall>k m. length (siphash c k m) = 8)"

definition secretbox_ok :: "crypto \<Rightarrow> bool" where
  "secretbox_ok c \<longleftrightarrow>
     (\<forall>m n k. length (box_seal c m n k) = length m + 16 \<and>
              box_open c (box_seal c m n k) n k = Some m) \<and>
     (\<forall>b n k m. box_open c b n k = Some m \<longrightarrow> length b = length m + 16)"

definition hmac_ok :: "crypto \<Rightarrow> bool" where
  "hmac_ok c \<longleftrightarrow> (\<forall>k m. length (hmac256 c k m) = 32)"

definition sha256_ok :: "crypto \<Rightarrow> bool" where
  "sha256_ok c \<longleftrightarrow> (\<forall>m. length (sha256 c m) = 32)"

definition hkdf_ok :: "crypto \<Rightarrow> bool" where
  "hkdf_ok c \<longleftrightarrow> (\<forall>s t i n. length (hkdf256 c s t i n) = n)"

text \<open>Diffie-Hellman on Curve25519: the order of the exponents does not matter, keys and
  shared secrets have 32 bytes, and an Elligator representative decodes to the public key it
  was made from.\<close>

definition x25519_ok :: "crypto \<Rightarrow> bool" where
  "x25519_ok c \<longleftrightarrow>
     (\<forall>a b. scalar_mult c a (scalar_base_mult c b) = scalar_mult c b (scalar_base_mult c a)) \<and>
     (\<forall>a p. length (scalar_mult c a p) = 32) \<and> (\<forall>a. length (scalar_base_mult c a) = 32) \<and>
     (\<forall>a pub repr. elligator_base_mult c a = Some (pub, repr) \<longrightarrow>
        pub = scalar_base_mult c a \<and> length repr = 32 \<and> repr_to_public c repr = pub)"

definition link_crypto_ok :: "crypto \<Rightarrow> bool" where
  "link_crypto_ok c \<longleftrightarrow> siphash_ok c \<and> secretbox_ok c"

lemma siphash_length [simp]: "siphash_ok c \<Longrightarrow> length (siphash c k m) = 8"
  by (simp add: siphash_ok_def)

lemma sha256_length [simp]: "sha256_ok c \<Longrightarrow> length (sha256 c m) = 32"
  by (simp add: sha256_ok_def)

lemma hkdf_length [simp]: "hkdf_ok c \<Longrightarrow> length (hkdf256 c s t i n) = n"
  by (simp add: hkdf_ok_def)

lemma hmac_length [simp]: "hmac_ok c \<Longrightarrow> length (hmac256 c k m) = 32"
  by (simp add: hmac_ok_def)

lemma secretbox_laws [simp]:
  assumes "secretbox_ok c"
  shows "length (box_seal c m n k) = length m + 16"
    and "box_open c (box_seal c m n k) n k = Some m"
  using assms by (simp_all add: secretbox_ok_def)

lemma secretbox_open_length:
  "secretbox_ok c \<Longrightarrow> box_open c b n k = Some m \<Longrightarrow> length b = length m + 16"
  unfolding secretbox_ok_def by blast

section \<open>A concrete instance\<close>

definition pad_to :: "nat \<Rightarrow> bytes \<Rightarrow> bytes" where
  "pad_to n b = take n (b @ replicate n 0)"

lemma length_pad_to [simp]: "length (pad_to n b) = n"
  by (simp add: pad_to_def)

definition demo_crypto :: "crypto" where
  "demo_crypto = \<lparr>
     siphash = (\<lambda>k m. pad_to 8 (rev m @ k)),
     box_seal = (\<lambda>m n k. pad_to 16 k @ m),
     box_open = (\<lambda>b n k. if 16 \<le> length b \<and> take 16 b = pad_to 16 k then Some (drop 16 b)
                         else None),
     hmac256 = (\<lambda>k m. pad_to 32 (rev m @ k)),
     hkdf256 = (\<lambda>s t i n. pad_to n (s @ t @ i)),
     sha256 = pad_to 32,
     scalar_base_mult = pad_to 32,
     scalar_mult = (\<lambda>a p. map2 (+) (pad_to 32 a) (pad_to 32 p)),
     elligator_base_mult = (\<lambda>a. Some (pad_to 32 a, pad_to 32 a)),
     repr_to_public = (\<lambda>r. r),
     siphash_Hash = (\<lambda>k0 k1 m. of_nat (nat_of_be (take 8 m))) \<rparr>"

lemma pad_to_id: "length b = n \<Longrightarrow> pad_to n b = b"
  by (simp add: pad_to_def)

lemma demo_crypto_link_ok: "link_crypto_ok demo_crypto"
  by (auto simp: link_crypto_ok_def siphash_ok_def secretbox_ok_def demo_crypto_def pad_to_id
      split: if_splits)

lemma demo_crypto_ok: "hmac_ok demo_crypto" "hkdf_ok demo_crypto" "x25519_ok demo_crypto"
    "sha256_ok demo_crypto"
proof -
  have comm: "map2 (+) (pad_to 32 a) (pad_to 32 b) = map2 (+) (pad_to 32 b) (pad_to 32 a)"
    for a b by (rule nth_equalityI) (auto simp: add.commute)
  show "hmac_ok demo_crypto" "hkdf_ok demo_crypto" "x25519_ok demo_crypto"
    "sha256_ok demo_crypto"
    by (auto simp: hmac_ok_def hkdf_ok_def sha256_ok_def x25519_ok_def demo_crypto_def pad_to_id comm)
qed

end
