(* ===== verification/Rand.thy ===== *)
theory Rand
  imports Encoding External
begin

text \<open>
  Randomness: \<open>common/csrand/csrand.go\<close> and \<open>common/drbg/hash_drbg.go\<close>, and the
  integer helpers of \<open>common/utils/mathutils.go\<close>. The operating system's generator is a
  parameter (the bytes a read returns, or its error); \<open>math/rand\<close>'s \<open>Intn\<close> is a
  function argument of which only its documented range is used.
\<close>

section \<open>common/csrand\<close>

text \<open>\<open>Bytes(buf)\<close> with \<open>len(buf) = n\<close>: \<open>entropy n\<close> is what
  \<open>io.ReadFull(cryptRand.Reader, buf)\<close> yields.\<close>

type_synonym 'e entropy = "nat \<Rightarrow> ('e, bytes) outcome"

definition entropy_ok :: "'e entropy \<Rightarrow> bool" where
  "entropy_ok ent \<longleftrightarrow> (\<forall>n b. ent n = Ok b \<longrightarrow> length b = n)"

definition csrand_Bytes :: "'e entropy \<Rightarrow> nat \<Rightarrow> ('e, bytes) outcome" where
  "csrand_Bytes ent n = ent n"

definition mask63 :: u64 where
  "mask63 = push_bit 63 1 - 1"

text \<open>A read error of the operating system's generator is a panic here.\<close>

definition csrand_Int63 :: "'e entropy \<Rightarrow> ('f, int) outcome" where
  "csrand_Int63 ent =
     (case csrand_Bytes ent 8 of Ok src \<Rightarrow> and_then (get_u64 src) (\<lambda>val. Ok (sint (val AND mask63)))
      | Err _ \<Rightarrow> Panic | Panic \<Rightarrow> Panic)"

text \<open>\<open>Rand.Intn(n)\<close> panics for \<open>n \<le> 0\<close>; otherwise it returns a number of \<open>[0, n)\<close>.\<close>

definition intn_ok :: "(int \<Rightarrow> int) \<Rightarrow> bool" where
  "intn_ok intn \<longleftrightarrow> (\<forall>n > 0. 0 \<le> intn n \<and> intn n < n)"

definition csrand_Intn :: "(int \<Rightarrow> int) \<Rightarrow> int \<Rightarrow> ('e, int) outcome" where
  "csrand_Intn intn n = (if n \<le> 0 then Panic else Ok (intn n))"

definition IntRange :: "(int \<Rightarrow> int) \<Rightarrow> int \<Rightarrow> int \<Rightarrow> ('e, int) outcome" where
  "IntRange intn mn mx = (if mx < mn then Panic
     else let r = i64 (i64 (mx + 1) - mn)
          in and_then (csrand_Intn intn r) (\<lambda>ret. Ok (i64 (ret + mn))))"

lemma IntRange_ok:
  assumes "intn_ok intn" "mn \<le> mx" "in_i64 mn" "in_i64 (mx + 1)" "in_i64 (mx + 1 - mn)"
  shows "\<exists>v. IntRange intn mn mx = Ok v \<and> mn \<le> v \<and> v \<le> mx"
proof -
  have r: "0 \<le> intn (mx + 1 - mn)" "intn (mx + 1 - mn) < mx + 1 - mn"
    using assms(1,2) unfolding intn_ok_def by auto
  then have "in_i64 (intn (mx + 1 - mn) + mn)"
    using assms(3,4) by (auto simp: in_i64_def)
  with r assms show ?thesis by (simp add: IntRange_def csrand_Intn_def)
qed

section \<open>common/utils/mathutils.go\<close>

definition IntMin :: "int \<Rightarrow> int \<Rightarrow> int" where
  "IntMin a b = (if a < b then a else b)"

definition IntMax :: "int \<Rightarrow> int \<Rightarrow> int" where
  "IntMax a b = (if a > b then a else b)"

definition IntAbs :: "int \<Rightarrow> int" where
  "IntAbs a = (if a \<le> 0 then i64 (- a) else a)"

text \<open>\<open>r.Intn(max - min + 1) + min\<close>, a number of \<open>[min, max]\<close>.\<close>

definition Uniform :: "(int \<Rightarrow> int) \<Rightarrow> int \<Rightarrow> int \<Rightarrow> ('e, int) outcome" where
  "Uniform intn mn mx =
     and_then (csrand_Intn intn (i64 (i64 (mx - mn) + 1))) (\<lambda>r. Ok (i64 (r + mn)))"

lemma Uniform_ok:
  assumes "intn_ok intn" "mn \<le> mx" "in_i64 mn" "in_i64 mx" "in_i64 (mx - mn + 1)"
  shows "\<exists>v. Uniform intn mn mx = Ok v \<and> mn \<le> v \<and> v \<le> mx"
proof -
  have "0 < mx - mn + 1" using assms(2) by simp
  then have r: "0 \<le> intn (mx - mn + 1)" "intn (mx - mn + 1) < mx - mn + 1"
    using assms(1) unfolding intn_ok_def by blast+
  moreover have "in_i64 (mx - mn)" using assms by (auto simp: in_i64_def)
  moreover from r have "in_i64 (intn (mx - mn + 1) + mn)"
    using assms(3,4) by (auto simp: in_i64_def)
  ultimately show ?thesis using assms by (simp add: Uniform_def csrand_Intn_def)
qed

section \<open>common/drbg\<close>

definition Size :: nat where [simp]: "Size = 8"

definition SeedLength :: nat where [simp]: "SeedLength = 16 + Size"

datatype seed_error = InvalidSeedLengthError nat | SeedHexError hex_error

definition NewSeed :: "'e entropy \<Rightarrow> ('e, bytes) outcome" where
  "NewSeed ent = csrand_Bytes ent SeedLength"

definition SeedFromBytes :: "bytes \<Rightarrow> (seed_error, bytes) outcome" where
  "SeedFromBytes src = (if length src < SeedLength then Err (InvalidSeedLengthError (length src))
     else Ok (go_copy (replicate SeedLength 0) src))"

definition Seed_Hex :: "bytes \<Rightarrow> string" where
  "Seed_Hex seed = hex_encode seed"

definition SeedFromHex :: "string \<Rightarrow> (seed_error, bytes) outcome" where
  "SeedFromHex encoded = (case hex_decode encoded of Err e \<Rightarrow> Err (SeedHexError e)
     | Ok raw \<Rightarrow> SeedFromBytes raw | Panic \<Rightarrow> Panic)"

text \<open>The SipHash object keeps its key and everything written to it so far: \<open>Write\<close>
  appends, \<open>Sum\<close> does not change it.\<close>

record hash_drbg =
  sip_key :: bytes
  sip_data :: bytes
  ofb :: bytes

definition NewHashDrbg :: "'e entropy \<Rightarrow> bytes option \<Rightarrow> ('e, hash_drbg) outcome" where
  "NewHashDrbg ent seed =
     and_then (case seed of None \<Rightarrow> NewSeed ent | Some s \<Rightarrow> Ok s)
       (\<lambda>s. Ok \<lparr>sip_key = take 16 s, sip_data = [], ofb = go_copy (replicate Size 0) (drop 16 s)\<rparr>)"

definition NextBlock :: "crypto \<Rightarrow> hash_drbg \<Rightarrow> bytes \<times> hash_drbg" where
  "NextBlock c d =
     (let written = sip_data d @ ofb d;
          ofb' = go_copy (ofb d) (siphash c (sip_key d) written)
      in (go_copy (replicate Size 0) ofb', d\<lparr>sip_data := written, ofb := ofb'\<rparr>))"

definition Int63 :: "crypto \<Rightarrow> hash_drbg \<Rightarrow> ('e, int) outcome \<times> hash_drbg" where
  "Int63 c d = (let (block, d') = NextBlock c d
     in (and_then (get_u64 block) (\<lambda>ret. Ok (sint (ret AND mask63))), d'))"

definition drbg_wf :: "hash_drbg \<Rightarrow> bool" where
  "drbg_wf d \<longleftrightarrow> length (ofb d) = Size"

lemma NextBlock_wf: "drbg_wf d \<Longrightarrow> drbg_wf (snd (NextBlock c d))"
  by (simp add: drbg_wf_def NextBlock_def Let_def)

lemma length_NextBlock: "length (fst (NextBlock c d)) = Size"
  by (simp add: NextBlock_def Let_def)

lemma NewHashDrbg_wf: "NewHashDrbg ent seed = Ok d \<Longrightarrow> drbg_wf d"
  by (auto simp: NewHashDrbg_def and_then_Ok_iff drbg_wf_def)

text \<open>The first \<open>n\<close> blocks, in order.\<close>

primrec drbg_blocks :: "crypto \<Rightarrow> nat \<Rightarrow> hash_drbg \<Rightarrow> bytes list" where
  "drbg_blocks c 0 d = []"
| "drbg_blocks c (Suc n) d = (let (b, d') = NextBlock c d in b # drbg_blocks c n d')"

lemma length_drbg_blocks [simp]: "length (drbg_blocks c n d) = n"
  by (induction n arbitrary: d) (auto split: prod.splits)

lemma drbg_blocks_chain:
  assumes "siphash_ok c" "drbg_wf d" "i < n"
  shows "drbg_blocks c n d ! i =
     siphash c (sip_key d) (sip_data d @ ofb d @ concat (take i (drbg_blocks c n d)))"
  using assms(2,3)
proof (induction n arbitrary: i d)
  case (Suc n)
  obtain b d' where nb: "NextBlock c d = (b, d')" by (cases "NextBlock c d")
  have b: "b = siphash c (sip_key d) (sip_data d @ ofb d)"
    and d': "sip_key d' = sip_key d" "sip_data d' = sip_data d @ ofb d" "ofb d' = b"
    using nb assms(1) Suc.prems(1) by (auto simp: NextBlock_def Let_def drbg_wf_def)
  show ?case
  proof (cases i)
    case 0
    then show ?thesis using b by (simp add: nb)
  next
    case (Suc j)
    have "drbg_wf d'" using NextBlock_wf [OF Suc.prems(1), of c] nb by simp
    then have "drbg_blocks c n d' ! j =
        siphash c (sip_key d') (sip_data d' @ ofb d' @ concat (take j (drbg_blocks c n d')))"
      using Suc.IH Suc.prems(2) Suc by simp
    then show ?thesis using d' Suc by (simp add: nb)
  qed
qed simp

lemma sint_mask63: "0 \<le> sint (w AND mask63)" "sint (w AND mask63) < 2 ^ 63"
proof -
  have eq: "w AND mask63 = take_bit 63 w"
    by (simp add: take_bit_eq_mask mask63_def mask_eq_exp_minus_1 push_bit_eq_mult)
  have lt: "uint (w AND mask63) < 2 ^ 63"
    unfolding eq using take_bit_int_less_exp [of 63 "uint w"] by (simp add: unsigned_take_bit_eq)
  have "- (2 ^ 63) \<le> uint (w AND mask63)" by (rule order_trans [of _ 0]) simp_all
  with lt have "sint (w AND mask63) = uint (w AND mask63)"
    by (simp add: sint_uint signed_take_bit_int_eq_self_iff)
  with lt show "0 \<le> sint (w AND mask63)" "sint (w AND mask63) < 2 ^ 63"
    by simp_all
qed

section \<open>Properties\<close>

text \<open>The generator of \<open>common/drbg\<close> never resets its SipHash object, so block
  \<open>i\<close> is the keyed hash of the initial value followed by all earlier blocks (and not, as the
  comment of the framing package says, of the previous block alone).\<close>

lemma drbg_block_chain:
  assumes "siphash_ok c" "NewHashDrbg ent (Some seed) = (Ok d :: (unit, hash_drbg) outcome)" "i < n"
  shows "drbg_blocks c n d ! i =
    siphash c (take 16 seed) (ofb d @ concat (take i (drbg_blocks c n d)))"
proof -
  have "sip_key d = take 16 seed" "sip_data d = []"
    using assms(2) by (auto simp: NewHashDrbg_def)
  with drbg_blocks_chain [OF assms(1) NewHashDrbg_wf [OF assms(2)] assms(3)] show ?thesis by simp
qed

lemma drbg_block_chain_example:
  "\<exists>d. NewHashDrbg (\<lambda>_. Panic) (Some (replicate 24 7)) = (Ok d :: (unit, hash_drbg) outcome) \<and>
     drbg_blocks demo_crypto 3 d ! 2 =
       siphash demo_crypto (take 16 (replicate 24 7)) (ofb d @ concat (take 2 (drbg_blocks demo_crypto 3 d)))"
proof -
  obtain d where d: "NewHashDrbg (\<lambda>_. Panic) (Some (replicate 24 7)) = (Ok d :: (unit, hash_drbg) outcome)"
    by (auto simp: NewHashDrbg_def)
  have "siphash_ok demo_crypto" using demo_crypto_link_ok by (simp add: link_crypto_ok_def)
  from drbg_block_chain [OF this d, of 2 3] d show ?thesis by auto
qed

text \<open>A seed survives its hexadecimal form: \<open>SeedFromHex\<close> of \<open>Hex\<close> gives the seed back,
  and a string that is not the encoding of at least \<open>SeedLength\<close> bytes is rejected.\<close>

lemma seed_hex_roundtrip:
  assumes "length seed = SeedLength"
  shows "SeedFromHex (Seed_Hex seed) = Ok seed \<and> length (Seed_Hex seed) = 2 * SeedLength \<and>
    (length s < 2 * SeedLength \<longrightarrow> (\<exists>er. SeedFromHex s = Err er))"
proof -
  have "\<exists>er. SeedFromHex s = Err er" if "length s < 2 * SeedLength"
    using that hex_decode_length [of s] hex_decode_no_panic [of s]
    by (auto simp: SeedFromHex_def SeedFromBytes_def split: outcome.splits)
  with assms show ?thesis by (simp add: SeedFromHex_def Seed_Hex_def SeedFromBytes_def)
qed

text \<open>The random integers stay in range: both generators' \<open>Int63\<close> is a number of
  \<open>[0, 2^63)\<close> (it never panics for the seeded one), and \<open>IntRange\<close> returns a number of
  \<open>[min, max]\<close> whenever its arguments and the size of the range fit an \<open>int\<close>.\<close>

lemma random_ranges:
  assumes "intn_ok intn" "mn \<le> mx" "in_i64 mn" "in_i64 (mx + 1)" "in_i64 (mx + 1 - mn)" "drbg_wf d"
  shows "(\<exists>v. IntRange intn mn mx = (Ok v :: (unit, int) outcome) \<and> mn \<le> v \<and> v \<le> mx) \<and>
    (\<exists>r d'. Int63 c d = ((Ok r :: (unit, int) outcome), d') \<and> 0 \<le> r \<and> r < 2 ^ 63 \<and> drbg_wf d')"
proof
  show "\<exists>v. IntRange intn mn mx = (Ok v :: (unit, int) outcome) \<and> mn \<le> v \<and> v \<le> mx"
    by (rule IntRange_ok [OF assms(1-5)])
  show "\<exists>r d'. Int63 c d = ((Ok r :: (unit, int) outcome), d') \<and> 0 \<le> r \<and> r < 2 ^ 63 \<and> drbg_wf d'"
    using NextBlock_wf [OF assms(6), of c] length_NextBlock [of c d] sint_mask63
    by (auto simp: Int63_def get_u64_def split: prod.splits)
qed

end
