(* ===== verification/Ntor.thy ===== *)
theory Ntor
  imports Rand
begin

text \<open>
  The ntor key exchange of \<open>common/ntor/ntor.go\<close>: identifiers and keys, key pair
  generation by rejection sampling, the two sides of the handshake and the key derivation.
  Curve25519, Elligator 2, HMAC, HKDF and SHA-256 are the parameters of \<open>External\<close>. The main
  result is that both sides derive the same status, key seed and authentication tag.
\<close>

section \<open>Constants and errors\<close>

definition PublicKeyLength :: nat where [simp]: "PublicKeyLength = 32"
definition RepresentativeLength :: nat where [simp]: "RepresentativeLength = 32"
definition PrivateKeyLength :: nat where [simp]: "PrivateKeyLength = 32"
definition SharedSecretLength :: nat where [simp]: "SharedSecretLength = 32"
definition NodeIDLength :: nat where [simp]: "NodeIDLength = 20"
definition KeySeedLength :: nat where [simp]: "KeySeedLength = 32"
definition AuthLength :: nat where [simp]: "AuthLength = 32"

definition protoID :: bytes where "protoID = bytes_of_string ''ntor-curve25519-sha256-1''"
definition tMac :: bytes where "tMac = protoID @ bytes_of_string '':mac''"
definition tKey :: bytes where "tKey = protoID @ bytes_of_string '':key_extract''"
definition tVerify :: bytes where "tVerify = protoID @ bytes_of_string '':key_verify''"
definition mExpand :: bytes where "mExpand = protoID @ bytes_of_string '':key_expand''"

datatype ntor_error = PublicKeyLengthError nat | PrivateKeyLengthError nat
  | NodeIDLengthError nat | NtorHexError hex_error

section \<open>Identifiers and keys\<close>

definition NewNodeID :: "bytes \<Rightarrow> (ntor_error, bytes) outcome" where
  "NewNodeID raw = (if length raw \<noteq> NodeIDLength then Err (NodeIDLengthError (length raw))
     else Ok (go_copy (replicate NodeIDLength 0) raw))"

definition NodeIDFromHex :: "string \<Rightarrow> (ntor_error, bytes) outcome" where
  "NodeIDFromHex encoded = (case hex_decode encoded of Err e \<Rightarrow> Err (NtorHexError e)
     | Ok raw \<Rightarrow> NewNodeID raw | Panic \<Rightarrow> Panic)"

definition NodeID_Hex :: "bytes \<Rightarrow> string" where
  "NodeID_Hex nid = hex_encode nid"

definition NewPublicKey :: "bytes \<Rightarrow> (ntor_error, bytes) outcome" where
  "NewPublicKey raw = (if length raw \<noteq> PublicKeyLength then Err (PublicKeyLengthError (length raw))
     else Ok (go_copy (replicate PublicKeyLength 0) raw))"

definition PublicKeyFromHex :: "string \<Rightarrow> (ntor_error, bytes) outcome" where
  "PublicKeyFromHex encoded = (case hex_decode encoded of Err e \<Rightarrow> Err (NtorHexError e)
     | Ok raw \<Rightarrow> NewPublicKey raw | Panic \<Rightarrow> Panic)"

definition PublicKey_Hex :: "bytes \<Rightarrow> string" where
  "PublicKey_Hex pub = hex_encode pub"

definition PrivateKey_Hex :: "bytes \<Rightarrow> string" where
  "PrivateKey_Hex priv = hex_encode priv"

definition ToPublic :: "crypto \<Rightarrow> bytes \<Rightarrow> bytes" where
  "ToPublic c repr = repr_to_public c repr"

record keypair =
  kp_public :: bytes
  kp_private :: bytes
  kp_representative :: "bytes option"

definition HasElligator :: "keypair \<Rightarrow> bool" where
  "HasElligator k \<longleftrightarrow> kp_representative k \<noteq> None"

text \<open>The three assignments that turn a digest into a Curve25519 scalar.\<close>

definition clamp :: "bytes \<Rightarrow> bytes" where
  "clamp digest0 = (let d1 = digest0[0 := digest0 ! 0 AND 248]; d2 = d1[31 := d1 ! 31 AND 127]
     in d2[31 := d2 ! 31 OR 64])"

text \<open>\<open>NewKeypair\<close>: \<open>draws\<close> are the results of the successive \<open>csrand.Bytes\<close> calls.
  The loop goes on while Elligator rejects; \<open>None\<close> says that it is still running when
  the given draws are used up. The rest of the draws is returned.\<close>

fun NewKeypair :: "crypto \<Rightarrow> bool \<Rightarrow> ('e, bytes) outcome list \<Rightarrow>
    (('e, keypair) outcome \<times> ('e, bytes) outcome list) option" where
  "NewKeypair c elligator [] = None"
| "NewKeypair c elligator (Err e # draws) = Some (Err e, draws)"
| "NewKeypair c elligator (Panic # draws) = Some (Panic, draws)"
| "NewKeypair c elligator (Ok rnd # draws) =
    (let priv = go_copy rnd (clamp (sha256 c rnd))
     in if elligator then
          (case elligator_base_mult c priv of
             None \<Rightarrow> NewKeypair c elligator draws
           | Some (pub, repr) \<Rightarrow>
               Some (Ok \<lparr>kp_public = pub, kp_private = priv, kp_representative = Some repr\<rparr>, draws))
        else Some (Ok \<lparr>kp_public = scalar_base_mult c priv, kp_private = priv, kp_representative = None\<rparr>, draws))"

definition KeypairFromHex :: "crypto \<Rightarrow> string \<Rightarrow> (ntor_error, keypair) outcome" where
  "KeypairFromHex c encoded = (case hex_decode encoded of Err e \<Rightarrow> Err (NtorHexError e)
     | Ok raw \<Rightarrow>
        (if length raw \<noteq> PrivateKeyLength then Err (PrivateKeyLengthError (length raw))
         else let priv = go_copy (replicate PrivateKeyLength 0) raw
              in Ok \<lparr>kp_public = scalar_base_mult c priv, kp_private = priv, kp_representative = None\<rparr>)
     | Panic \<Rightarrow> Panic)"

section \<open>The handshake\<close>

definition constantTimeIsZero :: "bytes \<Rightarrow> nat" where
  "constantTimeIsZero x = (if foldl (OR) (0 :: byte) x = 0 then 1 else 0)"

definition ntorCommon :: "crypto \<Rightarrow> bytes \<Rightarrow> bytes \<Rightarrow> bytes \<Rightarrow> bytes \<Rightarrow> bytes \<Rightarrow> bytes \<times> bytes" where
  "ntorCommon c secretInput0 nid b x y =
    (let suffix = b @ b @ x @ y @ protoID @ nid;
         secretInput = secretInput0 @ suffix;
         keySeed = go_copy (replicate KeySeedLength 0) (hmac256 c tKey secretInput);
         verify = hmac256 c tVerify secretInput;
         authInput = verify @ suffix @ bytes_of_string ''Server'';
         auth = go_copy (replicate AuthLength 0) (hmac256 c tMac authInput)
     in (keySeed, auth))"

definition ServerHandshake :: "crypto \<Rightarrow> bytes \<Rightarrow> keypair \<Rightarrow> keypair \<Rightarrow> bytes \<Rightarrow> bool \<times> bytes \<times> bytes" where
  "ServerHandshake c clientPublic serverKeypair idKeypair nid =
    (let exp1 = scalar_mult c (kp_private serverKeypair) clientPublic;
         exp2 = scalar_mult c (kp_private idKeypair) clientPublic;
         notOk = or (constantTimeIsZero exp1) (constantTimeIsZero exp2);
         (keySeed, auth) = ntorCommon c (exp1 @ exp2) nid (kp_public idKeypair) clientPublic
                             (kp_public serverKeypair)
     in (notOk = 0, keySeed, auth))"

definition ClientHandshake :: "crypto \<Rightarrow> keypair \<Rightarrow> bytes \<Rightarrow> bytes \<Rightarrow> bytes \<Rightarrow> bool \<times> bytes \<times> bytes" where
  "ClientHandshake c clientKeypair serverPublic idPublic nid =
    (let exp1 = scalar_mult c (kp_private clientKeypair) serverPublic;
         exp2 = scalar_mult c (kp_private clientKeypair) idPublic;
         notOk = or (constantTimeIsZero exp1) (constantTimeIsZero exp2);
         (keySeed, auth) = ntorCommon c (exp1 @ exp2) nid idPublic (kp_public clientKeypair)
                             serverPublic
     in (notOk = 0, keySeed, auth))"

definition CompareAuth :: "bytes \<Rightarrow> bytes \<Rightarrow> bool" where
  "CompareAuth auth1 auth2 \<longleftrightarrow> auth1 = auth2"

text \<open>HKDF-SHA256 yields at most 255 blocks of 32 bytes; asking for more is the error that the
  code turns into a panic.\<close>

definition Kdf :: "crypto \<Rightarrow> bytes \<Rightarrow> nat \<Rightarrow> ('e, bytes) outcome" where
  "Kdf c keySeed okmLen = (if okmLen > 255 * 32 then Panic
     else let okm = hkdf256 c keySeed tKey mExpand okmLen
          in if length okm \<noteq> okmLen then Panic else Ok okm)"

section \<open>Facts about the pieces\<close>

lemma foldl_or_zero: "foldl (OR) (a :: byte) x = 0 \<longleftrightarrow> a = 0 \<and> (\<forall>b \<in> set x. b = 0)"
  by (induction x arbitrary: a) (auto simp: or_eq_0_iff)

lemma constantTimeIsZero_iff: "constantTimeIsZero x = 0 \<longleftrightarrow> (\<exists>b \<in> set x. b \<noteq> 0)"
  by (simp add: constantTimeIsZero_def foldl_or_zero)

definition keypair_ok :: "crypto \<Rightarrow> keypair \<Rightarrow> bool" where
  "keypair_ok c k \<longleftrightarrow> kp_public k = scalar_base_mult c (kp_private k) \<and> length (kp_public k) = 32 \<and>
     (\<forall>r. kp_representative k = Some r \<longrightarrow> length r = 32 \<and> ToPublic c r = kp_public k)"

definition clamped :: "bytes \<Rightarrow> bool" where
  "clamped k \<longleftrightarrow> length k = 32 \<and> k ! 0 AND 7 = 0 \<and> k ! 31 AND 192 = 64"

lemma clamp_clamped: "length d = 32 \<Longrightarrow> clamped (clamp d)"
proof -
  assume l: "length d = 32"
  have "(x AND 248) AND 7 = 0" for x :: byte
    by (simp add: and.assoc)
  moreover have "((x AND 127) OR 64) AND 192 = 64" for x :: byte
    by (simp add: bit.conj_disj_distrib2 and.assoc word_ao_absorbs)
  ultimately show ?thesis using l by (simp add: clamp_def clamped_def Let_def)
qed

lemma Kdf_Ok [simp]: "hkdf_ok c \<Longrightarrow> n \<le> 8160 \<Longrightarrow> Kdf c s n = Ok (hkdf256 c s tKey mExpand n)"
  by (simp add: Kdf_def)

lemma ntor_agree:
  assumes "x25519_ok c" "keypair_ok c x" "keypair_ok c y" "keypair_ok c b"
  shows "ClientHandshake c x (kp_public y) (kp_public b) nid = ServerHandshake c (kp_public x) y b nid"
proof -
  have comm: "scalar_mult c (kp_private x) (kp_public k) = scalar_mult c (kp_private k) (kp_public x)"
    if "keypair_ok c k" for k
    using assms(1,2) that by (simp add: x25519_ok_def keypair_ok_def)
  show ?thesis
    by (simp add: ClientHandshake_def ServerHandshake_def comm [OF assms(3)] comm [OF assms(4)])
qed


definition scalar_of :: "crypto \<Rightarrow> bytes \<Rightarrow> bytes" where
  "scalar_of c rnd = go_copy rnd (clamp (sha256 c rnd))"

lemma length_clamp [simp]: "length (clamp d) = length d"
  by (simp add: clamp_def Let_def)

lemma scalar_of_clamped: "sha256_ok c \<Longrightarrow> length rnd = 32 \<Longrightarrow> clamped (scalar_of c rnd)"
  by (simp add: scalar_of_def clamp_clamped)

lemma NewKeypair_rejects:
  "\<forall>r \<in> set rejected. elligator_base_mult c (scalar_of c r) = None \<Longrightarrow>
     NewKeypair c True (map Ok rejected @ draws) = NewKeypair c True draws"
  by (induction rejected) (auto simp: scalar_of_def)

lemma elligator_keypair_ok:
  assumes "x25519_ok c" "elligator_base_mult c priv = Some (pub, repr)"
  shows "keypair_ok c \<lparr>kp_public = pub, kp_private = priv, kp_representative = Some repr\<rparr>"
proof -
  have "pub = scalar_base_mult c priv" "length repr = 32" "repr_to_public c repr = pub"
    "length (scalar_base_mult c priv) = 32"
    using assms unfolding x25519_ok_def by blast+
  then show ?thesis by (simp add: keypair_ok_def ToPublic_def)
qed

lemma NewKeypair_ok:
  assumes "x25519_ok c" "NewKeypair c ell draws = Some (Ok k, rest)"
  shows "keypair_ok c k \<and> HasElligator k = ell"
  using assms(2)
proof (induction draws)
  case (Cons d draws)
  have len: "length (scalar_base_mult c priv) = 32" for priv
    using assms(1) unfolding x25519_ok_def by blast
  show ?case
  proof (cases d)
    case (Ok rnd)
    let ?priv = "go_copy rnd (clamp (sha256 c rnd))"
    show ?thesis
    proof (cases ell)
      case False
      with Cons.prems Ok have
        "k = \<lparr>kp_public = scalar_base_mult c ?priv, kp_private = ?priv, kp_representative = None\<rparr>"
        by (simp add: Let_def)
      then show ?thesis using False len by (simp add: keypair_ok_def HasElligator_def)
    next
      case True
      show ?thesis
      proof (cases "elligator_base_mult c ?priv")
        case None
        with Cons Ok True show ?thesis by (simp add: Let_def)
      next
        case (Some p)
        then obtain pub repr where p: "elligator_base_mult c ?priv = Some (pub, repr)" by (cases p) auto
        with Cons.prems Ok True
        have "k = \<lparr>kp_public = pub, kp_private = ?priv, kp_representative = Some repr\<rparr>"
          by (simp add: Let_def)
        then show ?thesis using True elligator_keypair_ok [OF assms(1) p] by (simp add: HasElligator_def)
      qed
    qed
  qed (use Cons in auto)
qed simp

section \<open>Properties\<close>

text \<open>C33: Both sides of the ntor handshake agree. For well-formed key pairs of the client, of the
  server's session and of the server's identity, \<open>ClientHandshake\<close> on the public keys and
  \<open>ServerHandshake\<close> on the client's public key return the same status, the same \<open>KEY_SEED\<close>
  and the same \<open>AUTH\<close> (both of 32 bytes), so \<open>CompareAuth\<close> accepts; and the
  status is \<open>true\<close> exactly when neither shared secret is all zero.\<close>

theorem ntor_agreement:
  assumes "x25519_ok c" "hmac_ok c" "keypair_ok c x" "keypair_ok c y" "keypair_ok c b"
    "ServerHandshake c (kp_public x) y b nid = (ok, keySeed, auth)"
  shows "ClientHandshake c x (kp_public y) (kp_public b) nid = (ok, keySeed, auth) \<and>
    length keySeed = KeySeedLength \<and> length auth = AuthLength \<and> CompareAuth auth auth \<and>
    (ok \<longleftrightarrow> (\<exists>v \<in> set (scalar_mult c (kp_private y) (kp_public x)). v \<noteq> 0) \<and>
            (\<exists>v \<in> set (scalar_mult c (kp_private b) (kp_public x)). v \<noteq> 0))"
  using assms(6) ntor_agree [OF assms(1,3-5), of nid] assms(2)
  by (auto simp: ServerHandshake_def ntorCommon_def CompareAuth_def or_eq_0_iff
      constantTimeIsZero_iff Let_def)

definition demo_keypair :: "byte \<Rightarrow> keypair" where
  "demo_keypair v = \<lparr>kp_public = replicate 32 v, kp_private = replicate 32 v,
     kp_representative = Some (replicate 32 v)\<rparr>"

lemma demo_keypair_ok: "keypair_ok demo_crypto (demo_keypair v)"
  by (simp add: keypair_ok_def demo_keypair_def demo_crypto_def ToPublic_def pad_to_id)

lemma demo_scalar_mult:
  "scalar_mult demo_crypto (replicate 32 a) (replicate 32 b) = replicate 32 (a + b)"
  by (rule nth_equalityI) (simp_all add: demo_crypto_def pad_to_id)

lemma demo_server_handshake:
  "\<exists>seed auth. ServerHandshake demo_crypto (replicate 32 1) (demo_keypair 2) (demo_keypair 3) nid
     = (True, seed, auth) \<and> length auth = 32"
  by (simp add: ServerHandshake_def demo_keypair_def demo_scalar_mult ntorCommon_def or_eq_0_iff
      constantTimeIsZero_iff Let_def)

theorem ntor_agreement_witness:
  "\<exists>keySeed auth. ClientHandshake demo_crypto (demo_keypair 1) (replicate 32 2) (replicate 32 3) [9]
     = (True, keySeed, auth) \<and>
     ServerHandshake demo_crypto (replicate 32 1) (demo_keypair 2) (demo_keypair 3) [9]
     = (True, keySeed, auth) \<and> length auth = 32"
proof -
  have pub: "kp_public (demo_keypair v) = replicate 32 v" for v by (simp add: demo_keypair_def)
  obtain ok s a where S: "ServerHandshake demo_crypto (kp_public (demo_keypair 1)) (demo_keypair 2)
      (demo_keypair 3) [9] = (ok, s, a)"
    by (cases "ServerHandshake demo_crypto (kp_public (demo_keypair 1)) (demo_keypair 2) (demo_keypair 3) [9]")
  note A = ntor_agreement [OF demo_crypto_ok(3,1) demo_keypair_ok demo_keypair_ok demo_keypair_ok S]
  then have "ok = True"
    by (simp add: demo_keypair_def demo_scalar_mult)
  with A S pub show ?thesis by (simp add: demo_scalar_mult)
qed


definition demo_sieve :: crypto where
  "demo_sieve = demo_crypto\<lparr>elligator_base_mult := (\<lambda>a. if a ! 1 = 7 then None
      else Some (pad_to 32 a, pad_to 32 a))\<rparr>"

lemma demo_sieve_ok: "x25519_ok demo_sieve" "sha256_ok demo_sieve"
  using demo_crypto_ok(3,4)
  by (auto simp: x25519_ok_def sha256_ok_def demo_crypto_def demo_sieve_def pad_to_id split: if_splits)

lemma demo_sieve_scalar: "scalar_of demo_sieve (replicate 32 v) ! 1 = v"
  by (simp add: scalar_of_def clamp_def demo_crypto_def demo_sieve_def pad_to_id Let_def)


text \<open>The hexadecimal forms of node identifiers, public keys and private keys round-trip, and
  every string that does not decode to exactly 20 (32) bytes is refused with an error, never a
  panic.\<close>

lemma ntor_hex_roundtrip:
  "(length nid = NodeIDLength \<longrightarrow> NodeIDFromHex (NodeID_Hex nid) = Ok nid) \<and>
   (length pub = PublicKeyLength \<longrightarrow> PublicKeyFromHex (PublicKey_Hex pub) = Ok pub) \<and>
   (length priv = PrivateKeyLength \<longrightarrow> (\<exists>k. KeypairFromHex c (PrivateKey_Hex priv) = Ok k \<and>
      kp_private k = priv \<and> kp_public k = scalar_base_mult c priv \<and> \<not> HasElligator k)) \<and>
   (NodeIDFromHex s = Ok r \<longrightarrow> length r = NodeIDLength) \<and>
   (length s \<noteq> 40 \<longrightarrow> (\<exists>e. NodeIDFromHex s = Err e)) \<and>
   (length s \<noteq> 64 \<longrightarrow> (\<exists>e. PublicKeyFromHex s = Err e) \<and> (\<exists>e. KeypairFromHex c s = Err e))"
proof -
  have "\<exists>e. NodeIDFromHex s = Err e" if "length s \<noteq> 40"
    using that hex_decode_length [of s] by (auto simp: NodeIDFromHex_def NewNodeID_def split: outcome.splits)
  moreover have "(\<exists>e. PublicKeyFromHex s = Err e) \<and> (\<exists>e. KeypairFromHex c s = Err e)" if "length s \<noteq> 64"
    using that hex_decode_length [of s]
    by (auto simp: PublicKeyFromHex_def NewPublicKey_def KeypairFromHex_def split: outcome.splits)
  ultimately show ?thesis
    by (auto simp: NodeIDFromHex_def NodeID_Hex_def NewNodeID_def PublicKeyFromHex_def
        PublicKey_Hex_def NewPublicKey_def KeypairFromHex_def PrivateKey_Hex_def HasElligator_def
        split: outcome.splits if_splits)
qed

lemma ntor_hex_roundtrip_example:
  "NodeIDFromHex (NodeID_Hex (replicate 20 171)) = Ok (replicate 20 171) \<and>
   (\<exists>e. NodeIDFromHex ''ab'' = Err e)"
  using ntor_hex_roundtrip [of "replicate 20 171" "[]" "[]" demo_crypto "''ab''" "[]"] by simp

end
