(* ===== verification/ReplayFilter.thy ===== *)
theory ReplayFilter
  imports Rand
begin

text \<open>
  The replay filter of \<open>common/replayfilter/replay_filter.go\<close>. Times are nanoseconds on an
  unbounded axis; \<open>time.Time.Sub\<close> saturates at the range of \<open>int64\<close>. The entries that
  the Go map and the linked list share by pointer are values here: an entry is never changed after
  it was inserted (its \<open>element\<close> pointer is its position in the list). The invariant ties the map
  to the list; the refinement lemma shows that a run of \<open>TestAndSet\<close> computes the answers
  of the specification that never forgets anything but looks at the age of what it remembers.
\<close>

section \<open>The filter\<close>

definition maxFilterSize :: nat where "maxFilterSize = 100 * 1024"

record rf_entry =
  digest :: u64
  firstSeen :: int

record replayFilter =
  rf_filter :: "u64 \<rightharpoonup> rf_entry"
  fifo :: "rf_entry list"
  rf_key :: "u64 \<times> u64"
  ttl :: int

definition time_sub :: "int \<Rightarrow> int \<Rightarrow> int" where
  "time_sub t u = max (- (2 ^ 63)) (min (2 ^ 63 - 1) (t - u))"

definition rf_New :: "'e entropy \<Rightarrow> int \<Rightarrow> ('e, replayFilter) outcome" where
  "rf_New rnd ttl0 = and_then (csrand_Bytes rnd 16) (\<lambda>key.
     and_then (get_u64 (take 8 key)) (\<lambda>k0. and_then (get_u64 (take 8 (drop 8 key))) (\<lambda>k1.
       Ok \<lparr>rf_filter = Map.empty, fifo = [], rf_key = (k0, k1), ttl = ttl0\<rparr>)))"

definition rf_reset :: "replayFilter \<Rightarrow> replayFilter" where
  "rf_reset f = f\<lparr>rf_filter := Map.empty, fifo := []\<rparr>"

function compact :: "int \<Rightarrow> replayFilter \<Rightarrow> replayFilter" where
  "compact now f = (case fifo f of
     [] \<Rightarrow> f
   | ent # eNext \<Rightarrow>
      (let removed = f\<lparr>rf_filter := (rf_filter f)(digest ent := None), fifo := eNext\<rparr>
       in if length (fifo f) < maxFilterSize \<and> ttl f > 0 then
            (let deltaT = time_sub now (firstSeen ent)
             in if deltaT < 0 then rf_reset f
                else if deltaT < ttl f then f
                else compact now removed)
          else compact now removed))"
  by pat_completeness auto
termination
  by (relation "measure (\<lambda>(now, f). length (fifo f))") auto

declare compact.simps [simp del]

definition TestAndSet :: "crypto \<Rightarrow> replayFilter \<Rightarrow> int \<Rightarrow> bytes \<Rightarrow> bool \<times> replayFilter" where
  "TestAndSet c f now buf =
    (let dig = siphash_Hash c (fst (rf_key f)) (snd (rf_key f)) buf;
         f1 = compact now f
     in (case rf_filter f1 dig of
           Some e \<Rightarrow> (True, f1)
         | None \<Rightarrow>
            (let e = \<lparr>digest = dig, firstSeen = now\<rparr>
             in (False, f1\<lparr>fifo := fifo f1 @ [e], rf_filter := (rf_filter f1)(dig \<mapsto> e)\<rparr>))))"

section \<open>The invariant\<close>

definition index_of :: "rf_entry list \<Rightarrow> u64 \<rightharpoonup> rf_entry" where
  "index_of es = map_of (map (\<lambda>e. (digest e, e)) es)"

definition rf_inv :: "replayFilter \<Rightarrow> bool" where
  "rf_inv f \<longleftrightarrow> distinct (map digest (fifo f)) \<and> rf_filter f = index_of (fifo f) \<and>
     length (fifo f) \<le> maxFilterSize"

lemma index_of_Nil [simp]: "index_of [] = Map.empty"
  by (simp add: index_of_def)

lemma index_of_None: "index_of es d = None \<longleftrightarrow> d \<notin> digest ` set es"
  by (simp add: index_of_def map_of_eq_None_iff image_image)

lemma index_of_hit: "(index_of es d \<noteq> None) = (\<exists>e \<in> set es. digest e = d)"
  by (auto simp: index_of_None)

lemma index_of_remove:
  "distinct (map digest (e # es)) \<Longrightarrow> (index_of (e # es))(digest e := None) = index_of es"
  using index_of_None [of es "digest e"] by (auto simp: index_of_def)

lemma index_of_snoc:
  "d \<notin> digest ` set es \<Longrightarrow> digest e = d \<Longrightarrow> (index_of es)(d \<mapsto> e) = index_of (es @ [e])"
proof -
  assume "d \<notin> digest ` set es" "digest e = d"
  then have "index_of es d = None" by (simp add: index_of_None)
  then show ?thesis using \<open>digest e = d\<close>
    by (auto simp: index_of_def map_add_def fun_eq_iff split: option.splits)
qed

text \<open>Compaction as a function of the list alone, and its agreement with the map.\<close>

fun purge :: "int \<Rightarrow> int \<Rightarrow> rf_entry list \<Rightarrow> rf_entry list" where
  "purge life now [] = []"
| "purge life now (e # es) =
    (if Suc (length es) < maxFilterSize \<and> life > 0 then
       (if time_sub now (firstSeen e) < 0 then []
        else if time_sub now (firstSeen e) < life then e # es else purge life now es)
     else purge life now es)"

lemma compact_purge:
  "rf_inv f \<Longrightarrow> compact now f =
     f\<lparr>rf_filter := index_of (purge (ttl f) now (fifo f)), fifo := purge (ttl f) now (fifo f)\<rparr>"
proof (induction "fifo f" arbitrary: f)
  case Nil
  then show ?case by (simp add: compact.simps rf_inv_def)
next
  case (Cons e es)
  note F = Cons.hyps(2) [symmetric]
  let ?r = "f\<lparr>rf_filter := (rf_filter f)(digest e := None), fifo := es\<rparr>"
  have r: "rf_inv ?r" "(rf_filter f)(digest e := None) = index_of es"
    using Cons.prems F index_of_remove [of e es] by (auto simp: rf_inv_def)
  have keep: "f\<lparr>rf_filter := index_of (e # es), fifo := e # es\<rparr> = f"
    using Cons.prems F by (simp add: rf_inv_def)
  have rec: "compact now ?r = f\<lparr>rf_filter := index_of (purge (ttl f) now es), fifo := purge (ttl f) now es\<rparr>"
    using Cons.hyps(1) [of ?r] r(1) by simp
  show ?case
    using F keep rec by (simp add: compact.simps [of now f] rf_reset_def Let_def)
qed

lemma purge_suffix: "\<exists>xs. es = xs @ purge life now es"
  by (induction es) (auto intro: exI [of _ "_ # _"])

lemma purge_subset: "set (purge life now es) \<subseteq> set es"
  using purge_suffix [of es life now] by (metis Un_upper2 set_append)

lemma purge_room: "length es \<le> maxFilterSize \<Longrightarrow> length (purge life now es) < maxFilterSize"
  by (induction es) (auto simp: maxFilterSize_def)

lemma purge_distinct: "distinct (map digest es) \<Longrightarrow> distinct (map digest (purge life now es))"
  using purge_suffix [of es life now] by (metis distinct_append map_append)

lemma rf_inv_New: "rf_New rnd life = Ok f \<Longrightarrow> rf_inv f \<and> ttl f = life \<and> fifo f = []"
  by (auto simp: rf_New_def and_then_Ok_iff rf_inv_def)

lemma TestAndSet_list:
  assumes "rf_inv f" "TestAndSet c f now buf = (r, f')"
  shows "rf_inv f' \<and> ttl f' = ttl f \<and> rf_key f' = rf_key f \<and>
    r = (\<exists>e \<in> set (purge (ttl f) now (fifo f)). digest e = siphash_Hash c (fst (rf_key f)) (snd (rf_key f)) buf) \<and>
    fifo f' = purge (ttl f) now (fifo f) @
      (if r then [] else [\<lparr>digest = siphash_Hash c (fst (rf_key f)) (snd (rf_key f)) buf, firstSeen = now\<rparr>])"
proof -
  let ?d = "siphash_Hash c (fst (rf_key f)) (snd (rf_key f)) buf"
  let ?es = "purge (ttl f) now (fifo f)"
  have es: "distinct (map digest ?es)" "length ?es < maxFilterSize"
    using assms(1) purge_distinct purge_room by (auto simp: rf_inv_def)
  show ?thesis
  proof (cases "index_of ?es ?d")
    case None
    then have "\<not> (\<exists>e \<in> set ?es. digest e = ?d)" "?d \<notin> digest ` set ?es"
      by (force simp: index_of_None)+
    moreover from this(2) have "(index_of ?es)(?d \<mapsto> \<lparr>digest = ?d, firstSeen = now\<rparr>) =
        index_of (?es @ [\<lparr>digest = ?d, firstSeen = now\<rparr>])" by (rule index_of_snoc) simp
    ultimately show ?thesis
      using assms(2) es None by (auto simp: TestAndSet_def compact_purge [OF assms(1)] rf_inv_def Let_def)
  next
    case (Some e)
    then have "\<exists>e \<in> set ?es. digest e = ?d" using index_of_hit [of ?es ?d] by simp
    with assms(2) es Some show ?thesis
      by (auto simp: TestAndSet_def compact_purge [OF assms(1)] rf_inv_def Let_def)
  qed
qed

section \<open>Runs and their specification\<close>

fun run_tests :: "crypto \<Rightarrow> replayFilter \<Rightarrow> (int \<times> bytes) list \<Rightarrow> bool list \<times> replayFilter" where
  "run_tests c f [] = ([], f)"
| "run_tests c f ((now, buf) # ts) =
    (let (r, f') = TestAndSet c f now buf; (rs, f'') = run_tests c f' ts in (r # rs, f''))"

text \<open>The specification remembers every miss for ever and reports a hit when one of the same digest
  is younger than the time to live.\<close>

fun spec_tests :: "(bytes \<Rightarrow> u64) \<Rightarrow> int \<Rightarrow> rf_entry list \<Rightarrow> (int \<times> bytes) list \<Rightarrow> bool list" where
  "spec_tests h life S [] = []"
| "spec_tests h life S ((now, buf) # ts) =
    (let hit = (\<exists>e \<in> set S. digest e = h buf \<and> now - firstSeen e < life)
     in hit # spec_tests h life (if hit then S else S @ [\<lparr>digest = h buf, firstSeen = now\<rparr>]) ts)"

definition time_ok :: "int \<Rightarrow> bool" where
  "time_ok t \<longleftrightarrow> 0 \<le> t \<and> t < 2 ^ 63"

lemma time_sub_id: "time_ok t \<Longrightarrow> time_ok u \<Longrightarrow> time_sub t u = t - u"
  by (auto simp: time_ok_def time_sub_def)

definition fresh :: "int \<Rightarrow> int \<Rightarrow> rf_entry \<Rightarrow> bool" where
  "fresh life now e \<longleftrightarrow> now - firstSeen e < life"

lemma purge_fresh:
  assumes "sorted (map firstSeen es)" "\<forall>e \<in> set es. firstSeen e \<le> now \<and> time_ok (firstSeen e)"
    "time_ok now" "life > 0" "length es < maxFilterSize"
  shows "purge life now es = List.filter (fresh life now) es"
  using assms
proof (induction es)
  case (Cons e es)
  have s: "time_sub now (firstSeen e) = now - firstSeen e" using Cons.prems by (simp add: time_sub_id)
  show ?case
  proof (cases "fresh life now e")
    case True
    then have "\<forall>x \<in> set es. fresh life now x" using Cons.prems(1) by (auto simp: fresh_def)
    with True s Cons.prems show ?thesis by (simp add: fresh_def)
  next
    case False
    with s Cons show ?thesis by (simp add: fresh_def)
  qed
qed simp

text \<open>The simulation: the list of the filter is the specification's memory without some entries
  that are too old to matter from \<open>now\<close> on.\<close>

lemma filter_filter_older:
  "now \<le> now' \<Longrightarrow> List.filter (fresh life now') (List.filter (fresh life now) S) = List.filter (fresh life now') S"
  by (auto simp: fresh_def intro!: filter_cong)

lemma run_tests_spec:
  assumes "rf_inv f" "ttl f = life" "life > 0" "h = siphash_Hash c (fst (rf_key f)) (snd (rf_key f))"
    "sorted (map fst ts)" "\<forall>t \<in> set ts. time_ok (fst t) \<and> lo \<le> fst t"
    "sorted (map firstSeen S)" "\<forall>e \<in> set S. firstSeen e \<le> lo \<and> time_ok (firstSeen e)"
    "List.filter (fresh life lo) (fifo f) = List.filter (fresh life lo) S"
    "sorted (map firstSeen (fifo f))" "\<forall>e \<in> set (fifo f). firstSeen e \<le> lo \<and> time_ok (firstSeen e)"
    "length (fifo f) + length ts \<le> maxFilterSize"
  shows "fst (run_tests c f ts) = spec_tests h life S ts"
  using assms
proof (induction ts arbitrary: f S lo)
  case (Cons t ts)
  obtain now buf where t: "t = (now, buf)" by (cases t)
  obtain r f' where T: "TestAndSet c f now buf = (r, f')" by (cases "TestAndSet c f now buf")
  note L = TestAndSet_list [OF Cons.prems(1) T]
  have lo: "lo \<le> now" "time_ok now" using Cons.prems(6) t by auto
  let ?P = "purge life now (fifo f)"
  have P: "?P = List.filter (fresh life now) (fifo f)"
    using Cons.prems lo by (intro purge_fresh) force+
  have S: "List.filter (fresh life now) (fifo f) = List.filter (fresh life now) S"
    using Cons.prems(9) filter_filter_older [OF lo(1), of life] by metis
  have hit: "r = (\<exists>e \<in> set S. digest e = h buf \<and> now - firstSeen e < life)"
    using L Cons.prems(2,4) P S by (auto simp: fresh_def)
  let ?new = "if r then [] else [\<lparr>digest = h buf, firstSeen = now\<rparr>]"
  have ff: "fifo f' = List.filter (fresh life now) S @ ?new"
    using L Cons.prems(2,4) P S by auto
  have len: "length (fifo f') + length ts \<le> maxFilterSize"
    using ff S Cons.prems(12) length_filter_le [of "fresh life now" "fifo f"] by auto
  have "fst (run_tests c f' ts) = spec_tests h life (S @ ?new) ts"
  proof (rule Cons.IH [of f' now])
    have old: "\<forall>e \<in> set S. firstSeen e \<le> now \<and> time_ok (firstSeen e)" using Cons.prems(8) lo by force
    show "sorted (map firstSeen (S @ ?new))" "\<forall>e \<in> set (S @ ?new). firstSeen e \<le> now \<and> time_ok (firstSeen e)"
      using Cons.prems(7) old lo by (auto simp: sorted_append)
    show "sorted (map firstSeen (fifo f'))" "\<forall>e \<in> set (fifo f'). firstSeen e \<le> now \<and> time_ok (firstSeen e)"
      using Cons.prems(7) old lo unfolding ff by (auto simp: sorted_append sorted_filter)
    show "List.filter (fresh life now) (fifo f') = List.filter (fresh life now) (S @ ?new)"
      unfolding ff by simp
    show "\<forall>t \<in> set ts. time_ok (fst t) \<and> now \<le> fst t" using Cons.prems(5,6) t by auto
  qed (use L Cons.prems(2-5) len in auto)
  with hit T t show ?case by (auto simp: Let_def split: prod.split)
qed simp


text \<open>What the handshake relies on: with a clock that does not run backwards, an entry stays until
  its time to live is over.\<close>

definition rf_timely :: "replayFilter \<Rightarrow> int \<Rightarrow> bool" where
  "rf_timely f lo \<longleftrightarrow> rf_inv f \<and> ttl f > 0 \<and> sorted (map firstSeen (fifo f)) \<and>
     (\<forall>e \<in> set (fifo f). firstSeen e \<le> lo \<and> time_ok (firstSeen e))"

lemma rf_timely_step:
  assumes "rf_timely f lo" "lo \<le> now" "time_ok now" "length (fifo f) < maxFilterSize"
    "TestAndSet c f now buf = (r, f')"
  shows "rf_timely f' now \<and> ttl f' = ttl f \<and> rf_key f' = rf_key f \<and>
    length (fifo f') \<le> length (fifo f) + 1 \<and>
    (\<forall>e \<in> set (fifo f). now - firstSeen e < ttl f \<longrightarrow> e \<in> set (fifo f')) \<and>
    (r \<longleftrightarrow> (\<exists>e \<in> set (fifo f). digest e = siphash_Hash c (fst (rf_key f)) (snd (rf_key f)) buf \<and>
        now - firstSeen e < ttl f)) \<and>
    (\<not> r \<longrightarrow> \<lparr>digest = siphash_Hash c (fst (rf_key f)) (snd (rf_key f)) buf, firstSeen = now\<rparr> \<in> set (fifo f'))"
proof -
  have f: "rf_inv f" "ttl f > 0" "sorted (map firstSeen (fifo f))"
    "\<forall>e \<in> set (fifo f). firstSeen e \<le> now \<and> time_ok (firstSeen e)"
    using assms(1,2) by (force simp: rf_timely_def)+
  have P: "purge (ttl f) now (fifo f) = List.filter (fresh (ttl f) now) (fifo f)"
    using f assms(3,4) by (intro purge_fresh) auto
  note L = TestAndSet_list [OF f(1) assms(5), unfolded P]
  have ff: "fifo f' = List.filter (fresh (ttl f) now) (fifo f) @
      (if r then [] else [\<lparr>digest = siphash_Hash c (fst (rf_key f)) (snd (rf_key f)) buf, firstSeen = now\<rparr>])"
    using L by auto
  have "sorted (map firstSeen (fifo f'))" "\<forall>e \<in> set (fifo f'). firstSeen e \<le> now \<and> time_ok (firstSeen e)"
    unfolding ff using f assms(3) by (auto simp: sorted_append sorted_filter)
  moreover have "length (fifo f') \<le> length (fifo f) + 1"
    unfolding ff by (simp add: le_SucI)
  ultimately show ?thesis
    using L f(2) by (auto simp: rf_timely_def fresh_def)
qed

lemma rf_timely_mono: "rf_timely f lo \<Longrightarrow> lo \<le> lo' \<Longrightarrow> rf_timely f lo'"
  by (force simp: rf_timely_def)

lemma rf_timely_run:
  assumes "rf_timely f lo" "sorted (map fst ts)" "\<forall>t \<in> set ts. time_ok (fst t) \<and> lo \<le> fst t \<and> fst t \<le> hi"
    "length (fifo f) + length ts \<le> maxFilterSize" "lo \<le> hi" "run_tests c f ts = (rs, f')"
  shows "rf_timely f' hi \<and> ttl f' = ttl f \<and> rf_key f' = rf_key f \<and>
    length (fifo f') \<le> length (fifo f) + length ts \<and>
    (\<forall>e \<in> set (fifo f). hi - firstSeen e < ttl f \<longrightarrow> e \<in> set (fifo f'))"
  using assms
proof (induction ts arbitrary: f lo rs)
  case Nil
  then show ?case by (auto intro: rf_timely_mono)
next
  case (Cons t ts)
  obtain now buf where t: "t = (now, buf)" by (cases t)
  obtain r f1 where T: "TestAndSet c f now buf = (r, f1)" by (cases "TestAndSet c f now buf")
  obtain rs1 where R: "run_tests c f1 ts = (rs1, f')"
    using Cons.prems(6) t T by (auto simp: Let_def split: prod.splits)
  have now: "lo \<le> now" "time_ok now" "now \<le> hi" using Cons.prems(3) t by auto
  have S: "rf_timely f1 now \<and> ttl f1 = ttl f \<and> rf_key f1 = rf_key f \<and>
      length (fifo f1) \<le> length (fifo f) + 1 \<and>
      (\<forall>e \<in> set (fifo f). now - firstSeen e < ttl f \<longrightarrow> e \<in> set (fifo f1))"
    using rf_timely_step [OF Cons.prems(1) now(1,2) _ T] Cons.prems(4) by auto
  then have "rf_timely f' hi \<and> ttl f' = ttl f1 \<and> rf_key f' = rf_key f1 \<and>
      length (fifo f') \<le> length (fifo f1) + length ts \<and>
      (\<forall>e \<in> set (fifo f1). hi - firstSeen e < ttl f1 \<longrightarrow> e \<in> set (fifo f'))"
    using Cons.prems(2-4) t now R by (intro Cons.IH) auto
  with S now show ?case by force
qed

lemma run_tests_inv: "rf_inv f \<Longrightarrow> rf_inv (snd (run_tests c f ts))"
proof (induction ts arbitrary: f)
  case (Cons t ts)
  obtain now buf where t: "t = (now, buf)" by (cases t)
  obtain r f' where T: "TestAndSet c f now buf = (r, f')" by (cases "TestAndSet c f now buf")
  with Cons.IH [of f'] TestAndSet_list [OF Cons.prems T] t show ?case
    by (auto simp: Let_def split: prod.split)
qed simp

lemma purge_dead: "life \<le> 0 \<Longrightarrow> purge life now es = []"
  by (induction es) auto

section \<open>Properties\<close>

text \<open>The replay filter's map and list always agree. After any sequence of \<open>TestAndSet\<close>
  calls on a new filter, whatever the clock does (jumps backwards included), the list holds each
  digest once, the map is exactly the index of the list, and at most \<open>maxFilterSize\<close> entries are
  kept.\<close>

lemma replay_filter_invariant:
  assumes "rf_New rnd life = Ok f" "run_tests c f ts = (rs, f')"
  shows "distinct (map digest (fifo f')) \<and> rf_filter f' = index_of (fifo f') \<and>
    length (fifo f') \<le> 102400 \<and> length rs = length ts"
proof -
  have "rf_inv f'" using run_tests_inv [of f c ts] rf_inv_New [OF assms(1)] assms(2) by simp
  moreover have "length (fst (run_tests c g ts)) = length ts" for g
    by (induction ts arbitrary: g) (auto simp: Let_def split: prod.split, metis fst_conv)
  ultimately show ?thesis using assms(2) by (simp add: rf_inv_def maxFilterSize_def) (metis fst_conv)
qed

lemma replay_filter_invariant_example:
  "\<exists>f f'. rf_New (\<lambda>n. (Ok (replicate n 7) :: (unit, bytes) outcome)) 100 = Ok f \<and>
     run_tests demo_crypto f [(10, [1]), (20, [2]), (5, [1])] = ([False, False, False], f') \<and>
     distinct (map digest (fifo f')) \<and> length (fifo f') = 1"
proof -
  obtain f where f: "rf_New (\<lambda>n. (Ok (replicate n 7) :: (unit, bytes) outcome)) 100 = Ok f"
    "fifo f = []" "rf_filter f = Map.empty" "ttl f = 100"
    by (auto simp: rf_New_def csrand_Bytes_def get_u64_def)
  have "\<exists>f'. run_tests demo_crypto f [(10, [1]), (20, [2]), (5, [1])] = ([False, False, False], f') \<and>
      length (fifo f') = 1"
    using f(2-4) by (simp add: TestAndSet_def compact.simps demo_crypto_def nat_of_be_def Let_def
        time_sub_def rf_reset_def maxFilterSize_def)
  with replay_filter_invariant [OF f(1)] f(1) show ?thesis by blast
qed

text \<open>C13: The filter answers like a filter that never forgets. For a positive time to live, a clock
  that does not run backwards and at most \<open>maxFilterSize\<close> queries, each answer of
  \<open>TestAndSet\<close> is True exactly when a query with the same digest was recorded less than the
  time to live ago: purging and the map lose no answer.\<close>

theorem replay_filter_refines:
  assumes "rf_New rnd life = Ok f" "life > 0" "sorted (map fst ts)"
    "\<forall>t \<in> set ts. time_ok (fst t)" "length ts \<le> 102400"
  shows "fst (run_tests c f ts) =
    spec_tests (siphash_Hash c (fst (rf_key f)) (snd (rf_key f))) life [] ts"
proof -
  have "\<forall>t \<in> set ts. time_ok (fst t) \<and> 0 \<le> fst t" using assms(4) by (auto simp: time_ok_def)
  then show ?thesis
    using rf_inv_New [OF assms(1)] assms
    by (intro run_tests_spec [where lo = 0]) (auto simp: maxFilterSize_def)
qed

theorem replay_filter_refines_witness:
  "\<exists>f. rf_New (\<lambda>n. (Ok (replicate n 7) :: (unit, bytes) outcome)) 100 = Ok f \<and>
     fst (run_tests demo_crypto f [(10, [1]), (60, [2]), (90, [1]), (110, [1]), (120, [1])])
       = [False, False, True, False, True]"
proof -
  obtain f where f: "rf_New (\<lambda>n. (Ok (replicate n 7) :: (unit, bytes) outcome)) 100 = Ok f"
    by (auto simp: rf_New_def csrand_Bytes_def get_u64_def)
  have "fst (run_tests demo_crypto f [(10, [1]), (60, [2]), (90, [1]), (110, [1]), (120, [1])]) =
      spec_tests (siphash_Hash demo_crypto (fst (rf_key f)) (snd (rf_key f))) 100 []
        [(10, [1]), (60, [2]), (90, [1]), (110, [1]), (120, [1])]"
    by (rule replay_filter_refines [OF f]) (auto simp: time_ok_def)
  with f show ?thesis by (auto simp: demo_crypto_def nat_of_be_def Let_def)
qed

text \<open>When the filter forgets. With a time to live that is not positive no query ever hits; and
  a clock that is behind the eldest entry of a filter that is not full empties the filter, so that
  the query misses and is the only entry afterwards.\<close>

lemma replay_filter_forgets:
  assumes "rf_inv f" "TestAndSet c f now buf = (r, f')"
    "ttl f \<le> 0 \<or> (length (fifo f) < 102400 \<and> fifo f \<noteq> [] \<and> now < firstSeen (hd (fifo f)))"
  shows "r = False \<and> length (fifo f') = 1 \<and> firstSeen (hd (fifo f')) = now"
proof -
  have "purge (ttl f) now (fifo f) = []"
    using assms(3) by (cases "fifo f") (auto simp: purge_dead time_sub_def maxFilterSize_def)
  with TestAndSet_list [OF assms(1,2)] show ?thesis by auto
qed

lemma replay_filter_forgets_example:
  "fst (TestAndSet demo_crypto \<lparr>rf_filter = index_of [\<lparr>digest = 1, firstSeen = 50\<rparr>],
      fifo = [\<lparr>digest = 1, firstSeen = 50\<rparr>], rf_key = (0, 0), ttl = 100\<rparr> 49 [1]) = False"
proof -
  let ?f = "\<lparr>rf_filter = index_of [\<lparr>digest = 1, firstSeen = 50\<rparr>],
      fifo = [\<lparr>digest = 1, firstSeen = 50\<rparr>], rf_key = (0, 0), ttl = 100\<rparr>"
  obtain r f' where "TestAndSet demo_crypto ?f 49 [1] = (r, f')" by (cases "TestAndSet demo_crypto ?f 49 [1]")
  with replay_filter_forgets [of ?f demo_crypto 49 "[1]" r f'] show ?thesis
    by (simp add: rf_inv_def maxFilterSize_def)
qed

end
