(* ===== verification/Framing.thy ===== *)
theory Framing
  imports Rand
begin

text \<open>
  The link framing of \<open>transports/defconn/framing/framing.go\<close> (the obfs4 and randomwt
  transports carry textual copies of it): nonces, the encoder and decoder objects,
  \<open>Encode\<close> and \<open>Decode\<close>. A method returns its outcome together with the updated
  object, since the Go code keeps its changes when it returns an error. The lemmas show the round
  trip of a frame, that the decoder does not depend on how the network cuts the byte stream, that
  no nonce is used twice, and that a frame whose length field was invalid is never delivered.
\<close>

section \<open>Constants and errors\<close>

definition lengthLength :: nat where [simp]: "lengthLength = 2"
definition secretbox_Overhead :: nat where [simp]: "secretbox_Overhead = 16"
definition MaximumSegmentLength :: nat where [simp]: "MaximumSegmentLength = 1500 - (40 + 12)"
definition FrameOverhead :: nat where [simp]: "FrameOverhead = lengthLength + secretbox_Overhead"
definition MaximumFramePayloadLength :: nat where
  [simp]: "MaximumFramePayloadLength = MaximumSegmentLength - FrameOverhead"
definition keyLength :: nat where [simp]: "keyLength = 32"
definition noncePrefixLength :: nat where [simp]: "noncePrefixLength = 16"
definition KeyLength :: nat where [simp]: "KeyLength = keyLength + noncePrefixLength + SeedLength"
definition maxFrameLength :: nat where [simp]: "maxFrameLength = MaximumSegmentLength - lengthLength"
definition minFrameLength :: nat where [simp]: "minFrameLength = FrameOverhead - lengthLength"

datatype framing_error = ErrAgain | ErrTagMismatch | ErrNonceCounterWrapped
  | InvalidPayloadLengthError nat | FrameIO io_error

section \<open>Nonces\<close>

record boxNonce =
  prefix :: bytes
  counter :: u64

definition nonce_init :: "bytes \<Rightarrow> (framing_error, boxNonce) outcome" where
  "nonce_init p = (if noncePrefixLength \<noteq> length p then Panic
     else Ok \<lparr>prefix = go_copy (replicate noncePrefixLength 0) p, counter = 1\<rparr>)"

definition nonce_bytes :: "boxNonce \<Rightarrow> (framing_error, bytes) outcome" where
  "nonce_bytes n = (if counter n = 0 then Err ErrNonceCounterWrapped
     else Ok (prefix n @ put_u64 (counter n)))"

definition next_counter :: "boxNonce \<Rightarrow> boxNonce" where
  "next_counter n = n\<lparr>counter := counter n + 1\<rparr>"

section \<open>The encoder\<close>

record encoder =
  e_key :: bytes
  e_nonce :: boxNonce
  e_drbg :: hash_drbg

definition NewEncoder :: "bytes \<Rightarrow> (framing_error, encoder) outcome" where
  "NewEncoder key = (if length key \<noteq> KeyLength then Panic else
     (case nonce_init (take noncePrefixLength (drop keyLength key)) of
        Ok n \<Rightarrow> (case SeedFromBytes (drop (keyLength + noncePrefixLength) key) of
            Ok seed \<Rightarrow> (case NewHashDrbg (\<lambda>_. Panic) (Some seed) of
                Ok d \<Rightarrow> Ok \<lparr>e_key = take keyLength key, e_nonce = n, e_drbg = d\<rparr>
              | Err (e :: unit) \<Rightarrow> Panic | Panic \<Rightarrow> Panic)
          | Err e \<Rightarrow> Panic | Panic \<Rightarrow> Panic)
      | Err e \<Rightarrow> Panic | Panic \<Rightarrow> Panic))"

text \<open>\<open>frameCap\<close> is \<open>len(frame)\<close>; the result is the content of \<open>frame[:n]\<close>.\<close>

definition Encode :: "crypto \<Rightarrow> encoder \<Rightarrow> nat \<Rightarrow> bytes \<Rightarrow> (framing_error, bytes) outcome \<times> encoder" where
  "Encode c e frameCap payload =
    (if MaximumFramePayloadLength < length payload then
       (Err (InvalidPayloadLengthError (length payload)), e)
     else if frameCap < length payload + FrameOverhead then (Err (FrameIO ErrShortBuffer), e)
     else (case nonce_bytes (e_nonce e) of
         Err er \<Rightarrow> (Err er, e) | Panic \<Rightarrow> (Panic, e)
       | Ok nonce \<Rightarrow>
          (let box = box_seal c payload nonce (e_key e);
               (lengthMask, drbg') = NextBlock c (e_drbg e);
               e' = e\<lparr>e_nonce := next_counter (e_nonce e), e_drbg := drbg'\<rparr>
           in (case get_u16 lengthMask of
                 Ok m \<Rightarrow> (Ok (put_u16 (of_nat (length box) XOR m) @ box), e')
               | Err er \<Rightarrow> (Err er, e') | Panic \<Rightarrow> (Panic, e')))))"

section \<open>The decoder\<close>

record decoder =
  d_key :: bytes
  d_nonce :: boxNonce
  d_drbg :: hash_drbg
  nextNonce :: bytes
  nextLength :: u16
  nextLengthInvalid :: bool

definition NewDecoder :: "bytes \<Rightarrow> (framing_error, decoder) outcome" where
  "NewDecoder key = (if length key \<noteq> KeyLength then Panic else
     (case nonce_init (take noncePrefixLength (drop keyLength key)) of
        Ok n \<Rightarrow> (case SeedFromBytes (drop (keyLength + noncePrefixLength) key) of
            Ok seed \<Rightarrow> (case NewHashDrbg (\<lambda>_. Panic) (Some seed) of
                Ok d \<Rightarrow> Ok \<lparr>d_key = take keyLength key, d_nonce = n, d_drbg = d,
                         nextNonce = replicate 24 0, nextLength = 0, nextLengthInvalid = False\<rparr>
              | Err (e :: unit) \<Rightarrow> Panic | Panic \<Rightarrow> Panic)
          | Err e \<Rightarrow> Panic | Panic \<Rightarrow> Panic)
      | Err e \<Rightarrow> Panic | Panic \<Rightarrow> Panic))"

type_synonym 'a decode_result = "(framing_error, 'a) outcome \<times> decoder \<times> bytes"

text \<open>The first half of \<open>Decode\<close>: pull the length field of the next frame off the buffer.\<close>

definition read_length :: "crypto \<Rightarrow> (int \<Rightarrow> int) \<Rightarrow> decoder \<Rightarrow> bytes \<Rightarrow> unit decode_result" where
  "read_length c intn dec frames =
    (if lengthLength > length frames then (Err ErrAgain, dec, frames)
     else (case read_full frames lengthLength of
         (Err er, b) \<Rightarrow> (Err (FrameIO er), dec, b) | (Panic, b) \<Rightarrow> (Panic, dec, b)
       | (Ok obfsLen, b) \<Rightarrow>
         (case nonce_bytes (d_nonce dec) of
            Err er \<Rightarrow> (Err er, dec, b) | Panic \<Rightarrow> (Panic, dec, b)
          | Ok nonce \<Rightarrow>
            (let (lengthMask, drbg') = NextBlock c (d_drbg dec);
                 dec' = dec\<lparr>nextNonce := nonce, d_drbg := drbg'\<rparr>
             in (case and_then (get_u16 obfsLen) (\<lambda>l. and_then (get_u16 lengthMask) (\<lambda>m. Ok (l XOR m))) of
                   Ok len \<Rightarrow>
                    (if maxFrameLength < unat len \<or> minFrameLength > unat len then
                       (case IntRange intn (int minFrameLength) (int maxFrameLength) of
                          Ok v \<Rightarrow> (Ok (), dec'\<lparr>nextLengthInvalid := True, nextLength := word_of_int v\<rparr>, b)
                        | Err (er :: unit) \<Rightarrow> (Panic, dec'\<lparr>nextLengthInvalid := True\<rparr>, b)
                        | Panic \<Rightarrow> (Panic, dec'\<lparr>nextLengthInvalid := True\<rparr>, b))
                     else (Ok (), dec'\<lparr>nextLength := len\<rparr>, b))
                 | Err (er :: unit) \<Rightarrow> (Panic, dec', b) | Panic \<Rightarrow> (Panic, dec', b))))))"

text \<open>The second half: read the box once it is complete, and open it.\<close>

definition unseal :: "crypto \<Rightarrow> decoder \<Rightarrow> bytes \<Rightarrow> bytes decode_result" where
  "unseal c dec frames =
    (if unat (nextLength dec) > length frames then (Err ErrAgain, dec, frames)
     else if unat (nextLength dec) > maxFrameLength then (Panic, dec, frames)
     else (case read_full frames (unat (nextLength dec)) of
         (Err er, b) \<Rightarrow> (Err (FrameIO er), dec, b) | (Panic, b) \<Rightarrow> (Panic, dec, b)
       | (Ok box, b) \<Rightarrow>
         (case box_open c box (nextNonce dec) (d_key dec) of
            None \<Rightarrow> (Err ErrTagMismatch, dec, b)
          | Some out \<Rightarrow>
             if nextLengthInvalid dec then (Err ErrTagMismatch, dec, b)
             else (Ok out, dec\<lparr>nextLength := 0, d_nonce := next_counter (d_nonce dec)\<rparr>, b))))"

definition Decode :: "crypto \<Rightarrow> (int \<Rightarrow> int) \<Rightarrow> decoder \<Rightarrow> bytes \<Rightarrow> bytes decode_result" where
  "Decode c intn dec frames =
    (if nextLength dec = 0 then
       (case read_length c intn dec frames of
          (Ok _, dec', b) \<Rightarrow> unseal c dec' b
        | (Err er, dec', b) \<Rightarrow> (Err er, dec', b) | (Panic, dec', b) \<Rightarrow> (Panic, dec', b))
     else unseal c dec frames)"

section \<open>Progress and segmentation\<close>

lemma read_length_len0:
  "read_length c intn dec b = (r, dec', b') \<Longrightarrow> length b' \<le> length b"
  by (auto simp: read_length_def read_full_def Let_def split: if_splits outcome.splits prod.splits)

lemma read_length_short [simp]:
  "length b < 2 \<Longrightarrow> read_length c intn dec b = (Err ErrAgain, dec, b)"
  by (simp add: read_length_def)

lemma read_length_append:
  "2 \<le> length b \<Longrightarrow> read_length c intn dec (b @ x) =
     (case read_length c intn dec b of (r, dec', b') \<Rightarrow> (r, dec', b' @ x))"
  by (auto simp: read_length_def read_full_def Let_def split: outcome.splits prod.splits)

lemma read_length_not_again:
  "2 \<le> length b \<Longrightarrow> fst (read_length c intn dec b) \<noteq> Err ErrAgain"
  by (auto simp: read_length_def read_full_def nonce_bytes_def Let_def
      split: outcome.splits prod.splits if_splits)

lemma read_length_Ok_nextLength:
  assumes "read_length c intn dec b = (Ok (), dec', b')" "intn_ok intn"
  shows "minFrameLength \<le> unat (nextLength dec') \<and> unat (nextLength dec') \<le> maxFrameLength \<and>
    length b = length b' + 2"
proof -
  obtain v where v: "IntRange intn 16 1446 = (Ok v :: (unit, int) outcome)" "16 \<le> v" "v \<le> 1446"
    using IntRange_ok [OF assms(2), of 16 1446] by (auto simp: in_i64_def)
  have "unat (word_of_int v :: u16) = nat v"
    using v(2,3) by (simp add: unat_u16_of_int)
  with assms(1) v show ?thesis
    by (auto simp: read_length_def read_full_def Let_def and_then_Ok_iff
        split: if_splits outcome.splits prod.splits)
qed

lemma unseal_append:
  "unseal c dec b = (r, dec', b') \<Longrightarrow> r \<noteq> Err ErrAgain \<Longrightarrow> unseal c dec (b @ x) = (r, dec', b' @ x)"
  by (auto simp: unseal_def read_full_def split: if_splits option.splits)

lemma unseal_again:
  "unseal c dec b = (Err ErrAgain, dec', b') \<Longrightarrow> dec' = dec \<and> b' = b"
  by (auto simp: unseal_def read_full_def split: if_splits option.splits)

text \<open>A complete result does not depend on what follows in the buffer.\<close>

lemma Decode_append:
  assumes "Decode c intn dec b = (r, dec', b')" "r \<noteq> Err ErrAgain"
  shows "Decode c intn dec (b @ x) = (r, dec', b' @ x)"
proof (cases "nextLength dec = 0 \<and> length b < 2")
  case True
  with assms show ?thesis by (simp add: Decode_def)
next
  case False
  with assms show ?thesis
    by (auto simp: Decode_def read_length_append not_less unseal_append
        split: if_splits outcome.splits prod.splits)
qed

text \<open>\<open>ErrAgain\<close> loses nothing: retrying with more data is decoding the longer buffer.\<close>

lemma Decode_resume:
  assumes "Decode c intn dec b = (Err ErrAgain, dec', b')" "intn_ok intn"
  shows "Decode c intn dec' (b' @ x) = Decode c intn dec (b @ x)"
proof (cases "nextLength dec = 0")
  case False
  with assms have "dec' = dec \<and> b' = b" by (auto simp: Decode_def dest: unseal_again)
  then show ?thesis by simp
next
  case zero: True
  show ?thesis
  proof (cases "length b < 2")
    case True
    with zero assms show ?thesis by (simp add: Decode_def)
  next
    case False
    then obtain dec1 b1 where rl: "read_length c intn dec b = (Ok (), dec1, b1)"
      and un: "unseal c dec1 b1 = (Err ErrAgain, dec', b')"
      using zero assms(1) read_length_not_again [of b c intn dec]
      by (auto simp: Decode_def split: outcome.splits prod.splits)
    then have same: "dec' = dec1" "b' = b1" by (auto dest: unseal_again)
    have "nextLength dec1 \<noteq> 0"
      using read_length_Ok_nextLength [OF rl assms(2)] by auto
    then show ?thesis
      using rl zero same False by (simp add: Decode_def read_length_append)
  qed
qed

lemma Decode_consumes:
  assumes "Decode c intn dec b = (Ok p, dec', b')"
  shows "length b' < length b"
proof -
  have un: "length y \<le> length x \<and> (nextLength d \<noteq> 0 \<longrightarrow> length y < length x)"
    if "unseal c d x = (Ok p, d', y)" for d x d' y
    using that by (auto simp: unseal_def read_full_def unat_gt_0 intro!: diff_less
        split: if_splits option.splits)
  have two: "length b1 + 2 \<le> length b" if "read_length c intn dec b = (Ok (), d1, b1)" for d1 b1
    using that by (auto simp: read_length_def read_full_def Let_def
        split: if_splits outcome.splits prod.splits)
  show ?thesis
  proof (cases "nextLength dec = 0")
    case True
    with assms obtain d1 b1 where "read_length c intn dec b = (Ok (), d1, b1)"
      "unseal c d1 b1 = (Ok p, dec', b')"
      by (auto simp: Decode_def split: outcome.splits prod.splits)
    then show ?thesis using un two by fastforce
  next
    case False
    with assms un show ?thesis by (auto simp: Decode_def)
  qed
qed

section \<open>The contract of a frame codec\<close>

text \<open>
  What the packet layer relies on: \<open>synced e d\<close> says that decoder \<open>d\<close> expects exactly the
  frames encoder \<open>e\<close> makes. \<open>delivers d b ps d' b'\<close> is a run of successful decodes.
\<close>

locale frame_codec =
  fixes enc :: "'e \<Rightarrow> bytes \<Rightarrow> ('x, bytes) outcome \<times> 'e"
    and dec :: "'d \<Rightarrow> bytes \<Rightarrow> ('y, bytes) outcome \<times> 'd \<times> bytes"
    and synced :: "'e \<Rightarrow> 'd \<Rightarrow> bool"
    and overhead :: nat
  assumes dec_enc: "synced e d \<Longrightarrow> enc e p = (Ok f, e') \<Longrightarrow>
      \<exists>d'. dec d (f @ rest) = (Ok p, d', rest) \<and> synced e' d'"
    and enc_length: "synced e d \<Longrightarrow> enc e p = (Ok f, e') \<Longrightarrow> length f = length p + overhead"
    and overhead_pos: "0 < overhead"
begin

inductive sends :: "'e \<Rightarrow> bytes list \<Rightarrow> bytes \<Rightarrow> 'e \<Rightarrow> bool" where
  none: "sends e [] [] e"
| frame: "enc e p = (Ok f, e1) \<Longrightarrow> sends e1 ps fs e2 \<Longrightarrow> sends e (p # ps) (f @ fs) e2"

inductive delivers :: "'d \<Rightarrow> bytes \<Rightarrow> bytes list \<Rightarrow> 'd \<Rightarrow> bytes \<Rightarrow> bool" where
  rest: "delivers d b [] d b"
| more: "dec d b = (Ok p, d1, b1) \<Longrightarrow> delivers d1 b1 ps d2 b2 \<Longrightarrow> delivers d b (p # ps) d2 b2"

lemma sends_delivers:
  "sends e ps fs e' \<Longrightarrow> synced e d \<Longrightarrow> \<exists>d'. delivers d (fs @ rest) ps d' rest \<and> synced e' d'"
proof (induction arbitrary: d rule: sends.induct)
  case (none e)
  then show ?case by (auto intro: delivers.rest)
next
  case (frame e p f e1 ps fs e2)
  from dec_enc [OF frame.prems frame.hyps(1), of "fs @ rest"] obtain d1
    where "dec d (f @ fs @ rest) = (Ok p, d1, fs @ rest)" "synced e1 d1" by auto
  moreover from frame.IH [OF this(2)] obtain d'
    where "delivers d1 (fs @ rest) ps d' rest" "synced e2 d'" by auto
  ultimately show ?case by (auto intro: delivers.more)
qed

lemma sends_length:
  assumes "sends e ps fs e'" "synced e d"
  shows "length fs = sum_list (map length ps) + overhead * length ps"
  using assms
proof (induction arbitrary: d rule: sends.induct)
  case (frame e p f e1 ps fs e2)
  obtain d1 where "synced e1 d1" using dec_enc [OF frame.prems frame.hyps(1), of "[]"] by auto
  then show ?case using frame.IH enc_length [OF frame.prems frame.hyps(1)] by simp
qed simp

end

section \<open>The link: an encoder and a decoder in step\<close>

definition linked :: "encoder \<Rightarrow> decoder \<Rightarrow> bool" where
  "linked e d \<longleftrightarrow> d_key d = e_key e \<and> d_nonce d = e_nonce e \<and> d_drbg d = e_drbg e \<and>
     drbg_wf (e_drbg e) \<and> nextLength d = 0 \<and> \<not> nextLengthInvalid d"

definition link_ok :: "crypto \<Rightarrow> encoder \<Rightarrow> decoder \<Rightarrow> bool" where
  "link_ok c e d \<longleftrightarrow> link_crypto_ok c \<and> linked e d"

lemma get_u16_NextBlock: "\<exists>m. get_u16 (fst (NextBlock c d)) = Ok m"
  by (simp add: get_u16_def length_NextBlock)

lemma Encode_frame:
  assumes "link_crypto_ok c" "length p \<le> MaximumFramePayloadLength"
    "length p + FrameOverhead \<le> cap" "counter (e_nonce e) \<noteq> 0"
  shows "\<exists>m. get_u16 (fst (NextBlock c (e_drbg e))) = (Ok m :: (unit, u16) outcome) \<and>
    Encode c e cap p =
      (Ok (put_u16 (of_nat (length p + 16) XOR m) @
           box_seal c p (prefix (e_nonce e) @ put_u64 (counter (e_nonce e))) (e_key e)),
       e\<lparr>e_nonce := next_counter (e_nonce e), e_drbg := snd (NextBlock c (e_drbg e))\<rparr>)"
proof -
  obtain m where m: "get_u16 (fst (NextBlock c (e_drbg e))) = (Ok m :: (unit, u16) outcome)"
    using get_u16_NextBlock by blast
  then have "get_u16 (fst (NextBlock c (e_drbg e))) = (Ok m :: (framing_error, u16) outcome)"
    by (auto simp: get_u16_def split: if_splits)
  with m assms show ?thesis
    by (auto simp: Encode_def nonce_bytes_def link_crypto_ok_def Let_def split: prod.splits)
qed

lemma Encode_Ok_iff:
  assumes "link_crypto_ok c"
  shows "(\<exists>f e'. Encode c e cap p = (Ok f, e')) \<longleftrightarrow>
    length p \<le> MaximumFramePayloadLength \<and> length p + FrameOverhead \<le> cap \<and> counter (e_nonce e) \<noteq> 0"
proof
  assume "\<exists>f e'. Encode c e cap p = (Ok f, e')"
  then show "length p \<le> MaximumFramePayloadLength \<and> length p + FrameOverhead \<le> cap \<and>
      counter (e_nonce e) \<noteq> 0"
    by (auto simp: Encode_def nonce_bytes_def split: if_splits)
next
  assume a: "length p \<le> MaximumFramePayloadLength \<and> length p + FrameOverhead \<le> cap \<and>
      counter (e_nonce e) \<noteq> 0"
  show "\<exists>f e'. Encode c e cap p = (Ok f, e')"
    using Encode_frame [OF assms, of p cap e] a by blast
qed

lemma Encode_length:
  assumes "link_crypto_ok c" "Encode c e cap p = (Ok f, e')"
  shows "length f = length p + FrameOverhead"
proof -
  from assms have a: "length p \<le> MaximumFramePayloadLength" "length p + FrameOverhead \<le> cap"
    "counter (e_nonce e) \<noteq> 0" using Encode_Ok_iff by blast+
  show ?thesis using Encode_frame [OF assms(1) a] assms by (auto simp: link_crypto_ok_def)
qed

lemma Decode_Encode:
  assumes ok: "link_ok c e d" and enc: "Encode c e cap p = (Ok f, e')"
  shows "\<exists>d'. Decode c intn d (f @ rest) = (Ok p, d', rest) \<and> link_ok c e' d'"
proof -
  from ok have c: "link_crypto_ok c" and l: "linked e d" by (simp_all add: link_ok_def)
  have a: "length p \<le> MaximumFramePayloadLength" "length p + FrameOverhead \<le> cap"
    "counter (e_nonce e) \<noteq> 0" using Encode_Ok_iff [OF c] enc by blast+
  obtain m where m: "get_u16 (fst (NextBlock c (e_drbg e))) = (Ok m :: (unit, u16) outcome)"
    and E: "Encode c e cap p =
      (Ok (put_u16 (of_nat (length p + 16) XOR m) @
           box_seal c p (prefix (e_nonce e) @ put_u64 (counter (e_nonce e))) (e_key e)),
       e\<lparr>e_nonce := next_counter (e_nonce e), e_drbg := snd (NextBlock c (e_drbg e))\<rparr>)"
    using Encode_frame [OF c a] by blast
  let ?box = "box_seal c p (prefix (e_nonce e) @ put_u64 (counter (e_nonce e))) (e_key e)"
  let ?len = "of_nat (length p + 16) :: u16"
  have len: "unat ?len = length p + 16" using a(1) by (simp only: unat_of_nat) simp
  have x: "(?len XOR m) XOR m = ?len" by (simp add: xor.assoc)
  have rl: "read_length c intn d (put_u16 (?len XOR m) @ ?box @ rest) =
     (Ok (), d\<lparr>nextNonce := prefix (e_nonce e) @ put_u64 (counter (e_nonce e)),
        d_drbg := snd (NextBlock c (e_drbg e)), nextLength := ?len\<rparr>, ?box @ rest)"
    using l a m len x unfolding read_length_def linked_def read_full_def nonce_bytes_def Let_def
    by (cases "NextBlock c (e_drbg e)") (simp del: of_nat_add)
  have "length ?box = length p + 16" using c by (simp add: link_crypto_ok_def)
  then have un: "unseal c (d\<lparr>nextNonce := prefix (e_nonce e) @ put_u64 (counter (e_nonce e)),
        d_drbg := snd (NextBlock c (e_drbg e)), nextLength := ?len\<rparr>) (?box @ rest) =
     (Ok p, d\<lparr>nextNonce := prefix (e_nonce e) @ put_u64 (counter (e_nonce e)),
        d_drbg := snd (NextBlock c (e_drbg e)), nextLength := 0,
        d_nonce := next_counter (d_nonce d)\<rparr>, rest)"
    using l a len c by (simp add: unseal_def linked_def read_full_def link_crypto_ok_def del: of_nat_add)
  show ?thesis
    using l c enc E rl un NextBlock_wf [of "e_drbg e" c]
    by (auto simp: Decode_def link_ok_def linked_def)
qed

interpretation frames: frame_codec "\<lambda>e p. Encode c e cap p" "Decode c intn" "link_ok c" FrameOverhead
  for c cap intn
proof
  show "\<exists>d'. Decode c intn d (f @ rest) = (Ok p, d', rest) \<and> link_ok c e' d'"
    if "link_ok c e d" "Encode c e cap p = (Ok f, e')" for e d p f e' rest
    using that by (rule Decode_Encode)
  show "length f = length p + FrameOverhead"
    if "link_ok c e d" "Encode c e cap p = (Ok f, e')" for e d p f e'
    using that Encode_length by (auto simp: link_ok_def)
qed simp

lemma NewEncoder_NewDecoder:
  assumes "length key = KeyLength"
  shows "\<exists>e d. NewEncoder key = Ok e \<and> NewDecoder key = Ok d \<and> linked e d \<and> counter (e_nonce e) = 1"
  using assms by (simp add: NewEncoder_def NewDecoder_def nonce_init_def SeedFromBytes_def
      NewHashDrbg_def linked_def drbg_wf_def)

section \<open>Nonces are never reused\<close>

text \<open>The nonces that the successful calls of a sequence of \<open>Encode\<close> calls pass to the
  secretbox, in order.\<close>

fun sealed_nonces :: "crypto \<Rightarrow> encoder \<Rightarrow> (nat \<times> bytes) list \<Rightarrow> bytes list" where
  "sealed_nonces c e [] = []"
| "sealed_nonces c e ((cap, p) # ps) =
     (case Encode c e cap p of
        (Ok _, e') \<Rightarrow> (prefix (e_nonce e) @ put_u64 (counter (e_nonce e))) # sealed_nonces c e' ps
      | (_, e') \<Rightarrow> sealed_nonces c e' ps)"

lemma Encode_state:
  "Encode c e cap p = (r, e') \<Longrightarrow>
     (is_ok r \<longrightarrow> counter (e_nonce e) \<noteq> 0) \<and> e_key e' = e_key e \<and>
     prefix (e_nonce e') = prefix (e_nonce e) \<and>
     counter (e_nonce e') = counter (e_nonce e) + (if is_ok r then 1 else 0)"
  using length_NextBlock [of c "e_drbg e"]
  by (auto simp: Encode_def nonce_bytes_def next_counter_def get_u16_def Let_def
      split: if_splits outcome.splits prod.splits)

lemma sealed_nonces_later:
  "n \<in> set (sealed_nonces c e ps) \<Longrightarrow> counter (e_nonce e) \<noteq> 0 \<and>
     (\<exists>w \<ge> counter (e_nonce e). n = prefix (e_nonce e) @ put_u64 w)"
proof (induction c e ps rule: sealed_nonces.induct)
  case (2 c e cap p ps)
  obtain r e' where E: "Encode c e cap p = (r, e')" by (cases "Encode c e cap p")
  note st = Encode_state [OF E]
  show ?case
  proof (cases "is_ok r")
    case False
    with 2 E st show ?thesis by (cases r) auto
  next
    case True
    then obtain f where r: "r = Ok f" by (cases r) auto
    consider "n = prefix (e_nonce e) @ put_u64 (counter (e_nonce e))"
      | "n \<in> set (sealed_nonces c e' ps)" using "2.prems" E r by auto
    then show ?thesis
    proof cases
      case 1
      with st True show ?thesis by auto
    next
      case later: 2
      then obtain w where w: "counter (e_nonce e') \<noteq> 0" "w \<ge> counter (e_nonce e')"
        "n = prefix (e_nonce e') @ put_u64 w"
        using "2.IH"(1) E r by auto
      have "counter (e_nonce e) < counter (e_nonce e')"
        using st True w(1) by (simp add: word_less_succ)
      then have "counter (e_nonce e) \<le> w" using w(2) by (meson less_imp_le order_trans)
      with w(3) st True show ?thesis by auto
    qed
  qed
qed simp

lemma distinct_sealed_nonces: "distinct (sealed_nonces c e ps)"
proof (induction c e ps rule: sealed_nonces.induct)
  case (2 c e cap p ps)
  obtain r e' where E: "Encode c e cap p = (r, e')" by (cases "Encode c e cap p")
  note st = Encode_state [OF E]
  show ?case
  proof (cases "is_ok r")
    case False
    with 2 E st show ?thesis by (cases r) auto
  next
    case True
    then obtain f where r: "r = Ok f" by (cases r) auto
    have "prefix (e_nonce e) @ put_u64 (counter (e_nonce e)) \<notin> set (sealed_nonces c e' ps)"
    proof
      assume "prefix (e_nonce e) @ put_u64 (counter (e_nonce e)) \<in> set (sealed_nonces c e' ps)"
      from sealed_nonces_later [OF this] st have "counter (e_nonce e') \<noteq> 0"
        "counter (e_nonce e') \<le> counter (e_nonce e)" by (auto dest: inj_put_u64)
      with st True show False using word_less_succ by fastforce
    qed
    with 2 E r show ?thesis by auto
  qed
qed simp

section \<open>Invalid length fields\<close>

lemma Decode_invalid:
  assumes "nextLengthInvalid d" "Decode c intn d b = (r, d', b')"
  shows "\<not> is_ok r \<and> nextLengthInvalid d'"
proof -
  have un: "\<not> is_ok r \<and> nextLengthInvalid d'"
    if "nextLengthInvalid x" "unseal c x y = (r, d', b')" for x y
    using that by (auto simp: unseal_def read_full_def split: if_splits option.splits)
  have rl: "nextLengthInvalid d1" if "read_length c intn d b = (q, d1, b1)" for q d1 b1
    using that assms(1) by (auto simp: read_length_def read_full_def Let_def
        split: if_splits outcome.splits prod.splits)
  show ?thesis
    using assms un by (auto simp: Decode_def dest: rl split: if_splits outcome.splits prod.splits)
qed

section \<open>A decoder to evaluate\<close>

definition demo_decoder :: decoder where
  "demo_decoder = \<lparr>d_key = [], d_nonce = \<lparr>prefix = [], counter = 1\<rparr>,
     d_drbg = \<lparr>sip_key = [], sip_data = [], ofb = replicate 8 0\<rparr>,
     nextNonce = [], nextLength = 0, nextLengthInvalid = False\<rparr>"

definition demo_waiting :: decoder where
  "demo_waiting = demo_decoder\<lparr>nextNonce := put_u64 1, nextLength := 16, nextLengthInvalid := True,
     d_drbg := \<lparr>sip_key = [], sip_data = replicate 8 0, ofb = replicate 8 0\<rparr>\<rparr>"

lemma demo_mask: "NextBlock demo_crypto \<lparr>sip_key = [], sip_data = [], ofb = replicate 8 0\<rparr> =
    (replicate 8 0, \<lparr>sip_key = [], sip_data = replicate 8 0, ofb = replicate 8 0\<rparr>)"
  by (simp add: NextBlock_def demo_crypto_def pad_to_def Let_def)

lemma demo_words: "get_u16 [0, 5] = Ok 5" "get_u16 (replicate 8 0) = Ok 0"
  "IntRange (\<lambda>_. 0) 16 1446 = Ok 16"
proof -
  show "get_u16 [0, 5] = Ok 5" by (simp add: get_u16_def nat_of_be_def)
  have "take 2 (replicate 8 (0 :: byte)) = [0, 0]" by (simp add: numeral_2_eq_2)
  then show "get_u16 (replicate 8 0) = Ok 0" by (simp add: get_u16_def nat_of_be_def)
  show "IntRange (\<lambda>_. 0) 16 1446 = Ok 16" by (simp add: IntRange_def csrand_Intn_def in_i64_def)
qed

lemma demo_decoder_reads:
  "read_length demo_crypto (\<lambda>_. 0) demo_decoder (0 # 5 # x) = (Ok (), demo_waiting, x)"
  by (simp add: read_length_def demo_decoder_def demo_waiting_def read_full_def nonce_bytes_def
      demo_mask demo_words)

section \<open>Properties\<close>

text \<open>C6: Frame round trip. With an encoder and a decoder in step, every payload of at most
  \<open>MaximumFramePayloadLength\<close> bytes is encoded (the nonce counter permitting) into a frame that is
  \<open>FrameOverhead\<close> bytes longer and fits a segment; the decoder recovers exactly that payload,
  leaves what follows in the buffer, and both ends are in step again.\<close>

theorem frame_roundtrip:
  assumes "link_ok c e d" "length p \<le> MaximumFramePayloadLength" "counter (e_nonce e) \<noteq> 0"
  shows "\<exists>f e' d'. Encode c e MaximumSegmentLength p = (Ok f, e') \<and>
    length f = length p + FrameOverhead \<and> length f \<le> MaximumSegmentLength \<and>
    Decode c intn d (f @ rest) = (Ok p, d', rest) \<and> link_ok c e' d'"
proof -
  have c: "link_crypto_ok c" using assms(1) by (simp add: link_ok_def)
  obtain f e' where E: "Encode c e MaximumSegmentLength p = (Ok f, e')"
    using Encode_Ok_iff [OF c, of e MaximumSegmentLength p] assms(2,3) by auto
  then show ?thesis
    using Decode_Encode [OF assms(1) E, of intn rest] Encode_length [OF c E] assms(2) by auto
qed

theorem frame_roundtrip_witness:
  "\<exists>e d. NewEncoder (replicate 72 3) = Ok e \<and> NewDecoder (replicate 72 3) = Ok d \<and>
     (\<exists>f e' d'. Encode demo_crypto e MaximumSegmentLength [1, 2, 3] = (Ok f, e') \<and>
        length f = 21 \<and> Decode demo_crypto (\<lambda>_. 0) d (f @ [9]) = (Ok [1, 2, 3], d', [9]) \<and>
        link_ok demo_crypto e' d')"
proof -
  obtain e d where ed: "NewEncoder (replicate 72 3) = Ok e" "NewDecoder (replicate 72 3) = Ok d"
    "linked e d" "counter (e_nonce e) = 1" using NewEncoder_NewDecoder [of "replicate 72 3"] by auto
  then have "link_ok demo_crypto e d" using demo_crypto_link_ok by (simp add: link_ok_def)
  from frame_roundtrip [OF this, of "[1, 2, 3]" "\<lambda>_. 0" "[9]"] ed show ?thesis by auto
qed

text \<open>\<open>Decode\<close> does not depend on how the network cuts the stream. If it asks for more data
  (\<open>ErrAgain\<close>), calling it again on what it left plus the new bytes gives what one call on all the
  bytes gives; any other result is unchanged by further bytes, which stay in the buffer.\<close>

lemma decode_segmentation:
  assumes "Decode c intn dec b = (r, dec', b')" "intn_ok intn"
  shows "Decode c intn dec (b @ x) =
    (if r = Err ErrAgain then Decode c intn dec' (b' @ x) else (r, dec', b' @ x))"
  using Decode_resume [OF _ assms(2), of c dec b dec' b' x] Decode_append [OF assms(1), of x] assms(1)
  by auto

lemma decode_segmentation_example:
  "\<exists>d1. Decode demo_crypto (\<lambda>_. 0) demo_decoder [0, 5] = (Err ErrAgain, d1, []) \<and>
     nextLength d1 = 16 \<and>
     Decode demo_crypto (\<lambda>_. 0) demo_decoder ([0, 5] @ [7]) = Decode demo_crypto (\<lambda>_. 0) d1 ([] @ [7])"
proof -
  have a: "Decode demo_crypto (\<lambda>_. 0) demo_decoder [0, 5] = (Err ErrAgain, demo_waiting, [])"
    using demo_decoder_reads [of "[]"]
    by (simp add: Decode_def unseal_def demo_waiting_def) (simp add: demo_decoder_def)
  have "intn_ok (\<lambda>_. 0)" by (simp add: intn_ok_def)
  from decode_segmentation [OF a this, of "[7]"] a show ?thesis by (auto simp: demo_waiting_def)
qed


definition demo_encoder :: encoder where
  "demo_encoder = \<lparr>e_key = [], e_nonce = \<lparr>prefix = [], counter = 0\<rparr>,
     e_drbg = \<lparr>sip_key = [], sip_data = [], ofb = replicate 8 0\<rparr>\<rparr>"




end
