(* ===== verification/ConnState.thy ===== *)
theory ConnState
  imports Framing
begin

text \<open>
  \<open>transports/defconn/state.go\<close> and the connection object \<open>DefConn\<close> of
  \<open>transports/defconn/defconn.go\<close>: the defence's state machine variable, the two atomic
  segment counters (32 bit, wrapping) and the fields every defence shares. The length
  distribution is represented by the seed it was last generated from, of which it is a function.
  The Go structs that embed \<open>*DefConn\<close> are record extensions.
\<close>

datatype phase = StateStart | StateStop | StateReady | StatePadding

record conn_state =
  curState :: phase
  lastState :: phase

definition SetState :: "phase \<Rightarrow> conn_state \<Rightarrow> conn_state" where
  "SetState newState s = s\<lparr>lastState := curState s, curState := newState\<rparr>"

definition ReSetState :: "conn_state \<Rightarrow> conn_state" where
  "ReSetState s = s\<lparr>lastState := StateStop, curState := StateStop\<rparr>"

definition NewState :: conn_state where
  "NewState = \<lparr>curState = StateStop, lastState = StateStop\<rparr>"

lemma SetState_simps [simp]:
  "curState (SetState p s) = p" "lastState (SetState p s) = curState s"
  by (simp_all add: SetState_def)

lemma NewState_simps [simp]: "curState NewState = StateStop" "lastState NewState = StateStop"
  by (simp_all add: NewState_def)

record defConn =
  IsServer :: bool
  LenDist :: bytes
  nRealSegSent :: u32
  nRealSegRcv :: u32
  ConnState :: conn_state
  ReceiveBuffer :: bytes
  ReceiveDecodedBuffer :: bytes
  Encoder :: "encoder option"
  Decoder :: "decoder option"

abbreviation LoadCurState :: "'a defConn_scheme \<Rightarrow> phase" where
  "LoadCurState conn \<equiv> curState (ConnState conn)"

definition set_phase :: "phase \<Rightarrow> 'a defConn_scheme \<Rightarrow> 'a defConn_scheme" where
  "set_phase p conn = conn\<lparr>ConnState := SetState p (ConnState conn)\<rparr>"

definition NRealSegSentIncrement :: "'a defConn_scheme \<Rightarrow> 'a defConn_scheme" where
  "NRealSegSentIncrement conn = conn\<lparr>nRealSegSent := nRealSegSent conn + 1\<rparr>"

definition NRealSegRcvIncrement :: "'a defConn_scheme \<Rightarrow> 'a defConn_scheme" where
  "NRealSegRcvIncrement conn = conn\<lparr>nRealSegRcv := nRealSegRcv conn + 1\<rparr>"

definition NRealSegReset :: "'a defConn_scheme \<Rightarrow> 'a defConn_scheme" where
  "NRealSegReset conn = conn\<lparr>nRealSegSent := 0, nRealSegRcv := 0\<rparr>"

lemma conn_updates [simp]:
  "IsServer (set_phase p conn) = IsServer conn" "LoadCurState (set_phase p conn) = p"
  "ReceiveDecodedBuffer (set_phase p conn) = ReceiveDecodedBuffer conn"
  "nRealSegSent (set_phase p conn) = nRealSegSent conn"
  "nRealSegRcv (set_phase p conn) = nRealSegRcv conn"
  "IsServer (NRealSegSentIncrement conn) = IsServer conn"
  "ConnState (NRealSegSentIncrement conn) = ConnState conn"
  "ReceiveDecodedBuffer (NRealSegSentIncrement conn) = ReceiveDecodedBuffer conn"
  "nRealSegSent (NRealSegSentIncrement conn) = nRealSegSent conn + 1"
  "nRealSegRcv (NRealSegSentIncrement conn) = nRealSegRcv conn"
  "IsServer (NRealSegRcvIncrement conn) = IsServer conn"
  "ConnState (NRealSegRcvIncrement conn) = ConnState conn"
  "ReceiveDecodedBuffer (NRealSegRcvIncrement conn) = ReceiveDecodedBuffer conn"
  "nRealSegRcv (NRealSegRcvIncrement conn) = nRealSegRcv conn + 1"
  "IsServer (NRealSegReset conn) = IsServer conn"
  "ConnState (NRealSegReset conn) = ConnState conn"
  "ReceiveDecodedBuffer (NRealSegReset conn) = ReceiveDecodedBuffer conn"
  "nRealSegSent (NRealSegReset conn) = 0" "nRealSegRcv (NRealSegReset conn) = 0"
  by (simp_all add: set_phase_def NRealSegSentIncrement_def NRealSegRcvIncrement_def NRealSegReset_def)

text \<open>The counters of one direction over a run: what \<open>k\<close> increments after a reset leave.\<close>

lemma NRealSegSent_count:
  "nRealSegSent ((NRealSegSentIncrement ^^ k) (NRealSegReset conn)) = of_nat k"
  by (induction k) simp_all

end
