(* ===== verification/Packet.thy ===== *)
theory Packet
  imports ConnState
begin

text \<open>
  The packet layer of \<open>transports/defconn/packet.go\<close>: \<open>MakePacket\<close>, \<open>ReadPackets\<close>
  and the \<open>Read\<close> / \<open>MyRead\<close> loops of \<open>transports/defconn/defconn.go\<close>. The
  read loop is written once, over the handler that a transport gives for its
  \<open>switch pktType\<close>; the transports differ in that handler only. The contract
  \<open>packet_handler\<close> states what a handler promises, and the delivery theorem is proved
  from it.
\<close>

section \<open>Constants\<close>

definition PacketOverhead :: nat where [simp]: "PacketOverhead = 2 + 1"
definition MaxPacketPayloadLength :: nat where [simp]: "MaxPacketPayloadLength = 536"
definition MaxPacketPaddingLength :: nat where [simp]: "MaxPacketPaddingLength = MaxPacketPayloadLength"
definition SeedPacketPayloadLength :: nat where [simp]: "SeedPacketPayloadLength = SeedLength"

definition PacketTypePayload :: byte where [simp]: "PacketTypePayload = 0"
definition PacketTypeDummy :: byte where [simp]: "PacketTypeDummy = 1"
definition PacketTypePrngSeed :: byte where [simp]: "PacketTypePrngSeed = 2"
definition PacketTypeSignalStart :: byte where [simp]: "PacketTypeSignalStart = 3"
definition PacketTypeSignalStop :: byte where [simp]: "PacketTypeSignalStop = 4"
definition PacketTypeFinish :: byte where [simp]: "PacketTypeFinish = 5"

text \<open>Errors of the network (\<open>net.Conn\<close>) are opaque numbers.\<close>

datatype packet_error = FramingError framing_error | InvalidPacketLengthError int
  | InvalidPayloadLengthErr int | SeedError seed_error | NetError nat | PacketIO io_error

record PacketInfo =
  PktType :: byte
  Data :: bytes
  PadLen :: u16

section \<open>Sending\<close>

text \<open>The plaintext of a packet: type, big-endian payload length, payload, padding.\<close>

definition packet_bytes :: "byte \<Rightarrow> bytes \<Rightarrow> bytes \<Rightarrow> bytes" where
  "packet_bytes pktType data padding = pktType # put_u16 (of_nat (length data)) @ data @ padding"

definition MakePacket :: "crypto \<Rightarrow> encoder \<Rightarrow> byte \<Rightarrow> bytes \<Rightarrow> u16 \<Rightarrow>
    (packet_error, bytes) outcome \<times> encoder" where
  "MakePacket c e pktType data padLen =
    (if length data + unat padLen > MaxPacketPayloadLength then (Panic, e)
     else (case Encode c e MaximumSegmentLength (packet_bytes pktType data (replicate (unat padLen) 0)) of
         (Ok frame, e') \<Rightarrow> (Ok frame, e')
       | (Err er, e') \<Rightarrow> (Err (FramingError er), e') | (Panic, e') \<Rightarrow> (Panic, e')))"

text \<open>The body of \<open>Send()\<close> for one queued packet, and for a queue of them in order: the
  bytes written to the network. A network write error is \<open>wr = Some err\<close>.\<close>

definition Send_one :: "crypto \<Rightarrow> nat option \<Rightarrow> encoder \<Rightarrow> PacketInfo \<Rightarrow>
    (packet_error, bytes) outcome \<times> encoder" where
  "Send_one c wr e p =
    (case MakePacket c e (PktType p) (Data p) (PadLen p) of
       (Ok frame, e') \<Rightarrow> (case wr of None \<Rightarrow> (Ok frame, e') | Some er \<Rightarrow> (Err (NetError er), e'))
     | (Err er, e') \<Rightarrow> (Err er, e') | (Panic, e') \<Rightarrow> (Panic, e'))"

fun Send_all :: "crypto \<Rightarrow> encoder \<Rightarrow> PacketInfo list \<Rightarrow> (packet_error, bytes) outcome \<times> encoder" where
  "Send_all c e [] = (Ok [], e)"
| "Send_all c e (p # ps) =
    (case Send_one c None e p of
       (Ok frame, e') \<Rightarrow>
         (case Send_all c e' ps of (Ok frames, e'') \<Rightarrow> (Ok (frame @ frames), e'')
          | (Err er, e'') \<Rightarrow> (Err er, e'') | (Panic, e'') \<Rightarrow> (Panic, e''))
     | (Err er, e') \<Rightarrow> (Err er, e') | (Panic, e') \<Rightarrow> (Panic, e'))"

definition cell_ok :: "PacketInfo \<Rightarrow> bool" where
  "cell_ok p \<longleftrightarrow> length (Data p) + unat (PadLen p) = MaxPacketPayloadLength"

definition cellLength :: nat where
  [simp]: "cellLength = FrameOverhead + PacketOverhead + MaxPacketPayloadLength"

definition packet_of :: "PacketInfo \<Rightarrow> bytes" where
  "packet_of p = packet_bytes (PktType p) (Data p) (replicate (unat (PadLen p)) 0)"

lemma length_packet_bytes [simp]:
  "length (packet_bytes t d pad) = PacketOverhead + length d + length pad"
  by (simp add: packet_bytes_def)

section \<open>Receiving\<close>

definition parse_packet :: "bytes \<Rightarrow> (packet_error, byte \<times> bytes \<times> bytes) outcome" where
  "parse_packet pkt =
    (if length pkt < PacketOverhead then Err (InvalidPacketLengthError (int (length pkt)))
     else and_then (get_u16 (drop 1 pkt)) (\<lambda>payloadLen.
       if unat payloadLen > length pkt - PacketOverhead
       then Err (InvalidPayloadLengthErr (int (unat payloadLen)))
       else Ok (pkt ! 0, take (unat payloadLen) (drop 3 pkt), drop (3 + unat payloadLen) pkt)))"

text \<open>A handler gets the connection, the type, the payload and what follows it in the packet.
  \<open>None\<close> is a panic; otherwise the new connection and what it leaves in \<open>err\<close>
  (the \<open>break\<close> in the \<open>switch\<close> does not leave the loop).\<close>

type_synonym 's handler = "'s \<Rightarrow> byte \<Rightarrow> bytes \<Rightarrow> bytes \<Rightarrow> ('s \<times> packet_error option) option"

type_synonym 's loop_result = "(unit, packet_error option) outcome \<times> decoder \<times> bytes \<times> 's"

function read_loop :: "crypto \<Rightarrow> (int \<Rightarrow> int) \<Rightarrow> 's handler \<Rightarrow> decoder \<Rightarrow> bytes \<Rightarrow> 's \<Rightarrow>
    packet_error option \<Rightarrow> 's loop_result" where
  "read_loop c intn h dec buf s err =
    (if buf = [] then (Ok err, dec, buf, s)
     else (case Decode c intn dec buf of
         (Panic, dec', b') \<Rightarrow> (Panic, dec', b', s)
       | (Err er, dec', b') \<Rightarrow> (Ok (Some (FramingError er)), dec', b', s)
       | (Ok pkt, dec', b') \<Rightarrow>
          (case parse_packet pkt of
             Panic \<Rightarrow> (Panic, dec', b', s)
           | Err er \<Rightarrow> (Ok (Some er), dec', b', s)
           | Ok (pktType, payload, rest) \<Rightarrow>
              (case h s pktType payload rest of
                 None \<Rightarrow> (Panic, dec', b', s)
               | Some (s', err') \<Rightarrow> read_loop c intn h dec' b' s' err'))))"
  by pat_completeness auto
termination
  by (relation "measure (\<lambda>(c, intn, h, dec, buf, s, err). length buf)")
    (auto dest!: sym [of "(Ok _, _, _)"] Decode_consumes)

declare read_loop.simps [simp del]

lemma read_loop_Nil [simp]: "read_loop c intn h dec [] s err = (Ok err, dec, [], s)"
  by (simp add: read_loop.simps)

lemma read_loop_err:
  "buf \<noteq> [] \<Longrightarrow> read_loop c intn h dec buf s err = read_loop c intn h dec buf s err'"
  by (subst (1 2) read_loop.simps) simp

text \<open>\<open>ReadPackets\<close>: one network read (\<open>chunk\<close>, \<open>rdErr\<close>) and the loop over what the
  receive buffer then holds. While the loop runs, the decoder and the receive buffer are its own
  variables; no handler touches these two fields. A connection whose decoder was never set
  panics.\<close>

definition read_packets :: "crypto \<Rightarrow> (int \<Rightarrow> int) \<Rightarrow> ('a defConn_scheme) handler \<Rightarrow>
    'a defConn_scheme \<Rightarrow> bytes \<Rightarrow> nat option \<Rightarrow>
    (unit, packet_error option) outcome \<times> 'a defConn_scheme" where
  "read_packets c intn h conn chunk rdErr =
    (let buf = ReceiveBuffer conn @ chunk;
         conn1 = conn\<lparr>ReceiveBuffer := buf\<rparr>;
         own = conn\<lparr>ReceiveBuffer := [], Decoder := None\<rparr>;
         final = (\<lambda>err. Ok (case rdErr of Some e \<Rightarrow> Some (NetError e) | None \<Rightarrow> err))
     in if buf = [] then (final None, conn1)
        else (case Decoder conn of
           None \<Rightarrow> (Panic, conn1)
         | Some dec \<Rightarrow>
            (case read_loop c intn h dec buf own None of
               (Ok err, dec', b', conn2) \<Rightarrow>
                 (final err, conn2\<lparr>Decoder := Some dec', ReceiveBuffer := b'\<rparr>)
             | (_, dec', b', conn2) \<Rightarrow> (Panic, conn2\<lparr>Decoder := Some dec', ReceiveBuffer := b'\<rparr>))))"

text \<open>The \<open>switch\<close> of \<open>DefConn.ReadPackets\<close>.\<close>

definition defconn_handle :: "'a defConn_scheme handler" where
  "defconn_handle conn pktType payload rest =
    (if pktType = PacketTypePayload then
       (if length payload > 0
        then Some (NRealSegRcvIncrement (conn\<lparr>ReceiveDecodedBuffer := ReceiveDecodedBuffer conn @ payload\<rparr>), None)
        else Some (conn, None))
     else if pktType = PacketTypePrngSeed then
       (if length payload = SeedPacketPayloadLength \<and> \<not> IsServer conn then
          (case SeedFromBytes payload of
             Ok seed \<Rightarrow> Some (conn\<lparr>LenDist := seed\<rparr>, None)
           | Err er \<Rightarrow> Some (conn, Some (SeedError er)) | Panic \<Rightarrow> None)
        else Some (conn, None))
     else if pktType = PacketTypeSignalStart then
       (if \<not> IsServer conn then None
        else if LoadCurState conn \<noteq> StateStart then Some (set_phase StateStart conn, None)
        else Some (conn, None))
     else if pktType = PacketTypeSignalStop then
       (if \<not> IsServer conn then None
        else if LoadCurState conn \<noteq> StateStop then Some (set_phase StateStop conn, None)
        else Some (conn, None))
     else Some (conn, None))"

definition ReadPackets :: "crypto \<Rightarrow> (int \<Rightarrow> int) \<Rightarrow> 'a defConn_scheme \<Rightarrow> bytes \<Rightarrow> nat option \<Rightarrow>
    (unit, packet_error option) outcome \<times> 'a defConn_scheme" where
  "ReadPackets c intn = read_packets c intn defconn_handle"

text \<open>\<open>MyRead\<close> (and \<open>Read\<close>, which is the same loop over \<open>ReadPackets\<close>): \<open>reads\<close> are
  the results of the following network reads; \<open>None\<close> means that they do not suffice and the
  call is still blocked. The result is the delivered bytes with the error, or a panic, and the
  reads left over. Decoded data is delivered even when \<open>err\<close> is set.\<close>

definition serve :: "nat \<Rightarrow> 'a defConn_scheme \<Rightarrow> packet_error option \<Rightarrow>
    (unit, bytes \<times> packet_error option) outcome \<times> 'a defConn_scheme" where
  "serve n conn err =
    (if ReceiveDecodedBuffer conn = [] then (Ok ([], err), conn)
     else (case buf_read (ReceiveDecodedBuffer conn) n of
         (Ok out, b') \<Rightarrow> (Ok (out, err), conn\<lparr>ReceiveDecodedBuffer := b'\<rparr>)
       | (Err er, b') \<Rightarrow> (Ok ([], if err = None then Some (PacketIO er) else err),
                         conn\<lparr>ReceiveDecodedBuffer := b'\<rparr>)
       | (Panic, b') \<Rightarrow> (Panic, conn)))"

fun MyRead :: "('a defConn_scheme \<Rightarrow> bytes \<Rightarrow> nat option \<Rightarrow>
      (unit, packet_error option) outcome \<times> 'a defConn_scheme) \<Rightarrow> nat \<Rightarrow> 'a defConn_scheme \<Rightarrow>
    (bytes \<times> nat option) list \<Rightarrow>
    ((unit, bytes \<times> packet_error option) outcome \<times> 'a defConn_scheme \<times> (bytes \<times> nat option) list) option" where
  "MyRead rp n conn [] =
    (if ReceiveDecodedBuffer conn = [] then None
     else Some (case serve n conn None of (r, conn') \<Rightarrow> (r, conn', [])))"
| "MyRead rp n conn ((chunk, rdErr) # reads) =
    (if ReceiveDecodedBuffer conn \<noteq> []
     then Some (case serve n conn None of (r, conn') \<Rightarrow> (r, conn', (chunk, rdErr) # reads))
     else (case rp conn chunk rdErr of
         (Ok err, conn') \<Rightarrow>
           (if err = None \<or> err = Some (FramingError ErrAgain) then MyRead rp n conn' reads
            else Some (case serve n conn' err of (r, conn'') \<Rightarrow> (r, conn'', reads)))
       | (_, conn') \<Rightarrow> Some (Panic, conn', reads)))"

section \<open>Segmentation\<close>

definition resumable :: "(unit, packet_error option) outcome \<Rightarrow> bool" where
  "resumable r \<longleftrightarrow> r = Ok None \<or> r = Ok (Some (FramingError ErrAgain))"

lemma parse_packet_own_error [simp]: "parse_packet pkt \<noteq> Err (FramingError er)"
  by (auto simp: parse_packet_def get_u16_def)

text \<open>Stopping for more data and going on is the same as having had the data at once.\<close>

lemma read_loop_resume:
  assumes "read_loop c intn h dec buf s err = (r, dec1, b1, s1)" "resumable r"
    "x \<noteq> []" "intn_ok intn"
  shows "read_loop c intn h dec1 (b1 @ x) s1 None = read_loop c intn h dec (buf @ x) s None"
  using assms(1,2,4)
proof (induction c intn h dec buf s err rule: read_loop.induct)
  case (1 c intn h dec buf s err)
  show ?case
  proof (cases "buf = []")
    case True
    with "1.prems" show ?thesis by simp
  next
    case False
    note L = "1.prems"(1) [unfolded read_loop.simps [of c intn h dec buf s err]]
    obtain q dec' b' where D: "Decode c intn dec buf = (q, dec', b')" by (cases "Decode c intn dec buf")
    show ?thesis
    proof (cases q)
      case Panic
      with L D False "1.prems"(2) show ?thesis by (simp add: resumable_def)
    next
      case (Err er)
      with L D False "1.prems"(2) have "er = ErrAgain" "dec1 = dec'" "b1 = b'" "s1 = s"
        by (auto simp: resumable_def)
      moreover from this Err D "1.prems"(3) have
        "Decode c intn dec' (b' @ x) = Decode c intn dec (buf @ x)" by (auto intro: Decode_resume)
      ultimately show ?thesis
        using assms(3) by (simp add: read_loop.simps [of c intn h dec' "b' @ x"]
            read_loop.simps [of c intn h dec "buf @ x"])
    next
      case (Ok pkt)
      with D L False "1.prems"(2) obtain t p rest s' err'
        where P: "parse_packet pkt = Ok (t, p, rest)" "h s t p rest = Some (s', err')"
          and R: "read_loop c intn h dec' b' s' err' = (r, dec1, b1, s1)"
        by (auto simp: resumable_def split: outcome.splits option.splits if_splits)
      have DX: "Decode c intn dec (buf @ x) = (Ok pkt, dec', b' @ x)"
        using D Ok by (auto intro: Decode_append)
      have "read_loop c intn h dec1 (b1 @ x) s1 None = read_loop c intn h dec' (b' @ x) s' None"
        using "1.IH" [OF False D [symmetric] _ _ P(1) _ _ P(2) _ R "1.prems"(2,3)] Ok by auto
      also have "\<dots> = read_loop c intn h dec (buf @ x) s None"
        using DX P False assms(3) read_loop_err [of "b' @ x" c intn h dec' s' None err']
        by (simp add: read_loop.simps [of c intn h dec "buf @ x"])
      finally show ?thesis .
    qed
  qed
qed

text \<open>A fatal result stays as it is when more data arrives, for a handler that never leaves
  an error behind.\<close>

lemma read_loop_fatal:
  assumes "read_loop c intn h dec buf s None = (r, dec1, b1, s1)" "\<not> resumable r"
    "\<And>s t p q s' e. h s t p q = Some (s', e) \<Longrightarrow> e = None"
  shows "read_loop c intn h dec (buf @ x) s None = (r, dec1, b1 @ x, s1)"
proof -
  have "read_loop c intn h dec (buf @ x) s None = (r, dec1, b1 @ x, s1)"
    if "read_loop c intn h dec buf s err = (r, dec1, b1, s1)" "err = None" for err
    using that assms(2,3)
  proof (induction c intn h dec buf s err rule: read_loop.induct)
    case (1 c intn h dec buf s err)
    note L = "1.prems"(1) [unfolded read_loop.simps [of c intn h dec buf s err]]
    obtain q dec' b' where D: "Decode c intn dec buf = (q, dec', b')" by (cases "Decode c intn dec buf")
    show ?case
    proof (cases "buf = [] \<or> q = Err ErrAgain")
      case True
      with L D "1.prems"(2,3) show ?thesis by (auto simp: resumable_def split: if_splits)
    next
      case False
      then have DX: "Decode c intn dec (buf @ x) = (q, dec', b' @ x)"
        using D by (auto intro: Decode_append)
      show ?thesis
      proof (cases "\<exists>pkt t p rest s' e. q = Ok pkt \<and> parse_packet pkt = Ok (t, p, rest) \<and>
          h s t p rest = Some (s', e)")
        case True
        then obtain pkt t p rest s' where P: "q = Ok pkt" "parse_packet pkt = Ok (t, p, rest)"
          "h s t p rest = Some (s', None)" using "1.prems"(4) by blast
        have R: "read_loop c intn h dec' b' s' None = (r, dec1, b1, s1)"
          using L D False P by simp
        have "read_loop c intn h dec' (b' @ x) s' None = (r, dec1, b1 @ x, s1)"
          using "1.IH" [OF _ D [symmetric] _ _ P(2) _ _ P(3) _ R _ "1.prems"(3)] P(1) False "1.prems"(4)
          by blast
        then show ?thesis using DX False P by (simp add: read_loop.simps [of c intn h dec "buf @ x"])
      next
        case stop: False
        show ?thesis
          using L D DX False stop
          by (auto simp: read_loop.simps [of c intn h dec "buf @ x"]
              split: outcome.splits option.splits prod.splits)
      qed
    qed
  qed
  then show ?thesis using assms(1) by blast
qed

text \<open>The calls of \<open>ReadPackets\<close> that a reader makes while the network hands over
  \<open>chunks\<close>, stopping at a fatal error.\<close>

fun read_all :: "('a defConn_scheme \<Rightarrow> bytes \<Rightarrow> nat option \<Rightarrow>
      (unit, packet_error option) outcome \<times> 'a defConn_scheme) \<Rightarrow> 'a defConn_scheme \<Rightarrow> bytes list \<Rightarrow>
    (unit, packet_error option) outcome \<times> 'a defConn_scheme" where
  "read_all rp conn [] = (Ok None, conn)"
| "read_all rp conn (x # xs) =
    (case rp conn x None of (r, conn') \<Rightarrow>
       if resumable r \<and> xs \<noteq> [] then read_all rp conn' xs else (r, conn'))"

lemma read_packets_step:
  assumes "Decoder conn = Some dec" "ReceiveBuffer conn @ x \<noteq> []"
    "read_loop c intn h dec (ReceiveBuffer conn @ x) (conn\<lparr>ReceiveBuffer := [], Decoder := None\<rparr>) None
       = (r, dec', b', conn')" "\<nexists>e. r = Err e"
  shows "read_packets c intn h conn x None = (r, conn'\<lparr>Decoder := Some dec', ReceiveBuffer := b'\<rparr>)"
  using assms by (cases r) (auto simp: read_packets_def Let_def split: option.splits)

lemma read_loop_no_Err: "read_loop c intn h dec buf s err = (r, dec', b', s') \<Longrightarrow> r \<noteq> Err e"
proof (induction c intn h dec buf s err rule: read_loop.induct)
  case (1 c intn h dec buf s err)
  note L = "1.prems" [unfolded read_loop.simps [of c intn h dec buf s err]]
  show ?case
    using L "1.IH" by (auto split: if_splits outcome.splits option.splits prod.splits)
qed

definition keeps_link :: "('a defConn_scheme) handler \<Rightarrow> bool" where
  "keeps_link h \<longleftrightarrow> (\<forall>s t p q s' e. h s t p q = Some (s', e) \<longrightarrow>
     e = None \<and> (ReceiveBuffer s = [] \<and> Decoder s = None \<longrightarrow> ReceiveBuffer s' = [] \<and> Decoder s' = None))"

lemma read_loop_keeps:
  "read_loop c intn h dec buf s err = (r, dec', b', s') \<Longrightarrow> keeps_link h \<Longrightarrow>
    ReceiveBuffer s = [] \<Longrightarrow> Decoder s = None \<Longrightarrow> ReceiveBuffer s' = [] \<and> Decoder s' = None"
proof (induction c intn h dec buf s err rule: read_loop.induct)
  case (1 c intn h dec buf s err)
  note L = "1.prems"(1) [unfolded read_loop.simps [of c intn h dec buf s err]]
  show ?case
    using L "1.IH" "1.prems"(2-) unfolding keeps_link_def
    by (auto split: if_splits outcome.splits option.splits prod.splits; blast)
qed

lemma read_all_loop:
  assumes "Decoder conn = Some dec" "chunks \<noteq> []" "[] \<notin> set chunks" "intn_ok intn" "keeps_link h"
    "read_loop c intn h dec (ReceiveBuffer conn @ concat chunks)
       (conn\<lparr>ReceiveBuffer := [], Decoder := None\<rparr>) None = (r, dec', b', conn')" "resumable r"
  shows "read_all (read_packets c intn h) conn chunks = (r, conn'\<lparr>Decoder := Some dec', ReceiveBuffer := b'\<rparr>)"
  using assms
proof (induction chunks arbitrary: conn dec)
  case (Cons x xs)
  let ?own = "conn\<lparr>ReceiveBuffer := [], Decoder := None\<rparr>"
  obtain r1 dec1 b1 conn1 where
    L1: "read_loop c intn h dec (ReceiveBuffer conn @ x) ?own None = (r1, dec1, b1, conn1)"
    by (metis prod_cases4)
  then have S1: "read_packets c intn h conn x None = (r1, conn1\<lparr>Decoder := Some dec1, ReceiveBuffer := b1\<rparr>)"
    using Cons.prems read_loop_no_Err [OF L1] by (intro read_packets_step) auto
  show ?case
  proof (cases "xs = []")
    case True
    then show ?thesis using S1 L1 Cons.prems by simp
  next
    case False
    have noerr: "h s t p q = Some (s', e) \<Longrightarrow> e = None" for s t p q s' e
      using Cons.prems(5) by (simp add: keeps_link_def)
    have ne: "concat xs \<noteq> []" using False Cons.prems(3) by (cases xs) auto
    have "resumable r1"
    proof (rule ccontr)
      assume "\<not> resumable r1"
      from read_loop_fatal [OF L1 this noerr, where x = "concat xs"] have "r = r1"
        using Cons.prems(6) by simp
      with \<open>\<not> resumable r1\<close> Cons.prems(7) show False by simp
    qed
    moreover have "read_loop c intn h dec1 (b1 @ concat xs) conn1 None = (r, dec', b', conn')"
      using read_loop_resume [OF L1 \<open>resumable r1\<close> ne Cons.prems(4)] Cons.prems(6) by simp
    moreover have "conn1\<lparr>ReceiveBuffer := [], Decoder := None\<rparr> = conn1"
      using read_loop_keeps [OF L1 Cons.prems(5)] by simp
    ultimately show ?thesis
      using S1 False Cons.IH [of "conn1\<lparr>Decoder := Some dec1, ReceiveBuffer := b1\<rparr>" dec1] Cons.prems
      by simp
  qed
qed simp

section \<open>Delivery\<close>

lemma parse_packet_bytes [simp]:
  assumes "length d < 2 ^ 16"
  shows "parse_packet (packet_bytes t d r) = Ok (t, d, r)"
proof -
  have "unat (of_nat (length d) :: u16) = length d"
    using assms by (simp only: unat_of_nat) simp
  moreover have "drop (3 + length d) (packet_bytes t d r) = drop (length d) (drop 3 (packet_bytes t d r))"
    by (simp add: add.commute)
  ultimately show ?thesis by (simp add: parse_packet_def packet_bytes_def)
qed

text \<open>The payload that a sequence of packets carries, in order.\<close>

definition payloads :: "(byte \<times> bytes \<times> bytes) list \<Rightarrow> bytes" where
  "payloads cells = concat (map (\<lambda>(t, d, r). if t = PacketTypePayload then d else []) cells)"

lemma payloads_simps [simp]:
  "payloads [] = []"
  "payloads ((t, d, r) # cs) = (if t = PacketTypePayload then d else []) @ payloads cs"
  by (simp_all add: payloads_def)

text \<open>The contract of a handler: for the packets it accepts (which depends on the role of the
  connection only) it neither panics nor fails, appends exactly the payload of payload packets to
  the decoded buffer, and leaves the decoder and the receive buffer alone.\<close>

locale packet_handler =
  fixes h :: "('a defConn_scheme) handler"
    and accepts :: "bool \<Rightarrow> byte \<Rightarrow> bytes \<Rightarrow> bytes \<Rightarrow> bool"
  assumes handles: "accepts (IsServer s) t p r \<Longrightarrow> \<exists>s'. h s t p r = Some (s', None) \<and>
      IsServer s' = IsServer s \<and>
      ReceiveDecodedBuffer s' = ReceiveDecodedBuffer s @ (if t = PacketTypePayload then p else [])"
    and links: "keeps_link h"
begin

lemma loop_delivers:
  assumes "frames.delivers c intn dec buf pkts dec' b'"
    "pkts = map (\<lambda>(t, d, r). packet_bytes t d r) cells"
    "\<forall>(t, d, r) \<in> set cells. length d < 2 ^ 16 \<and> accepts (IsServer s) t d r"
  shows "\<exists>s'. read_loop c intn h dec buf s None = read_loop c intn h dec' b' s' None \<and>
    IsServer s' = IsServer s \<and> ReceiveDecodedBuffer s' = ReceiveDecodedBuffer s @ payloads cells"
  using assms
proof (induction arbitrary: cells s rule: frames.delivers.induct)
  case (rest d b)
  then show ?case by auto
next
  case (more d b p d1 b1 ps d2 b2)
  then obtain t dat r cs where cells: "cells = (t, dat, r) # cs" "p = packet_bytes t dat r"
    "ps = map (\<lambda>(t, d, r). packet_bytes t d r) cs" by (cases cells) auto
  obtain s1 where s1: "h s t dat r = Some (s1, None)" "IsServer s1 = IsServer s"
    "ReceiveDecodedBuffer s1 = ReceiveDecodedBuffer s @ (if t = PacketTypePayload then dat else [])"
    using handles [of s t dat r] more cells by auto
  have "b \<noteq> []" using Decode_consumes [OF "more.hyps"(1)] by auto
  then have "read_loop c intn h d b s None = read_loop c intn h d1 b1 s1 None"
    using "more.hyps"(1) "more.prems" s1 cells by (simp add: read_loop.simps [of c intn h d b])
  moreover obtain s' where "read_loop c intn h d1 b1 s1 None = read_loop c intn h d2 b2 s' None"
    "IsServer s' = IsServer s1" "ReceiveDecodedBuffer s' = ReceiveDecodedBuffer s1 @ payloads cs"
    using "more.IH" [OF cells(3), of s1] "more.prems" s1 cells by auto
  ultimately show ?case using s1 cells by auto
qed

lemma stream_delivery:
  assumes "link_ok c e dec" "intn_ok intn"
    "frames.sends c cap e (map (\<lambda>(t, d, r). packet_bytes t d r) cells) wire e'"
    "\<forall>(t, d, r) \<in> set cells. length d < 2 ^ 16 \<and> accepts (IsServer conn) t d r"
    "Decoder conn = Some dec" "ReceiveBuffer conn = []" "concat chunks = wire" "[] \<notin> set chunks"
  shows "\<exists>conn' dec'. read_all (read_packets c intn h) conn chunks = (Ok None, conn') \<and>
    Decoder conn' = Some dec' \<and> link_ok c e' dec' \<and> ReceiveBuffer conn' = [] \<and>
    IsServer conn' = IsServer conn \<and>
    ReceiveDecodedBuffer conn' = ReceiveDecodedBuffer conn @ payloads cells"
proof (cases "chunks = []")
  case True
  then have "cells = []"
    using frames.sends_length [OF assms(3,1)] assms(7) by (cases cells) auto
  moreover from this have "e' = e"
    using assms(3) by (auto elim: frames.sends.cases)
  ultimately show ?thesis using True assms by simp
next
  case False
  let ?own = "conn\<lparr>ReceiveBuffer := [], Decoder := None\<rparr>"
  obtain dec' where D: "frames.delivers c intn dec wire
      (map (\<lambda>(t, d, r). packet_bytes t d r) cells) dec' []" "link_ok c e' dec'"
    using frames.sends_delivers [OF assms(3,1), of intn "[]"] by auto
  obtain s' where L: "read_loop c intn h dec wire ?own None = (Ok None, dec', [], s')"
    "IsServer s' = IsServer conn"
    "ReceiveDecodedBuffer s' = ReceiveDecodedBuffer conn @ payloads cells"
    using loop_delivers [OF D(1) refl, of ?own] assms(4) by auto
  have "read_all (read_packets c intn h) conn chunks = (Ok None, s'\<lparr>Decoder := Some dec', ReceiveBuffer := []\<rparr>)"
    using assms L(1) False links by (intro read_all_loop) (simp_all add: resumable_def)
  with L D(2) show ?thesis by simp
qed

end

lemma Send_one_Ok:
  "Send_one c None e p = (Ok f, e') \<longleftrightarrow>
     length (Data p) + unat (PadLen p) \<le> MaxPacketPayloadLength \<and>
     Encode c e MaximumSegmentLength (packet_of p) = (Ok f, e')"
  by (auto simp: Send_one_def MakePacket_def packet_of_def split: outcome.splits prod.splits)

lemma Send_all_Cons_Ok:
  "Send_all c e (p # ps) = (Ok wire, e') \<longleftrightarrow>
     (\<exists>f e1 fs. Send_one c None e p = (Ok f, e1) \<and> Send_all c e1 ps = (Ok fs, e') \<and> wire = f @ fs)"
  by (auto split: outcome.splits prod.splits)

lemma Send_all_sends:
  "Send_all c e ps = (Ok wire, e') \<Longrightarrow>
     frames.sends c MaximumSegmentLength e (map packet_of ps) wire e'"
proof (induction ps arbitrary: e wire)
  case Nil
  then show ?case by (simp add: frames.sends.none)
next
  case (Cons p ps)
  then obtain f e1 fs where f: "Encode c e MaximumSegmentLength (packet_of p) = (Ok f, e1)"
    "Send_all c e1 ps = (Ok fs, e')" "wire = f @ fs"
    unfolding Send_all_Cons_Ok Send_one_Ok by blast
  then show ?case using frames.sends.frame [OF f(1) Cons.IH [OF f(2)]] by simp
qed

lemma Send_all_cells:
  "Send_all c e ps = (Ok wire, e') \<Longrightarrow> p \<in> set ps \<Longrightarrow>
     length (Data p) + unat (PadLen p) \<le> MaxPacketPayloadLength"
proof (induction ps arbitrary: e wire)
  case (Cons q ps)
  then show ?case unfolding Send_all_Cons_Ok Send_one_Ok by auto
qed simp

definition cells_of :: "PacketInfo list \<Rightarrow> (byte \<times> bytes \<times> bytes) list" where
  "cells_of ps = map (\<lambda>p. (PktType p, Data p, replicate (unat (PadLen p)) 0)) ps"

lemma packet_of_cells: "map (\<lambda>(t, d, r). packet_bytes t d r) (cells_of ps) = map packet_of ps"
  by (simp add: cells_of_def packet_of_def)

lemma unat_counter_next:
  assumes "unat (k :: u64) + length (p # ps) \<le> 2 ^ 64"
  shows "ps = [] \<or> unat (k + 1) = unat k + 1"
proof (cases ps)
  case (Cons q qs)
  then have "unat k + 1 < 2 ^ 64" using assms by simp
  then show ?thesis by (simp add: unat_word_ariths(1))
qed simp

text \<open>Sending succeeds as long as the queued packets fit and the nonce counter does not wrap.\<close>

lemma Send_all_ok:
  assumes "link_crypto_ok c" "\<forall>p \<in> set ps. length (Data p) + unat (PadLen p) \<le> MaxPacketPayloadLength"
    "0 < unat (counter (e_nonce e))" "unat (counter (e_nonce e)) + length ps \<le> 2 ^ 64"
  shows "\<exists>wire e'. Send_all c e ps = (Ok wire, e')"
  using assms
proof (induction ps arbitrary: e)
  case (Cons p ps)
  have nz: "counter (e_nonce e) \<noteq> 0" using Cons.prems(3) by auto
  obtain f e1 where E: "Encode c e MaximumSegmentLength (packet_of p) = (Ok f, e1)"
    using Encode_Ok_iff [OF assms(1), of e MaximumSegmentLength "packet_of p"] Cons.prems(2) nz
    by (auto simp: packet_of_def)
  then have S: "Send_one c None e p = (Ok f, e1)"
    using Cons.prems(2) by (simp add: Send_one_def MakePacket_def packet_of_def)
  have "counter (e_nonce e1) = counter (e_nonce e) + 1" using Encode_state [OF E] by simp
  moreover have "ps = [] \<or> unat (counter (e_nonce e) + 1) = unat (counter (e_nonce e)) + 1"
    by (rule unat_counter_next [OF Cons.prems(4)])
  ultimately show ?case
    using S Cons.IH [of e1] Cons.prems by (cases ps) auto
qed simp

lemma Send_all_length:
  assumes "link_ok c e d" "Send_all c e ps = (Ok wire, e')" "\<forall>p \<in> set ps. cell_ok p"
  shows "length wire = cellLength * length ps"
proof -
  have "length wire = sum_list (map length (map packet_of ps)) + FrameOverhead * length ps"
    using frames.sends_length [OF Send_all_sends [OF assms(2)] assms(1)] by simp
  moreover have "sum_list (map length (map packet_of ps)) = 539 * length ps"
    using assms(3) by (induction ps) (auto simp: packet_of_def cell_ok_def)
  ultimately show ?thesis by simp
qed

section \<open>The handler of DefConn\<close>

definition defconn_accepts :: "bool \<Rightarrow> byte \<Rightarrow> bytes \<Rightarrow> bytes \<Rightarrow> bool" where
  "defconn_accepts server t p r \<longleftrightarrow> server \<or> (t \<noteq> PacketTypeSignalStart \<and> t \<noteq> PacketTypeSignalStop)"

interpretation defconn: packet_handler defconn_handle defconn_accepts
proof
  fix s :: "'a defConn_scheme" and t p r
  show "\<exists>s'. defconn_handle s t p r = Some (s', None) \<and> IsServer s' = IsServer s \<and>
      ReceiveDecodedBuffer s' = ReceiveDecodedBuffer s @ (if t = PacketTypePayload then p else [])"
    if "defconn_accepts (IsServer s) t p r"
    using that by (auto simp: defconn_handle_def defconn_accepts_def SeedFromBytes_def)
  show "keeps_link (defconn_handle :: 'a defConn_scheme handler)"
    by (auto simp: keeps_link_def defconn_handle_def SeedFromBytes_def NRealSegRcvIncrement_def
        set_phase_def split: if_splits)
qed

section \<open>Properties\<close>

text \<open>C2: End-to-end delivery. The packets that the send routine of one end puts on the wire, cut by
  the network into arbitrary non-empty pieces, are read by the other end's \<open>ReadPackets\<close> calls
  without an error: the decoded buffer receives exactly the concatenated data of the payload
  packets in order (padding, dummies and signals leave no trace in it), nothing is left over, and
  the two ends stay in step.\<close>

theorem link_delivery:
  assumes "link_ok c e dec" "intn_ok intn" "Send_all c e ps = (Ok wire, e')"
    "\<forall>p \<in> set ps. IsServer conn \<or> PktType p \<notin> {PacketTypeSignalStart, PacketTypeSignalStop}"
    "Decoder conn = Some dec" "ReceiveBuffer conn = []" "concat chunks = wire" "[] \<notin> set chunks"
  shows "\<exists>conn' dec'. read_all (ReadPackets c intn) conn chunks = (Ok None, conn') \<and>
    Decoder conn' = Some dec' \<and> link_ok c e' dec' \<and> ReceiveBuffer conn' = [] \<and>
    ReceiveDecodedBuffer conn' =
      ReceiveDecodedBuffer conn @ concat [Data p. p \<leftarrow> ps, PktType p = PacketTypePayload]"
proof -
  have cells: "\<forall>(t, d, r) \<in> set (cells_of ps). length d < 2 ^ 16 \<and> defconn_accepts (IsServer conn) t d r"
    using Send_all_cells [OF assms(3)] assms(4)
    by (fastforce simp: cells_of_def defconn_accepts_def)
  have sends: "frames.sends c MaximumSegmentLength e (map (\<lambda>(t, d, r). packet_bytes t d r) (cells_of ps)) wire e'"
    unfolding packet_of_cells by (rule Send_all_sends [OF assms(3)])
  have "payloads (cells_of ps) = concat [Data p. p \<leftarrow> ps, PktType p = PacketTypePayload]"
    by (induction ps) (auto simp: cells_of_def)
  then show ?thesis
    using defconn.stream_delivery [OF assms(1,2) sends cells assms(5-8)]
    by (auto simp: ReadPackets_def)
qed

definition demo_conn :: "bool \<Rightarrow> decoder \<Rightarrow> defConn" where
  "demo_conn server d = \<lparr>IsServer = server, LenDist = [], nRealSegSent = 0, nRealSegRcv = 0,
     ConnState = NewState, ReceiveBuffer = [], ReceiveDecodedBuffer = [], Encoder = None,
     Decoder = Some d\<rparr>"

definition demo_cells :: "PacketInfo list" where
  "demo_cells = [\<lparr>PktType = PacketTypePayload, Data = [1, 2], PadLen = 534\<rparr>,
     \<lparr>PktType = PacketTypeDummy, Data = [], PadLen = 536\<rparr>,
     \<lparr>PktType = PacketTypePayload, Data = [3], PadLen = 535\<rparr>]"

theorem link_delivery_witness:
  "\<exists>e d wire e' conn' d'. NewEncoder (replicate 72 3) = Ok e \<and> NewDecoder (replicate 72 3) = Ok d \<and>
     Send_all demo_crypto e demo_cells = (Ok wire, e') \<and> wire \<noteq> [] \<and>
     read_all (ReadPackets demo_crypto (\<lambda>_. 0)) (demo_conn False d) (map (\<lambda>b. [b]) wire) = (Ok None, conn') \<and>
     Decoder conn' = Some d' \<and> link_ok demo_crypto e' d' \<and> ReceiveDecodedBuffer conn' = [1, 2, 3]"
proof -
  obtain e d where ed: "NewEncoder (replicate 72 3) = Ok e" "NewDecoder (replicate 72 3) = Ok d"
    "linked e d" "counter (e_nonce e) = 1" using NewEncoder_NewDecoder [of "replicate 72 3"] by auto
  then have l: "link_ok demo_crypto e d" using demo_crypto_link_ok by (simp add: link_ok_def)
  obtain wire e' where S: "Send_all demo_crypto e demo_cells = (Ok wire, e')"
    using Send_all_ok [OF demo_crypto_link_ok, of demo_cells e] ed(4) by (auto simp: demo_cells_def)
  have "length wire = cellLength * length demo_cells"
    by (rule Send_all_length [OF l S]) (simp add: demo_cells_def cell_ok_def)
  moreover have "concat (map (\<lambda>b. [b]) wire) = wire" by (induction wire) auto
  ultimately show ?thesis
    using link_delivery [OF l _ S, of "\<lambda>_. 0" "demo_conn False d" "map (\<lambda>b. [b]) wire"] ed S
    by (auto simp: intn_ok_def demo_conn_def demo_cells_def)
qed

text \<open>On the wire all cells look alike. If every queued packet has payload and padding that add up
  to \<open>MaxPacketPayloadLength\<close>, sending succeeds (the nonce counter permitting) and \<open>n\<close>
  packets occupy exactly \<open>n\<close> times 557 bytes, whatever their types and data.\<close>

lemma uniform_cells:
  assumes "link_ok c e d" "\<forall>p \<in> set ps. cell_ok p"
    "counter (e_nonce e) \<noteq> 0" "unat (counter (e_nonce e)) + length ps \<le> 2 ^ 64"
  shows "\<exists>wire e'. Send_all c e ps = (Ok wire, e') \<and> length wire = 557 * length ps"
proof -
  have "\<exists>wire e'. Send_all c e ps = (Ok wire, e')"
    using assms by (intro Send_all_ok) (auto simp: link_ok_def cell_ok_def unat_gt_0)
  then show ?thesis using Send_all_length [OF assms(1) _ assms(2)] by auto
qed

end
