(* ===== verification/Handshake.thy ===== *)
theory Handshake
  imports Ntor ReplayFilter Packet
begin

text \<open>
  The obfs4-style handshake of \<open>transports/defconn/handshake_ntor.go\<close> (copied in the obfs4
  and randomwt transports): the two handshake objects with \<open>generateHandshake\<close> and
  \<open>parse...Handshake\<close>, and \<open>findMarkMac\<close>. \<open>hs.mac\<close> is an HMAC object, reset before
  each use, so its key represents it. Readings of the clock are nanoseconds since the UNIX epoch
  and are passed in, one for every \<open>time.Now()\<close> of the code.
\<close>

section \<open>Constants and errors\<close>

definition markLength :: nat where [simp]: "markLength = 32 div 2"
definition macLength :: nat where [simp]: "macLength = 32 div 2"
definition maxHandshakeLength :: nat where [simp]: "maxHandshakeLength = 8192"
definition inlineSeedFrameLength :: nat where
  [simp]: "inlineSeedFrameLength = FrameOverhead + PacketOverhead + SeedPacketPayloadLength"
definition clientMinHandshakeLength :: nat where
  [simp]: "clientMinHandshakeLength = RepresentativeLength + markLength + macLength"
definition serverMinHandshakeLength :: nat where
  [simp]: "serverMinHandshakeLength = RepresentativeLength + AuthLength + markLength + macLength"
definition clientMinPadLength :: nat where
  [simp]: "clientMinPadLength = (serverMinHandshakeLength + inlineSeedFrameLength) - clientMinHandshakeLength"
definition clientMaxPadLength :: nat where
  [simp]: "clientMaxPadLength = maxHandshakeLength - clientMinHandshakeLength"
definition serverMinPadLength :: nat where [simp]: "serverMinPadLength = 0"
definition serverMaxPadLength :: nat where
  [simp]: "serverMaxPadLength = maxHandshakeLength - (serverMinHandshakeLength + inlineSeedFrameLength)"

text \<open>Errors of the operating system's generator are opaque numbers.\<close>

datatype hs_error = ErrMarkNotFoundYet | ErrInvalidHandshake | ErrReplayedHandshake | ErrNtorFailed
  | InvalidMacError bytes bytes | InvalidAuthError bytes bytes | HsRandError nat

definition getEpochHour :: "int \<Rightarrow> int" where
  "getEpochHour now = go_div (now div 1000000000) 3600"

definition epoch_bytes :: "int \<Rightarrow> bytes" where
  "epoch_bytes hour = bytes_of_string (FormatInt hour)"

section \<open>Helpers\<close>

text \<open>\<open>findMarkMac\<close>; \<open>None\<close> is the result \<open>-1\<close>.\<close>

definition findMarkMac :: "bytes \<Rightarrow> bytes \<Rightarrow> nat \<Rightarrow> nat \<Rightarrow> bool \<Rightarrow> ('e, nat option) outcome" where
  "findMarkMac mark buf startPos maxPos fromTail =
    (if length mark \<noteq> markLength then Panic
     else if startPos > length buf then Ok None
     else let endPos = (if length buf > maxPos then maxPos else length buf)
       in if int endPos - int startPos < int (markLength + macLength) then Ok None
          else if fromTail then
            (let pos = endPos - (markLength + macLength)
             in if take markLength (drop pos buf) \<noteq> mark then Ok None else Ok (Some pos))
          else (case bytes_Index (take (endPos - startPos) (drop startPos buf)) mark of
              None \<Rightarrow> Ok None
            | Some pos \<Rightarrow>
                if startPos + pos + markLength + macLength > endPos then Ok None
                else Ok (Some (pos + startPos))))"

definition makePad :: "nat entropy \<Rightarrow> int \<Rightarrow> (nat, bytes) outcome" where
  "makePad rnd padLen = (if padLen < 0 then Panic else csrand_Bytes rnd (nat padLen))"

section \<open>The client\<close>

record clientHandshake =
  ch_keypair :: keypair
  ch_nodeID :: bytes
  ch_serverIdentity :: bytes
  ch_epochHour :: bytes
  ch_padLen :: int
  ch_mac :: bytes
  serverRepresentative :: "bytes option"
  ch_serverAuth :: "bytes option"
  serverMark :: bytes

definition newClientHandshake :: "(int \<Rightarrow> int) \<Rightarrow> bytes \<Rightarrow> bytes \<Rightarrow> keypair \<Rightarrow>
    (hs_error, clientHandshake) outcome" where
  "newClientHandshake intn nodeID serverIdentity sessionKey =
    and_then (IntRange intn (int clientMinPadLength) (int clientMaxPadLength)) (\<lambda>padLen.
      Ok \<lparr>ch_keypair = sessionKey, ch_nodeID = nodeID, ch_serverIdentity = serverIdentity,
        ch_epochHour = [], ch_padLen = padLen, ch_mac = serverIdentity @ nodeID,
        serverRepresentative = None, ch_serverAuth = None, serverMark = []\<rparr>)"

definition client_generate :: "crypto \<Rightarrow> nat entropy \<Rightarrow> int \<Rightarrow> clientHandshake \<Rightarrow>
    (hs_error, bytes) outcome \<times> clientHandshake" where
  "client_generate c rnd now hs =
    (case kp_representative (ch_keypair hs) of
       None \<Rightarrow> (Panic, hs)
     | Some repr \<Rightarrow>
        (let mark = take markLength (hmac256 c (ch_mac hs) repr)
         in (case makePad rnd (ch_padLen hs) of
               Panic \<Rightarrow> (Panic, hs) | Err e \<Rightarrow> (Err (HsRandError e), hs)
             | Ok pad \<Rightarrow>
                (let buf = repr @ pad @ mark;
                     hour = epoch_bytes (getEpochHour now);
                     mac = take macLength (hmac256 c (ch_mac hs) (buf @ hour))
                 in (Ok (buf @ mac), hs\<lparr>ch_epochHour := hour\<rparr>)))))"

definition parseServerHandshake :: "crypto \<Rightarrow> clientHandshake \<Rightarrow> bytes \<Rightarrow>
    (hs_error, nat \<times> bytes) outcome \<times> clientHandshake" where
  "parseServerHandshake c hs0 resp =
    (if serverMinHandshakeLength > length resp then (Err ErrMarkNotFoundYet, hs0)
     else
      (let hs = (if serverRepresentative hs0 = None \<or> ch_serverAuth hs0 = None then
             (let repr = go_copy (replicate RepresentativeLength 0) (take RepresentativeLength resp)
              in hs0\<lparr>serverRepresentative := Some repr,
                   ch_serverAuth := Some (go_copy (replicate AuthLength 0) (drop RepresentativeLength resp)),
                   serverMark := take markLength (hmac256 c (ch_mac hs0) repr)\<rparr>)
           else hs0)
       in (case findMarkMac (serverMark hs) resp (RepresentativeLength + AuthLength + serverMinPadLength)
              maxHandshakeLength False of
             Panic \<Rightarrow> (Panic, hs) | Err e \<Rightarrow> (Err e, hs)
           | Ok None \<Rightarrow>
               (if length resp \<ge> maxHandshakeLength then (Err ErrInvalidHandshake, hs)
                else (Err ErrMarkNotFoundYet, hs))
           | Ok (Some pos) \<Rightarrow>
              (let macCmp = take macLength (hmac256 c (ch_mac hs) (take (pos + markLength) resp @ ch_epochHour hs));
                   macRx = take macLength (drop (pos + markLength) resp)
               in if macCmp \<noteq> macRx then (Err (InvalidMacError macCmp macRx), hs)
                  else (let serverPublic = ToPublic c (the (serverRepresentative hs));
                          (ok, seed, auth) = ClientHandshake c (ch_keypair hs) serverPublic
                             (ch_serverIdentity hs) (ch_nodeID hs)
                     in if \<not> ok then (Err ErrNtorFailed, hs)
                        else if \<not> CompareAuth auth (the (ch_serverAuth hs))
                        then (Err (InvalidAuthError auth (the (ch_serverAuth hs))), hs)
                        else (Ok (pos + markLength + macLength, seed), hs))))))"

section \<open>The server\<close>

record serverHandshake =
  sh_keypair :: keypair
  sh_nodeID :: bytes
  sh_serverIdentity :: keypair
  sh_epochHour :: bytes
  sh_serverAuth :: "bytes option"
  sh_padLen :: int
  sh_mac :: bytes
  clientRepresentative :: "bytes option"
  clientMark :: bytes

definition newServerHandshake :: "(int \<Rightarrow> int) \<Rightarrow> bytes \<Rightarrow> keypair \<Rightarrow> keypair \<Rightarrow>
    (hs_error, serverHandshake) outcome" where
  "newServerHandshake intn nodeID serverIdentity sessionKey =
    and_then (IntRange intn (int serverMinPadLength) (int serverMaxPadLength)) (\<lambda>padLen.
      Ok \<lparr>sh_keypair = sessionKey, sh_nodeID = nodeID, sh_serverIdentity = serverIdentity,
        sh_epochHour = [], sh_serverAuth = None, sh_padLen = padLen,
        sh_mac = kp_public serverIdentity @ nodeID, clientRepresentative = None, clientMark = []\<rparr>)"

text \<open>The loop over the accepted epochs. \<open>clk\<close> gives the clock readings of the loop in
  order, two for every round. The first component is False when a replay was detected.\<close>

primrec check_macs :: "crypto \<Rightarrow> (nat \<Rightarrow> int) \<Rightarrow> bytes \<Rightarrow> nat \<Rightarrow> int list \<Rightarrow> nat \<Rightarrow> bool \<Rightarrow>
    serverHandshake \<Rightarrow> replayFilter \<Rightarrow> (bool \<times> bool \<times> serverHandshake \<times> replayFilter)" where
  "check_macs c clk resp pos [] k macFound hs f = (True, macFound, hs, f)"
| "check_macs c clk resp pos (off # offs) k macFound hs f =
    (let hour = epoch_bytes (getEpochHour (clk k) + off);
         macCmp = take macLength (hmac256 c (sh_mac hs) (take (pos + markLength) resp @ hour));
         macRx = take macLength (drop (pos + markLength) resp)
     in if macCmp = macRx then
          (let (seen, f') = TestAndSet c f (clk (k + 1)) macRx
           in if seen then (False, macFound, hs, f')
              else check_macs c clk resp pos offs (k + 2) True (hs\<lparr>sh_epochHour := hour\<rparr>) f')
        else check_macs c clk resp pos offs (k + 2) macFound hs f)"

definition parseClientHandshake :: "crypto \<Rightarrow> (nat \<Rightarrow> int) \<Rightarrow> replayFilter \<Rightarrow> serverHandshake \<Rightarrow> bytes \<Rightarrow>
    (hs_error, bytes) outcome \<times> serverHandshake \<times> replayFilter" where
  "parseClientHandshake c clk f hs0 resp =
    (if clientMinHandshakeLength > length resp then (Err ErrMarkNotFoundYet, hs0, f)
     else
      (let hs = (if clientRepresentative hs0 = None then
             (let repr = go_copy (replicate RepresentativeLength 0) (take RepresentativeLength resp)
              in hs0\<lparr>clientRepresentative := Some repr,
                   clientMark := take markLength (hmac256 c (sh_mac hs0) repr)\<rparr>)
           else hs0)
       in (case findMarkMac (clientMark hs) resp (RepresentativeLength + clientMinPadLength)
              maxHandshakeLength True of
             Panic \<Rightarrow> (Panic, hs, f) | Err e \<Rightarrow> (Err e, hs, f)
           | Ok None \<Rightarrow>
               (if length resp \<ge> maxHandshakeLength then (Err ErrInvalidHandshake, hs, f)
                else (Err ErrMarkNotFoundYet, hs, f))
           | Ok (Some pos) \<Rightarrow>
              (let (notReplayed, macFound, hs1, f1) = check_macs c clk resp pos [0, -1, 1] 0 False hs f
               in if \<not> notReplayed then (Err ErrReplayedHandshake, hs1, f1)
                  else if \<not> macFound then (Err ErrInvalidHandshake, hs1, f1)
                  else if length resp \<noteq> pos + markLength + macLength then (Err ErrInvalidHandshake, hs1, f1)
                  else (let clientPublic = ToPublic c (the (clientRepresentative hs1));
                          (ok, seed, auth) = ServerHandshake c clientPublic (sh_keypair hs1)
                             (sh_serverIdentity hs1) (sh_nodeID hs1)
                     in if \<not> ok then (Err ErrNtorFailed, hs1, f1)
                        else (Ok seed, hs1\<lparr>sh_serverAuth := Some auth\<rparr>, f1))))))"

definition server_generate :: "crypto \<Rightarrow> nat entropy \<Rightarrow> serverHandshake \<Rightarrow> (hs_error, bytes) outcome" where
  "server_generate c rnd hs =
    (case kp_representative (sh_keypair hs) of
       None \<Rightarrow> Panic
     | Some repr \<Rightarrow>
        (let mark = take markLength (hmac256 c (sh_mac hs) repr)
         in (case makePad rnd (sh_padLen hs) of
               Panic \<Rightarrow> Panic | Err e \<Rightarrow> Err (HsRandError e)
             | Ok pad \<Rightarrow>
                (case sh_serverAuth hs of
                   None \<Rightarrow> Panic
                 | Some auth \<Rightarrow>
                    (let buf = repr @ auth @ pad @ mark;
                         mac = take macLength (hmac256 c (sh_mac hs) (buf @ sh_epochHour hs))
                     in Ok (buf @ mac))))))"


section \<open>The search for the mark\<close>

lemma length_mac: "hmac_ok c \<Longrightarrow> length (take macLength (hmac256 c k m)) = macLength"
  by simp

lemma findMarkMac_tail:
  assumes "length mark = markLength" "length buf \<le> maxPos"
  shows "findMarkMac mark buf startPos maxPos True =
    Ok (if startPos + 32 \<le> length buf \<and> occurs_at buf mark (length buf - 32)
        then Some (length buf - 32) else None)"
  using assms by (auto simp: findMarkMac_def occurs_at_def Let_def)

text \<open>The substring search finds the first mark behind \<open>startPos\<close>, if the MAC behind it is
  complete within the first \<open>maxPos\<close> bytes.\<close>

lemma occurs_at_slice:
  assumes "length mark = markLength" "startPos \<le> endPos" "endPos \<le> length buf"
  shows "occurs_at (take (endPos - startPos) (drop startPos buf)) mark i \<longleftrightarrow>
    startPos + i + 16 \<le> endPos \<and> occurs_at buf mark (startPos + i)"
proof
  assume a: "occurs_at (take (endPos - startPos) (drop startPos buf)) mark i"
  then have t: "take 16 (drop i (take (endPos - startPos) (drop startPos buf))) = mark"
    using assms(1) by (simp add: occurs_at_def)
  then have "length (take 16 (drop i (take (endPos - startPos) (drop startPos buf)))) = 16"
    using assms(1) by simp
  then have "startPos + i + 16 \<le> endPos" using assms(2,3) by simp
  moreover from this have "min 16 (endPos - (i + startPos)) = 16" by simp
  moreover from this t have "take 16 (drop (startPos + i) buf) = mark"
    by (simp add: drop_take add.commute)
  ultimately show "startPos + i + 16 \<le> endPos \<and> occurs_at buf mark (startPos + i)"
    using assms(1,3) by (simp add: occurs_at_def)
next
  assume "startPos + i + 16 \<le> endPos \<and> occurs_at buf mark (startPos + i)"
  moreover from this have "min 16 (endPos - (i + startPos)) = 16" "i \<le> min (endPos - startPos) (length buf - startPos)"
    using assms(3) by auto
  ultimately show "occurs_at (take (endPos - startPos) (drop startPos buf)) mark i"
    using assms(1) by (simp add: occurs_at_def drop_take add.commute)
qed

lemma findMarkMac_search:
  assumes "length mark = markLength"
  shows "findMarkMac mark buf startPos maxPos False = Ok (Some pos) \<longleftrightarrow>
    startPos \<le> pos \<and> pos + 32 \<le> min (length buf) maxPos \<and> occurs_at buf mark pos \<and>
    (\<forall>j. startPos \<le> j \<and> j < pos \<longrightarrow> \<not> occurs_at buf mark j)"
proof -
  let ?stop = "min (length buf) maxPos"
  let ?s = "take (?stop - startPos) (drop startPos buf)"
  have e: "(if length buf > maxPos then maxPos else length buf) = ?stop" by simp
  show ?thesis
  proof (cases "startPos + 32 \<le> ?stop")
    case False
    then show ?thesis using assms by (auto simp: findMarkMac_def Let_def)
  next
    case True
    have occ: "occurs_at ?s mark i \<longleftrightarrow> startPos + i + 16 \<le> ?stop \<and> occurs_at buf mark (startPos + i)" for i
      using assms True by (intro occurs_at_slice) auto
    have room: "\<not> int ?stop - int startPos < 32" using True by linarith
    have F: "findMarkMac mark buf startPos maxPos False =
        (case bytes_Index ?s mark of None \<Rightarrow> Ok None
         | Some i \<Rightarrow> if startPos + i + 32 > ?stop then Ok None else Ok (Some (i + startPos)))"
      using assms True room
      by (simp add: findMarkMac_def Let_def e add.assoc cong: option.case_cong)
    have "findMarkMac mark buf startPos maxPos False = Ok (Some pos) \<longleftrightarrow> startPos \<le> pos \<and> pos + 32 \<le> ?stop \<and>
        bytes_Index ?s mark = Some (pos - startPos)"
      unfolding F by (auto split: option.splits)
    also have "\<dots> \<longleftrightarrow> startPos \<le> pos \<and> pos + 32 \<le> ?stop \<and> occurs_at buf mark pos \<and>
        (\<forall>j. startPos \<le> j \<and> j < pos \<longrightarrow> \<not> occurs_at buf mark j)"
    proof -
      have "(\<forall>j < pos - startPos. \<not> occurs_at ?s mark j) \<longleftrightarrow>
          (\<forall>j. startPos \<le> j \<and> j < pos \<longrightarrow> \<not> occurs_at buf mark j)" if "pos + 32 \<le> ?stop" "startPos \<le> pos"
      proof
        assume L: "\<forall>j < pos - startPos. \<not> occurs_at ?s mark j"
        show "\<forall>j. startPos \<le> j \<and> j < pos \<longrightarrow> \<not> occurs_at buf mark j"
        proof (intro allI impI)
          fix j assume "startPos \<le> j \<and> j < pos"
          then have "j - startPos < pos - startPos" "startPos \<le> j" "j < pos" by linarith+
          then show "\<not> occurs_at buf mark j"
            using L [rule_format, of "j - startPos"] occ [of "j - startPos"] that by auto
        qed
      qed (auto simp: occ)
      then show ?thesis unfolding bytes_Index_Some using occ [of "pos - startPos"] by auto
    qed
    finally show ?thesis .
  qed
qed

lemma findMarkMac_cases:
  "length mark = markLength \<Longrightarrow> \<exists>r. findMarkMac mark buf startPos maxPos fromTail = Ok r"
  by (auto simp: findMarkMac_def Let_def split: option.splits)


section \<open>The server's acceptance\<close>

text \<open>The filter part of the epoch loop: a match that is not a replay leaves the MAC in the filter,
  and an accepted handshake had at least one such match.\<close>

lemma check_macs_matches:
  assumes "check_macs c clk resp pos offs k False hs f = (True, True, hs', f')"
  shows "\<exists>t. fst (TestAndSet c f (clk t) (take macLength (drop (pos + markLength) resp))) = False \<and>
    k < t \<and> t < k + 2 * length offs"
  using assms
proof (induction offs arbitrary: k)
  case (Cons off offs)
  let ?rx = "take macLength (drop (pos + markLength) resp)"
  show ?case
  proof (cases "take macLength (hmac256 c (sh_mac hs) (take (pos + markLength) resp @
      epoch_bytes (getEpochHour (clk k) + off))) = ?rx")
    case True
    obtain seen f1 where "TestAndSet c f (clk (k + 1)) ?rx = (seen, f1)" by fastforce
    moreover from this True Cons.prems have "\<not> seen" by (auto simp: Let_def split: if_splits)
    ultimately show ?thesis by (intro exI [of _ "k + 1"]) simp
  next
    case False
    with Cons.prems have "check_macs c clk resp pos offs (k + 2) False hs f = (True, True, hs', f')"
      by (simp add: Let_def)
    from Cons.IH [OF this] show ?thesis by auto
  qed
qed simp

lemma check_macs_timely:
  assumes "check_macs c clk resp pos offs k mf hs f = (True, mf', hs', f')" "rf_timely f lo"
    "lo \<le> clk k" "mono clk" "\<forall>j. time_ok (clk j)" "length (fifo f) + length offs \<le> maxFilterSize"
    "clk (k + 2 * length offs) - clk k < ttl f"
  shows "rf_timely f' (clk (k + 2 * length offs)) \<and> ttl f' = ttl f \<and> rf_key f' = rf_key f \<and>
    length (fifo f') \<le> length (fifo f) + length offs \<and>
    (\<forall>e \<in> set (fifo f). clk (k + 2 * length offs) - firstSeen e < ttl f \<longrightarrow> e \<in> set (fifo f')) \<and>
    (mf' \<and> \<not> mf \<longrightarrow> (\<exists>e \<in> set (fifo f'). clk k \<le> firstSeen e \<and>
       digest e = siphash_Hash c (fst (rf_key f)) (snd (rf_key f)) (take macLength (drop (pos + markLength) resp))))"
  using assms
proof (induction offs arbitrary: k mf hs f lo)
  case Nil
  then show ?case by (auto intro: rf_timely_mono)
next
  case (Cons off offs)
  let ?rx = "take macLength (drop (pos + markLength) resp)"
  let ?stop = "clk (k + 2 + 2 * length offs)"
  have le: "clk k \<le> clk (k + 1)" "clk (k + 1) \<le> clk (k + 2)" "clk (k + 2) \<le> ?stop"
    using Cons.prems(4) by (simp_all add: monoD)
  have e: "k + 2 * length (off # offs) = k + 2 + 2 * length offs" by simp
  show ?case
  proof (cases "take macLength (hmac256 c (sh_mac hs) (take (pos + markLength) resp @
      epoch_bytes (getEpochHour (clk k) + off))) = ?rx")
    case False
    with Cons.prems have "check_macs c clk resp pos offs (k + 2) mf hs f = (True, mf', hs', f')"
      by (simp add: Let_def)
    note I = Cons.IH [OF this Cons.prems(2)]
    have "lo \<le> clk (k + 2)" "length (fifo f) + length offs \<le> maxFilterSize"
      "?stop - clk (k + 2) < ttl f" using Cons.prems(3,6,7) le by (simp_all add: e)
    with I Cons.prems(4,5) have
      "rf_timely f' ?stop \<and> ttl f' = ttl f \<and> rf_key f' = rf_key f \<and>
       length (fifo f') \<le> length (fifo f) + length offs \<and>
       (\<forall>e \<in> set (fifo f). ?stop - firstSeen e < ttl f \<longrightarrow> e \<in> set (fifo f')) \<and>
       (mf' \<and> \<not> mf \<longrightarrow> (\<exists>e \<in> set (fifo f'). clk (k + 2) \<le> firstSeen e \<and>
          digest e = siphash_Hash c (fst (rf_key f)) (snd (rf_key f)) ?rx))" by blast
    moreover have "clk k \<le> clk (k + 2)" using le by linarith
    ultimately show ?thesis unfolding e by (auto intro: order_trans)
  next
    case True
    obtain seen f1 where T: "TestAndSet c f (clk (k + 1)) ?rx = (seen, f1)" by fastforce
    with True Cons.prems(1) have seen: "\<not> seen" and
      C: "check_macs c clk resp pos offs (k + 2) True
        (hs\<lparr>sh_epochHour := epoch_bytes (getEpochHour (clk k) + off)\<rparr>) f1 = (True, mf', hs', f')"
      by (auto simp: Let_def split: if_splits)
    note S = rf_timely_step [OF Cons.prems(2) _ _ _ T]
    have S: "rf_timely f1 (clk (k + 1)) \<and> ttl f1 = ttl f \<and> rf_key f1 = rf_key f \<and>
        length (fifo f1) \<le> length (fifo f) + 1 \<and>
        (\<forall>e \<in> set (fifo f). clk (k + 1) - firstSeen e < ttl f \<longrightarrow> e \<in> set (fifo f1)) \<and>
        \<lparr>digest = siphash_Hash c (fst (rf_key f)) (snd (rf_key f)) ?rx, firstSeen = clk (k + 1)\<rparr> \<in> set (fifo f1)"
      using S seen Cons.prems(3,5,6) le by auto
    have "rf_timely f' ?stop \<and> ttl f' = ttl f1 \<and> rf_key f' = rf_key f1 \<and>
        length (fifo f') \<le> length (fifo f1) + length offs \<and>
        (\<forall>e \<in> set (fifo f1). ?stop - firstSeen e < ttl f1 \<longrightarrow> e \<in> set (fifo f'))"
      using Cons.IH [OF C, of "clk (k + 1)"] S Cons.prems(4-7) le by (simp add: e)
    with S Cons.prems(7) le show ?thesis unfolding e by (force simp: e)
  qed
qed

lemma parseClientHandshake_Ok:
  assumes "parseClientHandshake c clk f hs resp = (Ok seed, hs', f')"
  obtains pos hs0 hs1 where "pos + 32 = length resp" "length resp \<le> maxHandshakeLength"
    "check_macs c clk resp pos [0, -1, 1] 0 False hs0 f = (True, True, hs1, f')"
    "sh_mac hs0 = sh_mac hs"
proof -
  let ?hs = "if clientRepresentative hs = None then
       hs\<lparr>clientRepresentative := Some (go_copy (replicate 32 0) (take 32 resp)),
          clientMark := take 16 (hmac256 c (sh_mac hs) (go_copy (replicate 32 0) (take 32 resp)))\<rparr> else hs"
  from assms obtain pos where F: "findMarkMac (clientMark ?hs) resp 109 8192 True = (Ok (Some pos) :: (hs_error, nat option) outcome)"
    and L: "length resp = pos + 32"
    and C: "\<exists>hs1. check_macs c clk resp pos [0, -1, 1] 0 False ?hs f = (True, True, hs1, f')"
    unfolding parseClientHandshake_def Let_def
    by (auto simp del: check_macs.simps split: if_splits outcome.splits option.splits prod.splits)
  have "length resp \<le> 8192"
    using F L by (auto simp: findMarkMac_def Let_def split: if_splits)
  moreover obtain hs1 where "check_macs c clk resp pos [0, -1, 1] 0 False ?hs f = (True, True, hs1, f')"
    using C by blast
  moreover have "sh_mac ?hs = sh_mac hs" by simp
  ultimately show thesis using that [of pos ?hs hs1] L by simp
qed


section \<open>The two messages\<close>

text \<open>The layout of a message: \<open>hello\<close> is the representative (with AUTH for the server), then
  padding, mark and MAC. \<open>at_mark\<close> says that the mark occurs where it was put and nowhere
  before it from \<open>start\<close> on.\<close>

definition mark_of :: "crypto \<Rightarrow> bytes \<Rightarrow> bytes \<Rightarrow> bytes" where
  "mark_of c key repr = take markLength (hmac256 c key repr)"

definition hs_message :: "crypto \<Rightarrow> bytes \<Rightarrow> bytes \<Rightarrow> bytes \<Rightarrow> bytes \<Rightarrow> bytes \<Rightarrow> bytes" where
  "hs_message c key repr extra pad hour =
    (let buf = repr @ extra @ pad @ mark_of c key repr
     in buf @ take macLength (hmac256 c key (buf @ hour)))"

lemma length_mark_of [simp]: "hmac_ok c \<Longrightarrow> length (mark_of c key repr) = 16"
  by (simp add: mark_of_def)

lemma length_hs_message [simp]:
  "hmac_ok c \<Longrightarrow> length (hs_message c key repr extra pad hour) =
     length repr + length extra + length pad + 32"
  by (simp add: hs_message_def Let_def)

lemma hs_message_parts:
  assumes "hmac_ok c" "n = length repr + length extra + length pad"
  shows "take (n + 16) (hs_message c key repr extra pad hour @ rest) = repr @ extra @ pad @ mark_of c key repr"
    and "take 16 (drop (n + 16) (hs_message c key repr extra pad hour @ rest)) =
      take 16 (hmac256 c key ((repr @ extra @ pad @ mark_of c key repr) @ hour))"
    and "occurs_at (hs_message c key repr extra pad hour @ rest) (mark_of c key repr) n"
  using assms by (simp_all add: hs_message_def Let_def occurs_at_def)

lemma hs_message_prefix:
  "take (length repr) (hs_message c key repr extra pad hour @ rest) = repr"
  "drop (length repr) (hs_message c key repr extra pad hour @ rest) =
     extra @ drop (length repr + length extra) (hs_message c key repr extra pad hour @ rest)"
  by (simp_all add: hs_message_def Let_def)

lemma newClientHandshake_Ok:
  assumes "intn_ok intn"
  shows "\<exists>hs. newClientHandshake intn nid ident sk = Ok hs \<and> 77 \<le> ch_padLen hs \<and> ch_padLen hs \<le> 8128 \<and>
    ch_keypair hs = sk \<and> ch_nodeID hs = nid \<and> ch_serverIdentity hs = ident \<and>
    ch_mac hs = ident @ nid \<and> serverRepresentative hs = None"
proof -
  obtain v where "IntRange intn 77 8128 = (Ok v :: (hs_error, int) outcome)" "77 \<le> v" "v \<le> 8128"
    using IntRange_ok [OF assms, of 77 8128] by (auto simp: in_i64_def)
  then show ?thesis by (simp add: newClientHandshake_def)
qed

lemma newServerHandshake_Ok:
  assumes "intn_ok intn"
  shows "\<exists>hs. newServerHandshake intn nid ident sk = Ok hs \<and> 0 \<le> sh_padLen hs \<and> sh_padLen hs \<le> 8051 \<and>
    sh_keypair hs = sk \<and> sh_nodeID hs = nid \<and> sh_serverIdentity hs = ident \<and>
    sh_mac hs = kp_public ident @ nid \<and> clientRepresentative hs = None"
proof -
  obtain v where "IntRange intn 0 8051 = (Ok v :: (hs_error, int) outcome)" "0 \<le> v" "v \<le> 8051"
    using IntRange_ok [OF assms, of 0 8051] by (auto simp: in_i64_def)
  then show ?thesis by (simp add: newServerHandshake_def)
qed

lemma client_generate_message:
  assumes "kp_representative (ch_keypair hs) = Some repr" "csrand_Bytes rnd (nat (ch_padLen hs)) = Ok pad"
    "0 \<le> ch_padLen hs"
  shows "client_generate c rnd now hs =
    (Ok (hs_message c (ch_mac hs) repr [] pad (epoch_bytes (getEpochHour now))),
     hs\<lparr>ch_epochHour := epoch_bytes (getEpochHour now)\<rparr>)"
  using assms by (simp add: client_generate_def makePad_def hs_message_def mark_of_def Let_def)

lemma server_generate_message:
  assumes "kp_representative (sh_keypair hs) = Some repr" "csrand_Bytes rnd (nat (sh_padLen hs)) = Ok pad"
    "0 \<le> sh_padLen hs" "sh_serverAuth hs = Some auth"
  shows "server_generate c rnd hs = Ok (hs_message c (sh_mac hs) repr auth pad (sh_epochHour hs))"
  using assms by (simp add: server_generate_def makePad_def hs_message_def mark_of_def Let_def)

text \<open>The server's view of the clock: all readings fall into hour \<open>H\<close>, the client's hour is at
  most one off, and no two of the three candidate MACs collide.\<close>

definition hours_ok :: "crypto \<Rightarrow> (nat \<Rightarrow> int) \<Rightarrow> int \<Rightarrow> int \<Rightarrow> bytes \<Rightarrow> bytes \<Rightarrow> bool" where
  "hours_ok c clk H hc key body \<longleftrightarrow> (\<forall>k < 6. getEpochHour (clk k) = H) \<and> \<bar>H - hc\<bar> \<le> 1 \<and>
     (\<forall>h. \<bar>H - h\<bar> \<le> 1 \<and> h \<noteq> hc \<longrightarrow>
        take 16 (hmac256 c key (body @ epoch_bytes h)) \<noteq> take 16 (hmac256 c key (body @ epoch_bytes hc)))"

lemma check_macs_accepts:
  assumes "hours_ok c clk H hc (sh_mac hs) (take (pos + 16) resp)"
    "take 16 (drop (pos + 16) resp) = take 16 (hmac256 c (sh_mac hs) (take (pos + 16) resp @ epoch_bytes hc))"
    "\<forall>k < 6. \<not> fst (TestAndSet c f (clk k) (take 16 (drop (pos + 16) resp)))"
  shows "\<exists>t < 6. check_macs c clk resp pos [0, -1, 1] 0 False hs f =
    (True, True, hs\<lparr>sh_epochHour := epoch_bytes hc\<rparr>,
     snd (TestAndSet c f (clk t) (take 16 (drop (pos + 16) resp))))"
proof -
  let ?body = "take (pos + 16) resp" and ?rx = "take 16 (drop (pos + 16) resp)"
  have clk: "getEpochHour (clk k) = H" if "k < 6" for k using assms(1) that by (simp add: hours_ok_def)
  have m: "(take 16 (hmac256 c (sh_mac hs) (?body @ epoch_bytes (H + off))) = ?rx) = (hc = H + off)"
    if "off \<in> {0, -1, 1}" for off
    using assms(1,2) that unfolding hours_ok_def by (auto; smt (verit, del_insts))
  have hit: "check_macs c clk resp pos (off # offs) k mf g f =
      check_macs c clk resp pos offs (k + 2) True (g\<lparr>sh_epochHour := epoch_bytes hc\<rparr>)
        (snd (TestAndSet c f (clk (k + 1)) ?rx))"
    if "off \<in> {0, -1, 1}" "hc = H + off" "k + 1 < 6" "sh_mac g = sh_mac hs" for off offs k mf g
  proof -
    have "TestAndSet c f (clk (k + 1)) ?rx = (False, snd (TestAndSet c f (clk (k + 1)) ?rx))"
      using assms(3) that(3) by (metis (full_types) prod.collapse)
    then show ?thesis using m [OF that(1)] that clk [of k]
      by (auto simp: Let_def split: prod.split)
  qed
  have miss: "check_macs c clk resp pos (off # offs) k mf g f' = check_macs c clk resp pos offs (k + 2) mf g f'"
    if "off \<in> {0, -1, 1}" "hc \<noteq> H + off" "k < 6" "sh_mac g = sh_mac hs" for off offs k mf g f'
    using m [OF that(1)] that clk [of k] by (simp add: Let_def)
  have "hc = H \<or> hc = H - 1 \<or> hc = H + 1" using assms(1) by (auto simp: hours_ok_def)
  then show ?thesis
  proof (elim disjE)
    assume "hc = H"
    then show ?thesis by (intro exI [of _ 1]) (simp add: hit miss del: check_macs.simps(2))
  next
    assume "hc = H - 1"
    then show ?thesis
      by (intro exI [of _ 3]) (simp add: hit miss numeral_3_eq_3 del: check_macs.simps(2))
  next
    assume "hc = H + 1"
    then show ?thesis
      by (intro exI [of _ 5]) (simp add: hit miss eval_nat_numeral del: check_macs.simps(2))
  qed
qed


section \<open>Parsing a message that arrives in pieces\<close>

lemma occurs_at_take:
  "occurs_at (take m s) sep i \<Longrightarrow> 0 < length sep \<Longrightarrow> occurs_at s sep i \<and> i + length sep \<le> m"
proof -
  assume a: "occurs_at (take m s) sep i" "0 < length sep"
  then have "length (take (length sep) (drop i (take m s))) = length sep" by (simp add: occurs_at_def)
  then have "length sep \<le> min (length s) m - i" by (simp only: length_take length_drop)
  then have "i + length sep \<le> m" using a(2) by linarith
  with a(1) show ?thesis by (auto simp: occurs_at_def drop_take min_def split: if_splits)
qed

definition sh_knows :: "crypto \<Rightarrow> bytes \<Rightarrow> serverHandshake \<Rightarrow> bool" where
  "sh_knows c repr hs \<longleftrightarrow> clientRepresentative hs = None \<or>
     clientRepresentative hs = Some repr \<and> clientMark hs = mark_of c (sh_mac hs) repr"

definition sh_learn :: "crypto \<Rightarrow> bytes \<Rightarrow> serverHandshake \<Rightarrow> serverHandshake" where
  "sh_learn c repr hs = hs\<lparr>clientRepresentative := Some repr, clientMark := mark_of c (sh_mac hs) repr\<rparr>"

lemma sh_learn_simps [simp]:
  "sh_knows c repr (sh_learn c repr hs)" "sh_mac (sh_learn c repr hs) = sh_mac hs"
  "sh_learn c repr (sh_learn c repr hs) = sh_learn c repr hs"
  by (simp_all add: sh_knows_def sh_learn_def)

lemma sh_cache:
  assumes "sh_knows c repr hs" "length repr = 32" "take 32 resp = repr"
  shows "(if clientRepresentative hs = None then
      (let r = go_copy (replicate RepresentativeLength 0) (take RepresentativeLength resp)
       in hs\<lparr>clientRepresentative := Some r, clientMark := take markLength (hmac256 c (sh_mac hs) r)\<rparr>)
    else hs) = sh_learn c repr hs"
  using assms by (auto simp: sh_knows_def sh_learn_def mark_of_def Let_def)

definition sole_mark :: "bytes \<Rightarrow> bytes \<Rightarrow> nat \<Rightarrow> bool" where
  "sole_mark msg mark n \<longleftrightarrow> (\<forall>i. occurs_at msg mark i \<longrightarrow> i = n)"

lemma server_prefix:
  assumes "hmac_ok c" "length repr = 32" "blob = hs_message c (sh_mac hs) repr [] pad hour"
    "m < length blob" "length blob \<le> 8192" "sh_knows c repr hs"
    "sole_mark blob (mark_of c (sh_mac hs) repr) (32 + length pad)"
  shows "\<exists>hs'. parseClientHandshake c clk f hs (take m blob) = (Err ErrMarkNotFoundYet, hs', f) \<and>
    sh_knows c repr hs' \<and> sh_learn c repr hs' = sh_learn c repr hs"
proof (cases "m < 64")
  case True
  with assms show ?thesis by (simp add: parseClientHandshake_def)
next
  case False
  let ?resp = "take m blob" and ?mark = "mark_of c (sh_mac hs) repr"
  have len: "length blob = 64 + length pad" using assms(1-3) by simp
  have "take 32 ?resp = repr"
    using hs_message_prefix(1) [of repr c "sh_mac hs" "[]" pad hour "[]"] assms(2,3) False
    by (simp add: min_def)
  note cache = sh_cache [OF assms(6,2) this]
  have "\<not> occurs_at ?resp ?mark (length ?resp - 32)"
  proof
    assume "occurs_at ?resp ?mark (length ?resp - 32)"
    from occurs_at_take [OF this] have "occurs_at blob ?mark (length ?resp - 32)" using assms(1) by simp
    then have "length ?resp - 32 = 32 + length pad" using assms(7) unfolding sole_mark_def by blast
    then show False using assms(4) len False by simp
  qed
  then have "findMarkMac ?mark ?resp 109 8192 True = (Ok None :: (hs_error, nat option) outcome)"
    using assms(1,5) by (subst findMarkMac_tail) auto
  then have "parseClientHandshake c clk f hs ?resp = (Err ErrMarkNotFoundYet, sh_learn c repr hs, f)"
    using False assms(4,5) unfolding parseClientHandshake_def cache
    by (simp add: sh_learn_def Let_def)
  then show ?thesis by auto
qed

lemma server_full:
  assumes "hmac_ok c" "length repr = 32" "blob = hs_message c (sh_mac hs) repr [] pad (epoch_bytes hc)"
    "77 \<le> length pad" "length blob \<le> 8192" "sh_knows c repr hs"
    "hours_ok c clk H hc (sh_mac hs) (repr @ pad @ mark_of c (sh_mac hs) repr)"
    "\<forall>k < 6. \<not> fst (TestAndSet c f (clk k) (drop (length blob - 16) blob))"
    "ServerHandshake c (ToPublic c repr) (sh_keypair hs) (sh_serverIdentity hs) (sh_nodeID hs) = (True, seed, auth)"
  shows "\<exists>t < 6. parseClientHandshake c clk f hs blob =
    (Ok seed, (sh_learn c repr hs)\<lparr>sh_epochHour := epoch_bytes hc, sh_serverAuth := Some auth\<rparr>,
     snd (TestAndSet c f (clk t) (drop (length blob - 16) blob)))"
proof -
  let ?n = "32 + length pad" and ?hs = "sh_learn c repr hs"
  have len: "length blob = ?n + 32" using assms(1-3) by simp
  note parts = hs_message_parts [OF assms(1), of ?n repr "[]" pad "sh_mac hs" "epoch_bytes hc" "[]",
      simplified, folded assms(3)]
  have body: "take (?n + 16) blob = repr @ pad @ mark_of c (sh_mac hs) repr"
    and rx: "take 16 (drop (?n + 16) blob) =
      take 16 (hmac256 c (sh_mac hs) (take (?n + 16) blob @ epoch_bytes hc))"
    and occ: "occurs_at blob (mark_of c (sh_mac hs) repr) ?n"
    using parts assms(2) by simp_all
  have rx': "take 16 (drop (?n + 16) blob) = drop (length blob - 16) blob" using len by simp
  have "take 32 blob = repr"
    using hs_message_prefix(1) [of repr c "sh_mac hs" "[]" pad "epoch_bytes hc" "[]"] assms(2,3) by simp
  note cache = sh_cache [OF assms(6,2) this]
  have F: "findMarkMac (clientMark ?hs) blob 109 8192 True = (Ok (Some ?n) :: (hs_error, nat option) outcome)"
    using assms(1,4,5) occ len by (subst findMarkMac_tail) (auto simp: sh_learn_def)
  obtain t where t: "t < 6" "check_macs c clk blob ?n [0, -1, 1] 0 False ?hs f =
      (True, True, ?hs\<lparr>sh_epochHour := epoch_bytes hc\<rparr>,
       snd (TestAndSet c f (clk t) (drop (length blob - 16) blob)))"
    using check_macs_accepts [of c clk H hc ?hs ?n blob f] assms(7,8) rx rx' body by auto
  have "parseClientHandshake c clk f hs blob =
    (Ok seed, ?hs\<lparr>sh_epochHour := epoch_bytes hc, sh_serverAuth := Some auth\<rparr>,
     snd (TestAndSet c f (clk t) (drop (length blob - 16) blob)))"
    using len F t(2) assms(9) unfolding parseClientHandshake_def cache
    by (simp add: Let_def sh_learn_def del: check_macs.simps)
  with t(1) show ?thesis by blast
qed


definition ch_knows :: "crypto \<Rightarrow> bytes \<Rightarrow> bytes \<Rightarrow> clientHandshake \<Rightarrow> bool" where
  "ch_knows c repr auth hs \<longleftrightarrow> serverRepresentative hs = None \<or> serverRepresentative hs = Some repr \<and>
     ch_serverAuth hs = Some auth \<and> serverMark hs = mark_of c (ch_mac hs) repr"

definition ch_learn :: "crypto \<Rightarrow> bytes \<Rightarrow> bytes \<Rightarrow> clientHandshake \<Rightarrow> clientHandshake" where
  "ch_learn c repr auth hs = hs\<lparr>serverRepresentative := Some repr, ch_serverAuth := Some auth,
     serverMark := mark_of c (ch_mac hs) repr\<rparr>"

lemma ch_learn_simps [simp]:
  "ch_knows c repr auth (ch_learn c repr auth hs)" "ch_mac (ch_learn c repr auth hs) = ch_mac hs"
  "ch_learn c repr auth (ch_learn c repr auth hs) = ch_learn c repr auth hs"
  by (simp_all add: ch_knows_def ch_learn_def)

lemma ch_cache:
  assumes "ch_knows c repr auth hs" "length repr = 32" "length auth = 32" "take 32 resp = repr"
    "take 32 (drop 32 resp) = auth"
  shows "(if serverRepresentative hs = None \<or> ch_serverAuth hs = None then
      (let r = go_copy (replicate RepresentativeLength 0) (take RepresentativeLength resp)
       in hs\<lparr>serverRepresentative := Some r,
            ch_serverAuth := Some (go_copy (replicate AuthLength 0) (drop RepresentativeLength resp)),
            serverMark := take markLength (hmac256 c (ch_mac hs) r)\<rparr>)
    else hs) = ch_learn c repr auth hs"
proof -
  have "32 \<le> length (drop 32 resp)" using assms(3,5) by (metis length_take min.absorb_iff2)
  then have "go_copy (replicate 32 0) (drop 32 resp) = auth" using assms(5) by (simp add: go_copy_truncate)
  then show ?thesis using assms by (auto simp: ch_knows_def ch_learn_def mark_of_def Let_def)
qed

definition first_mark :: "bytes \<Rightarrow> bytes \<Rightarrow> nat \<Rightarrow> bool" where
  "first_mark msg mark n \<longleftrightarrow> (\<forall>i. 64 \<le> i \<and> i < n \<longrightarrow> \<not> occurs_at msg mark i)"

lemma client_message_head:
  assumes "length repr = 32" "length auth = 32"
    "s = take m (hs_message c key repr auth pad hour @ rest)" "64 \<le> m"
  shows "take 32 s = repr" "take 32 (drop 32 s) = auth"
  using assms by (simp_all add: hs_message_def Let_def min_def take_Cons' drop_take)

lemma client_prefix:
  assumes "hmac_ok c" "length repr = 32" "length auth = 32"
    "msg = hs_message c (ch_mac hs) repr auth pad hour" "m < length msg" "length msg \<le> 8192"
    "ch_knows c repr auth hs" "first_mark msg (mark_of c (ch_mac hs) repr) (64 + length pad)"
  shows "\<exists>hs'. parseServerHandshake c hs (take m msg) = (Err ErrMarkNotFoundYet, hs') \<and>
    ch_knows c repr auth hs' \<and> ch_learn c repr auth hs' = ch_learn c repr auth hs"
proof (cases "m < 96")
  case True
  with assms show ?thesis by (simp add: parseServerHandshake_def)
next
  case False
  let ?resp = "take m msg" and ?mark = "mark_of c (ch_mac hs) repr"
  have len: "length msg = 96 + length pad" using assms(1-4) by simp
  have "take 32 ?resp = repr" "take 32 (drop 32 ?resp) = auth"
    using client_message_head [OF assms(2,3), of ?resp m c "ch_mac hs" pad hour "[]"] assms(4) False by auto
  note cache = ch_cache [OF assms(7,2,3) this]
  have "findMarkMac ?mark ?resp 64 8192 False \<noteq> (Ok (Some pos) :: (hs_error, nat option) outcome)" for pos
  proof
    assume "findMarkMac ?mark ?resp 64 8192 False = (Ok (Some pos) :: (hs_error, nat option) outcome)"
    then have f: "64 \<le> pos" "pos + 32 \<le> min (length ?resp) 8192" "occurs_at ?resp ?mark pos"
      using findMarkMac_search [of ?mark ?resp 64 8192 pos, where ?'a = hs_error] assms(1) by simp_all
    then have "occurs_at msg ?mark pos" using occurs_at_take [of m msg ?mark pos] assms(1) by simp
    with f assms(5,8) len show False by (auto simp: first_mark_def)
  qed
  moreover obtain r where "findMarkMac ?mark ?resp 64 8192 False = (Ok r :: (hs_error, nat option) outcome)"
    using findMarkMac_cases [of ?mark ?resp 64 8192 False] assms(1) by auto
  ultimately have "findMarkMac ?mark ?resp 64 8192 False = (Ok None :: (hs_error, nat option) outcome)"
    by (cases r) auto
  then have "parseServerHandshake c hs ?resp = (Err ErrMarkNotFoundYet, ch_learn c repr auth hs)"
    using False assms(5,6) unfolding parseServerHandshake_def cache by (simp add: ch_learn_def Let_def)
  then show ?thesis by auto
qed

lemma client_full:
  assumes "hmac_ok c" "length repr = 32" "length auth = 32"
    "msg = hs_message c (ch_mac hs) repr auth pad (ch_epochHour hs)" "length msg \<le> 8192"
    "ch_knows c repr auth hs" "first_mark msg (mark_of c (ch_mac hs) repr) (64 + length pad)"
    "ClientHandshake c (ch_keypair hs) (ToPublic c repr) (ch_serverIdentity hs) (ch_nodeID hs) = (True, seed, auth)"
  shows "parseServerHandshake c hs (msg @ rest) = (Ok (length msg, seed), ch_learn c repr auth hs)"
proof -
  let ?n = "64 + length pad" and ?hs = "ch_learn c repr auth hs" and ?mark = "mark_of c (ch_mac hs) repr"
  have len: "length msg = ?n + 32" using assms(1-4) by simp
  note parts = hs_message_parts [OF assms(1), of ?n repr auth pad "ch_mac hs" "ch_epochHour hs" rest,
      folded assms(4)]
  have body: "take (?n + 16) (msg @ rest) = repr @ auth @ pad @ ?mark"
    and rx: "take 16 (drop (?n + 16) (msg @ rest)) =
      take 16 (hmac256 c (ch_mac hs) (take (?n + 16) (msg @ rest) @ ch_epochHour hs))"
    and occ: "occurs_at (msg @ rest) ?mark ?n"
    using parts assms(2,3) by simp_all
  have "take 32 (msg @ rest) = repr" "take 32 (drop 32 (msg @ rest)) = auth"
    using client_message_head [OF assms(2,3), of "msg @ rest" "length (msg @ rest)" c "ch_mac hs" pad
        "ch_epochHour hs" rest] assms(4) len by auto
  note cache = ch_cache [OF assms(6,2,3) this]
  have "\<not> occurs_at (msg @ rest) ?mark j" if "64 \<le> j" "j < ?n" for j
  proof
    assume "occurs_at (msg @ rest) ?mark j"
    then have "occurs_at msg ?mark j" using that len assms(1) by (simp add: occurs_at_def)
    then show False using assms(7) that by (simp add: first_mark_def)
  qed
  then have F: "findMarkMac (serverMark ?hs) (msg @ rest) 64 8192 False = (Ok (Some ?n) :: (hs_error, nat option) outcome)"
    using assms(1,5) occ len by (subst findMarkMac_search) (auto simp: ch_learn_def)
  show ?thesis
    using assms(1) len F assms(8) rx unfolding parseServerHandshake_def cache
    by (simp add: Let_def ch_learn_def CompareAuth_def)
qed


section \<open>Properties\<close>


text \<open>Handshake lengths. A client message is between 141 and 8192 bytes long and a server
  message between 96 and 8147; either is the representative, (the authentication tag,) padding of
  a random length, the mark and the MAC.\<close>

lemma handshake_lengths:
  assumes "hmac_ok c" "intn_ok intn" "entropy_ok rnd" "keypair_ok c k"
    "newClientHandshake intn nid ident k = Ok hs" "newServerHandshake intn nid idk k = Ok sh"
    "sh_serverAuth sh' = Some auth" "length auth = AuthLength" "sh_padLen sh' = sh_padLen sh"
    "sh_keypair sh' = k" "kp_representative k = Some repr"
  shows "(\<forall>blob. fst (client_generate c rnd now hs) = Ok blob \<longrightarrow>
      141 \<le> length blob \<and> length blob \<le> maxHandshakeLength \<and> take 32 blob = repr) \<and>
    (\<forall>blob. server_generate c rnd sh' = Ok blob \<longrightarrow>
      96 \<le> length blob \<and> length blob \<le> 8147 \<and> take 32 blob = repr \<and> take 32 (drop 32 blob) = auth)"
proof -
  have r: "length repr = 32" using assms(4,11) by (simp add: keypair_ok_def)
  obtain hs' where "newClientHandshake intn nid ident k = Ok hs'" "77 \<le> ch_padLen hs'"
    "ch_padLen hs' \<le> 8128" "ch_keypair hs' = k"
    using newClientHandshake_Ok [OF assms(2), of nid ident k] by blast
  with assms(5) have ch: "77 \<le> ch_padLen hs" "ch_padLen hs \<le> 8128" "ch_keypair hs = k" by auto
  obtain x where "newServerHandshake intn nid idk k = Ok x" "0 \<le> sh_padLen x" "sh_padLen x \<le> 8051"
    using newServerHandshake_Ok [OF assms(2), of nid idk k] by blast
  with assms(6,9) have sh: "0 \<le> sh_padLen sh'" "sh_padLen sh' \<le> 8051" by auto
  have "141 \<le> length blob \<and> length blob \<le> maxHandshakeLength \<and> take 32 blob = repr"
    if g: "fst (client_generate c rnd now hs) = Ok blob" for blob
  proof -
    obtain pad where pad: "csrand_Bytes rnd (nat (ch_padLen hs)) = Ok pad"
      using g ch assms(11) by (auto simp: client_generate_def makePad_def Let_def split: outcome.splits)
    then have "length pad = nat (ch_padLen hs)" using assms(3) by (auto simp: entropy_ok_def csrand_Bytes_def)
    moreover have "blob = hs_message c (ch_mac hs) repr [] pad (epoch_bytes (getEpochHour now))"
      using g client_generate_message [of hs repr rnd pad c now] pad ch assms(11) by simp
    ultimately show ?thesis
      using ch r assms(1) hs_message_prefix(1) [of repr c "ch_mac hs" "[]" pad _ "[]"] by (simp, linarith)
  qed
  moreover have "96 \<le> length blob \<and> length blob \<le> 8147 \<and> take 32 blob = repr \<and> take 32 (drop 32 blob) = auth"
    if g: "server_generate c rnd sh' = Ok blob" for blob
  proof -
    obtain pad where pad: "csrand_Bytes rnd (nat (sh_padLen sh')) = Ok pad"
      using g sh assms(7,10,11) by (auto simp: server_generate_def makePad_def Let_def split: outcome.splits)
    then have l: "length pad = nat (sh_padLen sh')" using assms(3) by (auto simp: entropy_ok_def csrand_Bytes_def)
    have b: "blob = hs_message c (sh_mac sh') repr auth pad (sh_epochHour sh')"
      using g server_generate_message [of sh' repr rnd pad auth c] pad sh assms(7,10,11) by simp
    from l b show ?thesis
      using sh r assms(1,8) client_message_head [of repr auth blob "length blob" c "sh_mac sh'" pad "sh_epochHour sh'" "[]"]
      by auto
  qed
  ultimately show ?thesis by blast
qed


definition demo_clock :: "int \<Rightarrow> nat \<Rightarrow> int" where
  "demo_clock t j = 3600000000000 + t + int (min j 6)"

definition demo_filter :: replayFilter where
  "demo_filter = \<lparr>rf_filter = Map.empty, fifo = [], rf_key = (0, 0), ttl = 10800000000000\<rparr>"

definition demo_sh :: serverHandshake where
  "demo_sh = \<lparr>sh_keypair = demo_keypair 2, sh_nodeID = replicate 20 9, sh_serverIdentity = demo_keypair 3,
     sh_epochHour = [], sh_serverAuth = None, sh_padLen = 0, sh_mac = replicate 32 3 @ replicate 20 9,
     clientRepresentative = None, clientMark = []\<rparr>"

definition demo_blob :: bytes where
  "demo_blob = hs_message demo_crypto (sh_mac demo_sh) (replicate 32 1) [] (replicate 77 0) (epoch_bytes 1)"

lemma demo_filter_timely: "rf_timely demo_filter t"
  by (simp add: demo_filter_def rf_timely_def rf_inv_def)

lemma demo_filter_fresh: "\<not> fst (TestAndSet demo_crypto demo_filter t m)"
  by (simp add: TestAndSet_def demo_filter_def compact.simps Let_def)

lemma demo_hours:
  "t \<in> {0..10} \<Longrightarrow> hours_ok demo_crypto (demo_clock t) 1 1 key body"
proof -
  assume t: "t \<in> {0..10}"
  have "(3600000000000 + t + int k) div 1000000000 = 3600" if "k < 6" for k
    using t that by auto
  then have "getEpochHour (demo_clock t k) = 1" if "k < 6" for k
    using that by (simp add: getEpochHour_def demo_clock_def)
  moreover have "h = 0 \<or> h = 2" if "\<bar>1 - h\<bar> \<le> 1" "h \<noteq> 1" for h :: int using that by auto
  moreover have "epoch_bytes 0 = [48]" "epoch_bytes 1 = [49]" "epoch_bytes 2 = [50]"
    by (simp_all add: epoch_bytes_def FormatInt_def format_nat.simps bytes_of_string_def byte_of_char_def)
  moreover have "hd (take 16 (hmac256 demo_crypto key (body @ [x]))) = x" for x
    by (simp add: demo_crypto_def pad_to_def)
  then have "x = y" if "take 16 (hmac256 demo_crypto key (body @ [x])) = take 16 (hmac256 demo_crypto key (body @ [y]))"
    for x y using that by metis
  from this [of 48 49] this [of 50 49]
  have "take 16 (hmac256 demo_crypto key (body @ [48])) \<noteq> take 16 (hmac256 demo_crypto key (body @ [49]))"
    "take 16 (hmac256 demo_crypto key (body @ [50])) \<noteq> take 16 (hmac256 demo_crypto key (body @ [49]))"
    by auto
  ultimately show ?thesis unfolding hours_ok_def by (auto, metis)
qed

lemma demo_accept:
  "\<exists>seed hs' f1. parseClientHandshake demo_crypto (demo_clock 0) demo_filter demo_sh demo_blob = (Ok seed, hs', f1)"
proof -
  obtain seed auth where S: "ServerHandshake demo_crypto (replicate 32 1) (demo_keypair 2) (demo_keypair 3)
      (replicate 20 9) = (True, seed, auth)" using demo_server_handshake [of "replicate 20 9"] by blast
  have "length demo_blob = 141" using demo_crypto_ok(1) by (simp add: demo_blob_def)
  then show ?thesis
    using server_full [OF demo_crypto_ok(1) _ demo_blob_def _ _ _ demo_hours [of 0], of demo_filter seed auth]
      S demo_filter_fresh
    by (auto simp: sh_knows_def demo_sh_def ToPublic_def demo_crypto_def)
qed


lemma handshake_lengths_example:
  "\<exists>hs blob. newClientHandshake (\<lambda>_. 0) (replicate 20 9) (replicate 32 3) (demo_keypair 1) = Ok hs \<and>
     fst (client_generate demo_crypto (\<lambda>n. Ok (replicate n 0)) 5 hs) = Ok blob \<and>
     141 \<le> length blob \<and> length blob \<le> 8192"
proof -
  have i: "intn_ok (\<lambda>_. 0)" by (simp add: intn_ok_def)
  have e: "entropy_ok (\<lambda>n. Ok (replicate n 0) :: (nat, bytes) outcome)" by (simp add: entropy_ok_def)
  obtain hs where H: "newClientHandshake (\<lambda>_. 0) (replicate 20 9) (replicate 32 3) (demo_keypair 1) = Ok hs"
    "ch_keypair hs = demo_keypair 1" "77 \<le> ch_padLen hs"
    using newClientHandshake_Ok [OF i, of "replicate 20 9" "replicate 32 3" "demo_keypair 1"] by auto
  obtain sh where S: "newServerHandshake (\<lambda>_. 0) (replicate 20 9) (demo_keypair 3) (demo_keypair 1) = Ok sh"
    "sh_keypair sh = demo_keypair 1"
    using newServerHandshake_Ok [OF i, of "replicate 20 9" "demo_keypair 3" "demo_keypair 1"] by auto
  have r: "kp_representative (demo_keypair 1) = Some (replicate 32 1)" by (simp add: demo_keypair_def)
  obtain blob where B: "fst (client_generate demo_crypto (\<lambda>n. Ok (replicate n 0)) 5 hs) = Ok blob"
    using client_generate_message [of hs "replicate 32 1" "\<lambda>n. Ok (replicate n 0)"
        "replicate (nat (ch_padLen hs)) 0" demo_crypto 5] H r by (auto simp: csrand_Bytes_def)
  have "141 \<le> length blob \<and> length blob \<le> 8192"
    using handshake_lengths [OF demo_crypto_ok(1) i e demo_keypair_ok H(1) S(1),
        of "sh\<lparr>sh_serverAuth := Some (replicate 32 0)\<rparr>" "replicate 32 0" "replicate 32 1" 5] B S(2) r
    by simp
  with H B show ?thesis by blast
qed

end
