(* ===== verification/Session.thy ===== *)
theory Session
  imports Handshake
begin

text \<open>
  Setting up a connection, from \<open>transports/defconn/defconn.go\<close>: \<open>clientHandshake\<close>,
  \<open>serverHandshake\<close>, \<open>newdefconnClientConn\<close>, \<open>Dial\<close>, \<open>WrapConn\<close> and
  \<open>closeAfterDelay\<close>. The network is the list of results that the successive \<open>Read\<close> calls on
  the underlying connection return; \<open>None\<close> says that the routine still waits when they are used
  up. What is written is part of the result. The main theorem is that two ends that exchange
  their handshakes, cut by the network in any way, end up with linked encoders and decoders in both
  directions.
\<close>

section \<open>Constants and errors\<close>

definition second :: int where [simp]: "second = 1000000000"
definition clientHandshakeTimeout :: int where [simp]: "clientHandshakeTimeout = 60 * second"
definition serverHandshakeTimeout :: int where [simp]: "serverHandshakeTimeout = 30 * second"
definition replayTTL :: int where [simp]: "replayTTL = 3 * 3600 * second"
definition maxCloseDelay :: int where [simp]: "maxCloseDelay = 60"

datatype conn_error = HsError hs_error | PktError packet_error | ConnNet nat | ConnRand nat
  | ConnMsg string

type_synonym net_reads = "(nat, bytes) outcome list"

section \<open>The client\<close>

definition client_keys :: "crypto \<Rightarrow> bytes \<Rightarrow> 'a defConn_scheme \<Rightarrow> (conn_error, 'a defConn_scheme) outcome" where
  "client_keys c seed conn = and_then (Kdf c seed (KeyLength * 2)) (\<lambda>okm.
     (case (NewEncoder (take KeyLength okm), NewDecoder (drop KeyLength okm)) of
        (Ok e, Ok d) \<Rightarrow> Ok (conn\<lparr>Encoder := Some e, Decoder := Some d\<rparr>)
      | _ \<Rightarrow> Panic))"

fun client_wait :: "crypto \<Rightarrow> clientHandshake \<Rightarrow> 'a defConn_scheme \<Rightarrow> net_reads \<Rightarrow>
    ((conn_error, 'a defConn_scheme) outcome \<times> net_reads) option" where
  "client_wait c hs conn [] = None"
| "client_wait c hs conn (Err e # reads) = Some (Err (ConnNet e), reads)"
| "client_wait c hs conn (Panic # reads) = Some (Panic, reads)"
| "client_wait c hs conn (Ok chunk # reads) =
    (let conn1 = conn\<lparr>ReceiveBuffer := ReceiveBuffer conn @ chunk\<rparr>
     in (case parseServerHandshake c hs (ReceiveBuffer conn1) of
           (Err er, hs') \<Rightarrow> (if er = ErrMarkNotFoundYet then client_wait c hs' conn1 reads
                           else Some (Err (HsError er), reads))
         | (Panic, hs') \<Rightarrow> Some (Panic, reads)
         | (Ok (n, seed), hs') \<Rightarrow>
             Some (client_keys c seed (conn1\<lparr>ReceiveBuffer := drop n (ReceiveBuffer conn1)\<rparr>), reads)))"

text \<open>The result carries the bytes written to the network. \<open>wr\<close> is the error of the write, if any.\<close>

definition defconn_clientHandshake :: "crypto \<Rightarrow> (int \<Rightarrow> int) \<Rightarrow> nat entropy \<Rightarrow> int \<Rightarrow> nat option \<Rightarrow>
    net_reads \<Rightarrow> 'a defConn_scheme \<Rightarrow> bytes \<Rightarrow> bytes \<Rightarrow> keypair \<Rightarrow>
    bytes \<times> ((conn_error, 'a defConn_scheme) outcome \<times> net_reads) option" where
  "defconn_clientHandshake c intn rnd now wr reads conn nodeID peerIdentityKey sessionKey =
    (if IsServer conn then ([], Some (Err (ConnMsg ''clientHandshake called on server connection''), reads))
     else (case newClientHandshake intn nodeID peerIdentityKey sessionKey of
         Err e \<Rightarrow> ([], Some (Err (HsError e), reads)) | Panic \<Rightarrow> ([], Some (Panic, reads))
       | Ok hs \<Rightarrow>
          (case client_generate c rnd now hs of
             (Err e, hs1) \<Rightarrow> ([], Some (Err (HsError e), reads)) | (Panic, hs1) \<Rightarrow> ([], Some (Panic, reads))
           | (Ok blob, hs1) \<Rightarrow>
              (case wr of Some e \<Rightarrow> ([], Some (Err (ConnNet e), reads))
               | None \<Rightarrow> (blob, client_wait c hs1 conn reads)))))"

section \<open>The server\<close>

record serverFactory =
  sf_nodeID :: bytes
  sf_identityKey :: keypair
  sf_lenSeed :: bytes
  sf_replayFilter :: replayFilter
  sf_closeDelay :: int

definition server_keys :: "crypto \<Rightarrow> bytes \<Rightarrow> 'a defConn_scheme \<Rightarrow> (conn_error, 'a defConn_scheme) outcome" where
  "server_keys c seed conn = and_then (Kdf c seed (KeyLength * 2)) (\<lambda>okm.
     (case (NewEncoder (drop KeyLength okm), NewDecoder (take KeyLength okm)) of
        (Ok e, Ok d) \<Rightarrow> Ok (conn\<lparr>Encoder := Some e, Decoder := Some d\<rparr>)
      | _ \<Rightarrow> Panic))"

text \<open>What follows the loop: the response and the PRNG seed in a first packet, padded to a full
  cell, written in one piece.\<close>

definition server_respond :: "crypto \<Rightarrow> nat entropy \<Rightarrow> nat option \<Rightarrow> bytes \<Rightarrow> serverHandshake \<Rightarrow>
    'a defConn_scheme \<Rightarrow> bytes \<times> (conn_error, 'a defConn_scheme) outcome" where
  "server_respond c rnd wr lenSeed hs conn =
    (case server_generate c rnd hs of
       Err e \<Rightarrow> ([], Err (HsError e)) | Panic \<Rightarrow> ([], Panic)
     | Ok blob \<Rightarrow>
        (case Encoder conn of None \<Rightarrow> ([], Panic)
         | Some e \<Rightarrow>
            (case MakePacket c e PacketTypePrngSeed lenSeed
                (word_of_int (int MaxPacketPayloadLength - int (length lenSeed))) of
               (Err er, e') \<Rightarrow> ([], Err (PktError er)) | (Panic, e') \<Rightarrow> ([], Panic)
             | (Ok frame, e') \<Rightarrow>
                (case wr of Some er \<Rightarrow> ([], Err (ConnNet er))
                 | None \<Rightarrow> (blob @ frame, Ok (conn\<lparr>Encoder := Some e'\<rparr>))))))"

text \<open>\<open>clks i\<close> are the clock readings of the \<open>i\<close>-th attempt to parse, \<open>dl2\<close> the error of the second
  \<open>SetDeadline\<close>, which makes the routine return \<open>nil\<close>. The replay filter is shared by all
  connections of the factory and is returned.\<close>

fun server_wait :: "crypto \<Rightarrow> nat entropy \<Rightarrow> nat option \<Rightarrow> nat option \<Rightarrow> (nat \<Rightarrow> nat \<Rightarrow> int) \<Rightarrow> nat \<Rightarrow>
    bytes \<Rightarrow> replayFilter \<Rightarrow> serverHandshake \<Rightarrow> 'a defConn_scheme \<Rightarrow> net_reads \<Rightarrow>
    bytes \<times> ((conn_error, 'a defConn_scheme) outcome \<times> net_reads) option \<times> replayFilter" where
  "server_wait c rnd dl2 wr clks i lenSeed f hs conn [] = ([], None, f)"
| "server_wait c rnd dl2 wr clks i lenSeed f hs conn (Err e # reads) = ([], Some (Err (ConnNet e), reads), f)"
| "server_wait c rnd dl2 wr clks i lenSeed f hs conn (Panic # reads) = ([], Some (Panic, reads), f)"
| "server_wait c rnd dl2 wr clks i lenSeed f hs conn (Ok chunk # reads) =
    (let conn1 = conn\<lparr>ReceiveBuffer := ReceiveBuffer conn @ chunk\<rparr>
     in (case parseClientHandshake c (clks i) f hs (ReceiveBuffer conn1) of
           (Err er, hs', f') \<Rightarrow>
             (if er = ErrMarkNotFoundYet then server_wait c rnd dl2 wr clks (i + 1) lenSeed f' hs' conn1 reads
              else ([], Some (Err (HsError er), reads), f'))
         | (Panic, hs', f') \<Rightarrow> ([], Some (Panic, reads), f')
         | (Ok seed, hs', f') \<Rightarrow>
            (let conn2 = conn1\<lparr>ReceiveBuffer := []\<rparr>
             in (case dl2 of
                   Some er \<Rightarrow> ([], Some (Ok conn2, reads), f')
                 | None \<Rightarrow>
                    (case server_keys c seed conn2 of
                       Err er \<Rightarrow> ([], Some (Err er, reads), f') | Panic \<Rightarrow> ([], Some (Panic, reads), f')
                     | Ok conn3 \<Rightarrow>
                        (let (out, r) = server_respond c rnd wr lenSeed hs' conn3
                         in (out, Some (r, reads), f')))))))"

definition defconn_serverHandshake :: "crypto \<Rightarrow> (int \<Rightarrow> int) \<Rightarrow> nat entropy \<Rightarrow> nat option \<Rightarrow> nat option \<Rightarrow>
    nat option \<Rightarrow> (nat \<Rightarrow> nat \<Rightarrow> int) \<Rightarrow> net_reads \<Rightarrow> serverFactory \<Rightarrow> 'a defConn_scheme \<Rightarrow> keypair \<Rightarrow>
    bytes \<times> ((conn_error, 'a defConn_scheme) outcome \<times> net_reads) option \<times> replayFilter" where
  "defconn_serverHandshake c intn rnd dl1 dl2 wr clks reads sf conn sessionKey =
    (if \<not> IsServer conn
     then ([], Some (Err (ConnMsg ''serverHandshake called on client connection''), reads), sf_replayFilter sf)
     else (case newServerHandshake intn (sf_nodeID sf) (sf_identityKey sf) sessionKey of
         Err e \<Rightarrow> ([], Some (Err (HsError e), reads), sf_replayFilter sf)
       | Panic \<Rightarrow> ([], Some (Panic, reads), sf_replayFilter sf)
       | Ok hs \<Rightarrow>
          (case dl1 of Some er \<Rightarrow> ([], Some (Err (ConnNet er), reads), sf_replayFilter sf)
           | None \<Rightarrow> server_wait c rnd dl2 wr clks 0 (sf_lenSeed sf) (sf_replayFilter sf) hs conn reads)))"

section \<open>Opening and closing\<close>

definition new_conn :: "bool \<Rightarrow> bytes \<Rightarrow> defConn" where
  "new_conn server lenSeed = \<lparr>IsServer = server, LenDist = lenSeed, nRealSegSent = 0, nRealSegRcv = 0,
     ConnState = NewState, ReceiveBuffer = [], ReceiveDecodedBuffer = [], Encoder = None, Decoder = None\<rparr>"

record clientArgs =
  ca_nodeID :: bytes
  ca_publicKey :: bytes
  ca_sessionKey :: keypair

text \<open>\<open>newdefconnClientConn\<close>: \<open>dl1\<close> and \<open>dl2\<close> are the results of the two \<open>SetDeadline\<close>
  calls.\<close>

definition newdefconnClientConn :: "crypto \<Rightarrow> (int \<Rightarrow> int) \<Rightarrow> nat entropy \<Rightarrow> int \<Rightarrow> nat option \<Rightarrow> nat option \<Rightarrow>
    nat option \<Rightarrow> net_reads \<Rightarrow> clientArgs \<Rightarrow>
    bytes \<times> ((conn_error, defConn) outcome \<times> net_reads) option" where
  "newdefconnClientConn c intn rnd now dl1 dl2 wr reads args =
    (case NewSeed rnd of
       Err e \<Rightarrow> ([], Some (Err (ConnRand e), reads)) | Panic \<Rightarrow> ([], Some (Panic, reads))
     | Ok seed \<Rightarrow>
        (case dl1 of Some e \<Rightarrow> ([], Some (Err (ConnNet e), reads))
         | None \<Rightarrow>
            (case defconn_clientHandshake c intn rnd now wr reads (new_conn False seed) (ca_nodeID args)
                (ca_publicKey args) (ca_sessionKey args) of
               (out, Some (Ok conn, reads')) \<Rightarrow>
                 (case dl2 of Some e \<Rightarrow> (out, Some (Err (ConnNet e), reads'))
                  | None \<Rightarrow> (out, Some (Ok conn, reads')))
             | r \<Rightarrow> r)))"

text \<open>\<open>Dial\<close>; \<open>dial\<close> is the result of \<open>dialFn\<close>: its error, or the reads of the new connection. The
  last component tells whether the dialled connection was closed again.\<close>

definition Dial :: "crypto \<Rightarrow> (int \<Rightarrow> int) \<Rightarrow> nat entropy \<Rightarrow> int \<Rightarrow> nat option \<Rightarrow> nat option \<Rightarrow>
    nat option \<Rightarrow> (nat, net_reads) outcome \<Rightarrow> clientArgs option \<Rightarrow>
    ((conn_error, defConn) outcome \<times> bool) option" where
  "Dial c intn rnd now dl1 dl2 wr dial args =
    (case args of
       None \<Rightarrow> Some (Err (ConnMsg ''invalid argument type for args''), False)
     | Some ca \<Rightarrow>
        (case dial of
           Err e \<Rightarrow> Some (Err (ConnNet e), False) | Panic \<Rightarrow> Some (Panic, False)
         | Ok reads \<Rightarrow>
            (case snd (newdefconnClientConn c intn rnd now dl1 dl2 wr reads ca) of
               None \<Rightarrow> None
             | Some (Ok conn, _) \<Rightarrow> Some (Ok conn, False)
             | Some (Err e, _) \<Rightarrow> Some (Err e, True)
             | Some (Panic, _) \<Rightarrow> Some (Panic, False))))"

text \<open>\<open>closeAfterDelay\<close>: close at once, or read and discard until the deadline and close then.\<close>

datatype close_action = CloseNow | DiscardUntil int

definition closeAfterDelay :: "serverFactory \<Rightarrow> int \<Rightarrow> int \<Rightarrow> nat option \<Rightarrow> close_action" where
  "closeAfterDelay sf startTime now dl =
    (let delay = i64 (i64 (sf_closeDelay sf * second) + serverHandshakeTimeout);
         deadline = startTime + delay
     in if now > deadline then CloseNow
        else (case dl of Some _ \<Rightarrow> CloseNow | None \<Rightarrow> DiscardUntil deadline))"

text \<open>\<open>WrapConn\<close>: key generation, the handshake and, when it fails, the delayed close. The session
  key pair is made from \<open>draws\<close>; \<open>t0\<close> and \<open>t1\<close> are the start time and the time when the handshake
  failed.\<close>

definition WrapConn :: "crypto \<Rightarrow> (int \<Rightarrow> int) \<Rightarrow> (nat, bytes) outcome list \<Rightarrow> nat entropy \<Rightarrow> nat option \<Rightarrow>
    nat option \<Rightarrow> nat option \<Rightarrow> nat option \<Rightarrow> (nat \<Rightarrow> nat \<Rightarrow> int) \<Rightarrow> int \<Rightarrow> int \<Rightarrow> net_reads \<Rightarrow> serverFactory \<Rightarrow>
    (bytes \<times> (conn_error, defConn) outcome \<times> close_action option \<times> serverFactory) option" where
  "WrapConn c intn draws rnd dl1 dl2 dl3 wr clks t0 t1 reads sf =
    (case NewKeypair c True draws of
       None \<Rightarrow> None
     | Some (Err e, _) \<Rightarrow> Some ([], Err (ConnRand e), None, sf)
     | Some (Panic, _) \<Rightarrow> Some ([], Panic, None, sf)
     | Some (Ok sessionKey, _) \<Rightarrow>
        (case defconn_serverHandshake c intn rnd dl1 dl2 wr clks reads sf
            (new_conn True (sf_lenSeed sf)) sessionKey of
           (out, None, f) \<Rightarrow> None
         | (out, Some (Ok conn, _), f) \<Rightarrow> Some (out, Ok conn, None, sf\<lparr>sf_replayFilter := f\<rparr>)
         | (out, Some (Err e, _), f) \<Rightarrow>
             Some (out, Err e, Some (closeAfterDelay sf t0 t1 dl3), sf\<lparr>sf_replayFilter := f\<rparr>)
         | (out, Some (Panic, _), f) \<Rightarrow> Some (out, Panic, None, sf\<lparr>sf_replayFilter := f\<rparr>)))"


section \<open>Handshakes that arrive in pieces\<close>

lemma append_split: "a @ b = c @ d \<Longrightarrow> length c \<le> length a \<Longrightarrow> \<exists>r. a = c @ r \<and> r @ b = d"
  by (auto simp: append_eq_append_conv2)

lemma prefix_take: "a @ b = c \<Longrightarrow> a = take (length a) c"
  by auto

lemma sh_learn_mac: "sh_learn c repr hs' = sh_learn c repr hs \<Longrightarrow> sh_mac hs' = sh_mac hs"
  by (metis sh_learn_simps(2))

lemma ch_learn_same:
  assumes "ch_learn c repr auth hs' = ch_learn c repr auth hs"
  shows "ch_mac hs' = ch_mac hs" "ch_epochHour hs' = ch_epochHour hs" "ch_keypair hs' = ch_keypair hs"
    "ch_serverIdentity hs' = ch_serverIdentity hs" "ch_nodeID hs' = ch_nodeID hs"
proof -
  have k: "ch_mac (ch_learn c repr auth h) = ch_mac h" "ch_epochHour (ch_learn c repr auth h) = ch_epochHour h"
    "ch_keypair (ch_learn c repr auth h) = ch_keypair h" "ch_nodeID (ch_learn c repr auth h) = ch_nodeID h"
    "ch_serverIdentity (ch_learn c repr auth h) = ch_serverIdentity h" for h
    by (simp_all add: ch_learn_def)
  show "ch_mac hs' = ch_mac hs" "ch_epochHour hs' = ch_epochHour hs" "ch_keypair hs' = ch_keypair hs"
    "ch_serverIdentity hs' = ch_serverIdentity hs" "ch_nodeID hs' = ch_nodeID hs"
    using k assms by metis+
qed

lemma server_wait_chunks:
  assumes "hmac_ok c" "length repr = 32" "length blob \<le> 8192" "[] \<notin> set chunks" "chunks \<noteq> []"
    "blob = hs_message c (sh_mac hs) repr [] pad hour" "sh_knows c repr hs"
    "sole_mark blob (mark_of c (sh_mac hs) repr) (32 + length pad)"
    "ReceiveBuffer conn @ concat chunks = blob"
  shows "\<exists>hs' j conn' x. sh_knows c repr hs' \<and> sh_learn c repr hs' = sh_learn c repr hs \<and>
    conn'\<lparr>ReceiveBuffer := []\<rparr> = conn\<lparr>ReceiveBuffer := []\<rparr> \<and> ReceiveBuffer conn' @ x = blob \<and>
    server_wait c rnd dl2 wr clks i lenSeed f hs conn (map Ok chunks @ later) =
    server_wait c rnd dl2 wr clks j lenSeed f hs' conn' (Ok x # later)"
  using assms
proof (induction chunks arbitrary: hs conn i)
  case (Cons x xs)
  show ?case
  proof (cases xs)
    case Nil
    with Cons.prems show ?thesis
      by (intro exI [of _ hs] exI [of _ i] exI [of _ conn] exI [of _ x]) simp
  next
    case (Cons y ys)
    let ?conn = "conn\<lparr>ReceiveBuffer := ReceiveBuffer conn @ x\<rparr>"
    have full: "(ReceiveBuffer conn @ x) @ concat xs = blob" using Cons.prems(9) by simp
    then have pre: "ReceiveBuffer conn @ x = take (length (ReceiveBuffer conn @ x)) blob"
      by (rule prefix_take)
    have "concat xs \<noteq> []" using Cons Cons.prems(4) by auto
    then have "length (ReceiveBuffer conn @ x) < length blob"
      using arg_cong [OF full, of length] by (cases "concat xs") simp_all
    from server_prefix [OF Cons.prems(1,2,6) this Cons.prems(3,7,8), folded pre]
    obtain hs1 where P: "parseClientHandshake c (clks i) f hs (ReceiveBuffer conn @ x) = (Err ErrMarkNotFoundYet, hs1, f)"
      "sh_knows c repr hs1" "sh_learn c repr hs1 = sh_learn c repr hs" by blast
    note mac = sh_learn_mac [OF P(3)]
    have "\<exists>hs' j conn' x'. sh_knows c repr hs' \<and> sh_learn c repr hs' = sh_learn c repr hs1 \<and>
        conn'\<lparr>ReceiveBuffer := []\<rparr> = ?conn\<lparr>ReceiveBuffer := []\<rparr> \<and> ReceiveBuffer conn' @ x' = blob \<and>
        server_wait c rnd dl2 wr clks (i + 1) lenSeed f hs1 ?conn (map Ok xs @ later) =
        server_wait c rnd dl2 wr clks j lenSeed f hs' conn' (Ok x' # later)"
      using Cons.prems mac P(2) full Cons by (intro Cons.IH) auto
    then show ?thesis using P(1,3) by simp
  qed
qed simp

lemma client_wait_chunks:
  assumes "hmac_ok c" "length repr = 32" "length auth = 32" "length msg \<le> 8192"
    "msg = hs_message c (ch_mac hs) repr auth pad (ch_epochHour hs)" "ch_knows c repr auth hs"
    "first_mark msg (mark_of c (ch_mac hs) repr) (64 + length pad)"
    "ClientHandshake c (ch_keypair hs) (ToPublic c repr) (ch_serverIdentity hs) (ch_nodeID hs) = (True, seed, auth)"
    "ReceiveBuffer conn @ concat chunks = msg @ rest" "length (ReceiveBuffer conn) < length msg"
  shows "\<exists>k got. client_wait c hs conn (map Ok chunks) =
      Some (client_keys c seed (conn\<lparr>ReceiveBuffer := got\<rparr>), map Ok (drop k chunks)) \<and>
    got @ concat (drop k chunks) = rest"
  using assms
proof (induction chunks arbitrary: hs conn)
  case Nil
  then show ?case by simp
next
  case (Cons x xs)
  let ?buf = "ReceiveBuffer conn @ x"
  have full: "?buf @ concat xs = msg @ rest" using Cons.prems(9) by simp
  show ?case
  proof (cases "length ?buf < length msg")
    case True
    then have pre: "?buf = take (length ?buf) msg" using prefix_take [OF full] by simp
    from client_prefix [OF Cons.prems(1-3,5) True Cons.prems(4,6,7), folded pre]
    obtain hs1 where P: "parseServerHandshake c hs ?buf = (Err ErrMarkNotFoundYet, hs1)"
      "ch_knows c repr auth hs1" "ch_learn c repr auth hs1 = ch_learn c repr auth hs" by blast
    note same = ch_learn_same [OF P(3)]
    have "\<exists>k got. client_wait c hs1 (conn\<lparr>ReceiveBuffer := ?buf\<rparr>) (map Ok xs) =
        Some (client_keys c seed ((conn\<lparr>ReceiveBuffer := ?buf\<rparr>)\<lparr>ReceiveBuffer := got\<rparr>), map Ok (drop k xs)) \<and>
        got @ concat (drop k xs) = rest"
      by (rule Cons.IH [OF Cons.prems(1-4), of hs1]) (use Cons.prems same P(2) full True in auto)
    then obtain k got where "client_wait c hs1 (conn\<lparr>ReceiveBuffer := ?buf\<rparr>) (map Ok xs) =
        Some (client_keys c seed (conn\<lparr>ReceiveBuffer := got\<rparr>), map Ok (drop k xs))"
      "got @ concat (drop k xs) = rest" by auto
    then show ?thesis using P(1) by (intro exI [of _ "Suc k"] exI [of _ got]) simp
  next
    case False
    then obtain r where r: "?buf = msg @ r" "r @ concat xs = rest"
      using append_split [OF full] by auto
    have "parseServerHandshake c hs (msg @ r) = (Ok (length msg, seed), ch_learn c repr auth hs)"
      by (rule client_full [OF Cons.prems(1-3,5,4,6-8)])
    then show ?thesis using r by (intro exI [of _ 1] exI [of _ r]) simp
  qed
qed

lemma client_server_keys:
  assumes "hkdf_ok c" "link_crypto_ok c"
  shows "\<exists>ec dc es ds. client_keys c seed cc = Ok (cc\<lparr>Encoder := Some ec, Decoder := Some dc\<rparr>) \<and>
    server_keys c seed sc = Ok (sc\<lparr>Encoder := Some es, Decoder := Some ds\<rparr>) \<and>
    link_ok c ec ds \<and> link_ok c es dc \<and> counter (e_nonce ec) = 1 \<and> counter (e_nonce es) = 1"
proof -
  let ?okm = "hkdf256 c seed tKey mExpand (KeyLength * 2)"
  have "length ?okm = 144" using assms(1) by simp
  then obtain e1 d1 e2 d2 where
    "NewEncoder (take KeyLength ?okm) = Ok e1" "NewDecoder (take KeyLength ?okm) = Ok d1" "linked e1 d1"
    "counter (e_nonce e1) = 1"
    "NewEncoder (drop KeyLength ?okm) = Ok e2" "NewDecoder (drop KeyLength ?okm) = Ok d2" "linked e2 d2"
    "counter (e_nonce e2) = 1"
    using NewEncoder_NewDecoder [of "take KeyLength ?okm"] NewEncoder_NewDecoder [of "drop KeyLength ?okm"]
    by auto
  then show ?thesis
    using assms by (auto simp: client_keys_def server_keys_def link_ok_def)
qed


section \<open>Both ends\<close>

definition good_entropy :: "nat entropy \<Rightarrow> bool" where
  "good_entropy rnd \<longleftrightarrow> (\<forall>n. \<exists>b. rnd n = Ok b \<and> length b = n)"

definition seed_packet :: "bytes \<Rightarrow> PacketInfo" where
  "seed_packet seed = \<lparr>PktType = PacketTypePrngSeed, Data = seed, PadLen = 512\<rparr>"

lemma server_respond_Ok:
  assumes "link_crypto_ok c" "good_entropy rnd" "kp_representative (sh_keypair hs) = Some repr"
    "0 \<le> sh_padLen hs" "sh_serverAuth hs = Some auth" "length lenSeed = 24"
    "Encoder conn = Some e" "counter (e_nonce e) = 1"
  shows "\<exists>pad frame e'. length pad = nat (sh_padLen hs) \<and> csrand_Bytes rnd (length pad) = Ok pad \<and>
    length frame = 557 \<and>
    Send_all c e [seed_packet lenSeed] = (Ok frame, e') \<and>
    server_respond c rnd None lenSeed hs conn =
      (hs_message c (sh_mac hs) repr auth pad (sh_epochHour hs) @ frame, Ok (conn\<lparr>Encoder := Some e'\<rparr>))"
proof -
  obtain pad where pad: "csrand_Bytes rnd (nat (sh_padLen hs)) = Ok pad" "length pad = nat (sh_padLen hs)"
    using assms(2) by (auto simp: good_entropy_def csrand_Bytes_def)
  have len: "length (packet_bytes PacketTypePrngSeed lenSeed (replicate 512 0)) = 539"
    using assms(6) by simp
  obtain frame e' where E: "Encode c e MaximumSegmentLength
      (packet_bytes PacketTypePrngSeed lenSeed (replicate 512 0)) = (Ok frame, e')"
    using Encode_Ok_iff [OF assms(1), of e MaximumSegmentLength
        "packet_bytes PacketTypePrngSeed lenSeed (replicate 512 0)"] len assms(8) by auto
  have "length frame = 557" using Encode_length [OF assms(1) E] len by simp
  moreover have M: "MakePacket c e PacketTypePrngSeed lenSeed 512 = (Ok frame, e')"
    using E assms(6) by (simp add: MakePacket_def)
  moreover have "Send_all c e [seed_packet lenSeed] = (Ok frame, e')"
    using M by (simp add: Send_one_def seed_packet_def)
  ultimately show ?thesis
    using pad server_generate_message [OF assms(3) pad(1) assms(4,5)] assms(6,7)
    by (auto simp: server_respond_def)
qed

lemma client_blob:
  assumes "intn_ok intn" "good_entropy rnd" "keypair_ok c ck" "kp_representative ck = Some repr"
    "\<not> IsServer cc"
  shows "\<exists>hs pad. length pad \<in> {77..8128} \<and> ch_mac hs = ident @ nid \<and> ch_keypair hs = ck \<and>
    ch_serverIdentity hs = ident \<and> ch_nodeID hs = nid \<and> serverRepresentative hs = None \<and>
    ch_epochHour hs = epoch_bytes (getEpochHour now) \<and>
    (\<forall>reads. defconn_clientHandshake c intn rnd now None reads cc nid ident ck =
      (hs_message c (ident @ nid) repr [] pad (epoch_bytes (getEpochHour now)), client_wait c hs cc reads))"
proof -
  obtain hs where hs: "newClientHandshake intn nid ident ck = Ok hs" "77 \<le> ch_padLen hs"
    "ch_padLen hs \<le> 8128" "ch_keypair hs = ck" "ch_nodeID hs = nid" "ch_serverIdentity hs = ident"
    "ch_mac hs = ident @ nid" "serverRepresentative hs = None"
    using newClientHandshake_Ok [OF assms(1)] by blast
  obtain pad where pad: "csrand_Bytes rnd (nat (ch_padLen hs)) = Ok pad" "length pad = nat (ch_padLen hs)"
    using assms(2) by (auto simp: good_entropy_def csrand_Bytes_def)
  have G: "client_generate c rnd now hs = (Ok (hs_message c (ident @ nid) repr [] pad
      (epoch_bytes (getEpochHour now))), hs\<lparr>ch_epochHour := epoch_bytes (getEpochHour now)\<rparr>)"
    using client_generate_message [of hs repr rnd pad c now] hs pad assms(4) by simp
  show ?thesis
    using hs pad(2) G assms(5)
    by (intro exI [of _ "hs\<lparr>ch_epochHour := epoch_bytes (getEpochHour now)\<rparr>"] exI [of _ pad])
      (auto simp: defconn_clientHandshake_def)
qed

lemma server_session:
  assumes "hmac_ok c" "hkdf_ok c" "link_crypto_ok c" "intn_ok intn" "good_entropy rnd"
    "keypair_ok c ck" "kp_representative ck = Some repr" "keypair_ok c sk" "kp_representative sk = Some repr'"
    "length (sf_lenSeed sf) = 24" "IsServer sc" "ReceiveBuffer sc = []"
    "length pad \<in> {77..8128}" "key = kp_public (sf_identityKey sf) @ sf_nodeID sf"
    "blob = hs_message c key repr [] pad (epoch_bytes hc)" "concat chunks = blob" "[] \<notin> set chunks"
    "\<forall>i. hours_ok c (clks i) H hc key (repr @ pad @ mark_of c key repr)"
    "\<forall>i. \<forall>k < 6. \<not> fst (TestAndSet c (sf_replayFilter sf) (clks i k) (drop (length blob - 16) blob))"
    "ServerHandshake c (kp_public ck) sk (sf_identityKey sf) (sf_nodeID sf) = (True, seed, auth)"
    "sole_mark blob (mark_of c key repr) (32 + length pad)"
  shows "\<exists>out sconn f' pad' frame es0 es ds. length pad' \<le> 8051 \<and>
    csrand_Bytes rnd (length pad') = Ok pad' \<and> length frame = 557 \<and>
    out = hs_message c key repr' auth pad' (epoch_bytes hc) @ frame \<and>
    defconn_serverHandshake c intn rnd None None None clks (map Ok chunks @ later) sf sc sk =
      (out, Some (Ok sconn, later), f') \<and>
    server_keys c seed sc = Ok (sc\<lparr>Encoder := Some es0, Decoder := Some ds\<rparr>) \<and>
    Send_all c es0 [seed_packet (sf_lenSeed sf)] = (Ok frame, es) \<and>
    sconn = sc\<lparr>Encoder := Some es, Decoder := Some ds\<rparr>"
proof -
  have r: "length repr = 32" "ToPublic c repr = kp_public ck" using assms(6,7) by (auto simp: keypair_ok_def)
  have len: "length blob = length pad + 64" using assms(1,15) r by simp
  then have ne: "chunks \<noteq> []" using assms(16) by auto
  obtain sh where sh: "newServerHandshake intn (sf_nodeID sf) (sf_identityKey sf) sk = Ok sh"
    "0 \<le> sh_padLen sh" "sh_padLen sh \<le> 8051" "sh_keypair sh = sk" "sh_nodeID sh = sf_nodeID sf"
    "sh_serverIdentity sh = sf_identityKey sf" "sh_mac sh = key" "clientRepresentative sh = None"
    using newServerHandshake_Ok [OF assms(4)] assms(14) by blast
  let ?f = "sf_replayFilter sf"
  have st: "length blob \<le> 8192" "blob = hs_message c (sh_mac sh) repr [] pad (epoch_bytes hc)"
    "sh_knows c repr sh" "sole_mark blob (mark_of c (sh_mac sh) repr) (32 + length pad)"
    "ReceiveBuffer sc @ concat chunks = blob"
    using assms(12,13,15,16,21) len sh(7,8) by (simp_all add: sh_knows_def)
  obtain hs' j conn' x where W: "sh_knows c repr hs'" "sh_learn c repr hs' = sh_learn c repr sh"
    "conn'\<lparr>ReceiveBuffer := []\<rparr> = sc\<lparr>ReceiveBuffer := []\<rparr>" "ReceiveBuffer conn' @ x = blob"
    "server_wait c rnd None None clks 0 (sf_lenSeed sf) ?f sh sc (map Ok chunks @ later) =
     server_wait c rnd None None clks j (sf_lenSeed sf) ?f hs' conn' (Ok x # later)"
    using server_wait_chunks [OF assms(1) r(1) st(1) assms(17) ne st(2-5)] by blast
  have kk: "sh_keypair (sh_learn c repr h) = sh_keypair h" "sh_nodeID (sh_learn c repr h) = sh_nodeID h"
    "sh_serverIdentity (sh_learn c repr h) = sh_serverIdentity h" "sh_padLen (sh_learn c repr h) = sh_padLen h"
    for h by (simp_all add: sh_learn_def)
  have same: "sh_mac hs' = key" "sh_keypair hs' = sk" "sh_nodeID hs' = sf_nodeID sf"
    "sh_serverIdentity hs' = sf_identityKey sf" "sh_padLen hs' = sh_padLen sh"
    using W(2) sh kk sh_learn_mac by metis+
  obtain t where P: "parseClientHandshake c (clks j) ?f hs' blob =
      (Ok seed, (sh_learn c repr hs')\<lparr>sh_epochHour := epoch_bytes hc, sh_serverAuth := Some auth\<rparr>,
       snd (TestAndSet c ?f (clks j t) (drop (length blob - 16) blob)))"
    using server_full [OF assms(1) r(1), of blob hs' pad hc "clks j" H ?f seed auth] assms(13,15,18-20) len W(1) r same
    by auto
  let ?hs = "(sh_learn c repr hs')\<lparr>sh_epochHour := epoch_bytes hc, sh_serverAuth := Some auth\<rparr>"
  obtain es0 ds where K: "server_keys c seed sc = Ok (sc\<lparr>Encoder := Some es0, Decoder := Some ds\<rparr>)"
    "counter (e_nonce es0) = 1"
    using client_server_keys [OF assms(2,3), of seed sc sc] by blast
  have sc: "conn'\<lparr>ReceiveBuffer := []\<rparr> = sc" using W(3) assms(12) by (metis defConn.surjective defConn.update_convs(6))
  obtain pad' frame es where R: "length pad' = nat (sh_padLen ?hs)" "length frame = 557"
    "csrand_Bytes rnd (length pad') = Ok pad'"
    "Send_all c es0 [seed_packet (sf_lenSeed sf)] = (Ok frame, es)"
    "server_respond c rnd None (sf_lenSeed sf) ?hs (sc\<lparr>Encoder := Some es0, Decoder := Some ds\<rparr>) =
     (hs_message c (sh_mac ?hs) repr' auth pad' (sh_epochHour ?hs) @ frame,
      Ok (sc\<lparr>Encoder := Some es, Decoder := Some ds\<rparr>))"
    using server_respond_Ok [OF assms(3,5), of ?hs repr' auth "sf_lenSeed sf"
        "sc\<lparr>Encoder := Some es0, Decoder := Some ds\<rparr>" es0] assms(9,10) same sh kk K(2) by auto
  have pl: "length pad' \<le> 8051" using R(1) same kk sh(3) by simp
  have mac: "sh_mac ?hs = key" "sh_epochHour ?hs = epoch_bytes hc" using same by simp_all
  have "defconn_serverHandshake c intn rnd None None None clks (map Ok chunks @ later) sf sc sk =
      (hs_message c key repr' auth pad' (epoch_bytes hc) @ frame,
       Some (Ok (sc\<lparr>Encoder := Some es, Decoder := Some ds\<rparr>), later),
       snd (TestAndSet c ?f (clks j t) (drop (length blob - 16) blob)))"
    using assms(11) sh(1) W(4,5) P sc K(1) R(5) mac by (simp add: defconn_serverHandshake_def)
  with pl R(2-4) K(1) show ?thesis by blast
qed


lemma client_session:
  assumes "hmac_ok c" "hkdf_ok c" "link_crypto_ok c" "length repr = 32" "length auth = 32"
    "serverRepresentative hs = None"
    "ClientHandshake c (ch_keypair hs) (ToPublic c repr) (ch_serverIdentity hs) (ch_nodeID hs) = (True, seed, auth)"
    "out = hs_message c (ch_mac hs) repr auth pad (ch_epochHour hs) @ frame" "length pad \<le> 8051" "length frame = 557"
    "ReceiveBuffer cc = []" "concat rchunks = out"
    "first_mark out (take 16 (drop (length out - 589) out)) (length out - 589)"
    "server_keys c seed sc = Ok (sc\<lparr>Encoder := Some es0, Decoder := Some ds\<rparr>)"
  shows "\<exists>k got ec dc. client_wait c hs cc (map Ok rchunks) =
      Some (Ok (cc\<lparr>ReceiveBuffer := got, Encoder := Some ec, Decoder := Some dc\<rparr>), map Ok (drop k rchunks)) \<and>
    got @ concat (drop k rchunks) = frame \<and> link_ok c ec ds \<and> link_ok c es0 dc \<and>
    counter (e_nonce ec) = 1 \<and> counter (e_nonce es0) = 1"
proof -
  let ?msg = "hs_message c (ch_mac hs) repr auth pad (ch_epochHour hs)"
  have ml: "length ?msg = length pad + 96" using assms(1,4,5) by simp
  have n: "length out - 589 = 64 + length pad" using assms(8,10) ml by simp
  have "occurs_at out (mark_of c (ch_mac hs) repr) (64 + length pad)"
    using hs_message_parts(3) [OF assms(1), of "64 + length pad" repr auth pad] assms(4,5,8) by simp
  then have "take 16 (drop (length out - 589) out) = mark_of c (ch_mac hs) repr"
    using n assms(1) by (simp add: occurs_at_def)
  then have fm: "first_mark ?msg (mark_of c (ch_mac hs) repr) (64 + length pad)"
    using assms(1,8,13) n ml by (auto simp: first_mark_def occurs_at_def)
  obtain k got where W: "client_wait c hs cc (map Ok rchunks) =
      Some (client_keys c seed (cc\<lparr>ReceiveBuffer := got\<rparr>), map Ok (drop k rchunks))"
    "got @ concat (drop k rchunks) = frame"
    using client_wait_chunks [OF assms(1,4,5) _ refl _ fm assms(7), of cc rchunks frame]
      assms(6,8,9,11,12) ml by (auto simp: ch_knows_def)
  obtain e1 d1 e2 d2 where k: "client_keys c seed (cc\<lparr>ReceiveBuffer := got\<rparr>) =
      Ok (cc\<lparr>ReceiveBuffer := got, Encoder := Some e1, Decoder := Some d1\<rparr>)"
    "server_keys c seed sc = Ok (sc\<lparr>Encoder := Some e2, Decoder := Some d2\<rparr>)"
    "link_ok c e1 d2" "link_ok c e2 d1" "counter (e_nonce e1) = 1" "counter (e_nonce e2) = 1"
    using client_server_keys [OF assms(2,3), of seed "cc\<lparr>ReceiveBuffer := got\<rparr>" sc] by blast
  have eq: "sc\<lparr>Encoder := Some e2, Decoder := Some d2\<rparr> = sc\<lparr>Encoder := Some es0, Decoder := Some ds\<rparr>"
    using k(2) assms(14) by simp
  have "e2 = es0" "d2 = ds"
    using arg_cong [OF eq, of Encoder] arg_cong [OF eq, of Decoder] by simp_all
  with k W show ?thesis by auto
qed

text \<open>The hypotheses of a session, in the terms of the bytes on the wire: both ends have good
  randomness and proper keys; the client's clock and the server's are at most one hour apart and the
  three candidate MACs do not collide; the MAC was not seen before; neither shared secret is zero;
  and the mark does not occur in the client's message by accident.\<close>

definition session_setting :: "crypto \<Rightarrow> (int \<Rightarrow> int) \<Rightarrow> (int \<Rightarrow> int) \<Rightarrow> nat entropy \<Rightarrow> nat entropy \<Rightarrow> int \<Rightarrow>
    (nat \<Rightarrow> nat \<Rightarrow> int) \<Rightarrow> int \<Rightarrow> serverFactory \<Rightarrow> keypair \<Rightarrow> keypair \<Rightarrow> bytes \<Rightarrow> bool" where
  "session_setting c intn intn' rnd rnd' now clks H sf ck sk blob \<longleftrightarrow>
     x25519_ok c \<and> hmac_ok c \<and> hkdf_ok c \<and> link_crypto_ok c \<and> intn_ok intn \<and> intn_ok intn' \<and>
     good_entropy rnd \<and> good_entropy rnd' \<and> keypair_ok c ck \<and> HasElligator ck \<and>
     keypair_ok c sk \<and> HasElligator sk \<and> keypair_ok c (sf_identityKey sf) \<and>
     length (sf_lenSeed sf) = SeedLength \<and>
     (\<forall>i. hours_ok c (clks i) H (getEpochHour now) (kp_public (sf_identityKey sf) @ sf_nodeID sf)
            (take (length blob - 16) blob)) \<and>
     (\<forall>i. \<forall>k < 6. \<not> fst (TestAndSet c (sf_replayFilter sf) (clks i k) (drop (length blob - 16) blob))) \<and>
     fst (ServerHandshake c (kp_public ck) sk (sf_identityKey sf) (sf_nodeID sf)) \<and>
     sole_mark blob (take 16 (drop (length blob - 32) blob)) (length blob - 32)"

lemma session_links:
  assumes S: "session_setting c intn intn' rnd rnd' now clks H sf ck sk blob"
    and cc: "\<not> IsServer cc" "ReceiveBuffer cc = []" and sc: "IsServer sc" "ReceiveBuffer sc = []"
    and blob: "fst (defconn_clientHandshake c intn rnd now None [] cc (sf_nodeID sf)
      (kp_public (sf_identityKey sf)) ck) = blob"
    and chunks: "concat chunks = blob" "[] \<notin> set chunks"
  shows "\<exists>out sconn f'. defconn_serverHandshake c intn' rnd' None None None clks (map Ok chunks @ later) sf sc sk =
      (out, Some (Ok sconn, later), f') \<and>
    (\<forall>rchunks. concat rchunks = out \<and>
        first_mark out (take 16 (drop (length out - 589) out)) (length out - 589) \<longrightarrow>
      (\<exists>cconn k ec dc es0 es ds frame.
        defconn_clientHandshake c intn rnd now None (map Ok rchunks) cc (sf_nodeID sf)
          (kp_public (sf_identityKey sf)) ck = (blob, Some (Ok cconn, map Ok (drop k rchunks))) \<and>
        cconn = cc\<lparr>ReceiveBuffer := ReceiveBuffer cconn, Encoder := Some ec, Decoder := Some dc\<rparr> \<and>
        sconn = sc\<lparr>Encoder := Some es, Decoder := Some ds\<rparr> \<and>
        link_ok c ec ds \<and> link_ok c es0 dc \<and> counter (e_nonce ec) = 1 \<and> counter (e_nonce es0) = 1 \<and>
        Send_all c es0 [seed_packet (sf_lenSeed sf)] = (Ok frame, es) \<and>
        ReceiveBuffer cconn @ concat (drop k rchunks) = frame))"
proof -
  let ?key = "kp_public (sf_identityKey sf) @ sf_nodeID sf" and ?hc = "getEpochHour now"
  from S have ok: "x25519_ok c" "hmac_ok c" "hkdf_ok c" "link_crypto_ok c" "intn_ok intn" "intn_ok intn'"
    "good_entropy rnd" "good_entropy rnd'" "keypair_ok c ck" "keypair_ok c sk" "keypair_ok c (sf_identityKey sf)"
    "length (sf_lenSeed sf) = 24" by (simp_all add: session_setting_def)
  obtain repr repr' where reprs: "kp_representative ck = Some repr" "kp_representative sk = Some repr'"
    using S by (auto simp: session_setting_def HasElligator_def)
  have r: "length repr = 32" "ToPublic c repr = kp_public ck" "length repr' = 32" "ToPublic c repr' = kp_public sk"
    using ok(9,10) reprs by (auto simp: keypair_ok_def)
  obtain hs pad where pad: "length pad \<in> {77..8128}" and hs: "ch_mac hs = ?key" "ch_keypair hs = ck"
    "ch_serverIdentity hs = kp_public (sf_identityKey sf)" "ch_nodeID hs = sf_nodeID sf"
    "serverRepresentative hs = None" "ch_epochHour hs = epoch_bytes ?hc"
    and C: "defconn_clientHandshake c intn rnd now None reads cc (sf_nodeID sf)
      (kp_public (sf_identityKey sf)) ck = (hs_message c ?key repr [] pad (epoch_bytes ?hc), client_wait c hs cc reads)"
    for reads using client_blob [OF ok(5,7,9) reprs(1) cc(1)] by blast
  have B: "blob = hs_message c ?key repr [] pad (epoch_bytes ?hc)" using C [of "[]"] blob by simp
  have len: "length blob = length pad + 64" using B ok(2) r by simp
  have body: "take (length blob - 16) blob = repr @ pad @ mark_of c ?key repr"
    using hs_message_parts(1) [OF ok(2), of "32 + length pad" repr "[]" pad ?key "epoch_bytes ?hc" "[]"] B len r
    by (simp add: add.commute)
  have mark: "take 16 (drop (length blob - 32) blob) = mark_of c ?key repr"
    using hs_message_parts(3) [OF ok(2), of "32 + length pad" repr "[]" pad ?key "epoch_bytes ?hc" "[]"] B len r ok(2)
    by (simp add: occurs_at_def add.commute)
  obtain seed auth where SH: "ServerHandshake c (kp_public ck) sk (sf_identityKey sf) (sf_nodeID sf) = (True, seed, auth)"
    using S by (cases "ServerHandshake c (kp_public ck) sk (sf_identityKey sf) (sf_nodeID sf)")
      (auto simp: session_setting_def)
  then have CH: "ClientHandshake c ck (ToPublic c repr') (kp_public (sf_identityKey sf)) (sf_nodeID sf) = (True, seed, auth)"
    using ntor_agree [OF ok(1,9-11)] r by simp
  have al: "length auth = 32" using SH ok(2) by (auto simp: ServerHandshake_def ntorCommon_def Let_def)
  have st: "\<forall>i. hours_ok c (clks i) H ?hc ?key (repr @ pad @ mark_of c ?key repr)"
    "\<forall>i. \<forall>k < 6. \<not> fst (TestAndSet c (sf_replayFilter sf) (clks i k) (drop (length blob - 16) blob))"
    "sole_mark blob (mark_of c ?key repr) (32 + length pad)"
    using S body mark len by (auto simp: session_setting_def add.commute)
  obtain out sconn f' pad' frame es0 es ds where D: "length pad' \<le> 8051" "length frame = 557"
    "out = hs_message c ?key repr' auth pad' (epoch_bytes ?hc) @ frame"
    "defconn_serverHandshake c intn' rnd' None None None clks (map Ok chunks @ later) sf sc sk =
      (out, Some (Ok sconn, later), f')"
    "server_keys c seed sc = Ok (sc\<lparr>Encoder := Some es0, Decoder := Some ds\<rparr>)"
    "Send_all c es0 [seed_packet (sf_lenSeed sf)] = (Ok frame, es)"
    "sconn = sc\<lparr>Encoder := Some es, Decoder := Some ds\<rparr>"
    using server_session [OF ok(2-4,6,8,9) reprs(1) ok(10) reprs(2) ok(12) sc pad refl B chunks st(1,2) SH st(3)]
    by blast
  have "\<exists>cconn k ec dc es0' es' ds' frame.
      defconn_clientHandshake c intn rnd now None (map Ok rchunks) cc (sf_nodeID sf)
        (kp_public (sf_identityKey sf)) ck = (blob, Some (Ok cconn, map Ok (drop k rchunks))) \<and>
      cconn = cc\<lparr>ReceiveBuffer := ReceiveBuffer cconn, Encoder := Some ec, Decoder := Some dc\<rparr> \<and>
      sconn = sc\<lparr>Encoder := Some es', Decoder := Some ds'\<rparr> \<and>
      link_ok c ec ds' \<and> link_ok c es0' dc \<and> counter (e_nonce ec) = 1 \<and> counter (e_nonce es0') = 1 \<and>
      Send_all c es0' [seed_packet (sf_lenSeed sf)] = (Ok frame, es') \<and>
      ReceiveBuffer cconn @ concat (drop k rchunks) = frame"
    if R: "concat rchunks = out" "first_mark out (take 16 (drop (length out - 589) out)) (length out - 589)" for rchunks
  proof -
    obtain k got ec dc where W: "client_wait c hs cc (map Ok rchunks) =
        Some (Ok (cc\<lparr>ReceiveBuffer := got, Encoder := Some ec, Decoder := Some dc\<rparr>), map Ok (drop k rchunks))"
      "got @ concat (drop k rchunks) = frame" "link_ok c ec ds" "link_ok c es0 dc"
      "counter (e_nonce ec) = 1" "counter (e_nonce es0) = 1"
      using client_session [OF ok(2-4) r(3) al hs(5) _ _ D(1,2) cc(2) R D(5)] CH D(3) hs by metis
    show ?thesis
      using W C [of "map Ok rchunks"] B D(6,7)
      by (intro exI [of _ "cc\<lparr>ReceiveBuffer := got, Encoder := Some ec, Decoder := Some dc\<rparr>"] exI [of _ k]
          exI [of _ ec] exI [of _ dc] exI [of _ es0] exI [of _ es] exI [of _ ds] exI [of _ frame]) simp
  qed
  with D(4) show ?thesis by blast
qed


section \<open>Properties\<close>

text \<open>C4: The handshake gives both ends matching keys. In a session setting, the server accepts the
  client's message, however the network cuts it, and answers; if the answer's mark does not occur
  by accident in the padding before it, the client, however the answer is cut, completes as well.
  Then the client's encoder is linked to the server's decoder, the server's encoder to the client's
  decoder, and what the client has left unread is exactly the frame with the PRNG seed.\<close>

theorem session_established:
  assumes "session_setting c intn intn' rnd rnd' now clks H sf ck sk blob"
    "\<not> IsServer cc" "ReceiveBuffer cc = []" "IsServer sc" "ReceiveBuffer sc = []"
    "fst (defconn_clientHandshake c intn rnd now None [] cc (sf_nodeID sf)
      (kp_public (sf_identityKey sf)) ck) = blob"
    "concat chunks = blob" "[] \<notin> set chunks"
  shows "\<exists>out sconn f'. defconn_serverHandshake c intn' rnd' None None None clks (map Ok chunks @ later) sf sc sk =
      (out, Some (Ok sconn, later), f') \<and>
    (\<forall>rchunks. concat rchunks = out \<and>
        first_mark out (take 16 (drop (length out - 589) out)) (length out - 589) \<longrightarrow>
      (\<exists>cconn k ec dc es0 es ds frame.
        defconn_clientHandshake c intn rnd now None (map Ok rchunks) cc (sf_nodeID sf)
          (kp_public (sf_identityKey sf)) ck = (blob, Some (Ok cconn, map Ok (drop k rchunks))) \<and>
        cconn = cc\<lparr>ReceiveBuffer := ReceiveBuffer cconn, Encoder := Some ec, Decoder := Some dc\<rparr> \<and>
        sconn = sc\<lparr>Encoder := Some es, Decoder := Some ds\<rparr> \<and>
        link_ok c ec ds \<and> link_ok c es0 dc \<and> counter (e_nonce ec) = 1 \<and> counter (e_nonce es0) = 1 \<and>
        Send_all c es0 [seed_packet (sf_lenSeed sf)] = (Ok frame, es) \<and>
        ReceiveBuffer cconn @ concat (drop k rchunks) = frame))"
  by (rule session_links [OF assms])

definition demo_client_key :: keypair where
  "demo_client_key = (let v = replicate 31 0 @ [64] in
     \<lparr>kp_public = v, kp_private = v, kp_representative = Some v\<rparr>)"

definition demo_server_key :: keypair where
  "demo_server_key = (let v = replicate 31 8 @ [72] in
     \<lparr>kp_public = v, kp_private = v, kp_representative = Some v\<rparr>)"

definition demo_identity :: keypair where
  "demo_identity = \<lparr>kp_public = replicate 32 3, kp_private = replicate 32 3, kp_representative = None\<rparr>"

definition demo_entropy :: "nat entropy" where
  "demo_entropy n = Ok (replicate n 5)"

definition demo_sf :: serverFactory where
  "demo_sf = \<lparr>sf_nodeID = replicate 20 9, sf_identityKey = demo_identity, sf_lenSeed = replicate 24 8,
     sf_replayFilter = demo_filter, sf_closeDelay = 10\<rparr>"

definition demo_hello :: bytes where
  "demo_hello = hs_message demo_crypto (replicate 32 3 @ replicate 20 9) (replicate 31 0 @ [64]) []
     (replicate 77 5) (epoch_bytes 1)"

lemma demo_intn: "intn_ok (\<lambda>_. 0)"
  by (simp add: intn_ok_def)

lemma demo_entropy_ok: "good_entropy demo_entropy"
  by (simp add: good_entropy_def demo_entropy_def)

lemma demo_now: "getEpochHour 3600000000000 = 1"
  by (simp add: getEpochHour_def)

lemma demo_client_key_ok: "keypair_ok demo_crypto demo_client_key" "HasElligator demo_client_key"
    "keypair_ok demo_crypto demo_server_key" "HasElligator demo_server_key" "keypair_ok demo_crypto demo_identity"
  by (simp_all add: keypair_ok_def demo_client_key_def demo_server_key_def demo_identity_def demo_crypto_def ToPublic_def pad_to_def HasElligator_def Let_def)

lemma demo_hello_sent:
  "\<not> IsServer cc \<Longrightarrow> fst (defconn_clientHandshake demo_crypto (\<lambda>_. 0) demo_entropy 3600000000000 None [] cc
     (sf_nodeID demo_sf) (kp_public (sf_identityKey demo_sf)) demo_client_key) = demo_hello"
proof -
  assume cc: "\<not> IsServer cc"
  obtain hs where "newClientHandshake (\<lambda>_. 0) (replicate 20 9) (replicate 32 3) demo_client_key = Ok hs"
    "ch_padLen hs = 77" "ch_keypair hs = demo_client_key" "ch_mac hs = replicate 32 3 @ replicate 20 9"
    by (simp add: newClientHandshake_def IntRange_def csrand_Intn_def i64_def)
  with cc show ?thesis
    by (simp add: defconn_clientHandshake_def demo_sf_def demo_identity_def client_generate_def makePad_def
        csrand_Bytes_def demo_entropy_def demo_now demo_client_key_def demo_hello_def hs_message_def
        mark_of_def Let_def)
qed

lemma demo_hello_bytes:
  "demo_hello = replicate 31 0 @ [64] @ replicate 77 5 @ [64] @ replicate 15 0 @ [49] @ replicate 15 0"
  by (simp add: demo_hello_def hs_message_def mark_of_def demo_crypto_def pad_to_def epoch_bytes_def
      FormatInt_def format_nat.simps bytes_of_string_def byte_of_char_def Let_def)


lemma demo_hello_sole_mark: "sole_mark demo_hello (64 # replicate 15 0) 109"
proof -
  have "i = 109" if "occurs_at demo_hello (64 # replicate 15 0) i" for i
  proof -
    have t: "take 16 (drop i demo_hello) = 64 # replicate 15 0" using that by (simp add: occurs_at_def)
    then have "i < length demo_hello" by (metis drop_all list.distinct(1) not_less take_Nil)
    then have "demo_hello ! i = 64" using t by (metis Cons_nth_drop_Suc list.inject take_Suc_Cons numeral_eq_Suc pred_numeral_simps(2))
    moreover have "demo_hello ! (i + 1) = 0" if "i = 31"
    proof -
      have "take 16 (drop 31 demo_hello) ! 1 = (64 # replicate 15 (0 :: byte)) ! 1" using t that by simp
      then show ?thesis using that by (simp add: demo_hello_bytes)
    qed
    moreover have "i = 31 \<or> i = 109" if "demo_hello ! i = 64"
      using that \<open>i < length demo_hello\<close> by (auto simp: demo_hello_bytes nth_append nth_Cons' split: if_splits)
    ultimately show ?thesis by (auto simp: demo_hello_bytes nth_append)
  qed
  then show ?thesis by (simp add: sole_mark_def)
qed

lemma demo_session:
  "session_setting demo_crypto (\<lambda>_. 0) (\<lambda>_. 0) demo_entropy demo_entropy 3600000000000 (\<lambda>i. demo_clock 0) 1
     demo_sf demo_client_key demo_server_key demo_hello"
proof -
  have sm: "scalar_mult demo_crypto (replicate 31 v @ [w]) (replicate 31 0 @ [64]) = replicate 31 v @ [w + 64]" for v w
    by (rule nth_equalityI) (auto simp: demo_crypto_def pad_to_def nth_append)
  have sm3: "scalar_mult demo_crypto (replicate 32 3) (replicate 31 0 @ [64]) = replicate 31 3 @ [67]"
    by (rule nth_equalityI) (auto simp: demo_crypto_def pad_to_def nth_append)
  have "fst (ServerHandshake demo_crypto (kp_public demo_client_key) demo_server_key demo_identity (replicate 20 9))"
    using sm3 by (simp add: ServerHandshake_def demo_server_key_def demo_identity_def demo_client_key_def sm ntorCommon_def or_eq_0_iff
        constantTimeIsZero_iff Let_def)
  then show ?thesis
    using demo_crypto_ok demo_crypto_link_ok demo_intn demo_entropy_ok demo_client_key_ok
      demo_hours [of 0] demo_filter_fresh demo_hello_sole_mark
    by (simp add: session_setting_def demo_now demo_sf_def demo_hello_bytes [symmetric])
      (simp add: demo_hello_bytes demo_identity_def)
qed


text \<open>The padding of the demo answer consists of fives, so the mark (which starts with 72) cannot start in it.\<close>

lemma demo_answer:
  assumes "defconn_serverHandshake demo_crypto (\<lambda>_. 0) demo_entropy None None None (\<lambda>i. demo_clock 0)
      (map Ok [demo_hello] @ []) demo_sf sc demo_server_key = (out, Some (Ok sconn, []), f')"
    and sc: "IsServer sc" "ReceiveBuffer sc = []"
  shows "first_mark out (take 16 (drop (length out - 589) out)) (length out - 589)"
proof -
  obtain seed auth where SH: "ServerHandshake demo_crypto (kp_public demo_client_key) demo_server_key
      (sf_identityKey demo_sf) (sf_nodeID demo_sf) = (True, seed, auth)"
    using demo_session by (cases "ServerHandshake demo_crypto (kp_public demo_client_key) demo_server_key
      (sf_identityKey demo_sf) (sf_nodeID demo_sf)") (auto simp: session_setting_def)
  let ?key = "replicate 32 3 @ replicate 20 9 :: bytes" and ?r = "replicate 31 0 @ [64] :: bytes" and ?s = "replicate 31 8 @ [72] :: bytes"
  have keys: "kp_representative demo_client_key = Some ?r" "kp_representative demo_server_key = Some ?s"
    "length (sf_lenSeed demo_sf) = 24"
    "?key = kp_public (sf_identityKey demo_sf) @ sf_nodeID demo_sf" "[] \<notin> set [demo_hello]"
    "length (replicate 77 5 :: bytes) \<in> {77..8128}"
    by (simp_all add: demo_client_key_def demo_server_key_def demo_identity_def demo_sf_def demo_hello_bytes Let_def)
  have m: "mark_of demo_crypto ?key ?r = 64 # replicate 15 0"
    by (simp add: mark_of_def demo_crypto_def pad_to_def)
  have st: "\<forall>i :: nat. hours_ok demo_crypto (demo_clock 0) 1 1 ?key (?r @ replicate 77 5 @ mark_of demo_crypto ?key ?r)"
    "\<forall>i :: nat. \<forall>k < 6. \<not> fst (TestAndSet demo_crypto (sf_replayFilter demo_sf) (demo_clock 0 k)
       (drop (length demo_hello - 16) demo_hello))"
    "sole_mark demo_hello (mark_of demo_crypto ?key ?r) (32 + length (replicate 77 (5 :: byte)))"
    using demo_hours [of 0] demo_filter_fresh demo_hello_sole_mark m by (simp_all add: demo_sf_def)
  obtain pad' frame where D: "csrand_Bytes demo_entropy (length pad') = Ok pad'" "length frame = 557"
    "out = hs_message demo_crypto ?key ?s auth pad' (epoch_bytes 1) @ frame"
    using server_session [OF demo_crypto_ok(1,2) demo_crypto_link_ok demo_intn demo_entropy_ok
        demo_client_key_ok(1) keys(1) demo_client_key_ok(3) keys(2,3) sc keys(6,4) demo_hello_def _ keys(5) st(1,2) SH st(3), of "[]"]
      assms(1) by auto
  have pad: "pad' = replicate (length pad') 5" using D(1) by (simp add: csrand_Bytes_def demo_entropy_def)
  have al: "length auth = 32" using SH demo_crypto_ok(1) by (auto simp: ServerHandshake_def ntorCommon_def Let_def)
  have mark: "mark_of demo_crypto ?key ?s = 72 # replicate 15 8"
    by (simp add: mark_of_def demo_crypto_def pad_to_def)
  have len: "length out - 589 = 64 + length pad'" using D(2,3) al demo_crypto_ok(1) by simp
  have tk: "take 16 (drop (64 + length pad') out) = 72 # replicate 15 8"
  proof -
    define x :: bytes where "x = ?s"
    have "length x = 32" by (simp add: x_def)
    then show ?thesis using D(3) al mark unfolding x_def [symmetric] by (simp add: hs_message_def Let_def)
  qed
  have "\<not> occurs_at out (72 # replicate 15 8) i" if "64 \<le> i" "i < 64 + length pad'" for i
  proof
    assume "occurs_at out (72 # replicate 15 8) i"
    then have "take 16 (drop i out) ! 0 = (72 # replicate 15 8 :: bytes) ! 0" by (simp add: occurs_at_def)
    moreover have "i < length out" using that len by linarith
    ultimately have "out ! i = 72" by simp
    moreover have "out ! i = pad' ! (i - 64)"
    proof -
      have "\<not> i < 32" "\<not> i - 32 < 32" "i - 64 < length pad'" using that by linarith+
      then show ?thesis using al unfolding D(3) hs_message_def Let_def by (simp add: nth_append)
    qed
    moreover have "pad' ! (i - 64) = 5" using pad that by (metis nth_replicate less_diff_conv2 add.commute)
    ultimately show False by simp
  qed
  then show ?thesis using tk len by (simp add: first_mark_def)
qed

theorem session_established_witness:
  "\<exists>out sconn f' cconn k ec dc es0 es ds frame.
     defconn_serverHandshake demo_crypto (\<lambda>_. 0) demo_entropy None None None (\<lambda>i. demo_clock 0)
       (map Ok [demo_hello] @ []) demo_sf (new_conn True []) demo_server_key = (out, Some (Ok sconn, []), f') \<and>
     snd (defconn_clientHandshake demo_crypto (\<lambda>_. 0) demo_entropy 3600000000000 None (map Ok [out])
       (new_conn False []) (sf_nodeID demo_sf) (kp_public (sf_identityKey demo_sf)) demo_client_key)
       = Some (Ok cconn, map Ok (drop k [out])) \<and>
     Encoder cconn = Some ec \<and> Decoder cconn = Some dc \<and> Encoder sconn = Some es \<and> Decoder sconn = Some ds \<and>
     link_ok demo_crypto ec ds \<and> link_ok demo_crypto es0 dc \<and>
     Send_all demo_crypto es0 [seed_packet (sf_lenSeed demo_sf)] = (Ok frame, es) \<and>
     ReceiveBuffer cconn @ concat (drop k [out]) = frame"
proof -
  have "\<not> IsServer (new_conn False [])" "ReceiveBuffer (new_conn False []) = []"
    "IsServer (new_conn True [])" "ReceiveBuffer (new_conn True []) = []" "concat [demo_hello] = demo_hello"
    "[] \<notin> set [demo_hello]" by (simp_all add: new_conn_def demo_hello_bytes)
  from session_established [OF demo_session this(1-4) demo_hello_sent [OF this(1)] this(5,6), of "[]"]
  obtain out sconn f' where A: "defconn_serverHandshake demo_crypto (\<lambda>_. 0) demo_entropy None None None
      (\<lambda>i. demo_clock 0) (map Ok [demo_hello] @ []) demo_sf (new_conn True []) demo_server_key
      = (out, Some (Ok sconn, []), f')"
    and B: "concat [out] = out \<and> first_mark out (take 16 (drop (length out - 589) out)) (length out - 589) \<Longrightarrow>
      \<exists>cconn k ec dc es0 es ds frame.
        defconn_clientHandshake demo_crypto (\<lambda>_. 0) demo_entropy 3600000000000 None (map Ok [out])
          (new_conn False []) (sf_nodeID demo_sf) (kp_public (sf_identityKey demo_sf)) demo_client_key
          = (demo_hello, Some (Ok cconn, map Ok (drop k [out]))) \<and>
        cconn = (new_conn False [])\<lparr>ReceiveBuffer := ReceiveBuffer cconn, Encoder := Some ec, Decoder := Some dc\<rparr> \<and>
        sconn = (new_conn True [])\<lparr>Encoder := Some es, Decoder := Some ds\<rparr> \<and>
        link_ok demo_crypto ec ds \<and> link_ok demo_crypto es0 dc \<and> counter (e_nonce ec) = 1 \<and>
        counter (e_nonce es0) = 1 \<and>
        Send_all demo_crypto es0 [seed_packet (sf_lenSeed demo_sf)] = (Ok frame, es) \<and>
        ReceiveBuffer cconn @ concat (drop k [out]) = frame" by blast
  have "concat [out] = out \<and> first_mark out (take 16 (drop (length out - 589) out)) (length out - 589)"
    using demo_answer [OF A] by (simp add: new_conn_def)
  from B [OF this] obtain cconn k ec dc es0 es ds frame where
    C: "defconn_clientHandshake demo_crypto (\<lambda>_. 0) demo_entropy 3600000000000 None (map Ok [out])
          (new_conn False []) (sf_nodeID demo_sf) (kp_public (sf_identityKey demo_sf)) demo_client_key
          = (demo_hello, Some (Ok cconn, map Ok (drop k [out])))"
    and E: "cconn = (new_conn False [])\<lparr>ReceiveBuffer := ReceiveBuffer cconn, Encoder := Some ec, Decoder := Some dc\<rparr>"
    "sconn = (new_conn True [])\<lparr>Encoder := Some es, Decoder := Some ds\<rparr>"
    and L: "link_ok demo_crypto ec ds" "link_ok demo_crypto es0 dc"
    "Send_all demo_crypto es0 [seed_packet (sf_lenSeed demo_sf)] = (Ok frame, es)"
    "ReceiveBuffer cconn @ concat (drop k [out]) = frame" by blast
  have "Encoder cconn = Some ec" "Decoder cconn = Some dc"
    by (subst E(1), simp)+
  moreover have "Encoder sconn = Some es" "Decoder sconn = Some ds"
    by (subst E(2), simp)+
  moreover have "snd (defconn_clientHandshake demo_crypto (\<lambda>_. 0) demo_entropy 3600000000000 None (map Ok [out])
       (new_conn False []) (sf_nodeID demo_sf) (kp_public (sf_identityKey demo_sf)) demo_client_key)
       = Some (Ok cconn, map Ok (drop k [out]))" using C by simp
  ultimately show ?thesis using A L by blast
qed


text \<open>A failing \<open>SetDeadline\<close> leaves a connection without keys. When the server has accepted the
  client's handshake and clearing the deadline fails, \<open>serverHandshake\<close> reports success although it
  wrote nothing and set neither encoder nor decoder; the first \<open>ReadPackets\<close> that gets data on the
  connection it hands out panics.\<close>

lemma deadline_error_unkeyed:
  assumes "parseClientHandshake c (clks 0) (sf_replayFilter sf) hs chunk = (Ok seed, hs', f')"
    "newServerHandshake intn (sf_nodeID sf) (sf_identityKey sf) sk = Ok hs" "data \<noteq> []"
  shows "\<exists>conn. defconn_serverHandshake c intn rnd None (Some er) None clks (Ok chunk # reads) sf
       (new_conn True x) sk = ([], Some (Ok conn, reads), f') \<and>
     Encoder conn = None \<and> Decoder conn = None \<and> fst (ReadPackets c intn conn data None) = Panic"
  using assms by (simp add: defconn_serverHandshake_def new_conn_def ReadPackets_def read_packets_def)

lemma deadline_error_unkeyed_example:
  "\<exists>f' conn. defconn_serverHandshake demo_crypto (\<lambda>_. 0) demo_entropy None (Some 7) None (\<lambda>i. demo_clock 0)
      [Ok demo_blob] (demo_sf\<lparr>sf_identityKey := demo_keypair 3\<rparr>) (new_conn True []) (demo_keypair 2) = ([], Some (Ok conn, []), f') \<and>
    Encoder conn = None \<and> fst (ReadPackets demo_crypto (\<lambda>_. 0) conn [1] None) = Panic"
proof -
  have "newServerHandshake (\<lambda>_. 0) (sf_nodeID (demo_sf\<lparr>sf_identityKey := demo_keypair 3\<rparr>)) (sf_identityKey (demo_sf\<lparr>sf_identityKey := demo_keypair 3\<rparr>)) (demo_keypair 2) = Ok demo_sh"
    by (simp add: newServerHandshake_def IntRange_def csrand_Intn_def i64_def demo_sf_def demo_sh_def demo_keypair_def)
  moreover obtain seed hs' f1 where
    "parseClientHandshake demo_crypto (demo_clock 0) (sf_replayFilter (demo_sf\<lparr>sf_identityKey := demo_keypair 3\<rparr>)) demo_sh demo_blob = (Ok seed, hs', f1)"
    using demo_accept by (auto simp: demo_sf_def)
  ultimately show ?thesis
    using deadline_error_unkeyed [of demo_crypto "\<lambda>i. demo_clock 0" "demo_sf\<lparr>sf_identityKey := demo_keypair 3\<rparr>" demo_sh demo_blob seed hs' f1 "\<lambda>_. 0"
        "demo_keypair 2" "[1]" demo_entropy 7 "[]" "[]"] by blast
qed


definition demo_garbage :: bytes where
  "demo_garbage = replicate 31 0 @ [1] @ replicate 8160 0"

lemma demo_garbage_refused:
  assumes "clientRepresentative hs = None"
  shows "\<exists>hs'. parseClientHandshake demo_crypto clk f hs demo_garbage = (Err ErrInvalidHandshake, hs', f)"
proof -
  have mark: "take 16 (hmac256 demo_crypto k (replicate 31 0 @ [1])) = 1 # replicate 15 0" for k
    by (simp add: demo_crypto_def pad_to_def)
  have "\<not> occurs_at demo_garbage (1 # replicate 15 0) 8160"
    by (simp add: occurs_at_def demo_garbage_def eq_commute [of "replicate 16 0"] Cons_replicate_eq)
  then have "findMarkMac (1 # replicate 15 0) demo_garbage 109 8192 True = (Ok None :: (hs_error, nat option) outcome)"
    by (subst findMarkMac_tail) (simp_all add: demo_garbage_def)
  moreover have "length demo_garbage = 8192" "take 32 demo_garbage = replicate 31 0 @ [1]"
    by (simp_all add: demo_garbage_def)
  ultimately show ?thesis
    using assms mark by (simp add: parseClientHandshake_def Let_def)
qed


end
