(* ===== verification/StateFile.thy ===== *)
theory StateFile
  imports Session Complex_Main
begin

text \<open>
  The identity of a server and the arguments of a client: certificates, the state file and the bridge line of
  \<open>transports/defconn/statefile.go\<close>, and \<open>ServerFactory\<close> and \<open>ParseArgs\<close> of \<open>defconn.go\<close>. The state directory is a map
  from file names to contents, with the errors that reading and writing give; a file that holds a JSON object is
  represented by the members of the object in order. \<open>pt.Args\<close> belongs to another package: the arguments are the
  function behind its \<open>Get\<close>.
\<close>

section \<open>encoding/base64\<close>

definition b64_char :: "nat \<Rightarrow> char" where
  "b64_char n = (if n < 26 then char_of (65 + n) else if n < 52 then char_of (71 + n)
     else if n < 62 then char_of (n - 4) else if n = 62 then CHR ''+'' else CHR ''/'')"

definition b64_val :: "char \<Rightarrow> nat option" where
  "b64_val c = (let n = of_char c in
     if 65 \<le> n \<and> n \<le> 90 then Some (n - 65) else if 97 \<le> n \<and> n \<le> 122 then Some (n - 71)
     else if 48 \<le> n \<and> n \<le> 57 then Some (n + 4)
     else if c = CHR ''+'' then Some 62 else if c = CHR ''/'' then Some 63 else None)"

fun EncodeToString :: "bytes \<Rightarrow> string" where
  "EncodeToString [] = []"
| "EncodeToString [a] = [b64_char (unat a div 4), b64_char (unat a mod 4 * 16), CHR ''='', CHR ''='']"
| "EncodeToString [a, b] = [b64_char (unat a div 4), b64_char (unat a mod 4 * 16 + unat b div 16),
     b64_char (unat b mod 16 * 4), CHR ''='']"
| "EncodeToString (a # b # c # r) = b64_char (unat a div 4) # b64_char (unat a mod 4 * 16 + unat b div 16) #
     b64_char (unat b mod 16 * 4 + unat c div 64) # b64_char (unat c mod 64) # EncodeToString r"

text \<open>The quanta of four characters, newlines left out. The bits of the last character that belong to no byte are
  not looked at, since the encoding is not strict.\<close>

fun decode_quanta :: "string \<Rightarrow> bytes option" where
  "decode_quanta [] = Some []"
| "decode_quanta (w # x # y # z # r) =
    (case (b64_val w, b64_val x, b64_val y, b64_val z) of
       (Some i, Some j, Some k, Some l) \<Rightarrow> map_option (\<lambda>bs.
         of_nat (i * 4 + j div 16) # of_nat (j mod 16 * 16 + k div 4) # of_nat (k mod 4 * 64 + l) # bs) (decode_quanta r)
     | (Some i, Some j, Some k, None) \<Rightarrow>
         (if z = CHR ''='' \<and> r = [] then Some [of_nat (i * 4 + j div 16), of_nat (j mod 16 * 16 + k div 4)] else None)
     | (Some i, Some j, None, _) \<Rightarrow>
         (if y = CHR ''='' \<and> z = CHR ''='' \<and> r = [] then Some [of_nat (i * 4 + j div 16)] else None)
     | _ \<Rightarrow> None)"
| "decode_quanta _ = None"

definition DecodeString :: "string \<Rightarrow> bytes option" where
  "DecodeString s = decode_quanta (filter (\<lambda>c. c \<noteq> CHR 0x0A \<and> c \<noteq> CHR 0x0D) s)"

lemma b64_val_char [simp]:
  assumes "n < 64"
  shows "b64_val (b64_char n) = Some n"
proof -
  consider "n < 26" | "26 \<le> n" "n < 52" | "52 \<le> n" "n < 62" | "n = 62" | "n = 63" using assms by linarith
  then show ?thesis
  proof cases
    case 1
    then show ?thesis by (simp add: b64_val_def b64_char_def)
  next
    case 2
    then show ?thesis by (simp add: b64_val_def b64_char_def)
  next
    case 3
    then show ?thesis by (auto simp: b64_val_def b64_char_def Let_def)
  qed (simp_all add: b64_val_def b64_char_def)
qed

lemma b64_no_val [simp]: "b64_val CHR 0x0A = None" "b64_val CHR 0x0D = None" "b64_val CHR ''='' = None"
  by code_simp+

lemma b64_char_no_newline [simp]: "n < 64 \<Longrightarrow> b64_char n \<noteq> CHR 0x0A" "n < 64 \<Longrightarrow> b64_char n \<noteq> CHR 0x0D"
  by (metis b64_val_char b64_no_val option.distinct(1))+

lemma sextets [simp]:
  "unat (a :: byte) div 4 < 64" "unat a mod 4 * 16 < 64" "unat b mod 16 * 4 < 64"
  "unat a mod 4 * 16 + unat (b :: byte) div 16 < 64" "unat b mod 16 * 4 + unat (c :: byte) div 64 < 64"
  using unat_byte_lt [of a] unat_byte_lt [of b] unat_byte_lt [of c] by simp_all

lemma filter_encoded: "filter (\<lambda>c. c \<noteq> CHR 0x0A \<and> c \<noteq> CHR 0x0D) (EncodeToString bs) = EncodeToString bs"
  by (induction bs rule: EncodeToString.induct) simp_all

lemma decode_encode: "decode_quanta (EncodeToString bs) = Some bs"
proof (induction bs rule: EncodeToString.induct)
  case (2 a)
  then show ?case using unat_byte_lt [of a] by simp
next
  case (3 a b)
  then show ?case using unat_byte_lt [of a] unat_byte_lt [of b] by simp
next
  case (4 a b c r)
  then show ?case using unat_byte_lt [of a] unat_byte_lt [of b] unat_byte_lt [of c] by simp
qed simp

lemma DecodeString_Encode [simp]: "DecodeString (EncodeToString bs) = Some bs"
  by (simp add: DecodeString_def filter_encoded decode_encode)

section \<open>Certificates\<close>

type_synonym pt_args = "string \<Rightarrow> string option"

datatype args_error = MissingArgument string | Malformed string | BadCert | CertLength nat | ArgNtor ntor_error
  | ArgSeed seed_error | ArgRand nat | ArgIO nat | NotExist | BadStateFile | InvalidParams string

definition certSuffix :: string where [simp]: "certSuffix = ''==''"
definition certLength :: nat where [simp]: "certLength = NodeIDLength + PublicKeyLength"

definition nodeIDArg :: string where "nodeIDArg = ''node-id''"
definition publicKeyArg :: string where "publicKeyArg = ''public-key''"
definition privateKeyArg :: string where "privateKeyArg = ''private-key''"
definition seedArg :: string where "seedArg = ''drbg-seed''"
definition certArg :: string where "certArg = ''cert''"

lemmas arg_names = nodeIDArg_def publicKeyArg_def privateKeyArg_def seedArg_def certArg_def

definition TrimSuffix :: "string \<Rightarrow> string \<Rightarrow> string" where
  "TrimSuffix s suf = (if length suf \<le> length s \<and> drop (length s - length suf) s = suf
     then take (length s - length suf) s else s)"

definition cert_String :: "bytes \<Rightarrow> string" where
  "cert_String raw = TrimSuffix (EncodeToString raw) certSuffix"

text \<open>\<open>unpack\<close> ignores the errors of the two constructors; the lengths leave none.\<close>

definition unpack :: "bytes \<Rightarrow> (args_error, bytes \<times> bytes) outcome" where
  "unpack raw = (if length raw \<noteq> certLength then Panic
     else (case (NewNodeID (take NodeIDLength raw), NewPublicKey (drop NodeIDLength raw)) of
             (Ok nodeID, Ok pubKey) \<Rightarrow> Ok (nodeID, pubKey) | _ \<Rightarrow> Panic))"

definition serverCertFromString :: "string \<Rightarrow> (args_error, bytes) outcome" where
  "serverCertFromString encoded =
    (case DecodeString (encoded @ certSuffix) of
       None \<Rightarrow> Err BadCert
     | Some decoded \<Rightarrow> if length decoded \<noteq> certLength then Err (CertLength (length decoded)) else Ok decoded)"

section \<open>The state file\<close>

record JsonServerState =
  js_NodeID :: string
  js_PrivateKey :: string
  js_PublicKey :: string
  js_DrbgSeed :: string

text \<open>Numbers are \<open>float32\<close> or \<open>int\<close> values; \<open>json.Marshal\<close> refuses infinities and NaN.\<close>

datatype go_float = Finite real | PosInf | NegInf | NaN

datatype jvalue = JString string | JNumber go_float | JNull | JOther

datatype contents = JsonFile "(string \<times> jvalue) list" | TextFile string

record filesys =
  files :: "string \<Rightarrow> contents option"
  rd_err :: "string \<Rightarrow> nat option"
  wr_err :: "string \<Rightarrow> nat option"

definition ReadFile :: "string \<Rightarrow> filesys \<Rightarrow> (args_error, contents) outcome" where
  "ReadFile name fs = (case rd_err fs name of Some e \<Rightarrow> Err (ArgIO e)
     | None \<Rightarrow> (case files fs name of None \<Rightarrow> Err NotExist | Some c \<Rightarrow> Ok c))"

definition WriteFile :: "string \<Rightarrow> contents \<Rightarrow> filesys \<Rightarrow> (args_error, unit) outcome \<times> filesys" where
  "WriteFile name c fs = (case wr_err fs name of Some e \<Rightarrow> (Err (ArgIO e), fs)
     | None \<Rightarrow> (Ok (), fs\<lparr>files := (files fs)(name := Some c)\<rparr>))"

definition StateFile_name :: string where "StateFile_name = ''defconn_state.json''"
definition BridgeFile_name :: string where "BridgeFile_name = ''defconn_bridgeline.txt''"

text \<open>\<open>json.Unmarshal\<close> into a \<open>JsonServerState\<close>: names are compared without regard to case, later members win,
  unknown members and \<open>null\<close> are skipped, and a value of another type is an error once all members were read.\<close>

definition fold_name :: "string \<Rightarrow> string" where
  "fold_name = map (\<lambda>c. let n = of_char c in if 65 \<le> n \<and> n \<le> (90 :: nat) then char_of (n + 32) else c)"

definition js_field :: "string \<Rightarrow> (string \<Rightarrow> JsonServerState \<Rightarrow> JsonServerState) option" where
  "js_field k = (let k' = fold_name k in
     if k' = ''node-id'' then Some (\<lambda>s js. js\<lparr>js_NodeID := s\<rparr>)
     else if k' = ''private-key'' then Some (\<lambda>s js. js\<lparr>js_PrivateKey := s\<rparr>)
     else if k' = ''public-key'' then Some (\<lambda>s js. js\<lparr>js_PublicKey := s\<rparr>)
     else if k' = ''drbg-seed'' then Some (\<lambda>s js. js\<lparr>js_DrbgSeed := s\<rparr>)
     else None)"

fun Unmarshal :: "(string \<times> jvalue) list \<Rightarrow> JsonServerState \<Rightarrow> (args_error, JsonServerState) outcome" where
  "Unmarshal [] js = Ok js"
| "Unmarshal ((k, v) # ms) js =
    (case (js_field k, v) of
       (Some upd, JString s) \<Rightarrow> Unmarshal ms (upd s js)
     | (Some upd, JNull) \<Rightarrow> Unmarshal ms js
     | (Some upd, _) \<Rightarrow> Err BadStateFile
     | (None, _) \<Rightarrow> Unmarshal ms js)"

definition Marshal :: "JsonServerState \<Rightarrow> (string \<times> jvalue) list" where
  "Marshal js = [(''node-id'', JString (js_NodeID js)), (''private-key'', JString (js_PrivateKey js)),
     (''public-key'', JString (js_PublicKey js)), (''drbg-seed'', JString (js_DrbgSeed js))]"

text \<open>A transport that embeds \<open>JsonServerState\<close> writes its own members behind the four common ones.\<close>

definition WriteJSONServerState :: "(string \<times> jvalue) list \<Rightarrow> JsonServerState \<Rightarrow> filesys \<Rightarrow> (args_error, unit) outcome \<times> filesys" where
  "WriteJSONServerState extra js fs =
    (if \<exists>f \<in> {PosInf, NegInf, NaN}. JNumber f \<in> snd ` set extra then (Err BadStateFile, fs)
     else WriteFile StateFile_name (JsonFile (Marshal js @ extra)) fs)"

record DefConnServerState =
  st_nodeID :: bytes
  st_identityKey :: keypair
  st_drbgSeed :: bytes
  st_cert :: bytes

definition serverCertFromState :: "bytes \<Rightarrow> keypair \<Rightarrow> bytes" where
  "serverCertFromState nodeID identityKey = nodeID @ kp_public identityKey"

definition ClientString :: "DefConnServerState \<Rightarrow> string" where
  "ClientString st = certArg @ ''='' @ cert_String (st_cert st) @ '' ''"

definition NewJsonServerState :: "crypto \<Rightarrow> nat entropy \<Rightarrow> JsonServerState \<Rightarrow> filesys \<Rightarrow>
    (args_error, JsonServerState) outcome \<times> filesys" where
  "NewJsonServerState c rnd js fs =
    (case csrand_Bytes rnd NodeIDLength of
       Err e \<Rightarrow> (Err (ArgRand e), fs) | Panic \<Rightarrow> (Panic, fs)
     | Ok rawID \<Rightarrow> (case NewNodeID rawID of
       Err e \<Rightarrow> (Err (ArgNtor e), fs) | Panic \<Rightarrow> (Panic, fs)
     | Ok nodeID \<Rightarrow> (case NewKeypair c False [csrand_Bytes rnd PrivateKeyLength] of
       Some (Err e, _) \<Rightarrow> (Err (ArgRand e), fs) | Some (Panic, _) \<Rightarrow> (Panic, fs) | None \<Rightarrow> (Panic, fs)
     | Some (Ok key, _) \<Rightarrow> (case NewSeed rnd of
       Err e \<Rightarrow> (Err (ArgRand e), fs) | Panic \<Rightarrow> (Panic, fs)
     | Ok seed \<Rightarrow>
        (let js' = js\<lparr>js_NodeID := NodeID_Hex nodeID, js_PrivateKey := PrivateKey_Hex (kp_private key),
               js_PublicKey := PublicKey_Hex (kp_public key), js_DrbgSeed := Seed_Hex seed\<rparr>
         in (case WriteJSONServerState [] js' fs of
               (Ok _, fs') \<Rightarrow> (Ok js', fs') | (Err e, fs') \<Rightarrow> (Err e, fs') | (Panic, fs') \<Rightarrow> (Panic, fs')))))))"

definition jsonServerStateFromFile :: "crypto \<Rightarrow> nat entropy \<Rightarrow> JsonServerState \<Rightarrow> filesys \<Rightarrow>
    (args_error, JsonServerState) outcome \<times> filesys" where
  "jsonServerStateFromFile c rnd js fs =
    (case ReadFile StateFile_name fs of
       Err e \<Rightarrow> (if e = NotExist then NewJsonServerState c rnd js fs else (Err e, fs))
     | Panic \<Rightarrow> (Panic, fs)
     | Ok (JsonFile ms) \<Rightarrow> (Unmarshal ms js, fs)
     | Ok (TextFile _) \<Rightarrow> (Err BadStateFile, fs))"

definition arg_or_empty :: "pt_args \<Rightarrow> string \<Rightarrow> string" where
  "arg_or_empty args k = (case args k of None \<Rightarrow> [] | Some v \<Rightarrow> v)"

definition ServerStateFromArgsInternal :: "crypto \<Rightarrow> nat entropy \<Rightarrow> pt_args \<Rightarrow> filesys \<Rightarrow>
    (args_error, JsonServerState) outcome \<times> filesys" where
  "ServerStateFromArgsInternal c rnd args fs =
    (let js = \<lparr>js_NodeID = arg_or_empty args nodeIDArg, js_PrivateKey = arg_or_empty args privateKeyArg,
           js_PublicKey = [], js_DrbgSeed = arg_or_empty args seedArg\<rparr>
     in if args privateKeyArg = None \<and> args nodeIDArg = None \<and> args seedArg = None
        then jsonServerStateFromFile c rnd js fs
        else if args privateKeyArg = None then (Err (MissingArgument privateKeyArg), fs)
        else if args nodeIDArg = None then (Err (MissingArgument nodeIDArg), fs)
        else if args seedArg = None then (Err (MissingArgument seedArg), fs)
        else (Ok js, fs))"

definition ServerStateFromJsonServerStateInternal :: "crypto \<Rightarrow> JsonServerState \<Rightarrow> (args_error, DefConnServerState) outcome" where
  "ServerStateFromJsonServerStateInternal c js =
    (case NodeIDFromHex (js_NodeID js) of Err e \<Rightarrow> Err (ArgNtor e) | Panic \<Rightarrow> Panic
     | Ok nodeID \<Rightarrow> (case KeypairFromHex c (js_PrivateKey js) of Err e \<Rightarrow> Err (ArgNtor e) | Panic \<Rightarrow> Panic
     | Ok identityKey \<Rightarrow> (case SeedFromHex (js_DrbgSeed js) of Err e \<Rightarrow> Err (ArgSeed e) | Panic \<Rightarrow> Panic
     | Ok drbgSeed \<Rightarrow> Ok \<lparr>st_nodeID = nodeID, st_identityKey = identityKey, st_drbgSeed = drbgSeed,
          st_cert = serverCertFromState nodeID identityKey\<rparr>)))"

definition bridge_prefix :: string where
  "bridge_prefix = ''# DefConn torrc client bridge line'' @ [CHR 0x0A] @ ''#'' @ [CHR 0x0A] @
     ''# This file is an automatically generated bridge line based on'' @ [CHR 0x0A] @
     ''# the current defConnproxy configuration.  EDITING IT WILL HAVE'' @ [CHR 0x0A] @
     ''# NO EFFECT.'' @ [CHR 0x0A] @ ''#'' @ [CHR 0x0A] @
     ''# Before distributing this Bridge, edit the placeholder fields'' @ [CHR 0x0A] @
     ''# to contain the actual values:'' @ [CHR 0x0A] @
     ''#  <IP ADDRESS>  - The public IP address of your DefConn bridge.'' @ [CHR 0x0A] @
     ''#  <PORT>        - The TCP/IP port of your DefConn bridge.'' @ [CHR 0x0A] @
     ''#  <FINGERPRINT> - The bridge'' @ [CHR 0x27] @ ''s fingerprint.'' @ [CHR 0x0A] @ [CHR 0x0A]"

definition NewBridgeFile :: "string \<Rightarrow> filesys \<Rightarrow> (args_error, unit) outcome \<times> filesys" where
  "NewBridgeFile bridgeLineStr = WriteFile BridgeFile_name (TextFile (bridge_prefix @
     ''Bridge DefConn <IP ADDRESS>:<PORT> <FINGERPRINT> '' @ bridgeLineStr @ [CHR 0x0A]))"

definition write_state :: "string \<Rightarrow> (string \<times> jvalue) list \<Rightarrow> JsonServerState \<Rightarrow> 's \<Rightarrow> filesys \<Rightarrow> (args_error, 's) outcome \<times> filesys" where
  "write_state line extra js st fs =
    (case NewBridgeFile line fs of
       (Err e, fs1) \<Rightarrow> (Err e, fs1) | (Panic, fs1) \<Rightarrow> (Panic, fs1)
     | (Ok _, fs1) \<Rightarrow> (case WriteJSONServerState extra js fs1 of
         (Ok _, fs2) \<Rightarrow> (Ok st, fs2) | (Err e, fs2) \<Rightarrow> (Err e, fs2) | (Panic, fs2) \<Rightarrow> (Panic, fs2)))"

definition ServerStateFromJsonServerState :: "crypto \<Rightarrow> JsonServerState \<Rightarrow> filesys \<Rightarrow>
    (args_error, DefConnServerState) outcome \<times> filesys" where
  "ServerStateFromJsonServerState c js fs =
    (case ServerStateFromJsonServerStateInternal c js of
       Err e \<Rightarrow> (Err e, fs) | Panic \<Rightarrow> (Panic, fs)
     | Ok st \<Rightarrow> write_state (ClientString st) [] js st fs)"

definition ServerStateFromArgs :: "crypto \<Rightarrow> nat entropy \<Rightarrow> pt_args \<Rightarrow> filesys \<Rightarrow>
    (args_error, DefConnServerState) outcome \<times> filesys" where
  "ServerStateFromArgs c rnd args fs =
    (case ServerStateFromArgsInternal c rnd args fs of
       (Err e, fs1) \<Rightarrow> (Err e, fs1) | (Panic, fs1) \<Rightarrow> (Panic, fs1)
     | (Ok js, fs1) \<Rightarrow> ServerStateFromJsonServerState c js fs1)"

section \<open>Factories\<close>

text \<open>The factory with the arguments that it publishes. \<open>rng\<close> stands for \<open>rng.Intn(maxCloseDelay)\<close> of a
  \<open>math/rand\<close> generator over the DRBG.\<close>

definition ServerFactory :: "crypto \<Rightarrow> nat entropy \<Rightarrow> (hash_drbg \<Rightarrow> int) \<Rightarrow> pt_args \<Rightarrow> filesys \<Rightarrow>
    (args_error, serverFactory \<times> pt_args) outcome \<times> filesys" where
  "ServerFactory c rnd rng args fs =
    (case ServerStateFromArgs c rnd args fs of
       (Err e, fs1) \<Rightarrow> (Err e, fs1) | (Panic, fs1) \<Rightarrow> (Panic, fs1)
     | (Ok st, fs1) \<Rightarrow>
        (case rf_New rnd replayTTL of
           Err e \<Rightarrow> (Err (ArgRand e), fs1) | Panic \<Rightarrow> (Panic, fs1)
         | Ok rfilter \<Rightarrow>
            (case NewHashDrbg rnd (Some (st_drbgSeed st)) of
               Err e \<Rightarrow> (Err (ArgRand e), fs1) | Panic \<Rightarrow> (Panic, fs1)
             | Ok d \<Rightarrow> (Ok (\<lparr>sf_nodeID = st_nodeID st, sf_identityKey = st_identityKey st, sf_lenSeed = st_drbgSeed st,
                   sf_replayFilter = rfilter, sf_closeDelay = rng d\<rparr>, [certArg \<mapsto> cert_String (st_cert st)]), fs1))))"

definition parse_identity :: "pt_args \<Rightarrow> (args_error, bytes \<times> bytes) outcome" where
  "parse_identity args =
    (case args certArg of
       Some certStr \<Rightarrow> and_then (serverCertFromString certStr) unpack
     | None \<Rightarrow>
        (case args nodeIDArg of None \<Rightarrow> Err (MissingArgument nodeIDArg)
         | Some nodeIDStr \<Rightarrow>
            (case NodeIDFromHex nodeIDStr of Err e \<Rightarrow> Err (ArgNtor e) | Panic \<Rightarrow> Panic
             | Ok nodeID \<Rightarrow>
                (case args publicKeyArg of None \<Rightarrow> Err (MissingArgument publicKeyArg)
                 | Some publicKeyStr \<Rightarrow>
                    (case PublicKeyFromHex publicKeyStr of Err e \<Rightarrow> Err (ArgNtor e) | Panic \<Rightarrow> Panic
                     | Ok publicKey \<Rightarrow> Ok (nodeID, publicKey))))))"

text \<open>\<open>None\<close>: the rejection loop of the key generation needs more draws.\<close>

definition ParseArgs :: "crypto \<Rightarrow> (nat, bytes) outcome list \<Rightarrow> pt_args \<Rightarrow> (args_error, clientArgs) outcome option" where
  "ParseArgs c draws args =
    (case parse_identity args of
       Err e \<Rightarrow> Some (Err e) | Panic \<Rightarrow> Some Panic
     | Ok (nodeID, publicKey) \<Rightarrow>
        (case NewKeypair c True draws of
           None \<Rightarrow> None
         | Some (Err e, _) \<Rightarrow> Some (Err (ArgRand e)) | Some (Panic, _) \<Rightarrow> Some Panic
         | Some (Ok sessionKey, _) \<Rightarrow>
             Some (Ok \<lparr>ca_nodeID = nodeID, ca_publicKey = publicKey, ca_sessionKey = sessionKey\<rparr>)))"

section \<open>Certificates and identities\<close>

lemma EncodeToString_suffix: "length bs mod 3 = 1 \<Longrightarrow> \<exists>s. EncodeToString bs = s @ ''==''"
proof (induction bs rule: EncodeToString.induct)
  case (2 a)
  then show ?case by (intro exI [of _ "[b64_char (unat a div 4), b64_char (unat a mod 4 * 16)]"]) simp
next
  case (4 a b c r)
  then show ?case by (auto simp: mod_Suc split: if_splits)
qed auto

lemma cert_roundtrip:
  assumes "length raw = certLength"
  shows "serverCertFromString (cert_String raw) = Ok raw"
proof -
  obtain s where s: "EncodeToString raw = s @ ''==''" using EncodeToString_suffix [of raw] assms by auto
  then have "cert_String raw = s" by (simp add: cert_String_def TrimSuffix_def)
  with s [symmetric] assms show ?thesis by (simp add: serverCertFromString_def)
qed

lemma unpack_cert: "length nodeID = NodeIDLength \<Longrightarrow> length pub = PublicKeyLength \<Longrightarrow> unpack (nodeID @ pub) = Ok (nodeID, pub)"
  by (simp add: unpack_def NewNodeID_def NewPublicKey_def)

lemma cert_never_panics: "and_then (serverCertFromString s) unpack \<noteq> Panic"
  by (auto simp: serverCertFromString_def unpack_def NewNodeID_def NewPublicKey_def split: option.splits)

lemma Unmarshal_extra: "(\<forall>(k, v) \<in> set extra. js_field k = None) \<Longrightarrow> Unmarshal extra js = Ok js"
  by (induction extra) (auto split: jvalue.splits)

lemma js_field_names: "js_field ''node-id'' = Some (\<lambda>s js. js\<lparr>js_NodeID := s\<rparr>)"
  "js_field ''private-key'' = Some (\<lambda>s js. js\<lparr>js_PrivateKey := s\<rparr>)"
  "js_field ''public-key'' = Some (\<lambda>s js. js\<lparr>js_PublicKey := s\<rparr>)"
  "js_field ''drbg-seed'' = Some (\<lambda>s js. js\<lparr>js_DrbgSeed := s\<rparr>)"
  by (simp_all add: js_field_def fold_name_def Let_def)

lemma Unmarshal_Marshal:
  "(\<forall>(k, v) \<in> set extra. js_field k = None) \<Longrightarrow> Unmarshal (Marshal js @ extra) js0 = Ok js"
  by (simp add: Marshal_def js_field_names Unmarshal_extra)

lemma write_state_Ok:
  "write_state line extra js st fs = (Ok st', fs') \<longleftrightarrow>
     st' = st \<and> wr_err fs BridgeFile_name = None \<and> wr_err fs StateFile_name = None \<and>
     (\<forall>f \<in> {PosInf, NegInf, NaN}. JNumber f \<notin> snd ` set extra) \<and>
     fs' = fs\<lparr>files := (files fs)(BridgeFile_name \<mapsto> TextFile (bridge_prefix @
       ''Bridge DefConn <IP ADDRESS>:<PORT> <FINGERPRINT> '' @ line @ [CHR 0x0A]),
       StateFile_name \<mapsto> JsonFile (Marshal js @ extra))\<rparr>"
  by (auto simp: write_state_def NewBridgeFile_def WriteJSONServerState_def WriteFile_def split: option.splits)

lemma NewJsonServerState_fs:
  "NewJsonServerState c rnd js fs = (r, fs') \<Longrightarrow> rd_err fs' = rd_err fs \<and> wr_err fs' = wr_err fs"
  by (auto simp: NewJsonServerState_def WriteJSONServerState_def WriteFile_def Let_def
      split: outcome.splits option.splits prod.splits)

lemma FromArgsInternal_fs:
  "ServerStateFromArgsInternal c rnd args fs = (r, fs') \<Longrightarrow> rd_err fs' = rd_err fs \<and> wr_err fs' = wr_err fs"
  by (auto simp: ServerStateFromArgsInternal_def jsonServerStateFromFile_def Let_def
      split: if_splits outcome.splits contents.splits dest: NewJsonServerState_fs)

lemma identity_facts:
  assumes "ServerStateFromJsonServerStateInternal c js = Ok st"
  shows "length (st_nodeID st) = NodeIDLength \<and> length (kp_private (st_identityKey st)) = PrivateKeyLength \<and>
    kp_public (st_identityKey st) = scalar_base_mult c (kp_private (st_identityKey st)) \<and>
    length (st_drbgSeed st) = SeedLength \<and> st_cert st = st_nodeID st @ kp_public (st_identityKey st)"
  using assms
  by (auto simp: ServerStateFromJsonServerStateInternal_def NodeIDFromHex_def NewNodeID_def KeypairFromHex_def
      SeedFromHex_def SeedFromBytes_def serverCertFromState_def split: outcome.splits if_splits)

lemma reads_back:
  assumes "files fs StateFile_name = Some (JsonFile (Marshal js @ extra))" "rd_err fs StateFile_name = None"
    "\<forall>(k, v) \<in> set extra. js_field k = None"
    "args privateKeyArg = None" "args nodeIDArg = None" "args seedArg = None"
  shows "ServerStateFromArgsInternal c rnd args fs = (Ok js, fs)"
  using assms Unmarshal_Marshal [of extra js]
  by (simp add: ServerStateFromArgsInternal_def jsonServerStateFromFile_def ReadFile_def)

lemma state_written:
  assumes "ServerStateFromArgs c rnd args fs = (Ok st, fs')"
  shows "\<exists>js fs1. ServerStateFromArgsInternal c rnd args fs = (Ok js, fs1) \<and>
    ServerStateFromJsonServerStateInternal c js = Ok st \<and> write_state (ClientString st) [] js st fs1 = (Ok st, fs') \<and>
    files fs' StateFile_name = Some (JsonFile (Marshal js)) \<and> rd_err fs' = rd_err fs \<and> wr_err fs' = wr_err fs"
proof -
  from assms obtain js fs1 where A: "ServerStateFromArgsInternal c rnd args fs = (Ok js, fs1)"
    and J: "ServerStateFromJsonServerStateInternal c js = Ok st" and W: "write_state (ClientString st) [] js st fs1 = (Ok st, fs')"
    by (auto simp: ServerStateFromArgs_def ServerStateFromJsonServerState_def write_state_Ok split: outcome.splits prod.splits)
  from W FromArgsInternal_fs [OF A] have "files fs' StateFile_name = Some (JsonFile (Marshal js)) \<and>
      rd_err fs' = rd_err fs \<and> wr_err fs' = wr_err fs" by (simp add: write_state_Ok)
  with A J W show ?thesis by blast
qed

lemma state_reread:
  assumes "ServerStateFromArgs c rnd args fs = (Ok st, fs')" "rd_err fs StateFile_name = None"
  shows "\<exists>js. ServerStateFromArgsInternal c rnd args fs' = (Ok js, fs') \<and> ServerStateFromJsonServerStateInternal c js = Ok st"
proof -
  obtain js fs1 where js: "ServerStateFromArgsInternal c rnd args fs = (Ok js, fs1)"
    "ServerStateFromJsonServerStateInternal c js = Ok st" "files fs' StateFile_name = Some (JsonFile (Marshal js))"
    "rd_err fs' = rd_err fs" using state_written [OF assms(1)] by blast
  show ?thesis
  proof (cases "args privateKeyArg = None \<and> args nodeIDArg = None \<and> args seedArg = None")
    case True
    with reads_back [of fs' js "[]" args c rnd] js assms(2) show ?thesis by simp
  next
    case False
    with js(1) have "ServerStateFromArgsInternal c rnd args fs' = (Ok js, fs')"
      by (auto simp: ServerStateFromArgsInternal_def Let_def split: if_splits)
    with js(2) show ?thesis by blast
  qed
qed

lemma state_idempotent:
  assumes "ServerStateFromArgs c rnd args fs = (Ok st, fs')"
    "args' privateKeyArg = None" "args' nodeIDArg = None" "args' seedArg = None" "rd_err fs StateFile_name = None"
  shows "ServerStateFromArgs c rnd' args' fs' = (Ok st, fs')"
proof -
  obtain js fs1 where js: "ServerStateFromJsonServerStateInternal c js = Ok st"
    "write_state (ClientString st) [] js st fs1 = (Ok st, fs')" "files fs' StateFile_name = Some (JsonFile (Marshal js))"
    "rd_err fs' = rd_err fs" using state_written [OF assms(1)] by blast
  have "ServerStateFromArgsInternal c rnd' args' fs' = (Ok js, fs')"
    using reads_back [of fs' js "[]" args' c rnd'] js(3,4) assms(2-5) by simp
  moreover have "StateFile_name \<noteq> BridgeFile_name" by (simp add: StateFile_name_def BridgeFile_name_def)
  then have "write_state (ClientString st) [] js st fs' = (Ok st, fs')" using js(2) by (auto simp: write_state_Ok fun_upd_twist)
  ultimately show ?thesis using js(1) by (simp add: ServerStateFromArgs_def ServerStateFromJsonServerState_def)
qed

lemma ServerFactory_Ok:
  "ServerFactory c rnd rng args fs = (Ok (sf, pub), fs') \<longleftrightarrow>
    (\<exists>st f d. ServerStateFromArgs c rnd args fs = (Ok st, fs') \<and> rf_New rnd replayTTL = Ok f \<and>
      NewHashDrbg rnd (Some (st_drbgSeed st)) = Ok d \<and> pub = [certArg \<mapsto> cert_String (st_cert st)] \<and>
      sf = \<lparr>sf_nodeID = st_nodeID st, sf_identityKey = st_identityKey st, sf_lenSeed = st_drbgSeed st,
        sf_replayFilter = f, sf_closeDelay = rng d\<rparr>)"
  by (auto simp: ServerFactory_def split: outcome.splits prod.splits)

lemma ServerStateFromArgs_facts:
  "ServerStateFromArgs c rnd args fs = (Ok st, fs') \<Longrightarrow> \<exists>js. ServerStateFromJsonServerStateInternal c js = Ok st"
  by (auto simp: ServerStateFromArgs_def ServerStateFromJsonServerState_def write_state_Ok split: outcome.splits prod.splits)

lemma identity_no_panic: "parse_identity args \<noteq> Panic"
  using cert_never_panics by (auto simp: parse_identity_def NodeIDFromHex_def NewNodeID_def PublicKeyFromHex_def
      NewPublicKey_def split: option.splits outcome.splits if_splits)

text \<open>A first start, with an empty state directory and no identity among the arguments, succeeds.\<close>

lemma fresh_start:
  assumes "good_entropy rnd" "args privateKeyArg = None" "args nodeIDArg = None" "args seedArg = None"
    "files fs StateFile_name = None" "rd_err fs StateFile_name = None"
    "wr_err fs StateFile_name = None" "wr_err fs BridgeFile_name = None"
  shows "\<exists>sf pub fs'. ServerFactory c rnd rng args fs = (Ok (sf, pub), fs')"
proof -
  have ent: "\<exists>b. csrand_Bytes rnd n = Ok b \<and> length b = n" for n using assms(1) by (auto simp: good_entropy_def csrand_Bytes_def)
  obtain nid where nid: "csrand_Bytes rnd NodeIDLength = Ok nid" "length nid = NodeIDLength" using ent by blast
  obtain raw where raw: "csrand_Bytes rnd PrivateKeyLength = Ok raw" "length raw = PrivateKeyLength" using ent by blast
  obtain seed where seed: "csrand_Bytes rnd SeedLength = Ok seed" "length seed = SeedLength" using ent by blast
  obtain key where key: "csrand_Bytes rnd 16 = Ok key" "length key = 16" using ent by blast
  define js where "js = \<lparr>js_NodeID = hex_encode nid, js_PrivateKey = hex_encode (go_copy raw (clamp (sha256 c raw))),
    js_PublicKey = hex_encode (scalar_base_mult c (go_copy raw (clamp (sha256 c raw)))), js_DrbgSeed = hex_encode seed\<rparr>"
  define fs1 where "fs1 = fs\<lparr>files := (files fs)(StateFile_name := Some (JsonFile (Marshal js)))\<rparr>"
  have "ServerStateFromArgsInternal c rnd args fs = (Ok js, fs1)"
    using assms(2-) nid raw seed
    by (simp add: ServerStateFromArgsInternal_def jsonServerStateFromFile_def ReadFile_def NewJsonServerState_def NewNodeID_def
        WriteJSONServerState_def WriteFile_def NewSeed_def NodeID_Hex_def PrivateKey_Hex_def PublicKey_Hex_def Seed_Hex_def
        js_def fs1_def Let_def)
  moreover have "\<exists>st. ServerStateFromJsonServerStateInternal c js = Ok st"
    using nid raw seed by (simp add: ServerStateFromJsonServerStateInternal_def js_def NodeIDFromHex_def NewNodeID_def
        KeypairFromHex_def SeedFromHex_def SeedFromBytes_def Let_def)
  then obtain st where "ServerStateFromJsonServerStateInternal c js = Ok st" by blast
  moreover have "\<exists>fs'. write_state (ClientString st) [] js st fs1 = (Ok st, fs')"
    using assms(7,8) by (simp add: write_state_Ok fs1_def)
  moreover have "\<exists>f. rf_New rnd replayTTL = Ok f" "\<exists>d. NewHashDrbg rnd (Some (st_drbgSeed st)) = Ok d"
    using key by (simp_all add: rf_New_def get_u64_def NewHashDrbg_def)
  ultimately show ?thesis
    by (auto simp: ServerFactory_Ok ServerStateFromArgs_def ServerStateFromJsonServerState_def)
qed

lemma published_identity:
  assumes "x25519_ok c" "ServerFactory c rnd rng args fs = (Ok (sf, published), fs')" "client certArg = published certArg"
  shows "parse_identity client = Ok (sf_nodeID sf, kp_public (sf_identityKey sf)) \<and>
    length (sf_nodeID sf) = NodeIDLength \<and> length (kp_public (sf_identityKey sf)) = PublicKeyLength \<and>
    kp_public (sf_identityKey sf) = scalar_base_mult c (kp_private (sf_identityKey sf)) \<and>
    length (sf_lenSeed sf) = SeedLength"
proof -
  from assms(2) obtain st where st: "ServerStateFromArgs c rnd args fs = (Ok st, fs')"
    "published = [certArg \<mapsto> cert_String (st_cert st)]" "sf_nodeID sf = st_nodeID st"
    "sf_identityKey sf = st_identityKey st" "sf_lenSeed sf = st_drbgSeed st" by (auto simp: ServerFactory_Ok)
  then obtain js where "ServerStateFromJsonServerStateInternal c js = Ok st" using ServerStateFromArgs_facts by blast
  note id = identity_facts [OF this]
  have pub: "length (kp_public (st_identityKey st)) = PublicKeyLength" using id assms(1) by (simp add: x25519_ok_def)
  have "serverCertFromString (cert_String (st_cert st)) = Ok (st_cert st)" using id pub by (intro cert_roundtrip) simp
  moreover have "unpack (st_cert st) = Ok (st_nodeID st, kp_public (st_identityKey st))"
    using id pub unpack_cert [of "st_nodeID st" "kp_public (st_identityKey st)"] by simp
  ultimately have "parse_identity client = Ok (sf_nodeID sf, kp_public (sf_identityKey sf))"
    using assms(3) st by (simp add: parse_identity_def)
  then show ?thesis using st id pub by simp
qed

section \<open>Properties\<close>

text \<open>C27: The published certificate identifies the server. When \<open>ServerFactory\<close> succeeds, a client whose \<open>cert\<close> argument
  is the published one gets from \<open>ParseArgs\<close> exactly the node ID and the public identity key of the server (so that the
  \<open>ntor\<close> handshake is between the right parties), and the identity has the lengths that the handshake needs. Whatever the
  certificate, \<open>ParseArgs\<close> never panics.\<close>

theorem bridge_identity:
  assumes "x25519_ok c" "ServerFactory c rnd rng args fs = (Ok (sf, published), fs')"
    "client certArg = published certArg" "NewKeypair c True draws = Some (Ok k, rest)"
  shows "ParseArgs c draws client = Some (Ok \<lparr>ca_nodeID = sf_nodeID sf,
      ca_publicKey = kp_public (sf_identityKey sf), ca_sessionKey = k\<rparr>) \<and>
    length (sf_nodeID sf) = NodeIDLength \<and> length (kp_public (sf_identityKey sf)) = PublicKeyLength \<and>
    kp_public (sf_identityKey sf) = scalar_base_mult c (kp_private (sf_identityKey sf)) \<and>
    length (sf_lenSeed sf) = SeedLength \<and> (\<forall>other. parse_identity other \<noteq> Panic)"
  using published_identity [OF assms(1,2), of client, OF assms(3)] assms(4) identity_no_panic
  by (elim conjE) (simp add: ParseArgs_def)

definition demo_fs :: filesys where
  "demo_fs = \<lparr>files = Map.empty, rd_err = \<lambda>_. None, wr_err = \<lambda>_. None\<rparr>"

lemma demo_first_start: "\<exists>sf pub fs'. ServerFactory demo_crypto demo_entropy (\<lambda>_. 7) Map.empty demo_fs = (Ok (sf, pub), fs')"
  by (rule fresh_start) (simp_all add: demo_entropy_ok demo_fs_def)

theorem bridge_identity_witness:
  "\<exists>sf pub fs' k. ServerFactory demo_crypto demo_entropy (\<lambda>_. 7) Map.empty demo_fs = (Ok (sf, pub), fs') \<and>
     ParseArgs demo_crypto [Ok (replicate 32 7)] pub = Some (Ok \<lparr>ca_nodeID = sf_nodeID sf,
       ca_publicKey = kp_public (sf_identityKey sf), ca_sessionKey = k\<rparr>) \<and> length (sf_nodeID sf) = 20"
proof -
  obtain sf pub fs' where S: "ServerFactory demo_crypto demo_entropy (\<lambda>_. 7) Map.empty demo_fs = (Ok (sf, pub), fs')"
    using demo_first_start by blast
  obtain k where "NewKeypair demo_crypto True [Ok (replicate 32 7) :: (nat, bytes) outcome] = Some (Ok k, [])"
    by (auto simp: demo_crypto_def Let_def)
  from bridge_identity [OF demo_crypto_ok(3) S, of pub, OF refl this] S show ?thesis by auto
qed

text \<open>C28: The identity of a server persists. Once \<open>ServerFactory\<close> succeeded, with arguments, with a state file or with
  neither, every later start in the same state directory without identity arguments succeeds, whatever entropy it gets,
  with the same node ID, identity key, seed, close delay and published arguments, and leaves the directory as it is.
  Arguments that give only a part of an identity are refused without touching it.\<close>

theorem identity_persists:
  assumes "ServerFactory c rnd rng args fs = (Ok (sf, published), fs')" "rd_err fs StateFile_name = None" "good_entropy rnd'"
  shows "(later privateKeyArg = None \<and> later nodeIDArg = None \<and> later seedArg = None \<longrightarrow>
      (\<exists>sf'. ServerFactory c rnd' rng later fs' = (Ok (sf', published), fs') \<and>
        sf'\<lparr>sf_replayFilter := sf_replayFilter sf\<rparr> = sf)) \<and>
    ((\<exists>k \<in> {privateKeyArg, nodeIDArg, seedArg}. later k = None) \<and> (\<exists>k \<in> {privateKeyArg, nodeIDArg, seedArg}. later k \<noteq> None) \<longrightarrow>
      (\<exists>k. ServerFactory c rnd' rng later fs' = (Err (MissingArgument k), fs')))"
proof -
  from assms(1) obtain st d where st: "ServerStateFromArgs c rnd args fs = (Ok st, fs')"
    "NewHashDrbg rnd (Some (st_drbgSeed st)) = Ok d" "published = [certArg \<mapsto> cert_String (st_cert st)]"
    "\<And>f. sf\<lparr>sf_replayFilter := f\<rparr> = \<lparr>sf_nodeID = st_nodeID st, sf_identityKey = st_identityKey st,
       sf_lenSeed = st_drbgSeed st, sf_replayFilter = f, sf_closeDelay = rng d\<rparr>"
    by (auto simp: ServerFactory_Ok)
  obtain key where "csrand_Bytes rnd' 16 = Ok key" "length key = 16"
    using assms(3) by (auto simp: good_entropy_def csrand_Bytes_def)
  then obtain f where f: "rf_New rnd' replayTTL = Ok f" by (auto simp: rf_New_def get_u64_def)
  have d: "NewHashDrbg rnd' (Some (st_drbgSeed st)) = Ok d" using st(2) by (simp add: NewHashDrbg_def)
  have "ServerFactory c rnd' rng later fs' = (Ok (sf\<lparr>sf_replayFilter := f\<rparr>, published), fs')"
    if "later privateKeyArg = None" "later nodeIDArg = None" "later seedArg = None"
    using state_idempotent [OF st(1) that assms(2), of rnd'] st(3,4) f d by (simp add: ServerFactory_def)
  moreover have "\<exists>k. ServerFactory c rnd' rng later fs' = (Err (MissingArgument k), fs')"
    if "\<exists>k \<in> {privateKeyArg, nodeIDArg, seedArg}. later k = None" "\<exists>k \<in> {privateKeyArg, nodeIDArg, seedArg}. later k \<noteq> None"
    using that by (auto simp: ServerFactory_def ServerStateFromArgs_def ServerStateFromArgsInternal_def Let_def)
  ultimately show ?thesis by auto
qed

theorem identity_persists_witness:
  "\<exists>sf pub fs'. ServerFactory demo_crypto demo_entropy (\<lambda>_. 7) Map.empty demo_fs = (Ok (sf, pub), fs') \<and>
     (\<exists>sf'. ServerFactory demo_crypto (\<lambda>n. Ok (replicate n 6)) (\<lambda>_. 7) Map.empty fs' = (Ok (sf', pub), fs') \<and>
        sf_identityKey sf' = sf_identityKey sf) \<and>
     (\<exists>k. ServerFactory demo_crypto (\<lambda>n. Ok (replicate n 6)) (\<lambda>_. 7) [nodeIDArg \<mapsto> []] fs' = (Err (MissingArgument k), fs'))"
proof -
  obtain sf pub fs' where S: "ServerFactory demo_crypto demo_entropy (\<lambda>_. 7) Map.empty demo_fs = (Ok (sf, pub), fs')"
    using demo_first_start by blast
  have E: "rd_err demo_fs StateFile_name = None" "good_entropy (\<lambda>n. Ok (replicate n 6))" by (simp_all add: demo_fs_def good_entropy_def)
  obtain sf' where "ServerFactory demo_crypto (\<lambda>n. Ok (replicate n 6)) (\<lambda>_. 7) Map.empty fs' = (Ok (sf', pub), fs')"
    "sf'\<lparr>sf_replayFilter := sf_replayFilter sf\<rparr> = sf"
    using identity_persists [OF S E, of Map.empty] by auto
  moreover from this(2) have "sf_identityKey sf' = sf_identityKey sf" by (metis serverFactory.select_convs(2) serverFactory.surjective serverFactory.update_convs(4))
  moreover have "\<exists>k. ServerFactory demo_crypto (\<lambda>n. Ok (replicate n 6)) (\<lambda>_. 7) [nodeIDArg \<mapsto> []] fs' = (Err (MissingArgument k), fs')"
    using identity_persists [OF S E, of "[nodeIDArg \<mapsto> []]"] by (auto simp: arg_names)
  ultimately show ?thesis using S by blast
qed

end
