(* ===== verification/Defence.thy ===== *)
theory Defence
  imports Session
begin

text \<open>
  What every website-fingerprinting defence of the repository has in common, and the plain defence
  \<open>DefConn.ReadFrom\<close> of \<open>transports/defconn/defconn.go\<close>.

  A running connection consists of goroutines that communicate through the connection object. One
  iteration of the loop of a goroutine is one step here, so a run is any interleaving of iterations:
  a chunk read from upstream, a cell handed to the send routine, a tick of the throughput ticker, a
  packet handled by the reader. \<open>SendChan\<close> is a FIFO, so what the send routine puts on the
  wire is the sequence of packets sent to it; \<open>queued\<close> is that sequence from the start.

  The locale \<open>defence\<close> states what a defence owes to its user whatever it does for padding:
  every cell it queues has the same size (in states that satisfy its invariant), and the payload it queued followed by what it still
  buffers is what came from upstream. The locale \<open>tunnel\<close> adds that the peer's packet
  handler accepts the cells; it proves end-to-end delivery once for all defences.
\<close>

section \<open>The contract\<close>

type_synonym cell = "byte \<times> bytes \<times> bytes"

locale defence =
  fixes step :: "'ev \<Rightarrow> 's \<Rightarrow> 's option"
    and cells :: "'s \<Rightarrow> cell list"
    and pending :: "'s \<Rightarrow> bytes"
    and input :: "'ev \<Rightarrow> bytes"
    and role :: "'s \<Rightarrow> bool"
    and cellSize :: nat
    and accepts :: "bool \<Rightarrow> byte \<Rightarrow> bytes \<Rightarrow> bytes \<Rightarrow> bool"
    and inv :: "'s \<Rightarrow> bool"
  assumes step_cells: "step ev s = Some s' \<Longrightarrow> inv s \<Longrightarrow> \<exists>new. cells s' = cells s @ new \<and>
      (\<forall>(t, d, r) \<in> set new. length d + length r = cellSize \<and> accepts (\<not> role s) t d r) \<and>
      payloads new @ pending s' = pending s @ input ev"
    and step_role: "step ev s = Some s' \<Longrightarrow> role s' = role s"
    and step_inv: "step ev s = Some s' \<Longrightarrow> inv s \<Longrightarrow> inv s'"
begin

fun run :: "'ev list \<Rightarrow> 's \<Rightarrow> 's option" where
  "run [] s = Some s"
| "run (ev # evs) s = (case step ev s of None \<Rightarrow> None | Some s1 \<Rightarrow> run evs s1)"

lemma payloads_append: "payloads (a @ b) = payloads a @ payloads b"
  by (simp add: payloads_def)

lemma run_cells:
  "run evs s = Some s' \<Longrightarrow> inv s \<Longrightarrow> role s' = role s \<and> (\<exists>new. cells s' = cells s @ new \<and>
     (\<forall>(t, d, r) \<in> set new. length d + length r = cellSize \<and> accepts (\<not> role s) t d r) \<and>
     payloads new @ pending s' = pending s @ concat (map input evs))"
proof (induction evs arbitrary: s)
  case Nil
  then show ?case by simp
next
  case (Cons ev evs)
  then obtain s1 where s1: "step ev s = Some s1" "run evs s1 = Some s'" by (auto split: option.splits)
  obtain n1 where n1: "cells s1 = cells s @ n1"
    "\<forall>(t, d, r) \<in> set n1. length d + length r = cellSize \<and> accepts (\<not> role s) t d r"
    "payloads n1 @ pending s1 = pending s @ input ev" using step_cells [OF s1(1) Cons.prems(2)] by blast
  obtain n2 where n2: "role s' = role s1" "cells s' = cells s1 @ n2"
    "\<forall>(t, d, r) \<in> set n2. length d + length r = cellSize \<and> accepts (\<not> role s1) t d r"
    "payloads n2 @ pending s' = pending s1 @ concat (map input evs)" using Cons.IH [OF s1(2) step_inv [OF s1(1) Cons.prems(2)]] by blast
  have "payloads (n1 @ n2) @ pending s' = pending s @ concat (map input (ev # evs))"
    using n1(3) n2(4) by (simp add: payloads_append)
  then show ?case
    using n1 n2 step_role [OF s1(1)] by (intro conjI exI [of _ "n1 @ n2"]) auto
qed

end

locale tunnel = defence step cells pending input role cellSize accepts inv + packet_handler h accepts
  for step :: "'ev \<Rightarrow> 's \<Rightarrow> 's option" and cells :: "'s \<Rightarrow> cell list" and pending :: "'s \<Rightarrow> bytes"
    and input :: "'ev \<Rightarrow> bytes" and role :: "'s \<Rightarrow> bool" and cellSize :: nat
    and accepts :: "bool \<Rightarrow> byte \<Rightarrow> bytes \<Rightarrow> bytes \<Rightarrow> bool" and inv :: "'s \<Rightarrow> bool"
    and h :: "('p defConn_scheme) handler" +
  assumes cell_fits: "cellSize < 2 ^ 16"
begin

lemma tunnel_delivery:
  assumes "run evs s = Some s'" "inv s" "cells s = []" "pending s = []"
    "link_ok c e dec" "intn_ok intn"
    "frames.sends c cap e (map (\<lambda>(t, d, r). packet_bytes t d r) (cells s')) wire e'"
    "IsServer peer = (\<not> role s)" "Decoder peer = Some dec" "ReceiveBuffer peer = []"
    "ReceiveDecodedBuffer peer = []" "concat chunks = wire" "[] \<notin> set chunks"
  shows "\<exists>peer' dec'. read_all (read_packets c intn h) peer chunks = (Ok None, peer') \<and>
    Decoder peer' = Some dec' \<and> link_ok c e' dec' \<and>
    ReceiveDecodedBuffer peer' @ pending s' = concat (map input evs) \<and>
    length wire = (FrameOverhead + PacketOverhead + cellSize) * length (cells s')"
proof -
  obtain new where new: "cells s' = new"
    "\<forall>(t, d, r) \<in> set new. length d + length r = cellSize \<and> accepts (\<not> role s) t d r"
    "payloads new @ pending s' = concat (map input evs)"
    using run_cells [OF assms(1,2)] assms(3,4) by auto
  have acc: "\<forall>(t, d, r) \<in> set (cells s'). length d < 2 ^ 16 \<and> accepts (IsServer peer) t d r"
    using new(1,2) assms(8) cell_fits by fastforce
  from stream_delivery [OF assms(5-7) acc assms(9,10,12,13)] new(1,3) assms(11)
  obtain peer' dec' where "read_all (read_packets c intn h) peer chunks = (Ok None, peer')"
    "Decoder peer' = Some dec'" "link_ok c e' dec'"
    "ReceiveDecodedBuffer peer' @ pending s' = concat (map input evs)" by auto
  moreover have "sum_list (map length (map (\<lambda>(t, d, r). packet_bytes t d r) new)) =
      (PacketOverhead + cellSize) * length new"
    using new(2) by (induction new) auto
  then have "length wire = (FrameOverhead + PacketOverhead + cellSize) * length (cells s')"
    using frames.sends_length [OF assms(7,5)] new(1) by (simp add: algebra_simps)
  ultimately show ?thesis by blast
qed

end

section \<open>Connections that relay a stream\<close>

text \<open>\<open>recvBuf\<close> is the local \<open>receiveBuf\<close> of \<open>ReadFrom\<close>, \<open>queued\<close> everything sent
  to \<open>SendChan\<close>, \<open>written\<close> the \<open>int64\<close> result.\<close>

record relay = defConn +
  recvBuf :: bytes
  queued :: "PacketInfo list"
  written :: int

definition full_pad :: u16 where [simp]: "full_pad = 536"

definition send_pkt :: "PacketInfo \<Rightarrow> 'a relay_scheme \<Rightarrow> 'a relay_scheme" where
  "send_pkt p conn = conn\<lparr>queued := queued conn @ [p]\<rparr>"

definition empty_cell :: "byte \<Rightarrow> PacketInfo" where
  "empty_cell t = \<lparr>PktType = t, Data = [], PadLen = full_pad\<rparr>"

definition data_cell :: "byte \<Rightarrow> bytes \<Rightarrow> PacketInfo" where
  "data_cell t d = \<lparr>PktType = t, Data = d, PadLen = word_of_int (int MaxPacketPaddingLength - int (length d))\<rparr>"

lemma empty_cell_ok [simp]: "cell_ok (empty_cell t)"
  by (simp add: cell_ok_def empty_cell_def)

lemma unat_pad: "n \<le> 536 \<Longrightarrow> unat (word_of_int (536 - int n) :: u16) = 536 - n"
  using unat_u16_of_int [of "536 - int n"] by (simp only: nat_diff_distrib) simp

lemma data_cell_ok [simp]: "length d \<le> 536 \<Longrightarrow> cell_ok (data_cell t d)"
  using unat_pad [of "length d"] by (simp add: cell_ok_def data_cell_def del: of_int_diff of_int_of_nat_eq)

lemma send_pkt_simps [simp]:
  "queued (send_pkt p conn) = queued conn @ [p]" "recvBuf (send_pkt p conn) = recvBuf conn"
  "IsServer (send_pkt p conn) = IsServer conn" "ConnState (send_pkt p conn) = ConnState conn"
  "written (send_pkt p conn) = written conn" "nRealSegSent (send_pkt p conn) = nRealSegSent conn"
  "nRealSegRcv (send_pkt p conn) = nRealSegRcv conn"
  by (simp_all add: send_pkt_def)

lemma relay_updates [simp]:
  "queued (set_phase ph conn) = queued conn" "recvBuf (set_phase ph conn) = recvBuf conn"
  "written (set_phase ph conn) = written conn"
  "queued (NRealSegSentIncrement conn) = queued conn" "recvBuf (NRealSegSentIncrement conn) = recvBuf conn"
  "written (NRealSegSentIncrement conn) = written conn"
  "queued (NRealSegRcvIncrement conn) = queued conn" "recvBuf (NRealSegRcvIncrement conn) = recvBuf conn"
  "written (NRealSegRcvIncrement conn) = written conn"
  "queued (NRealSegReset conn) = queued conn" "recvBuf (NRealSegReset conn) = recvBuf conn"
  "written (NRealSegReset conn) = written conn"
  by (simp_all add: set_phase_def NRealSegSentIncrement_def NRealSegRcvIncrement_def NRealSegReset_def)

definition conn_cells :: "'a relay_scheme \<Rightarrow> cell list" where
  "conn_cells conn = cells_of (queued conn)"

text \<open>The tunnel of a connection that uses \<open>SendChan\<close> and \<open>DefConn.Send\<close>: sending cannot fail before
  the nonces are used up, so delivery holds without a condition on the send routine.\<close>

locale relay_tunnel = tunnel step conn_cells recvBuf input IsServer MaxPacketPayloadLength accepts "\<lambda>_. True" h
  for step :: "'ev \<Rightarrow> 'a relay_scheme \<Rightarrow> 'a relay_scheme option" and input :: "'ev \<Rightarrow> bytes"
    and accepts :: "bool \<Rightarrow> byte \<Rightarrow> bytes \<Rightarrow> bytes \<Rightarrow> bool" and h :: "('p defConn_scheme) handler"
begin

lemma relay_delivery:
  assumes "run evs s = Some s'" "queued s = []" "recvBuf s = []" "link_ok c e dec" "intn_ok intn"
    "counter (e_nonce e) \<noteq> 0" "unat (counter (e_nonce e)) + length (queued s') \<le> 2 ^ 64"
    "IsServer peer = (\<not> IsServer s)" "Decoder peer = Some dec" "ReceiveBuffer peer = []"
    "ReceiveDecodedBuffer peer = []"
  shows "\<exists>wire e'. Send_all c e (queued s') = (Ok wire, e') \<and> length wire = 557 * length (queued s') \<and>
    (\<forall>chunks. concat chunks = wire \<and> [] \<notin> set chunks \<longrightarrow>
      (\<exists>peer' dec'. read_all (read_packets c intn h) peer chunks = (Ok None, peer') \<and>
        Decoder peer' = Some dec' \<and> link_ok c e' dec' \<and>
        ReceiveDecodedBuffer peer' @ recvBuf s' = concat (map input evs)))"
proof -
  have cs: "conn_cells s = []" using assms(2) by (simp add: conn_cells_def cells_of_def)
  obtain new where "conn_cells s' = conn_cells s @ new" "\<forall>(t, d, r) \<in> set new. length d + length r = 536"
    using run_cells [OF assms(1)] by (fastforce simp: MaxPacketPayloadLength_def)
  then have ok: "\<forall>p \<in> set (queued s'). length (Data p) + unat (PadLen p) \<le> MaxPacketPayloadLength"
    using cs by (auto simp: conn_cells_def cells_of_def)
  obtain wire e' where S: "Send_all c e (queued s') = (Ok wire, e')"
    using Send_all_ok [of c "queued s'" e] ok assms(4,6,7) by (auto simp: link_ok_def unat_gt_0)
  have F: "frames.sends c MaximumSegmentLength e (map (\<lambda>(t, d, r). packet_bytes t d r) (conn_cells s')) wire e'"
    unfolding conn_cells_def packet_of_cells by (rule Send_all_sends [OF S])
  have D: "\<exists>peer' dec'. read_all (read_packets c intn h) peer chunks = (Ok None, peer') \<and>
      Decoder peer' = Some dec' \<and> link_ok c e' dec' \<and>
      ReceiveDecodedBuffer peer' @ recvBuf s' = concat (map input evs) \<and>
      length wire = (FrameOverhead + PacketOverhead + MaxPacketPayloadLength) * length (conn_cells s')"
    if "concat chunks = wire" "[] \<notin> set chunks" for chunks
    by (rule tunnel_delivery [OF assms(1) TrueI cs assms(3-5) F assms(8-11) that])
  have "concat (map (\<lambda>b. [b]) wire) = wire" by (induction wire) auto
  then have "length wire = 557 * length (queued s')"
    using D [of "map (\<lambda>b. [b]) wire"] by (auto simp: conn_cells_def cells_of_def)
  with S D show ?thesis by blast
qed

end

section \<open>The plain defence\<close>

text \<open>The transition that data from upstream causes on a client: from Stop by more than one cell of
  data, or from Ready, to Start (with the signal to the server); otherwise from Stop to Ready.\<close>

definition client_wakes :: "nat \<Rightarrow> 'a relay_scheme \<Rightarrow> bool" where
  "client_wakes rdLen conn \<longleftrightarrow> \<not> IsServer conn \<and>
     ((LoadCurState conn = StateStop \<and> rdLen > MaxPacketPayloadLength) \<or> LoadCurState conn = StateReady)"

definition client_start :: "nat \<Rightarrow> 'a relay_scheme \<Rightarrow> 'a relay_scheme" where
  "client_start rdLen conn =
    (if client_wakes rdLen conn then send_pkt (empty_cell PacketTypeSignalStart) (set_phase StateStart conn)
     else if \<not> IsServer conn \<and> LoadCurState conn = StateStop then set_phase StateReady conn
     else conn)"

text \<open>One round of \<open>for receiveBuf.GetLen() > 0\<close>.\<close>

definition real_cell :: "'a relay_scheme \<Rightarrow> 'a relay_scheme" where
  "real_cell conn =
    (let d = take MaxPacketPayloadLength (recvBuf conn);
         conn1 = conn\<lparr>recvBuf := drop MaxPacketPayloadLength (recvBuf conn),
                    written := i64 (written conn + int (length d))\<rparr>
     in NRealSegSentIncrement (send_pkt (data_cell PacketTypePayload d) conn1))"

text \<open>The throughput ticker.\<close>

definition slow :: "'a defConn_scheme \<Rightarrow> bool" where
  "slow conn \<longleftrightarrow> nRealSegSent conn < 2 \<or> nRealSegRcv conn < 2"

definition ticker :: "'a relay_scheme \<Rightarrow> 'a relay_scheme" where
  "ticker conn = NRealSegReset
    (if \<not> IsServer conn \<and> LoadCurState conn \<noteq> StateStop \<and> slow conn
     then send_pkt (empty_cell PacketTypeSignalStop) (set_phase StateStop conn) else conn)"

datatype relay_event = Upstream bytes | Cell | Tick | Recv byte bytes bytes

definition ReadFrom_step :: "relay_event \<Rightarrow> 'a relay_scheme \<Rightarrow> 'a relay_scheme option" where
  "ReadFrom_step ev conn =
    (case ev of
       Upstream data \<Rightarrow>
         if recvBuf conn = [] \<and> 0 < length data \<and> length data \<le> 65535
         then Some (client_start (length data) (conn\<lparr>recvBuf := recvBuf conn @ data\<rparr>)) else None
     | Cell \<Rightarrow> if recvBuf conn \<noteq> [] then Some (real_cell conn) else None
     | Tick \<Rightarrow> Some (ticker conn)
     | Recv t p r \<Rightarrow> (case defconn_handle conn t p r of None \<Rightarrow> None | Some (conn', _) \<Rightarrow> Some conn'))"

fun upstream_of :: "relay_event \<Rightarrow> bytes" where
  "upstream_of (Upstream data) = data"
| "upstream_of _ = []"

section \<open>The plain defence keeps the contract\<close>

text \<open>The cells of a packet list that the send routine accepts, and that a peer with \<open>accepts\<close> takes.\<close>

definition good_cells :: "(bool \<Rightarrow> byte \<Rightarrow> bytes \<Rightarrow> bytes \<Rightarrow> bool) \<Rightarrow> bool \<Rightarrow> PacketInfo list \<Rightarrow> bool" where
  "good_cells acc server ps \<longleftrightarrow>
     (\<forall>p \<in> set ps. cell_ok p \<and> acc server (PktType p) (Data p) (replicate (unat (PadLen p)) 0))"

lemma cells_of_append [simp]: "cells_of (a @ b) = cells_of a @ cells_of b"
  by (simp add: cells_of_def)

lemma payloads_cells_of [simp]:
  "payloads (cells_of ps) = concat [Data p. p \<leftarrow> ps, PktType p = PacketTypePayload]"
  by (induction ps) (auto simp: cells_of_def)

text \<open>A step that appends \<open>ps\<close> to the queue keeps the contract when \<open>ps\<close> is good and carries what
  leaves the buffer.\<close>

lemma relay_step:
  assumes "queued conn' = queued conn @ ps" "good_cells acc (\<not> IsServer conn) ps"
    "concat [Data p. p \<leftarrow> ps, PktType p = PacketTypePayload] @ recvBuf conn' = recvBuf conn @ inp"
  shows "\<exists>new. conn_cells conn' = conn_cells conn @ new \<and>
    (\<forall>(t, d, r) \<in> set new. length d + length r = 536 \<and> acc (\<not> IsServer conn) t d r) \<and>
    payloads new @ recvBuf conn' = recvBuf conn @ inp"
proof (intro exI conjI)
  show "conn_cells conn' = conn_cells conn @ cells_of ps" using assms(1) by (simp add: conn_cells_def)
  show "\<forall>(t, d, r) \<in> set (cells_of ps). length d + length r = 536 \<and> acc (\<not> IsServer conn) t d r"
    using assms(2) by (auto simp: good_cells_def cells_of_def cell_ok_def)
  show "payloads (cells_of ps) @ recvBuf conn' = recvBuf conn @ inp" using assms(3) by simp
qed

text \<open>The two laws of a step at once: the role stays, and what is appended to the queue are good cells that
  carry what leaves the buffer.\<close>

definition relay_keeps :: "(bool \<Rightarrow> byte \<Rightarrow> bytes \<Rightarrow> bytes \<Rightarrow> bool) \<Rightarrow> 'a relay_scheme \<Rightarrow> bytes \<Rightarrow> 'a relay_scheme \<Rightarrow> bool" where
  "relay_keeps acc conn inp conn' \<longleftrightarrow> IsServer conn' = IsServer conn \<and>
     (\<exists>ps. queued conn' = queued conn @ ps \<and> good_cells acc (\<not> IsServer conn) ps \<and>
       concat [Data p. p \<leftarrow> ps, PktType p = PacketTypePayload] @ recvBuf conn' = recvBuf conn @ inp)"

lemma relay_keepsI:
  assumes "IsServer conn' = IsServer conn" "queued conn' = queued conn @ ps"
    "good_cells acc (\<not> IsServer conn) ps"
    "concat [Data p. p \<leftarrow> ps, PktType p = PacketTypePayload] @ recvBuf conn' = recvBuf conn @ inp"
  shows "relay_keeps acc conn inp conn'"
  using assms by (auto simp: relay_keeps_def)

lemma relay_keeps_quiet:
  "IsServer conn' = IsServer conn \<Longrightarrow> queued conn' = queued conn \<Longrightarrow> recvBuf conn' = recvBuf conn \<Longrightarrow>
     relay_keeps acc conn [] conn'"
  by (rule relay_keepsI [where ps = "[]"]) (auto simp: good_cells_def)

lemma relay_keeps_step:
  assumes "relay_keeps acc conn inp conn'"
  shows "\<exists>new. conn_cells conn' = conn_cells conn @ new \<and>
    (\<forall>(t, d, r) \<in> set new. length d + length r = 536 \<and> acc (\<not> IsServer conn) t d r) \<and>
    payloads new @ recvBuf conn' = recvBuf conn @ inp"
  using assms relay_step unfolding relay_keeps_def by blast

lemma good_cells_simps [simp]:
  "good_cells acc server []"
  "good_cells acc server (p # ps) \<longleftrightarrow>
     cell_ok p \<and> acc server (PktType p) (Data p) (replicate (unat (PadLen p)) 0) \<and> good_cells acc server ps"
  by (auto simp: good_cells_def)

lemma cell_types [simp]:
  "PktType (empty_cell t) = t" "Data (empty_cell t) = []" "PadLen (empty_cell t) = 536"
  "PktType (data_cell t d) = t" "Data (data_cell t d) = d"
  by (simp_all add: empty_cell_def data_cell_def)

lemma handle_relay:
  "defconn_handle conn t p r = Some (conn', e) \<Longrightarrow> queued conn' = queued conn \<and>
     recvBuf conn' = recvBuf conn \<and> IsServer conn' = IsServer conn"
  by (auto simp: defconn_handle_def split: if_splits outcome.splits)

lemma client_start_step:
  "\<exists>ps. queued (client_start n conn) = queued conn @ ps \<and> recvBuf (client_start n conn) = recvBuf conn \<and>
     IsServer (client_start n conn) = IsServer conn \<and>
     (ps = [] \<or> \<not> IsServer conn \<and> ps = [empty_cell PacketTypeSignalStart])"
  by (auto simp: client_start_def client_wakes_def)

lemma ticker_step:
  "\<exists>ps. queued (ticker conn) = queued conn @ ps \<and> recvBuf (ticker conn) = recvBuf conn \<and>
     IsServer (ticker conn) = IsServer conn \<and>
     (ps = [] \<or> \<not> IsServer conn \<and> ps = [empty_cell PacketTypeSignalStop])"
  by (auto simp: ticker_def)

lemma real_cell_step:
  "queued (real_cell conn) = queued conn @ [data_cell PacketTypePayload (take 536 (recvBuf conn))] \<and>
     recvBuf (real_cell conn) = drop 536 (recvBuf conn) \<and> IsServer (real_cell conn) = IsServer conn"
  by (simp add: real_cell_def Let_def)

interpretation plain: relay_tunnel "ReadFrom_step :: relay_event \<Rightarrow> 'a relay_scheme \<Rightarrow> 'a relay_scheme option"
  upstream_of defconn_accepts "defconn_handle :: 'p defConn_scheme handler"
proof (unfold_locales, goal_cases)
  case (1 ev s s')
  note S = 1
  have K: "\<exists>ps. queued s' = queued s @ ps \<and> good_cells defconn_accepts (\<not> IsServer s) ps \<and>
      concat [Data p. p \<leftarrow> ps, PktType p = PacketTypePayload] @ recvBuf s' = recvBuf s @ upstream_of ev"
  proof (cases ev)
    case (Upstream data)
    then show ?thesis
      using S client_start_step [of "length data" "s\<lparr>recvBuf := recvBuf s @ data\<rparr>"]
      by (auto simp: ReadFrom_step_def defconn_accepts_def split: if_splits)
  next
    case Cell
    then show ?thesis
      using S real_cell_step [of s] by (auto simp: ReadFrom_step_def defconn_accepts_def split: if_splits)
  next
    case Tick
    then show ?thesis
      using S ticker_step [of s] by (auto simp: ReadFrom_step_def defconn_accepts_def)
  next
    case (Recv t p r)
    then show ?thesis
      using S by (auto simp: ReadFrom_step_def split: option.splits dest!: handle_relay)
  qed
  from K obtain ps where "queued s' = queued s @ ps" "good_cells defconn_accepts (\<not> IsServer s) ps"
    "concat [Data p. p \<leftarrow> ps, PktType p = PacketTypePayload] @ recvBuf s' = recvBuf s @ upstream_of ev" by blast
  from relay_step [OF this] show ?case by simp
next
  case (2 ev s s')
  then show ?case
    using client_start_step real_cell_step [of s] ticker_step [of s]
    by (cases ev) (auto simp: ReadFrom_step_def client_start_def split: if_splits option.splits dest: handle_relay)
qed simp_all


section \<open>Signals and phases\<close>

text \<open>Handling a sequence of cells, one after the other.\<close>

fun handle_cells :: "'s handler \<Rightarrow> cell list \<Rightarrow> 's \<Rightarrow> 's option" where
  "handle_cells h [] s = Some s"
| "handle_cells h ((t, d, r) # cs) s =
    (case h s t d r of None \<Rightarrow> None | Some (s', _) \<Rightarrow> handle_cells h cs s')"

lemma handle_cells_append:
  "handle_cells h (a @ b) s = (case handle_cells h a s of None \<Rightarrow> None | Some s' \<Rightarrow> handle_cells h b s')"
  by (induction h a s rule: handle_cells.induct) (auto split: option.splits)

text \<open>The phase that the signals of a packet list put a server in.\<close>

definition signal_phase :: "phase \<Rightarrow> byte \<Rightarrow> phase" where
  "signal_phase ph t = (if t = PacketTypeSignalStart then StateStart
     else if t = PacketTypeSignalStop then StateStop else ph)"

lemma defconn_handle_server:
  assumes "IsServer s"
  shows "\<exists>s'. defconn_handle s t d r = Some (s', None) \<and> IsServer s' \<and>
    LoadCurState s' = signal_phase (LoadCurState s) t"
  using assms by (auto simp: defconn_handle_def signal_phase_def)

lemma handle_cells_server:
  "IsServer s \<Longrightarrow> \<exists>s'. handle_cells defconn_handle cs s = Some s' \<and> IsServer s' \<and>
     LoadCurState s' = foldl signal_phase (LoadCurState s) (map fst cs)"
proof (induction cs arbitrary: s)
  case (Cons x cs)
  obtain t d r where x: "x = (t, d, r)" by (cases x)
  obtain s1 where "defconn_handle s t d r = Some (s1, None)" "IsServer s1"
    "LoadCurState s1 = signal_phase (LoadCurState s) t"
    using defconn_handle_server [OF Cons.prems] by blast
  with Cons.IH [of s1] x show ?case by auto
qed simp_all

text \<open>The invariant of a client: the signals queued so far put the server in Start exactly when the
  client is there, and the client is never in Padding.\<close>

definition client_inv :: "'a relay_scheme \<Rightarrow> bool" where
  "client_inv conn \<longleftrightarrow> \<not> IsServer conn \<and> LoadCurState conn \<noteq> StatePadding \<and>
     foldl signal_phase StateStop (map PktType (queued conn)) =
       (if LoadCurState conn = StateStart then StateStart else StateStop)"

lemma signal_phase_simps [simp]:
  "signal_phase ph 3 = StateStart" "signal_phase ph 4 = StateStop" "signal_phase ph 0 = ph"
  "signal_phase ph 1 = ph" "signal_phase ph 5 = ph"
  by (simp_all add: signal_phase_def)

lemma client_start_inv: "client_inv conn \<Longrightarrow> client_inv (client_start n conn)"
  by (auto simp: client_inv_def client_start_def client_wakes_def split: if_splits)

lemma ticker_inv: "client_inv conn \<Longrightarrow> client_inv (ticker conn)"
  by (auto simp: client_inv_def ticker_def split: if_splits)

lemma real_cell_inv: "client_inv conn \<Longrightarrow> client_inv (real_cell conn)"
  by (auto simp: client_inv_def real_cell_def Let_def split: if_splits)

lemma client_inv_recvBuf [simp]: "client_inv (conn\<lparr>recvBuf := b\<rparr>) = client_inv conn"
  by (simp add: client_inv_def)

lemma handle_client_inv:
  "client_inv conn \<Longrightarrow> defconn_handle conn t p r = Some (conn', e) \<Longrightarrow> client_inv conn'"
  by (auto simp: client_inv_def defconn_handle_def split: if_splits outcome.splits)

lemma plain_client_inv:
  "plain.run evs conn = Some conn' \<Longrightarrow> client_inv conn \<Longrightarrow> client_inv conn'"
proof (induction evs arbitrary: conn)
  case (Cons ev evs)
  then obtain c1 where c1: "ReadFrom_step ev conn = Some c1" "plain.run evs c1 = Some conn'"
    by (auto split: option.splits)
  have "client_inv c1"
    using c1(1) Cons.prems(2)
    by (cases ev) (auto simp: ReadFrom_step_def client_start_inv ticker_inv real_cell_inv
        split: if_splits option.splits dest: handle_client_inv)
  with Cons.IH [OF c1(2)] show ?case by blast
qed simp_all

section \<open>Properties\<close>

text \<open>The plain defence relays the stream. After any interleaving of its goroutines, from a fresh
  connection, the packets sent to the send routine can all be sent, occupy 557 bytes each on the
  wire, and the peer that reads them, cut in any way, gets exactly the bytes that came from
  upstream, in order, except for a tail that is still in the buffer.\<close>

lemma plain_relays_stream:
  assumes "plain.run evs conn = Some conn'" "queued conn = []" "recvBuf conn = []" "link_ok c e dec"
    "intn_ok intn" "counter (e_nonce e) \<noteq> 0" "unat (counter (e_nonce e)) + length (queued conn') \<le> 2 ^ 64"
    "IsServer peer = (\<not> IsServer conn)" "Decoder peer = Some dec" "ReceiveBuffer peer = []"
    "ReceiveDecodedBuffer peer = []"
  shows "\<exists>wire e'. Send_all c e (queued conn') = (Ok wire, e') \<and> length wire = 557 * length (queued conn') \<and>
    (\<forall>chunks. concat chunks = wire \<and> [] \<notin> set chunks \<longrightarrow>
      (\<exists>peer' dec'. read_all (ReadPackets c intn) peer chunks = (Ok None, peer') \<and>
        Decoder peer' = Some dec' \<and> link_ok c e' dec' \<and>
        ReceiveDecodedBuffer peer' @ recvBuf conn' = concat (map upstream_of evs)))"
  unfolding ReadPackets_def by (rule plain.relay_delivery [OF assms])

definition fresh_relay :: "bool \<Rightarrow> relay" where
  "fresh_relay server = \<lparr>IsServer = server, LenDist = [], nRealSegSent = 0, nRealSegRcv = 0,
     ConnState = NewState, ReceiveBuffer = [], ReceiveDecodedBuffer = [], Encoder = None, Decoder = None,
     recvBuf = [], queued = [], written = 0\<rparr>"

lemma plain_relays_stream_example:
  "\<exists>e d conn' wire e' peer'. NewEncoder (replicate 72 3) = Ok e \<and> NewDecoder (replicate 72 3) = Ok d \<and>
     plain.run [Upstream (replicate 600 7), Cell, Tick, Cell] (fresh_relay False) = Some conn' \<and>
     map PktType (queued conn') = [3, 0, 4, 0] \<and>
     Send_all demo_crypto e (queued conn') = (Ok wire, e') \<and>
     read_all (ReadPackets demo_crypto (\<lambda>_. 0)) (demo_conn True d) (map (\<lambda>b. [b]) wire) = (Ok None, peer') \<and>
     ReceiveDecodedBuffer peer' = replicate 600 7"
proof -
  obtain e d where ed: "NewEncoder (replicate 72 3) = Ok e" "NewDecoder (replicate 72 3) = Ok d"
    "linked e d" "counter (e_nonce e) = 1" using NewEncoder_NewDecoder [of "replicate 72 3"] by auto
  then have l: "link_ok demo_crypto e d" using demo_crypto_link_ok by (simp add: link_ok_def)
  obtain conn' where R: "plain.run [Upstream (replicate 600 7), Cell, Tick, Cell] (fresh_relay False) = Some conn'"
    "map PktType (queued conn') = [3, 0, 4, 0]" "recvBuf conn' = []"
    by (simp add: ReadFrom_step_def fresh_relay_def client_start_def client_wakes_def real_cell_def
        ticker_def slow_def Let_def)
  have "length (queued conn') = 4" using arg_cong [OF R(2), of length] by simp
  then obtain wire e' where W: "Send_all demo_crypto e (queued conn') = (Ok wire, e')"
    "\<forall>chunks. concat chunks = wire \<and> [] \<notin> set chunks \<longrightarrow>
      (\<exists>peer' dec'. read_all (ReadPackets demo_crypto (\<lambda>_. 0)) (demo_conn True d) chunks = (Ok None, peer') \<and>
        Decoder peer' = Some dec' \<and> link_ok demo_crypto e' dec' \<and>
        ReceiveDecodedBuffer peer' @ recvBuf conn' = replicate 600 7)"
    using plain_relays_stream [OF R(1) _ _ l demo_intn, of "demo_conn True d"] ed(4)
    by (auto simp: fresh_relay_def demo_conn_def)
  have "concat (map (\<lambda>b. [b]) wire) = wire" by (induction wire) auto
  moreover have "[] \<notin> set (map (\<lambda>b. [b]) wire)" by auto
  ultimately obtain peer' where
    "read_all (ReadPackets demo_crypto (\<lambda>_. 0)) (demo_conn True d) (map (\<lambda>b. [b]) wire) = (Ok None, peer')"
    "ReceiveDecodedBuffer peer' @ recvBuf conn' = replicate 600 7"
    using W(2) by blast
  with ed R W(1) show ?thesis by auto
qed



end
