(* ===== verification/Front.thy ===== *)
theory Front
  imports Complex_Main Defence
begin

text \<open>
  The FRONT defence, \<open>transports/front/front.go\<close> and \<open>packet.go\<close>. On a start signal the
  padding factory samples a number of dummy packets and their times and fills a queue; the padding
  routine takes them one by one and sends each when its time has come; a stop signal empties the
  queue. The samples of the gonum distributions are parameters: the number \<open>n\<close> and the draws as
  real numbers, with \<open>dur\<close> for the conversion \<open>time.Duration(int64(ts * 1e9))\<close>. The queue is
  \<open>goconcurrentqueue\<close>'s fixed FIFO, which refuses an element beyond its capacity.
\<close>

section \<open>State\<close>

record frontConn = relay +
  nServer :: int
  nClient :: int
  paddingChan :: "bool list"
  tsQueue :: "int list"
  frontInitTime :: "int option"
  holding :: "int option"
  factoryUp :: bool

definition maxPaddingN :: "'a frontConn_scheme \<Rightarrow> int" where
  "maxPaddingN conn = (if IsServer conn then nServer conn else nClient conn)"

definition signal_padding :: "bool \<Rightarrow> 'a frontConn_scheme \<Rightarrow> 'a frontConn_scheme" where
  "signal_padding b conn = conn\<lparr>paddingChan := paddingChan conn @ [b]\<rparr>"

section \<open>Receiving\<close>

definition front_handle :: "'a frontConn_scheme handler" where
  "front_handle conn pktType payload rest =
    (if pktType = PacketTypePayload then
       (if length payload > 0
        then Some (NRealSegRcvIncrement (conn\<lparr>ReceiveDecodedBuffer := ReceiveDecodedBuffer conn @ payload\<rparr>), None)
        else Some (conn, None))
     else if pktType = PacketTypePrngSeed then
       (if length payload = SeedPacketPayloadLength \<and> \<not> IsServer conn then
          (case SeedFromBytes payload of
             Ok seed \<Rightarrow> Some (conn\<lparr>LenDist := seed\<rparr>, None)
           | Err er \<Rightarrow> Some (conn, Some (SeedError er)) | Panic \<Rightarrow> None)
        else Some (conn, None))
     else if pktType = PacketTypeSignalStart then
       (if \<not> IsServer conn then None
        else if LoadCurState conn \<noteq> StateStart
        then Some (set_phase StateStart (signal_padding True conn), None) else Some (conn, None))
     else if pktType = PacketTypeSignalStop then
       (if \<not> IsServer conn then None
        else if LoadCurState conn \<noteq> StateStop
        then Some (set_phase StateStop (signal_padding False conn), None) else Some (conn, None))
     else Some (conn, None))"

definition front_readPackets :: "crypto \<Rightarrow> (int \<Rightarrow> int) \<Rightarrow> 'a frontConn_scheme \<Rightarrow> bytes \<Rightarrow> nat option \<Rightarrow>
    (unit, packet_error option) outcome \<times> 'a frontConn_scheme" where
  "front_readPackets c intn = read_packets c intn front_handle"

section \<open>The padding factory\<close>

text \<open>Enqueueing into the fixed FIFO; the first refusal ends the loop with an error.\<close>

fun enqueue_all :: "int \<Rightarrow> int list \<Rightarrow> int list \<Rightarrow> bool \<times> int list" where
  "enqueue_all cap [] q = (True, q)"
| "enqueue_all cap (t # ts) q =
    (if int (length q) \<ge> cap then (False, q) else enqueue_all cap ts (q @ [t]))"

text \<open>\<open>initFrontArgs\<close>: a negative \<open>n\<close> makes \<open>make\<close> panic.\<close>

definition initFrontArgs :: "(real \<Rightarrow> int) \<Rightarrow> int \<Rightarrow> int \<Rightarrow> (nat \<Rightarrow> real) \<Rightarrow> int \<Rightarrow> 'a frontConn_scheme \<Rightarrow>
    (unit, bool) outcome \<times> 'a frontConn_scheme" where
  "initFrontArgs dur N n draw now conn =
    (if n < 0 then (Panic, conn)
     else let ts = sort (map draw [0..<nat n]);
              conn1 = conn\<lparr>tsQueue := [], frontInitTime := Some now\<rparr>;
              (ok, q) = enqueue_all N (map dur ts) []
          in (Ok ok, conn1\<lparr>tsQueue := q\<rparr>))"

text \<open>One round of the padding factory: it takes a signal off \<open>paddingChan\<close>. After an error of
  \<open>initFrontArgs\<close> it has left its loop. \<open>None\<close> is a panic or a round that cannot happen.\<close>

definition padding_factory :: "(real \<Rightarrow> int) \<Rightarrow> int \<Rightarrow> (nat \<Rightarrow> real) \<Rightarrow> int \<Rightarrow> 'a frontConn_scheme \<Rightarrow>
    'a frontConn_scheme option" where
  "padding_factory dur n draw now conn =
    (case paddingChan conn of
       [] \<Rightarrow> None
     | startPadding # chan \<Rightarrow>
        (let conn1 = conn\<lparr>paddingChan := chan\<rparr>
         in if \<not> factoryUp conn then None
            else if startPadding then
              (case initFrontArgs dur (maxPaddingN conn) n draw now conn1 of
                 (Ok ok, conn2) \<Rightarrow> Some (conn2\<lparr>factoryUp := ok\<rparr>)
               | _ \<Rightarrow> None)
            else Some (conn1\<lparr>tsQueue := []\<rparr>)))"

section \<open>The padding routine\<close>

text \<open>A round has two halves: the timestamp is taken off the queue and the routine sleeps until that
  time after the start of the defence; then it sends a dummy. \<open>holding\<close> is the time it waits for.\<close>

definition padding_take :: "'a frontConn_scheme \<Rightarrow> 'a frontConn_scheme option" where
  "padding_take conn =
    (if LoadCurState conn = StateStop \<or> tsQueue conn = [] \<or> holding conn \<noteq> None then None
     else (case frontInitTime conn of
         None \<Rightarrow> None
       | Some t0 \<Rightarrow> Some (conn\<lparr>tsQueue := tl (tsQueue conn), holding := Some (t0 + hd (tsQueue conn))\<rparr>)))"

definition padding_send :: "int \<Rightarrow> 'a frontConn_scheme \<Rightarrow> 'a frontConn_scheme option" where
  "padding_send now conn =
    (case holding conn of
       None \<Rightarrow> None
     | Some t \<Rightarrow> if now < t then None
                else Some (send_pkt (empty_cell PacketTypeDummy) (conn\<lparr>holding := None\<rparr>)))"

section \<open>Upstream data and the ticker\<close>

definition front_upstream :: "nat \<Rightarrow> 'a frontConn_scheme \<Rightarrow> 'a frontConn_scheme" where
  "front_upstream rdLen conn =
    (if client_wakes rdLen conn
     then signal_padding True (send_pkt (empty_cell PacketTypeSignalStart) (set_phase StateStart conn))
     else if \<not> IsServer conn \<and> LoadCurState conn = StateStop then set_phase StateReady conn
     else conn)"

definition front_ticker :: "'a frontConn_scheme \<Rightarrow> 'a frontConn_scheme" where
  "front_ticker conn = NRealSegReset
    (if \<not> IsServer conn \<and> LoadCurState conn \<noteq> StateStop \<and> slow conn
     then signal_padding False (send_pkt (empty_cell PacketTypeSignalStop) (set_phase StateStop conn)) else conn)"

datatype front_event = FUpstream bytes | FCell | FTick | FRecv byte bytes bytes
  | Factory int "nat \<Rightarrow> real" int | TakeTime | SendDummy int

definition front_step :: "(real \<Rightarrow> int) \<Rightarrow> front_event \<Rightarrow> 'a frontConn_scheme \<Rightarrow> 'a frontConn_scheme option" where
  "front_step dur ev conn =
    (case ev of
       FUpstream data \<Rightarrow>
         if recvBuf conn = [] \<and> 0 < length data \<and> length data \<le> 65535
         then Some (front_upstream (length data) (conn\<lparr>recvBuf := recvBuf conn @ data\<rparr>)) else None
     | FCell \<Rightarrow> if recvBuf conn \<noteq> [] then Some (real_cell conn) else None
     | FTick \<Rightarrow> Some (front_ticker conn)
     | FRecv t p r \<Rightarrow> (case front_handle conn t p r of None \<Rightarrow> None | Some (conn', _) \<Rightarrow> Some conn')
     | Factory n draw now \<Rightarrow> padding_factory dur n draw now conn
     | TakeTime \<Rightarrow> padding_take conn
     | SendDummy now \<Rightarrow> padding_send now conn)"

fun front_input :: "front_event \<Rightarrow> bytes" where
  "front_input (FUpstream data) = data"
| "front_input _ = []"

section \<open>The contract\<close>

lemma signal_padding_simps [simp]:
  "queued (signal_padding b conn) = queued conn" "recvBuf (signal_padding b conn) = recvBuf conn"
  "IsServer (signal_padding b conn) = IsServer conn" "ConnState (signal_padding b conn) = ConnState conn"
  "ReceiveDecodedBuffer (signal_padding b conn) = ReceiveDecodedBuffer conn"
  "tsQueue (signal_padding b conn) = tsQueue conn" "holding (signal_padding b conn) = holding conn"
  by (simp_all add: signal_padding_def)

lemma front_updates [simp]:
  "tsQueue (set_phase ph conn) = tsQueue conn" "holding (set_phase ph conn) = holding conn"
  "maxPaddingN (set_phase ph conn) = maxPaddingN conn"
  "tsQueue (send_pkt p conn) = tsQueue conn" "holding (send_pkt p conn) = holding conn"
  "maxPaddingN (send_pkt p conn) = maxPaddingN conn"
  "tsQueue (NRealSegReset conn) = tsQueue conn" "holding (NRealSegReset conn) = holding conn"
  "maxPaddingN (NRealSegReset conn) = maxPaddingN conn"
  "tsQueue (NRealSegSentIncrement conn) = tsQueue conn" "holding (NRealSegSentIncrement conn) = holding conn"
  "maxPaddingN (NRealSegSentIncrement conn) = maxPaddingN conn"
  "tsQueue (NRealSegRcvIncrement conn) = tsQueue conn" "holding (NRealSegRcvIncrement conn) = holding conn"
  "maxPaddingN (NRealSegRcvIncrement conn) = maxPaddingN conn"
  "maxPaddingN (signal_padding b conn) = maxPaddingN conn"
  "maxPaddingN (conn\<lparr>ReceiveDecodedBuffer := rd\<rparr>) = maxPaddingN conn"
  "maxPaddingN (conn\<lparr>LenDist := ld\<rparr>) = maxPaddingN conn"
  "maxPaddingN (conn\<lparr>recvBuf := rb\<rparr>) = maxPaddingN conn"
  "maxPaddingN (conn\<lparr>recvBuf := rb, written := w\<rparr>) = maxPaddingN conn"
  "maxPaddingN (conn\<lparr>paddingChan := pc\<rparr>) = maxPaddingN conn"
  "maxPaddingN (conn\<lparr>tsQueue := q\<rparr>) = maxPaddingN conn"
  "maxPaddingN (conn\<lparr>tsQueue := q, holding := hd'\<rparr>) = maxPaddingN conn"
  "maxPaddingN (conn\<lparr>holding := hd'\<rparr>) = maxPaddingN conn"
  "maxPaddingN (conn\<lparr>frontInitTime := t0\<rparr>) = maxPaddingN conn"
  "maxPaddingN (conn\<lparr>factoryUp := up\<rparr>) = maxPaddingN conn"
  by (simp_all add: set_phase_def send_pkt_def NRealSegReset_def NRealSegSentIncrement_def
      NRealSegRcvIncrement_def maxPaddingN_def signal_padding_def)

lemma front_handle_relay:
  "front_handle conn t p r = Some (conn', e) \<Longrightarrow> queued conn' = queued conn \<and>
     recvBuf conn' = recvBuf conn \<and> IsServer conn' = IsServer conn \<and> tsQueue conn' = tsQueue conn \<and>
     holding conn' = holding conn \<and> maxPaddingN conn' = maxPaddingN conn"
  by (auto simp: front_handle_def split: if_splits outcome.splits)

interpretation front: packet_handler "front_handle :: 'a frontConn_scheme handler" defconn_accepts
proof
  fix s :: "'a frontConn_scheme" and t p r
  show "\<exists>s'. front_handle s t p r = Some (s', None) \<and> IsServer s' = IsServer s \<and>
      ReceiveDecodedBuffer s' = ReceiveDecodedBuffer s @ (if t = PacketTypePayload then p else [])"
    if "defconn_accepts (IsServer s) t p r"
    using that by (auto simp: front_handle_def defconn_accepts_def SeedFromBytes_def)
  show "keeps_link (front_handle :: 'a frontConn_scheme handler)"
    by (auto simp: keeps_link_def front_handle_def SeedFromBytes_def NRealSegRcvIncrement_def
        set_phase_def signal_padding_def split: if_splits)
qed


lemma enqueue_all_length: "int (length q) \<le> max 0 cap \<Longrightarrow> enqueue_all cap ts q = (ok, q') \<Longrightarrow> int (length q') \<le> max 0 cap"
  by (induction cap ts q rule: enqueue_all.induct) (auto split: if_splits)

lemma enqueue_all_fits: "int (length q + length ts) \<le> cap \<Longrightarrow> enqueue_all cap ts q = (True, q @ ts)"
  by (induction cap ts q rule: enqueue_all.induct) auto

lemma padding_factory_relay:
  assumes "padding_factory dur n draw now conn = Some conn'"
  shows "queued conn' = queued conn \<and> recvBuf conn' = recvBuf conn \<and> IsServer conn' = IsServer conn \<and>
    holding conn' = holding conn \<and> maxPaddingN conn' = maxPaddingN conn \<and>
    int (length (tsQueue conn')) \<le> max 0 (maxPaddingN conn)"
  using assms enqueue_all_length [of "[]"]
  by (fastforce simp: padding_factory_def initFrontArgs_def Let_def
      split: list.splits if_splits outcome.splits prod.splits)

lemma padding_take_relay:
  "padding_take conn = Some conn' \<Longrightarrow> queued conn' = queued conn \<and> recvBuf conn' = recvBuf conn \<and>
     IsServer conn' = IsServer conn \<and> maxPaddingN conn' = maxPaddingN conn \<and> LoadCurState conn \<noteq> StateStop \<and>
     tsQueue conn \<noteq> [] \<and> tsQueue conn' = tl (tsQueue conn) \<and> holding conn = None \<and> holding conn' \<noteq> None"
  by (auto simp: padding_take_def split: if_splits option.splits)

lemma padding_send_relay:
  "padding_send now conn = Some conn' \<Longrightarrow> queued conn' = queued conn @ [empty_cell PacketTypeDummy] \<and>
     recvBuf conn' = recvBuf conn \<and> IsServer conn' = IsServer conn \<and> maxPaddingN conn' = maxPaddingN conn \<and>
     tsQueue conn' = tsQueue conn \<and> holding conn \<noteq> None \<and> holding conn' = None"
  by (auto simp: padding_send_def split: if_splits option.splits)

lemma front_upstream_step:
  "\<exists>ps. queued (front_upstream n conn) = queued conn @ ps \<and> recvBuf (front_upstream n conn) = recvBuf conn \<and>
     IsServer (front_upstream n conn) = IsServer conn \<and> tsQueue (front_upstream n conn) = tsQueue conn \<and>
     holding (front_upstream n conn) = holding conn \<and> maxPaddingN (front_upstream n conn) = maxPaddingN conn \<and>
     (ps = [] \<or> \<not> IsServer conn \<and> ps = [empty_cell PacketTypeSignalStart])"
  by (auto simp: front_upstream_def client_wakes_def)

lemma front_ticker_step:
  "\<exists>ps. queued (front_ticker conn) = queued conn @ ps \<and> recvBuf (front_ticker conn) = recvBuf conn \<and>
     IsServer (front_ticker conn) = IsServer conn \<and> tsQueue (front_ticker conn) = tsQueue conn \<and>
     holding (front_ticker conn) = holding conn \<and> maxPaddingN (front_ticker conn) = maxPaddingN conn \<and>
     (ps = [] \<or> \<not> IsServer conn \<and> ps = [empty_cell PacketTypeSignalStop])"
  by (auto simp: front_ticker_def)

lemma real_cell_front [simp]:
  "tsQueue (real_cell conn) = tsQueue conn" "holding (real_cell conn) = holding conn"
  "maxPaddingN (real_cell conn) = maxPaddingN conn"
  by (simp_all add: real_cell_def Let_def)

text \<open>What one step adds to the queue of packets; everything the contract and the budget need.\<close>

lemma front_step_cases:
  assumes "front_step dur ev conn = Some conn'"
  shows "\<exists>ps. queued conn' = queued conn @ ps \<and> good_cells defconn_accepts (\<not> IsServer conn) ps \<and>
    concat [Data p. p \<leftarrow> ps, PktType p = PacketTypePayload] @ recvBuf conn' = recvBuf conn @ front_input ev \<and>
    IsServer conn' = IsServer conn \<and> maxPaddingN conn' = maxPaddingN conn \<and>
    int (length [p \<leftarrow> ps. PktType p = PacketTypeDummy] + length (tsQueue conn') + (if holding conn' = None then 0 else 1)) \<le>
    int (length (tsQueue conn) + (if holding conn = None then 0 else 1)) +
      (case ev of Factory _ _ _ \<Rightarrow> max 0 (maxPaddingN conn) | _ \<Rightarrow> 0)"
proof (cases ev)
  case (FUpstream data)
  then show ?thesis
    using assms front_upstream_step [of "length data" "conn\<lparr>recvBuf := recvBuf conn @ data\<rparr>"]
    by (auto simp: front_step_def defconn_accepts_def split: if_splits)
next
  case FCell
  then show ?thesis
    using assms real_cell_step [of conn]
    by (auto simp: front_step_def defconn_accepts_def split: if_splits)
next
  case FTick
  then show ?thesis
    using assms front_ticker_step [of conn] by (auto simp: front_step_def defconn_accepts_def)
next
  case (FRecv t p r)
  then show ?thesis
    using assms by (auto simp: front_step_def split: option.splits dest!: front_handle_relay)
next
  case (Factory n draw now)
  then show ?thesis
    using assms padding_factory_relay [of dur n draw now conn conn'] by (auto simp: front_step_def)
next
  case TakeTime
  then show ?thesis
    using assms padding_take_relay [of conn conn'] by (cases "tsQueue conn") (auto simp: front_step_def)
next
  case (SendDummy now)
  then show ?thesis
    using assms padding_send_relay [of now conn conn'] by (auto simp: front_step_def defconn_accepts_def)
qed

interpretation front_relay: relay_tunnel "front_step dur :: front_event \<Rightarrow> 'a frontConn_scheme \<Rightarrow> 'a frontConn_scheme option"
  front_input defconn_accepts "front_handle :: 'p frontConn_scheme handler" for dur
proof (unfold_locales, goal_cases)
  case (1 ev s s')
  then obtain ps where "queued s' = queued s @ ps" "good_cells defconn_accepts (\<not> IsServer s) ps"
    "concat [Data p. p \<leftarrow> ps, PktType p = PacketTypePayload] @ recvBuf s' = recvBuf s @ front_input ev"
    using front_step_cases by blast
  from relay_step [OF this] show ?case by simp
next
  case (2 ev s s')
  then show ?case using front_step_cases by blast
qed simp_all


section \<open>The padding budget\<close>

definition dummies :: "PacketInfo list \<Rightarrow> nat" where
  "dummies ps = length [p \<leftarrow> ps. PktType p = PacketTypeDummy]"

fun factory_rounds :: "front_event list \<Rightarrow> nat" where
  "factory_rounds [] = 0"
| "factory_rounds (Factory _ _ _ # evs) = Suc (factory_rounds evs)"
| "factory_rounds (_ # evs) = factory_rounds evs"

lemma front_budget:
  "front_relay.run dur evs conn = Some conn' \<Longrightarrow> maxPaddingN conn' = maxPaddingN conn \<and>
     int (dummies (queued conn') + length (tsQueue conn') + (if holding conn' = None then 0 else 1)) \<le>
     int (dummies (queued conn) + length (tsQueue conn) + (if holding conn = None then 0 else 1)) +
       max 0 (maxPaddingN conn) * int (factory_rounds evs)"
proof (induction evs arbitrary: conn)
  case (Cons ev evs)
  then obtain c1 where c1: "front_step dur ev conn = Some c1" "front_relay.run dur evs c1 = Some conn'"
    by (auto split: option.splits)
  obtain ps where ps: "queued c1 = queued conn @ ps" "maxPaddingN c1 = maxPaddingN conn"
    "int (length [p \<leftarrow> ps. PktType p = PacketTypeDummy] + length (tsQueue c1) + (if holding c1 = None then 0 else 1)) \<le>
     int (length (tsQueue conn) + (if holding conn = None then 0 else 1)) +
       (case ev of Factory _ _ _ \<Rightarrow> max 0 (maxPaddingN conn) | _ \<Rightarrow> 0)"
    using front_step_cases [OF c1(1)] by blast
  have "int (dummies (queued c1) + length (tsQueue c1) + (if holding c1 = None then 0 else 1)) \<le>
      int (dummies (queued conn) + length (tsQueue conn) + (if holding conn = None then 0 else 1)) +
       (case ev of Factory _ _ _ \<Rightarrow> max 0 (maxPaddingN conn) | _ \<Rightarrow> 0)"
    using ps(1,3) by (simp add: dummies_def)
  with Cons.IH [OF c1(2)] ps(2) show ?case by (cases ev) (auto simp: algebra_simps)
qed simp

section \<open>Properties\<close>

text \<open>FRONT relays the stream. Whatever the interleaving of upstream reads, cells, ticks, received
  packets, factory rounds and dummies, the packets queued so far can be sent, occupy 557 bytes each,
  and the peer's FRONT reader gets exactly what came from upstream but for the tail still in the
  buffer: the dummies leave no trace in the stream.\<close>

lemma front_relays_stream:
  assumes "front_relay.run dur evs conn = Some conn'" "queued conn = []" "recvBuf conn = []" "link_ok c e dec"
    "intn_ok intn" "counter (e_nonce e) \<noteq> 0" "unat (counter (e_nonce e)) + length (queued conn') \<le> 2 ^ 64"
    "IsServer peer = (\<not> IsServer conn)" "Decoder peer = Some dec" "ReceiveBuffer peer = []"
    "ReceiveDecodedBuffer peer = []"
  shows "\<exists>wire e'. Send_all c e (queued conn') = (Ok wire, e') \<and> length wire = 557 * length (queued conn') \<and>
    (\<forall>chunks. concat chunks = wire \<and> [] \<notin> set chunks \<longrightarrow>
      (\<exists>peer' dec'. read_all (front_readPackets c intn) peer chunks = (Ok None, peer') \<and>
        Decoder peer' = Some dec' \<and> link_ok c e' dec' \<and>
        ReceiveDecodedBuffer peer' @ recvBuf conn' = concat (map front_input evs)))"
  unfolding front_readPackets_def by (rule front_relay.relay_delivery [OF assms])

definition fresh_front :: "bool \<Rightarrow> decoder option \<Rightarrow> frontConn" where
  "fresh_front server dec = \<lparr>IsServer = server, LenDist = [], nRealSegSent = 0, nRealSegRcv = 0,
     ConnState = NewState, ReceiveBuffer = [], ReceiveDecodedBuffer = [], Encoder = None, Decoder = dec,
     recvBuf = [], queued = [], written = 0, nServer = 4, nClient = 3, paddingChan = [], tsQueue = [],
     frontInitTime = None, holding = None, factoryUp = True\<rparr>"

definition demo_front_run :: "front_event list" where
  "demo_front_run = [FUpstream (replicate 540 7), FCell, Factory 1 (\<lambda>i. 2) 100, TakeTime, FCell, SendDummy 200]"

definition demo_dur :: "real \<Rightarrow> int" where
  "demo_dur x = \<lfloor>x\<rfloor>"

lemma demo_front_result:
  "\<exists>conn'. front_relay.run demo_dur demo_front_run (fresh_front False None) = Some conn' \<and>
     map PktType (queued conn') = [3, 0, 0, 1] \<and> recvBuf conn' = [] \<and> dummies (queued conn') = 1"
  by (simp add: demo_front_run_def fresh_front_def front_step_def front_upstream_def client_wakes_def
      real_cell_def padding_factory_def padding_take_def padding_send_def initFrontArgs_def demo_dur_def
      signal_padding_def set_phase_def send_pkt_def maxPaddingN_def dummies_def NRealSegSentIncrement_def Let_def)

lemma front_relays_stream_example:
  "\<exists>e d conn' wire e' peer'. NewEncoder (replicate 72 3) = Ok e \<and> NewDecoder (replicate 72 3) = Ok d \<and>
     front_relay.run demo_dur demo_front_run (fresh_front False None) = Some conn' \<and>
     Send_all demo_crypto e (queued conn') = (Ok wire, e') \<and>
     read_all (front_readPackets demo_crypto (\<lambda>_. 0)) (fresh_front True (Some d)) (map (\<lambda>b. [b]) wire) = (Ok None, peer') \<and>
     ReceiveDecodedBuffer peer' = replicate 540 7"
proof -
  obtain e d where ed: "NewEncoder (replicate 72 3) = Ok e" "NewDecoder (replicate 72 3) = Ok d"
    "linked e d" "counter (e_nonce e) = 1" using NewEncoder_NewDecoder [of "replicate 72 3"] by auto
  then have l: "link_ok demo_crypto e d" using demo_crypto_link_ok by (simp add: link_ok_def)
  obtain conn' where R: "front_relay.run demo_dur demo_front_run (fresh_front False None) = Some conn'"
    "map PktType (queued conn') = [3, 0, 0, 1]" "recvBuf conn' = []"
    using demo_front_result by (elim exE conjE)
  have n: "length (queued conn') = 4" using arg_cong [OF R(2), of length] by simp
  have inp: "concat (map front_input demo_front_run) = replicate 540 7" by (simp add: demo_front_run_def)
  obtain wire e' where W: "Send_all demo_crypto e (queued conn') = (Ok wire, e')"
    "\<forall>chunks. concat chunks = wire \<and> [] \<notin> set chunks \<longrightarrow>
      (\<exists>peer' dec'. read_all (front_readPackets demo_crypto (\<lambda>_. 0)) (fresh_front True (Some d)) chunks = (Ok None, peer') \<and>
        Decoder peer' = Some dec' \<and> link_ok demo_crypto e' dec' \<and>
        ReceiveDecodedBuffer peer' @ recvBuf conn' = concat (map front_input demo_front_run))"
    using front_relays_stream [OF R(1) _ _ l demo_intn, of "fresh_front True (Some d)"] ed(4) n
    by (auto simp: fresh_front_def)
  have "concat (map (\<lambda>b. [b]) wire) = wire \<and> [] \<notin> set (map (\<lambda>b. [b]) wire)" by (induction wire) auto
  with W(2) obtain peer' where
    "read_all (front_readPackets demo_crypto (\<lambda>_. 0)) (fresh_front True (Some d)) (map (\<lambda>b. [b]) wire) = (Ok None, peer')"
    "ReceiveDecodedBuffer peer' @ recvBuf conn' = concat (map front_input demo_front_run)" by blast
  with ed R W(1) inp show ?thesis by auto
qed



text \<open>FRONT's schedule. A start signal with a sampled number within the maximum fills the queue with
  exactly the sampled times in ascending order and notes the start time; a stop signal empties it;
  and the padding routine sends no dummy before its time, nor takes one up in Stop.\<close>

lemma front_schedule:
  assumes "mono dur" "factoryUp conn" "paddingChan conn = b # chan"
    "b \<longrightarrow> 0 \<le> n \<and> n \<le> maxPaddingN conn"
  shows "\<exists>conn'. padding_factory dur n draw now conn = Some conn' \<and> factoryUp conn' \<and> paddingChan conn' = chan \<and>
      (if b then sorted (tsQueue conn') \<and> tsQueue conn' = map dur (sort (map draw [0..<nat n])) \<and>
         frontInitTime conn' = Some now
       else tsQueue conn' = []) \<and>
      (\<forall>t conn''. padding_take conn' = Some conn'' \<longrightarrow> LoadCurState conn' \<noteq> StateStop \<and>
         (padding_send t conn'' \<noteq> None \<longleftrightarrow> the (frontInitTime conn') + hd (tsQueue conn') \<le> t))"
proof -
  have tk: "LoadCurState x \<noteq> StateStop \<and> (padding_send t y \<noteq> None \<longleftrightarrow> the (frontInitTime x) + hd (tsQueue x) \<le> t)"
    if "padding_take x = Some y" for x y :: "'a frontConn_scheme" and t
    using that by (auto simp: padding_take_def padding_send_def split: if_splits option.splits)
  show ?thesis
  proof (cases b)
    case False
    then show ?thesis using assms(2,3) tk by (simp add: padding_factory_def Let_def)
  next
    case True
    have "enqueue_all (maxPaddingN conn) (map dur (sort (map draw [0..<nat n]))) [] =
        (True, map dur (sort (map draw [0..<nat n])))"
      using assms(4) True by (subst enqueue_all_fits) auto
    moreover have "sorted (map dur (sort (map draw [0..<nat n])))"
      using assms(1) by (simp add: sorted_map_mono mono_on_def mono_def)
    ultimately show ?thesis
      using assms(2-4) True tk by (simp add: padding_factory_def initFrontArgs_def Let_def)
  qed
qed

lemma front_schedule_example:
  "\<exists>conn'. padding_factory demo_dur 2 (\<lambda>i. 5 - real i) 100
      ((fresh_front False None)\<lparr>paddingChan := [True]\<rparr>) = Some conn' \<and> tsQueue conn' = [4, 5]"
proof -
  have m: "mono demo_dur" by (simp add: mono_def demo_dur_def floor_mono)
  let ?c = "(fresh_front False None)\<lparr>paddingChan := [True]\<rparr>"
  have c: "factoryUp ?c" "paddingChan ?c = True # []" "True \<longrightarrow> 0 \<le> (2 :: int) \<and> 2 \<le> maxPaddingN ?c"
    by (simp_all add: fresh_front_def maxPaddingN_def)
  have "map (\<lambda>i. 5 - real i) [0..<nat 2] = [5, 4]" by (simp add: upt_rec)
  then have "map demo_dur (sort (map (\<lambda>i. 5 - real i) [0..<nat 2])) = [4, 5]" by (simp add: demo_dur_def)
  with front_schedule [OF m c, of "\<lambda>i. 5 - real i" 100] show ?thesis by (auto simp del: upt.simps)
qed

end
