(* ===== verification/Tamaraw.thy ===== *)
theory Tamaraw
  imports Defence
begin

text \<open>
  The Tamaraw defence, \<open>transports/tamaraw/tamaraw.go\<close>: a scheduler that sends one packet
  per tick of a ticker with period \<open>rho\<close>, a real one when data is buffered and a dummy otherwise,
  and stops padding when the number of packets is a multiple of \<open>nSeg\<close>. Reading uses
  \<open>DefConn.ReadPackets\<close>.
\<close>

section \<open>The connection\<close>

record tamarawConn = relay +
  nSeg :: int
  rhoClient :: int
  rhoServer :: int
  curNSeg :: u32

definition tamaraw_rho :: "'a tamarawConn_scheme \<Rightarrow> int" where
  "tamaraw_rho conn = (if IsServer conn then i64 (rhoServer conn * 1000000) else i64 (rhoClient conn * 1000000))"

text \<open>\<open>ReadFrom\<close> starts the scheduler, whose \<open>time.NewTicker\<close> panics for a period that is not positive.\<close>

definition tamaraw_start :: "'a tamarawConn_scheme \<Rightarrow> 'a tamarawConn_scheme option" where
  "tamaraw_start conn = (if tamaraw_rho conn \<le> 0 then None else Some (conn\<lparr>curNSeg := 0, recvBuf := [], written := 0\<rparr>))"

section \<open>The scheduler\<close>

text \<open>The packet of a tick: its type, data and the connection after the buffer was read.\<close>

definition next_packet :: "'a tamarawConn_scheme \<Rightarrow> PacketInfo \<times> 'a tamarawConn_scheme" where
  "next_packet conn =
    (if recvBuf conn \<noteq> [] then
       (let d = take MaxPacketPayloadLength (recvBuf conn)
        in (data_cell PacketTypePayload d,
            NRealSegSentIncrement (conn\<lparr>recvBuf := drop MaxPacketPayloadLength (recvBuf conn),
              written := i64 (written conn + int (length d))\<rparr>)))
     else (empty_cell PacketTypeDummy, conn))"

text \<open>The client's transitions; \<open>None\<close> is the panic of a division by zero.\<close>

definition tamaraw_client :: "byte \<Rightarrow> 'a tamarawConn_scheme \<Rightarrow> 'a tamarawConn_scheme option" where
  "tamaraw_client pktType conn =
    (if LoadCurState conn = StateStop \<and> pktType = PacketTypePayload then Some (set_phase StateReady conn)
     else if LoadCurState conn = StateReady \<and> pktType = PacketTypePayload
     then Some (send_pkt (empty_cell PacketTypeSignalStart) (set_phase StateStart conn))
     else if LoadCurState conn = StatePadding then
       (if nSeg conn = 0 then None
        else if int (unat (curNSeg conn)) mod nSeg conn = 0
        then Some ((send_pkt (empty_cell PacketTypeSignalStop) (set_phase StateStop conn))\<lparr>curNSeg := 0\<rparr>)
        else Some conn)
     else Some conn)"

definition schedule :: "'a tamarawConn_scheme \<Rightarrow> 'a tamarawConn_scheme option" where
  "schedule conn =
    (let (p, conn1) = next_packet conn
     in if (LoadCurState conn1 = StateStop \<or> LoadCurState conn1 = StateReady) \<and> PktType p = PacketTypeDummy
        then Some conn1
        else (let conn2 = conn1\<lparr>curNSeg := curNSeg conn1 + 1\<rparr>
              in (case (if IsServer conn2 then Some conn2 else tamaraw_client (PktType p) conn2) of
                    None \<Rightarrow> None
                  | Some conn3 \<Rightarrow> Some (send_pkt p conn3))))"

section \<open>The ticker and upstream data\<close>

definition tamaraw_ticker :: "'a tamarawConn_scheme \<Rightarrow> 'a tamarawConn_scheme" where
  "tamaraw_ticker conn = NRealSegReset
    (if \<not> IsServer conn \<and> LoadCurState conn \<noteq> StateStop \<and> slow conn then
       (if LoadCurState conn = StateReady then set_phase StateStop conn
        else if LoadCurState conn = StateStart then set_phase StatePadding conn
        else conn)
     else conn)"

definition tamaraw_upstream :: "bytes \<Rightarrow> 'a tamarawConn_scheme \<Rightarrow> 'a tamarawConn_scheme" where
  "tamaraw_upstream data conn = conn\<lparr>recvBuf := recvBuf conn @ data,
     written := i64 (written conn + int (length data))\<rparr>"

datatype tamaraw_event = TUpstream bytes | Schedule | TTick | TRecv byte bytes bytes

definition tamaraw_step :: "tamaraw_event \<Rightarrow> 'a tamarawConn_scheme \<Rightarrow> 'a tamarawConn_scheme option" where
  "tamaraw_step ev conn =
    (case ev of
       TUpstream data \<Rightarrow> if 0 < length data \<and> length data \<le> 65535 then Some (tamaraw_upstream data conn) else None
     | Schedule \<Rightarrow> schedule conn
     | TTick \<Rightarrow> Some (tamaraw_ticker conn)
     | TRecv t p r \<Rightarrow> (case defconn_handle conn t p r of None \<Rightarrow> None | Some (conn', _) \<Rightarrow> Some conn'))"

fun tamaraw_input :: "tamaraw_event \<Rightarrow> bytes" where
  "tamaraw_input (TUpstream data) = data"
| "tamaraw_input _ = []"

section \<open>Steps\<close>

lemma tamaraw_updates [simp]:
  "curNSeg (set_phase ph conn) = curNSeg conn" "nSeg (set_phase ph conn) = nSeg conn"
  "curNSeg (send_pkt p conn) = curNSeg conn" "nSeg (send_pkt p conn) = nSeg conn"
  "curNSeg (NRealSegReset conn) = curNSeg conn" "nSeg (NRealSegReset conn) = nSeg conn"
  "curNSeg (NRealSegSentIncrement conn) = curNSeg conn" "nSeg (NRealSegSentIncrement conn) = nSeg conn"
  "curNSeg (NRealSegRcvIncrement conn) = curNSeg conn" "nSeg (NRealSegRcvIncrement conn) = nSeg conn"
  by (simp_all add: set_phase_def send_pkt_def NRealSegReset_def NRealSegSentIncrement_def NRealSegRcvIncrement_def)

lemma next_packet_cases:
  assumes "next_packet conn = (p, conn1)"
  shows "queued conn1 = queued conn \<and> IsServer conn1 = IsServer conn \<and> ConnState conn1 = ConnState conn \<and>
    curNSeg conn1 = curNSeg conn \<and> nSeg conn1 = nSeg conn \<and> cell_ok p \<and>
    (PktType p = PacketTypePayload \<and> recvBuf conn \<noteq> [] \<and> Data p @ recvBuf conn1 = recvBuf conn \<and>
       written conn1 = i64 (written conn + int (length (Data p))) \<or>
     PktType p = PacketTypeDummy \<and> recvBuf conn = [] \<and> Data p = [] \<and> conn1 = conn)"
  using assms by (auto simp: next_packet_def Let_def split: if_splits)

lemma tamaraw_client_cases:
  assumes "tamaraw_client t conn = Some conn'"
  shows "\<exists>sig. queued conn' = queued conn @ sig \<and> recvBuf conn' = recvBuf conn \<and> IsServer conn' = IsServer conn \<and>
    nSeg conn' = nSeg conn \<and> written conn' = written conn \<and>
    (sig = [] \<and> curNSeg conn' = curNSeg conn \<or>
     sig = [empty_cell PacketTypeSignalStart] \<and> curNSeg conn' = curNSeg conn \<or>
     sig = [empty_cell PacketTypeSignalStop] \<and> curNSeg conn' = 0 \<and> int (unat (curNSeg conn)) mod nSeg conn = 0)"
  using assms by (auto simp: tamaraw_client_def split: if_splits)

text \<open>A round of the scheduler: at most one signal and then the packet, or nothing.\<close>

definition round_ok :: "'a tamarawConn_scheme \<Rightarrow> PacketInfo list \<Rightarrow> PacketInfo \<Rightarrow> 'a tamarawConn_scheme \<Rightarrow> bool" where
  "round_ok conn sig p conn' \<longleftrightarrow> queued conn' = queued conn @ sig @ [p] \<and> cell_ok p \<and>
     (sig = [] \<or> \<not> IsServer conn \<and> (sig = [empty_cell PacketTypeSignalStart] \<or> sig = [empty_cell PacketTypeSignalStop])) \<and>
     (if sig = [empty_cell PacketTypeSignalStop]
      then curNSeg conn' = 0 \<and> int (unat (curNSeg conn + 1)) mod nSeg conn = 0
      else curNSeg conn' = curNSeg conn + 1) \<and>
     (PktType p = PacketTypePayload \<and> recvBuf conn \<noteq> [] \<and> Data p @ recvBuf conn' = recvBuf conn \<and>
        written conn' = i64 (written conn + int (length (Data p))) \<or>
      PktType p = PacketTypeDummy \<and> recvBuf conn = [] \<and> recvBuf conn' = [] \<and> Data p = [] \<and>
        written conn' = written conn)"

lemma schedule_cases:
  assumes "schedule conn = Some conn'"
  shows "IsServer conn' = IsServer conn \<and> nSeg conn' = nSeg conn \<and>
    ((LoadCurState conn = StateStop \<or> LoadCurState conn = StateReady) \<and> recvBuf conn = [] \<and> conn' = conn \<or>
     (\<exists>sig p. round_ok conn sig p conn'))"
proof -
  obtain p conn1 where N: "next_packet conn = (p, conn1)" by (cases "next_packet conn")
  note n = next_packet_cases [OF N]
  show ?thesis
  proof (cases "(LoadCurState conn1 = StateStop \<or> LoadCurState conn1 = StateReady) \<and> PktType p = PacketTypeDummy")
    case True
    with assms N have "conn' = conn1" by (simp add: schedule_def)
    with True n show ?thesis by auto
  next
    case False
    let ?c2 = "conn1\<lparr>curNSeg := curNSeg conn1 + 1\<rparr>"
    let ?r = "if IsServer ?c2 then Some ?c2 else tamaraw_client (PktType p) ?c2"
    have "schedule conn = (case ?r of None \<Rightarrow> None | Some c \<Rightarrow> Some (send_pkt p c))"
      unfolding schedule_def N Let_def prod.case if_not_P [OF False] by (rule refl)
    with assms obtain conn3 where c3: "?r = Some conn3" "conn' = send_pkt p conn3" by (cases ?r) simp_all
    show ?thesis
    proof (cases "IsServer conn")
      case True
      then have "conn3 = ?c2" using c3(1) n by simp
      then have "queued conn' = queued conn @ [] @ [p]" "IsServer conn' = IsServer conn" "nSeg conn' = nSeg conn"
        "recvBuf conn' = recvBuf conn1" "written conn' = written conn1" "curNSeg conn' = curNSeg conn + 1"
        using c3(2) n by simp_all
      moreover from this have "round_ok conn [] p conn'" using n by (auto simp: round_ok_def)
      ultimately show ?thesis by blast
    next
      case client: False
      then have "tamaraw_client (PktType p) ?c2 = Some conn3" using c3(1) n by simp
      then obtain sig where sig: "queued conn3 = queued ?c2 @ sig" "recvBuf conn3 = recvBuf ?c2"
        "IsServer conn3 = IsServer ?c2" "nSeg conn3 = nSeg ?c2" "written conn3 = written ?c2"
        "sig = [] \<and> curNSeg conn3 = curNSeg ?c2 \<or>
         sig = [empty_cell PacketTypeSignalStart] \<and> curNSeg conn3 = curNSeg ?c2 \<or>
         sig = [empty_cell PacketTypeSignalStop] \<and> curNSeg conn3 = 0 \<and> int (unat (curNSeg ?c2)) mod nSeg ?c2 = 0"
        using tamaraw_client_cases by blast
      have "queued conn' = queued conn @ sig @ [p]" "IsServer conn' = IsServer conn" "nSeg conn' = nSeg conn"
        "recvBuf conn' = recvBuf conn1" "written conn' = written conn1" "curNSeg conn' = curNSeg conn3"
        using c3(2) n sig by simp_all
      moreover from this have "round_ok conn sig p conn'"
        using n sig(6) client by (auto simp: round_ok_def empty_cell_def)
      ultimately show ?thesis by blast
    qed
  qed
qed

lemma tamaraw_ticker_relay:
  "queued (tamaraw_ticker conn) = queued conn" "recvBuf (tamaraw_ticker conn) = recvBuf conn"
  "IsServer (tamaraw_ticker conn) = IsServer conn" "nSeg (tamaraw_ticker conn) = nSeg conn"
  "curNSeg (tamaraw_ticker conn) = curNSeg conn" "written (tamaraw_ticker conn) = written conn"
  by (auto simp: tamaraw_ticker_def)

lemma handle_tamaraw:
  "defconn_handle conn t p r = Some (conn', e) \<Longrightarrow> curNSeg conn' = curNSeg conn \<and> nSeg conn' = nSeg conn \<and>
     written conn' = written conn \<and> queued conn' = queued conn"
  by (auto simp: defconn_handle_def split: if_splits outcome.splits)

lemma tamaraw_step_relay:
  assumes "tamaraw_step ev conn = Some conn'"
  shows "IsServer conn' = IsServer conn \<and> (\<exists>ps. queued conn' = queued conn @ ps \<and>
    good_cells defconn_accepts (\<not> IsServer conn) ps \<and>
    concat [Data p. p \<leftarrow> ps, PktType p = PacketTypePayload] @ recvBuf conn' = recvBuf conn @ tamaraw_input ev)"
proof (cases ev)
  case (TUpstream data)
  with assms show ?thesis by (auto simp: tamaraw_step_def tamaraw_upstream_def split: if_splits)
next
  case Schedule
  with assms have S: "schedule conn = Some conn'" by (simp add: tamaraw_step_def)
  note C = schedule_cases [OF S]
  show ?thesis
  proof (cases "\<exists>sig p. round_ok conn sig p conn'")
    case True
    then obtain sig p where R: "round_ok conn sig p conn'" by blast
    then have "good_cells defconn_accepts (\<not> IsServer conn) (sig @ [p])"
      by (auto simp: round_ok_def defconn_accepts_def good_cells_def)
    moreover have "concat [Data q. q \<leftarrow> sig @ [p], PktType q = PacketTypePayload] @ recvBuf conn' = recvBuf conn"
      using R by (auto simp: round_ok_def)
    moreover have "queued conn' = queued conn @ sig @ [p]" using R by (simp add: round_ok_def)
    ultimately show ?thesis using C Schedule by auto
  next
    case False
    with C Schedule show ?thesis by auto
  qed
next
  case TTick
  with assms show ?thesis by (auto simp: tamaraw_step_def tamaraw_ticker_relay)
next
  case (TRecv t p r)
  with assms show ?thesis by (auto simp: tamaraw_step_def split: option.splits dest!: handle_relay)
qed

interpretation tamaraw: relay_tunnel "tamaraw_step :: tamaraw_event \<Rightarrow> 'a tamarawConn_scheme \<Rightarrow> 'a tamarawConn_scheme option"
  tamaraw_input defconn_accepts "defconn_handle :: 'p defConn_scheme handler"
proof (unfold_locales, goal_cases)
  case (1 ev s s')
  then obtain ps where "queued s' = queued s @ ps" "good_cells defconn_accepts (\<not> IsServer s) ps"
    "concat [Data p. p \<leftarrow> ps, PktType p = PacketTypePayload] @ recvBuf s' = recvBuf s @ tamaraw_input ev"
    using tamaraw_step_relay by blast
  from relay_step [OF this] show ?case by simp
next
  case (2 ev s s')
  then show ?case using tamaraw_step_relay by blast
qed simp_all


section \<open>Counting\<close>

text \<open>The packets that are not signals.\<close>

definition traffic :: "PacketInfo list \<Rightarrow> nat" where
  "traffic ps = length [p \<leftarrow> ps. PktType p = PacketTypePayload \<or> PktType p = PacketTypeDummy]"

fun rounds :: "tamaraw_event list \<Rightarrow> nat" where
  "rounds [] = 0"
| "rounds (Schedule # evs) = Suc (rounds evs)"
| "rounds (_ # evs) = rounds evs"

lemma traffic_append [simp]: "traffic (a @ b) = traffic a + traffic b"
  by (simp add: traffic_def)

lemma round_traffic: "round_ok conn sig p conn' \<Longrightarrow> traffic (queued conn') = traffic (queued conn) + 1"
  by (auto simp: round_ok_def traffic_def)

lemma tamaraw_step_same:
  assumes "tamaraw_step ev conn = Some conn'" "ev \<noteq> Schedule"
  shows "traffic (queued conn') = traffic (queued conn) \<and> curNSeg conn' = curNSeg conn \<and> nSeg conn' = nSeg conn"
  using assms
  by (cases ev) (auto simp: tamaraw_step_def tamaraw_upstream_def tamaraw_ticker_relay
      split: if_splits option.splits dest!: handle_tamaraw)

text \<open>The counter is the number of packets since the last stop signal, up to multiples of \<open>nSeg\<close>.\<close>

lemma tamaraw_count:
  assumes "tamaraw.run evs conn = Some conn'" "unat (curNSeg conn) + rounds evs < 2 ^ 32"
  shows "nSeg conn' = nSeg conn \<and> unat (curNSeg conn') \<le> unat (curNSeg conn) + rounds evs \<and>
    nSeg conn dvd (int (traffic (queued conn')) - int (unat (curNSeg conn'))) -
      (int (traffic (queued conn)) - int (unat (curNSeg conn)))"
  using assms
proof (induction evs arbitrary: conn)
  case (Cons ev evs)
  then obtain c1 where c1: "tamaraw_step ev conn = Some c1" "tamaraw.run evs c1 = Some conn'"
    by (auto split: option.splits)
  have S: "nSeg c1 = nSeg conn \<and> unat (curNSeg c1) + rounds evs \<le> unat (curNSeg conn) + rounds (ev # evs) \<and>
      nSeg conn dvd (int (traffic (queued c1)) - int (unat (curNSeg c1))) -
        (int (traffic (queued conn)) - int (unat (curNSeg conn)))"
  proof (cases "ev = Schedule")
    case False
    with tamaraw_step_same [OF c1(1)] show ?thesis by (cases ev) auto
  next
    case True
    then have sc: "schedule conn = Some c1" using c1(1) by (simp add: tamaraw_step_def)
    have u: "unat (curNSeg conn + 1) = unat (curNSeg conn) + 1"
      using Cons.prems(2) True by (simp add: unat_word_ariths(1))
    note C = schedule_cases [OF sc]
    show ?thesis
    proof (cases "\<exists>sig p. round_ok conn sig p c1")
      case False
      then show ?thesis using C True by auto
    next
      case yes: True
      then obtain sig p where R: "round_ok conn sig p c1" by blast
      note t = round_traffic [OF R]
      show ?thesis
      proof (cases "sig = [empty_cell PacketTypeSignalStop]")
        case True
        then have z: "curNSeg c1 = 0" "nSeg conn dvd int (unat (curNSeg conn) + 1)"
          using R u by (auto simp: round_ok_def dvd_eq_mod_eq_0)
        then show ?thesis using C t \<open>ev = Schedule\<close> by (simp add: algebra_simps)
      next
        case False
        then have "curNSeg c1 = curNSeg conn + 1" using R by (auto simp: round_ok_def)
        then show ?thesis using C t u \<open>ev = Schedule\<close> by simp
      qed
    qed
  qed
  have I: "nSeg conn' = nSeg c1 \<and> unat (curNSeg conn') \<le> unat (curNSeg c1) + rounds evs \<and>
    nSeg c1 dvd (int (traffic (queued conn')) - int (unat (curNSeg conn'))) -
      (int (traffic (queued c1)) - int (unat (curNSeg c1)))"
    using Cons.IH [OF c1(2)] S Cons.prems(2) by linarith
  have "nSeg conn dvd (int (traffic (queued conn')) - int (unat (curNSeg conn'))) -
      (int (traffic (queued c1)) - int (unat (curNSeg c1))) +
      ((int (traffic (queued c1)) - int (unat (curNSeg c1))) - (int (traffic (queued conn)) - int (unat (curNSeg conn))))"
    using I S by (intro dvd_add) simp_all
  with S I show ?case by (simp add: algebra_simps)
qed simp


text \<open>The number of bytes that \<open>ReadFrom\<close> reports as written.\<close>

lemma tamaraw_written_step:
  assumes "tamaraw_step ev conn = Some conn'"
  shows "written conn' = i64 (written conn + int (length (tamaraw_input ev)) +
     (int (length (recvBuf conn)) + int (length (tamaraw_input ev)) - int (length (recvBuf conn')))) \<or> written conn' = written conn \<and>
     tamaraw_input ev = [] \<and> length (recvBuf conn') = length (recvBuf conn)"
proof (cases ev)
  case (TUpstream data)
  with assms show ?thesis by (auto simp: tamaraw_step_def tamaraw_upstream_def algebra_simps split: if_splits)
next
  case Schedule
  with assms have S: "schedule conn = Some conn'" by (simp add: tamaraw_step_def)
  show ?thesis
  proof (cases "\<exists>sig p. round_ok conn sig p conn'")
    case False
    with schedule_cases [OF S] Schedule show ?thesis by auto
  next
    case True
    then obtain sig p where "round_ok conn sig p conn'" by blast
    then have "written conn' = i64 (written conn + int (length (Data p))) \<and> Data p @ recvBuf conn' = recvBuf conn \<or>
        written conn' = written conn \<and> recvBuf conn = recvBuf conn'" unfolding round_ok_def by auto
    then show ?thesis
    proof
      assume w: "written conn' = i64 (written conn + int (length (Data p))) \<and> Data p @ recvBuf conn' = recvBuf conn"
      then have "int (length (Data p)) = int (length (recvBuf conn)) - int (length (recvBuf conn'))"
        by (metis add_diff_cancel_right' length_append of_nat_add)
      with w Schedule show ?thesis by simp
    qed (use Schedule in simp)
  qed
next
  case TTick
  with assms show ?thesis by (auto simp: tamaraw_step_def tamaraw_ticker_relay)
next
  case (TRecv t p r)
  then obtain e where "defconn_handle conn t p r = Some (conn', e)"
    using assms by (auto simp: tamaraw_step_def split: option.splits)
  then show ?thesis using TRecv handle_tamaraw [of conn t p r conn' e] handle_relay [of conn t p r conn' e] by simp
qed

lemma tamaraw_written:
  assumes "tamaraw.run evs conn = Some conn'" "in_i64 (written conn)"
  shows "written conn' = i64 (written conn + 2 * int (length (concat (map tamaraw_input evs))) +
    int (length (recvBuf conn)) - int (length (recvBuf conn')))"
  using assms
proof (induction evs arbitrary: conn)
  case (Cons ev evs)
  then obtain c1 where c1: "tamaraw_step ev conn = Some c1" "tamaraw.run evs c1 = Some conn'"
    by (auto split: option.splits)
  let ?n = "int (length (tamaraw_input ev))"
  have w: "written c1 = i64 (written conn + 2 * ?n + int (length (recvBuf conn)) - int (length (recvBuf c1)))"
    using tamaraw_written_step [OF c1(1)] Cons.prems(2) by (auto simp: algebra_simps)
  have "written conn' = i64 (i64 (written conn + 2 * ?n + int (length (recvBuf conn)) - int (length (recvBuf c1))) +
      (2 * int (length (concat (map tamaraw_input evs))) + int (length (recvBuf c1)) - int (length (recvBuf conn'))))"
    using Cons.IH [OF c1(2)] w by (simp add: algebra_simps)
  then show ?case by (simp only: i64_add) (simp add: algebra_simps)
qed simp

section \<open>Properties\<close>

text \<open>C10: Tamaraw relays the stream. In any interleaving of upstream data, scheduler rounds, ticks and
  received packets, the packets queued occupy 557 bytes each on the wire and the peer gets exactly
  what came from upstream, but for what is still buffered.\<close>

theorem tamaraw_relays_stream:
  assumes "tamaraw.run evs conn = Some conn'" "queued conn = []" "recvBuf conn = []" "link_ok c e dec"
    "intn_ok intn" "counter (e_nonce e) \<noteq> 0" "unat (counter (e_nonce e)) + length (queued conn') \<le> 2 ^ 64"
    "IsServer peer = (\<not> IsServer conn)" "Decoder peer = Some dec" "ReceiveBuffer peer = []"
    "ReceiveDecodedBuffer peer = []"
  shows "\<exists>wire e'. Send_all c e (queued conn') = (Ok wire, e') \<and> length wire = 557 * length (queued conn') \<and>
    (\<forall>chunks. concat chunks = wire \<and> [] \<notin> set chunks \<longrightarrow>
      (\<exists>peer' dec'. read_all (ReadPackets c intn) peer chunks = (Ok None, peer') \<and>
        Decoder peer' = Some dec' \<and> link_ok c e' dec' \<and>
        ReceiveDecodedBuffer peer' @ recvBuf conn' = concat (map tamaraw_input evs)))"
  unfolding ReadPackets_def by (rule tamaraw.relay_delivery [OF assms])

definition fresh_tamaraw :: "bool \<Rightarrow> tamarawConn" where
  "fresh_tamaraw server = \<lparr>IsServer = server, LenDist = [], nRealSegSent = 0, nRealSegRcv = 0,
     ConnState = NewState, ReceiveBuffer = [], ReceiveDecodedBuffer = [], Encoder = None, Decoder = None,
     recvBuf = [], queued = [], written = 0, nSeg = 4, rhoClient = 10, rhoServer = 5, curNSeg = 0\<rparr>"

definition demo_tamaraw_run :: "tamaraw_event list" where
  "demo_tamaraw_run = [TUpstream (replicate 540 7), Schedule, Schedule, TTick, Schedule, Schedule, Schedule]"

lemma demo_tamaraw_result:
  "\<exists>conn'. tamaraw.run demo_tamaraw_run (fresh_tamaraw False) = Some conn' \<and>
     map PktType (queued conn') = [0, 3, 0, 1, 4, 1] \<and> recvBuf conn' = [] \<and> curNSeg conn' = 0 \<and>
     LoadCurState conn' = StateStop \<and> written conn' = 1080"
  by (simp add: demo_tamaraw_run_def fresh_tamaraw_def tamaraw_step_def tamaraw_upstream_def schedule_def
      next_packet_def tamaraw_client_def tamaraw_ticker_def slow_def set_phase_def send_pkt_def
      NRealSegSentIncrement_def NRealSegReset_def i64_def Let_def)

theorem tamaraw_relays_stream_witness:
  "\<exists>e d conn' wire e' peer'. NewEncoder (replicate 72 3) = Ok e \<and> NewDecoder (replicate 72 3) = Ok d \<and>
     tamaraw.run demo_tamaraw_run (fresh_tamaraw False) = Some conn' \<and>
     Send_all demo_crypto e (queued conn') = (Ok wire, e') \<and>
     read_all (ReadPackets demo_crypto (\<lambda>_. 0)) (demo_conn True d) (map (\<lambda>b. [b]) wire) = (Ok None, peer') \<and>
     ReceiveDecodedBuffer peer' = replicate 540 7"
proof -
  obtain e d where ed: "NewEncoder (replicate 72 3) = Ok e" "NewDecoder (replicate 72 3) = Ok d"
    "linked e d" "counter (e_nonce e) = 1" using NewEncoder_NewDecoder [of "replicate 72 3"] by auto
  then have l: "link_ok demo_crypto e d" using demo_crypto_link_ok by (simp add: link_ok_def)
  obtain conn' where R: "tamaraw.run demo_tamaraw_run (fresh_tamaraw False) = Some conn'"
    "map PktType (queued conn') = [0, 3, 0, 1, 4, 1]" "recvBuf conn' = []"
    using demo_tamaraw_result by (elim exE conjE)
  have n: "length (queued conn') = 6" using arg_cong [OF R(2), of length] by simp
  have inp: "concat (map tamaraw_input demo_tamaraw_run) = replicate 540 7" by (simp add: demo_tamaraw_run_def)
  obtain wire e' where W: "Send_all demo_crypto e (queued conn') = (Ok wire, e')"
    "\<forall>chunks. concat chunks = wire \<and> [] \<notin> set chunks \<longrightarrow>
      (\<exists>peer' dec'. read_all (ReadPackets demo_crypto (\<lambda>_. 0)) (demo_conn True d) chunks = (Ok None, peer') \<and>
        Decoder peer' = Some dec' \<and> link_ok demo_crypto e' dec' \<and>
        ReceiveDecodedBuffer peer' @ recvBuf conn' = concat (map tamaraw_input demo_tamaraw_run))"
    using tamaraw_relays_stream [OF R(1) _ _ l demo_intn, of "demo_conn True d"] ed(4) n
    by (auto simp: fresh_tamaraw_def demo_conn_def)
  from W(2) concat_singletons [of wire] obtain peer' where
    "read_all (ReadPackets demo_crypto (\<lambda>_. 0)) (demo_conn True d) (map (\<lambda>b. [b]) wire) = (Ok None, peer')"
    "ReceiveDecodedBuffer peer' @ recvBuf conn' = concat (map tamaraw_input demo_tamaraw_run)" by blast
  with ed R W(1) inp show ?thesis by auto
qed



text \<open>Tamaraw's rate is constant while it is on. A scheduler round in Start or Padding queues exactly one
  packet (besides a signal), real if data is buffered and a dummy otherwise; in Stop and Ready it
  queues a packet only for buffered data. The only way a round can fail is the division by
  \<open>nSeg = 0\<close> of a client in Padding.\<close>

lemma tamaraw_constant_rate:
  "(schedule conn = None \<longleftrightarrow> \<not> IsServer conn \<and> LoadCurState conn = StatePadding \<and> nSeg conn = 0) \<and>
   (schedule conn = Some conn' \<longrightarrow> traffic (queued conn') = traffic (queued conn) +
      (if recvBuf conn = [] \<and> (LoadCurState conn = StateStop \<or> LoadCurState conn = StateReady) then 0 else 1) \<and>
      (recvBuf conn \<noteq> [] \<longrightarrow> PktType (last (queued conn')) = PacketTypePayload) \<and>
      (traffic (queued conn') \<noteq> traffic (queued conn) \<and> recvBuf conn = [] \<longrightarrow>
         PktType (last (queued conn')) = PacketTypeDummy))"
proof
  show "schedule conn = None \<longleftrightarrow> \<not> IsServer conn \<and> LoadCurState conn = StatePadding \<and> nSeg conn = 0"
    by (auto simp: schedule_def next_packet_def tamaraw_client_def Let_def split: option.splits if_splits)
  show "schedule conn = Some conn' \<longrightarrow> traffic (queued conn') = traffic (queued conn) +
      (if recvBuf conn = [] \<and> (LoadCurState conn = StateStop \<or> LoadCurState conn = StateReady) then 0 else 1) \<and>
      (recvBuf conn \<noteq> [] \<longrightarrow> PktType (last (queued conn')) = PacketTypePayload) \<and>
      (traffic (queued conn') \<noteq> traffic (queued conn) \<and> recvBuf conn = [] \<longrightarrow>
         PktType (last (queued conn')) = PacketTypeDummy)"
  proof
    assume S: "schedule conn = Some conn'"
    have idle: "schedule conn = Some conn"
      if "recvBuf conn = []" "LoadCurState conn = StateStop \<or> LoadCurState conn = StateReady"
      using that by (auto simp: schedule_def next_packet_def)
    show "traffic (queued conn') = traffic (queued conn) +
        (if recvBuf conn = [] \<and> (LoadCurState conn = StateStop \<or> LoadCurState conn = StateReady) then 0 else 1) \<and>
        (recvBuf conn \<noteq> [] \<longrightarrow> PktType (last (queued conn')) = PacketTypePayload) \<and>
        (traffic (queued conn') \<noteq> traffic (queued conn) \<and> recvBuf conn = [] \<longrightarrow>
           PktType (last (queued conn')) = PacketTypeDummy)"
    proof (cases "\<exists>sig p. round_ok conn sig p conn'")
      case True
      then obtain sig p where R: "round_ok conn sig p conn'" by blast
      have p: "last (queued conn') = p" "recvBuf conn \<noteq> [] \<Longrightarrow> PktType p = PacketTypePayload"
        "recvBuf conn = [] \<Longrightarrow> PktType p = PacketTypeDummy"
        using R unfolding round_ok_def by auto
      have "\<not> (recvBuf conn = [] \<and> (LoadCurState conn = StateStop \<or> LoadCurState conn = StateReady))"
        using idle S round_traffic [OF R] by auto
      with p round_traffic [OF R] show ?thesis by auto
    next
      case False
      with schedule_cases [OF S] show ?thesis by auto
    qed
  qed
qed

lemma tamaraw_constant_rate_example:
  "\<exists>conn'. schedule (set_phase StateStart (fresh_tamaraw True)) = Some conn' \<and> traffic (queued conn') = 1 \<and>
     PktType (last (queued conn')) = PacketTypeDummy"
proof -
  let ?c = "set_phase StateStart (fresh_tamaraw True)"
  have f: "IsServer ?c" "recvBuf ?c = []" "LoadCurState ?c = StateStart" "queued ?c = []"
    by (simp_all add: fresh_tamaraw_def)
  then obtain conn' where S: "schedule ?c = Some conn'" using tamaraw_constant_rate [of ?c] by (cases "schedule ?c") auto
  with f tamaraw_constant_rate [of ?c conn'] show ?thesis by (auto simp: traffic_def)
qed

text \<open>Tamaraw reports twice the number of bytes. When all data of a run of a fresh connection has been
  scheduled, the count that \<open>ReadFrom\<close> returns is twice the number of bytes read from upstream (up to
  the wrap-around of \<open>int64\<close>): they are counted when buffered and again when scheduled.\<close>

lemma tamaraw_counts_twice:
  assumes "tamaraw.run evs conn = Some conn'" "recvBuf conn = []" "written conn = 0" "recvBuf conn' = []"
  shows "written conn' = i64 (2 * int (length (concat (map tamaraw_input evs))))"
  using tamaraw_written [OF assms(1)] assms(2-4) by (simp add: in_i64_def)

lemma tamaraw_counts_twice_example:
  "\<exists>conn'. tamaraw.run demo_tamaraw_run (fresh_tamaraw False) = Some conn' \<and> recvBuf conn' = [] \<and> written conn' = 1080"
proof -
  obtain conn' where R: "tamaraw.run demo_tamaraw_run (fresh_tamaraw False) = Some conn'" "recvBuf conn' = []"
    using demo_tamaraw_result by (elim exE conjE)
  from tamaraw_counts_twice [OF R(1) _ _ R(2)] R show ?thesis
    by (auto simp: fresh_tamaraw_def demo_tamaraw_run_def i64_def)
qed

end
