(* ===== verification/Regulator.thy ===== *)
theory Regulator
  imports Defence
begin

text \<open>
  The RegulaTor defence, \<open>transports/regulator\<close>: \<open>params.go\<close> (the server's sending
  rate and padding budget), \<open>packet.go\<close> (packets with a surge time after the payload) and
  \<open>regulator.go\<close> (the server sends at a decaying rate, the client at a fraction of it).
  Floating-point expressions are fields of \<open>rate_floats\<close>, one per expression of the source,
  for the parameters \<open>d\<close>, \<open>t\<close>, \<open>u\<close>, \<open>c\<close> of the connection. Times are
  \<open>time.Time\<close> in nanoseconds, \<open>time_sub\<close> is \<open>Time.Sub\<close>.
\<close>

section \<open>Rates and budgets\<close>

record rate_floats =
  pow_rate :: "int \<Rightarrow> int \<Rightarrow> int" \<comment> \<open>\<open>int32(float64(r) * math.Pow(float64(d), elapsed.Seconds()))\<close>\<close>
  rate_threshold :: "int \<Rightarrow> int" \<comment> \<open>\<open>int(t * float32(rate))\<close>\<close>
  server_period :: "int \<Rightarrow> int" \<comment> \<open>\<open>int64(1.0 / float64(rate) * 1e9)\<close>\<close>
  client_rate :: "int \<Rightarrow> int" \<comment> \<open>\<open>int32(float32(rate) / u)\<close>\<close>
  client_period :: "int \<Rightarrow> int" \<comment> \<open>\<open>time.Duration(1.0 / (float32(rate) / u) * 1e9)\<close>\<close>
  too_late :: "int \<Rightarrow> bool" \<comment> \<open>\<open>gap.Seconds() > float64(c)\<close>\<close>

record serverParams =
  sp_lastSend :: int
  targetRate :: int
  paddingBudget :: int

definition SetLastSend :: "int \<Rightarrow> serverParams \<Rightarrow> serverParams" where
  "SetLastSend now sp = sp\<lparr>sp_lastSend := now\<rparr>"

definition SetTargetRate :: "int \<Rightarrow> serverParams \<Rightarrow> serverParams" where
  "SetTargetRate rate sp = sp\<lparr>targetRate := rate\<rparr>"

definition CalTargetRateWithLast :: "rate_floats \<Rightarrow> int \<Rightarrow> int \<Rightarrow> int \<Rightarrow> int" where
  "CalTargetRateWithLast fl lastTime currentTime r =
    (let timeElapsed = time_sub currentTime lastTime
     in if timeElapsed \<ge> 0
        then (let newRate = pow_rate fl r timeElapsed in if newRate < 1 then 1 else newRate)
        else 0)"

definition CalTargetRate :: "rate_floats \<Rightarrow> int \<Rightarrow> int \<Rightarrow> serverParams \<Rightarrow> (int \<times> bool) \<times> serverParams" where
  "CalTargetRate fl currentTime r sp =
    (let newRate = CalTargetRateWithLast fl (sp_lastSend sp) currentTime r
     in if targetRate sp \<noteq> newRate then ((newRate, True), SetTargetRate newRate sp)
        else ((newRate, False), sp))"

definition SetPaddingBudget :: "(int \<Rightarrow> int) \<Rightarrow> int \<Rightarrow> serverParams \<Rightarrow> (unit, serverParams) outcome" where
  "SetPaddingBudget intn n sp = and_then (Uniform intn 0 n) (\<lambda>v. Ok (sp\<lparr>paddingBudget := i32 v\<rparr>))"

definition ConsumePaddingBudget :: "serverParams \<Rightarrow> bool \<times> serverParams" where
  "ConsumePaddingBudget sp =
    (if paddingBudget sp > 0 then (True, sp\<lparr>paddingBudget := paddingBudget sp - 1\<rparr>) else (False, sp))"

definition sp_Init :: "(int \<Rightarrow> int) \<Rightarrow> int \<Rightarrow> int \<Rightarrow> int \<Rightarrow> serverParams \<Rightarrow> (unit, serverParams) outcome" where
  "sp_Init intn now r n sp =
     and_then (SetPaddingBudget intn n (SetTargetRate r sp)) (\<lambda>sp'. Ok (SetLastSend now sp'))"

text \<open>\<open>utils.SleepRho\<close> at the time \<open>now\<close>: how long it sleeps.\<close>

definition SleepRho :: "int \<Rightarrow> int \<Rightarrow> int \<Rightarrow> int" where
  "SleepRho lastSend rho now =
    (let remainingDelay = i64 (rho - time_sub now lastSend)
     in if remainingDelay > 0 then remainingDelay else 0)"

section \<open>Packets\<close>

definition regulatorOverhead :: nat where [simp]: "regulatorOverhead = 8"

record packetInfo =
  pi_type :: byte
  pi_data :: bytes
  pi_pad :: u16
  pi_t0 :: int

text \<open>What follows the payload in a packet: the surge time and the padding.\<close>

definition regulator_tail :: "int \<Rightarrow> u16 \<Rightarrow> bytes" where
  "regulator_tail t padLen = put_u64 (word_of_int t) @ replicate (unat padLen) 0"

text \<open>Besides the explicit \<open>panic\<close>, \<open>zeroPadBytes[:padLen]\<close> panics beyond its 536 bytes.\<close>

definition regulator_MakePacket :: "crypto \<Rightarrow> encoder \<Rightarrow> byte \<Rightarrow> int \<Rightarrow> bytes \<Rightarrow> u16 \<Rightarrow>
    (packet_error, bytes) outcome \<times> encoder" where
  "regulator_MakePacket c e pktType t data padLen =
    (if length data + unat padLen > MaxPacketPayloadLength + regulatorOverhead then (Panic, e)
     else if unat padLen > MaxPacketPaddingLength then (Panic, e)
     else (case Encode c e MaximumSegmentLength (packet_bytes pktType data (regulator_tail t padLen)) of
         (Ok frame, e') \<Rightarrow> (Ok frame, e')
       | (Err er, e') \<Rightarrow> (Err (FramingError er), e') | (Panic, e') \<Rightarrow> (Panic, e')))"

definition regulator_Send_one :: "crypto \<Rightarrow> nat option \<Rightarrow> encoder \<Rightarrow> packetInfo \<Rightarrow>
    (packet_error, bytes) outcome \<times> encoder" where
  "regulator_Send_one c wr e p =
    (case regulator_MakePacket c e (pi_type p) (pi_t0 p) (pi_data p) (pi_pad p) of
       (Ok frame, e') \<Rightarrow> (case wr of None \<Rightarrow> (Ok frame, e') | Some er \<Rightarrow> (Err (NetError er), e'))
     | (Err er, e') \<Rightarrow> (Err er, e') | (Panic, e') \<Rightarrow> (Panic, e'))"

fun regulator_Send :: "crypto \<Rightarrow> encoder \<Rightarrow> packetInfo list \<Rightarrow> (packet_error, bytes) outcome \<times> encoder" where
  "regulator_Send c e [] = (Ok [], e)"
| "regulator_Send c e (p # ps) =
    (case regulator_Send_one c None e p of
       (Ok frame, e') \<Rightarrow>
         (case regulator_Send c e' ps of (Ok frames, e'') \<Rightarrow> (Ok (frame @ frames), e'')
          | (Err er, e'') \<Rightarrow> (Err er, e'') | (Panic, e'') \<Rightarrow> (Panic, e''))
     | (Err er, e') \<Rightarrow> (Err er, e') | (Panic, e') \<Rightarrow> (Panic, e'))"

section \<open>The connection\<close>

text \<open>Besides the fields of \<open>regulatorConn\<close>, the locals of \<open>serverReadFrom\<close> and
  \<open>clientReadFrom\<close>: \<open>rg_buf\<close> is the server's \<open>receiveBuf\<close>, \<open>receiveQ\<close> the client's
  queue of data with arrival times, \<open>rg_sent\<close> everything sent to \<open>sendChan\<close>,
  \<open>totalBudget\<close> the server's \<open>paddingBudget\<close> variable.\<close>

record regulatorConn = defConn +
  rg_r :: int
  rg_n :: int
  rg_t0 :: int
  rg_sent :: "packetInfo list"
  rg_paddingChan :: "bool list"
  rg_sp :: serverParams
  totalBudget :: int
  rg_buf :: bytes
  receiveQ :: "(bytes \<times> int) list"
  rg_lastSend :: int
  initialRate :: int
  lastRate :: int
  rg_written :: int

definition rg_send :: "packetInfo \<Rightarrow> 'a regulatorConn_scheme \<Rightarrow> 'a regulatorConn_scheme" where
  "rg_send p conn = conn\<lparr>rg_sent := rg_sent conn @ [p]\<rparr>"

definition rg_empty :: "byte \<Rightarrow> packetInfo" where
  "rg_empty t = \<lparr>pi_type = t, pi_data = [], pi_pad = 536, pi_t0 = 0\<rparr>"

definition rg_data :: "bytes \<Rightarrow> int \<Rightarrow> packetInfo" where
  "rg_data d t = \<lparr>pi_type = PacketTypePayload, pi_data = d,
     pi_pad = word_of_int (int MaxPacketPaddingLength - int (length d)), pi_t0 = t\<rparr>"

section \<open>Receiving\<close>

text \<open>\<open>binary.BigEndian.Uint64(pkt[3+payloadLen:])\<close> panics when fewer than eight bytes follow the
  payload, and reading the budget from a dummy's payload when it has fewer than eight.\<close>

definition regulator_switch :: "int \<Rightarrow> 'a regulatorConn_scheme \<Rightarrow> byte \<Rightarrow> bytes \<Rightarrow>
    ('a regulatorConn_scheme \<times> packet_error option) option" where
  "regulator_switch t0 conn pktType payload =
    (if pktType = PacketTypePayload then
       (if length payload > 0 then
          (let conn1 = conn\<lparr>ReceiveDecodedBuffer := ReceiveDecodedBuffer conn @ payload\<rparr>
           in Some (if IsServer conn then conn1 else (NRealSegRcvIncrement conn1)\<lparr>rg_t0 := t0\<rparr>, None))
        else Some (conn, None))
     else if pktType = PacketTypePrngSeed then
       (if length payload = SeedPacketPayloadLength \<and> \<not> IsServer conn then
          (case SeedFromBytes payload of
             Ok seed \<Rightarrow> Some (conn\<lparr>LenDist := seed\<rparr>, None)
           | Err er \<Rightarrow> Some (conn, Some (SeedError er)) | Panic \<Rightarrow> None)
        else Some (conn, None))
     else if pktType = PacketTypeSignalStart then
       (if \<not> IsServer conn then None else Some (conn\<lparr>rg_paddingChan := rg_paddingChan conn @ [True]\<rparr>, None))
     else if pktType = PacketTypeSignalStop then
       (if \<not> IsServer conn then None else Some (conn\<lparr>rg_paddingChan := rg_paddingChan conn @ [False]\<rparr>, None))
     else if pktType = PacketTypeDummy then
       (if IsServer conn then Some (conn, None)
        else if length payload < 8 then None
        else Some (if rg_t0 conn < t0 then conn\<lparr>rg_t0 := t0\<rparr> else conn, None))
     else Some (conn, None))"

definition regulator_handle :: "'a regulatorConn_scheme handler" where
  "regulator_handle conn pktType payload rest =
    (case (get_u64 rest :: (unit, u64) outcome) of
       Ok w \<Rightarrow> regulator_switch (sint w) conn pktType payload
     | _ \<Rightarrow> None)"

definition regulator_readPackets :: "crypto \<Rightarrow> (int \<Rightarrow> int) \<Rightarrow> 'a regulatorConn_scheme \<Rightarrow> bytes \<Rightarrow> nat option \<Rightarrow>
    (unit, packet_error option) outcome \<times> 'a regulatorConn_scheme" where
  "regulator_readPackets c intn = read_packets c intn regulator_handle"

section \<open>The server's copy loop\<close>

text \<open>\<open>ReadFrom\<close> up to its loops; a negative \<open>n\<close> makes \<open>Intn\<close> panic.\<close>

definition server_start :: "(int \<Rightarrow> int) \<Rightarrow> int \<Rightarrow> int \<Rightarrow> 'a regulatorConn_scheme \<Rightarrow> 'a regulatorConn_scheme option" where
  "server_start intn now now' conn =
    (case sp_Init intn now (rg_r conn) (rg_n conn) (rg_sp conn) of
       Ok sp \<Rightarrow> Some (conn\<lparr>rg_sp := sp, totalBudget := 0, rg_buf := [], rg_lastSend := now', rg_written := 0\<rparr>)
     | _ \<Rightarrow> None)"

text \<open>The goroutine that takes signals off \<open>paddingChan\<close>.\<close>

definition server_signal :: "(int \<Rightarrow> int) \<Rightarrow> int \<Rightarrow> 'a regulatorConn_scheme \<Rightarrow> 'a regulatorConn_scheme option" where
  "server_signal intn now conn =
    (case rg_paddingChan conn of
       [] \<Rightarrow> None
     | shouldStart # chan \<Rightarrow>
        (let conn1 = conn\<lparr>rg_paddingChan := chan\<rparr>
         in if shouldStart then
              (case sp_Init intn now (rg_r conn) (rg_n conn) (rg_sp conn) of
                 Ok sp \<Rightarrow> Some (set_phase StateStart (conn1\<lparr>rg_sp := sp, totalBudget := paddingBudget sp\<rparr>))
               | _ \<Rightarrow> None)
            else if LoadCurState conn \<noteq> StateStop then Some (set_phase StateStop conn1)
            else Some conn1))"

text \<open>One round of the main loop: the rate, the packet, the pause. \<open>curTime\<close>, \<open>now\<close> are
  the clock readings before the packet is sent.\<close>

definition server_rate :: "rate_floats \<Rightarrow> int \<Rightarrow> int \<Rightarrow> 'a regulatorConn_scheme \<Rightarrow> 'a regulatorConn_scheme" where
  "server_rate fl curTime now conn =
    (if LoadCurState conn = StateStart then
       (let sp = snd (CalTargetRate fl curTime (rg_r conn) (rg_sp conn));
            threshold = rate_threshold fl (targetRate sp);
            bufLen = int (length (rg_buf conn) div MaxPacketPayloadLength)
        in conn\<lparr>rg_sp := if bufLen > threshold then SetLastSend now sp else sp\<rparr>)
     else conn\<lparr>rg_sp := SetTargetRate (rg_r conn) (SetLastSend now (rg_sp conn))\<rparr>)"

definition budget_bytes :: "int \<Rightarrow> int \<Rightarrow> bytes" where
  "budget_bytes cur tot = put_u32 (word_of_int cur) @ put_u32 (word_of_int tot)"

definition server_send :: "'a regulatorConn_scheme \<Rightarrow> 'a regulatorConn_scheme" where
  "server_send conn =
    (if rg_buf conn \<noteq> [] then
       (let d = take MaxPacketPayloadLength (rg_buf conn)
        in rg_send (rg_data d (sp_lastSend (rg_sp conn)))
             (conn\<lparr>rg_buf := drop MaxPacketPayloadLength (rg_buf conn),
               rg_written := i64 (rg_written conn + int (length d))\<rparr>))
     else if LoadCurState conn = StateStart then
       (case ConsumePaddingBudget (rg_sp conn) of
          (True, sp) \<Rightarrow> rg_send \<lparr>pi_type = PacketTypeDummy, pi_data = budget_bytes (paddingBudget sp) (totalBudget conn),
              pi_pad = word_of_int (int MaxPacketPaddingLength - (4 + 4)), pi_t0 = sp_lastSend sp\<rparr> (conn\<lparr>rg_sp := sp\<rparr>)
        | (False, sp) \<Rightarrow> conn)
     else conn)"

text \<open>\<open>SleepRho(lastSend, rho)\<close> is called at \<open>now\<close> and returns at \<open>wake\<close>.\<close>

definition pause :: "int \<Rightarrow> int \<Rightarrow> int \<Rightarrow> 'a regulatorConn_scheme \<Rightarrow> 'a regulatorConn_scheme option" where
  "pause rho now wake conn =
    (if wake < now + SleepRho (rg_lastSend conn) rho now then None else Some (conn\<lparr>rg_lastSend := wake\<rparr>))"

definition server_round :: "rate_floats \<Rightarrow> int \<Rightarrow> int \<Rightarrow> int \<Rightarrow> int \<Rightarrow> 'a regulatorConn_scheme \<Rightarrow>
    'a regulatorConn_scheme option" where
  "server_round fl curTime now now' wake conn =
    (let conn1 = server_send (server_rate fl curTime now conn)
     in pause (server_period fl (targetRate (rg_sp conn1))) now' wake conn1)"

section \<open>The client's copy loop\<close>

definition client_begin :: "rate_floats \<Rightarrow> int \<Rightarrow> 'a regulatorConn_scheme \<Rightarrow> 'a regulatorConn_scheme" where
  "client_begin fl now conn =
    (let rate = client_rate fl (rg_r conn)
     in conn\<lparr>receiveQ := [], rg_lastSend := now, rg_t0 := now, initialRate := rate, lastRate := rate, rg_written := 0\<rparr>)"

text \<open>A chunk from upstream is cut into cells, each stamped with its arrival time.\<close>

definition client_upstream :: "(nat \<Rightarrow> int) \<Rightarrow> int \<Rightarrow> bytes \<Rightarrow> 'a regulatorConn_scheme \<Rightarrow> 'a regulatorConn_scheme" where
  "client_upstream clock now data conn =
    (let cells = chop MaxPacketPayloadLength data;
         conn1 = conn\<lparr>receiveQ := receiveQ conn @ zip cells (map clock [0..<length cells])\<rparr>
     in if (LoadCurState conn = StateStop \<and> length data > MaxPacketPayloadLength) \<or> LoadCurState conn = StateReady
        then rg_send (rg_empty PacketTypeSignalStart) (set_phase StateStart (conn1\<lparr>rg_t0 := now\<rparr>))
        else if LoadCurState conn = StateStop then set_phase StateReady conn1
        else conn1)"

definition client_ticker :: "'a regulatorConn_scheme \<Rightarrow> 'a regulatorConn_scheme" where
  "client_ticker conn = NRealSegReset
    (if LoadCurState conn \<noteq> StateStop \<and> slow conn
     then rg_send (rg_empty PacketTypeSignalStop) (set_phase StateStop conn) else conn)"

text \<open>\<open>1.0 / initialRate * 1e9\<close> is integer arithmetic, since \<open>initialRate\<close> is an \<open>int32\<close>.\<close>

definition idle_period :: "int \<Rightarrow> int option" where
  "idle_period rate = (if rate = 0 then None else Some (i32 (go_div 1 rate * 1000000000)))"

definition client_pace :: "rate_floats \<Rightarrow> int \<Rightarrow> 'a regulatorConn_scheme \<Rightarrow> (int \<times> 'a regulatorConn_scheme) option" where
  "client_pace fl curTime conn =
    (if LoadCurState conn = StateStart then
       (let serverRate = CalTargetRateWithLast fl (rg_t0 conn) curTime (rg_r conn)
        in Some (client_period fl serverRate, conn\<lparr>lastRate := client_rate fl serverRate\<rparr>))
     else (case idle_period (initialRate conn) of None \<Rightarrow> None | Some rho \<Rightarrow> Some (rho, conn)))"

definition client_send :: "'a regulatorConn_scheme \<Rightarrow> 'a regulatorConn_scheme" where
  "client_send conn =
    (case receiveQ conn of
       (d, ts) # q \<Rightarrow> NRealSegSentIncrement (rg_send (rg_data d 0)
          (conn\<lparr>receiveQ := q, rg_written := i64 (rg_written conn + int (length d))\<rparr>))
     | [] \<Rightarrow> if LoadCurState conn = StateStart then rg_send (rg_empty PacketTypeDummy) conn else conn)"

definition client_rho :: "rate_floats \<Rightarrow> int \<Rightarrow> int \<Rightarrow> 'a regulatorConn_scheme \<Rightarrow> int" where
  "client_rho fl now rho conn =
    (case receiveQ conn of
       [] \<Rightarrow> rho
     | (d, ts) # q \<Rightarrow> if too_late fl (time_sub (now + rho) ts) then 0 else rho)"

definition client_round :: "rate_floats \<Rightarrow> int \<Rightarrow> int \<Rightarrow> int \<Rightarrow> int \<Rightarrow> 'a regulatorConn_scheme \<Rightarrow>
    'a regulatorConn_scheme option" where
  "client_round fl curTime now now' wake conn =
    (case client_pace fl curTime conn of
       None \<Rightarrow> None
     | Some (rho, conn1) \<Rightarrow> (let conn2 = client_send conn1 in pause (client_rho fl now rho conn2) now' wake conn2))"

section \<open>Runs\<close>

datatype regulator_event = RUpstream bytes "nat \<Rightarrow> int" int | RSignal "int \<Rightarrow> int" int | RTick
  | RRound int int int int | RRecv byte bytes bytes

definition regulator_step :: "rate_floats \<Rightarrow> regulator_event \<Rightarrow> 'a regulatorConn_scheme \<Rightarrow>
    'a regulatorConn_scheme option" where
  "regulator_step fl ev conn =
    (case ev of
       RUpstream data clock now \<Rightarrow>
         if data = [] \<or> length data > 65535 then None
         else if IsServer conn then Some (conn\<lparr>rg_buf := rg_buf conn @ data\<rparr>)
         else Some (client_upstream clock now data conn)
     | RSignal intn now \<Rightarrow> if IsServer conn then server_signal intn now conn else None
     | RTick \<Rightarrow> if IsServer conn then None else Some (client_ticker conn)
     | RRound curTime now now' wake \<Rightarrow>
         if IsServer conn then server_round fl curTime now now' wake conn
         else client_round fl curTime now now' wake conn
     | RRecv t p r \<Rightarrow> (case regulator_handle conn t p r of None \<Rightarrow> None | Some (conn', _) \<Rightarrow> Some conn'))"

fun regulator_input :: "regulator_event \<Rightarrow> bytes" where
  "regulator_input (RUpstream data clock now) = data"
| "regulator_input _ = []"

definition regulator_cells :: "'a regulatorConn_scheme \<Rightarrow> cell list" where
  "regulator_cells conn = map (\<lambda>p. (pi_type p, pi_data p, regulator_tail (pi_t0 p) (pi_pad p))) (rg_sent conn)"

definition regulator_pending :: "'a regulatorConn_scheme \<Rightarrow> bytes" where
  "regulator_pending conn = (if IsServer conn then rg_buf conn else concat (map fst (receiveQ conn)))"

definition regulator_accepts :: "bool \<Rightarrow> byte \<Rightarrow> bytes \<Rightarrow> bytes \<Rightarrow> bool" where
  "regulator_accepts server t p r \<longleftrightarrow> length r \<ge> 8 \<and> defconn_accepts server t p r \<and>
     (t = PacketTypeDummy \<and> \<not> server \<longrightarrow> length p \<ge> 8)"

section \<open>Sending\<close>

lemma regulator_Send_sends:
  "regulator_Send c e ps = (Ok wire, e') \<Longrightarrow> frames.sends c MaximumSegmentLength e
     (map (\<lambda>p. packet_bytes (pi_type p) (pi_data p) (regulator_tail (pi_t0 p) (pi_pad p))) ps) wire e'"
proof (induction ps arbitrary: e wire)
  case Nil
  then show ?case by (simp add: frames.sends.none)
next
  case (Cons p ps)
  then obtain f e1 fs where f: "regulator_Send_one c None e p = (Ok f, e1)"
    "regulator_Send c e1 ps = (Ok fs, e')" "wire = f @ fs"
    by (auto split: outcome.splits prod.splits)
  then have "Encode c e MaximumSegmentLength
      (packet_bytes (pi_type p) (pi_data p) (regulator_tail (pi_t0 p) (pi_pad p))) = (Ok f, e1)"
    by (auto simp: regulator_Send_one_def regulator_MakePacket_def split: outcome.splits prod.splits if_splits)
  then show ?case using frames.sends.frame Cons.IH [OF f(2)] f(3) by simp
qed

lemma length_regulator_tail [simp]: "length (regulator_tail t p) = 8 + unat p"
  by (simp add: regulator_tail_def)

lemma regulator_Send_ok:
  assumes "link_crypto_ok c" "\<forall>p \<in> set ps. length (pi_data p) + unat (pi_pad p) \<le> 536"
    "0 < unat (counter (e_nonce e))" "unat (counter (e_nonce e)) + length ps \<le> 2 ^ 64"
  shows "\<exists>wire e'. regulator_Send c e ps = (Ok wire, e')"
  using assms
proof (induction ps arbitrary: e)
  case (Cons p ps)
  let ?pkt = "packet_bytes (pi_type p) (pi_data p) (regulator_tail (pi_t0 p) (pi_pad p))"
  have nz: "counter (e_nonce e) \<noteq> 0" using Cons.prems(3) by auto
  obtain f e1 where E: "Encode c e MaximumSegmentLength ?pkt = (Ok f, e1)"
    using Encode_Ok_iff [OF assms(1), of e MaximumSegmentLength ?pkt] Cons.prems(2) nz by auto
  then have S: "regulator_Send_one c None e p = (Ok f, e1)"
    using Cons.prems(2) by (auto simp: regulator_Send_one_def regulator_MakePacket_def)
  have "counter (e_nonce e1) = counter (e_nonce e) + 1" using Encode_state [OF E] by simp
  moreover have "ps = [] \<or> unat (counter (e_nonce e) + 1) = unat (counter (e_nonce e)) + 1"
    by (rule unat_counter_next [OF Cons.prems(4)])
  ultimately show ?case
    using S Cons.IH [of e1] Cons.prems by (cases ps) auto
qed simp

section \<open>The contract\<close>

interpretation regulator: packet_handler "regulator_handle :: 'a regulatorConn_scheme handler" regulator_accepts
proof
  fix s :: "'a regulatorConn_scheme" and t p r
  show "\<exists>s'. regulator_handle s t p r = Some (s', None) \<and> IsServer s' = IsServer s \<and>
      ReceiveDecodedBuffer s' = ReceiveDecodedBuffer s @ (if t = PacketTypePayload then p else [])"
    if "regulator_accepts (IsServer s) t p r"
    using that by (auto simp: regulator_accepts_def regulator_handle_def regulator_switch_def get_u64_def
        defconn_accepts_def SeedFromBytes_def Let_def)
  show "keeps_link (regulator_handle :: 'a regulatorConn_scheme handler)"
    by (auto simp: keeps_link_def regulator_handle_def regulator_switch_def SeedFromBytes_def NRealSegRcvIncrement_def
        Let_def split: if_splits outcome.splits)
qed

text \<open>The client's queue holds cells.\<close>

definition queue_cells :: "'a regulatorConn_scheme \<Rightarrow> bool" where
  "queue_cells conn \<longleftrightarrow> (\<forall>(d, ts) \<in> set (receiveQ conn). length d \<le> 536)"

definition good_infos :: "bool \<Rightarrow> packetInfo list \<Rightarrow> bool" where
  "good_infos server ps \<longleftrightarrow> (\<forall>p \<in> set ps. length (pi_data p) + unat (pi_pad p) = 536 \<and>
     (server \<or> pi_type p \<noteq> PacketTypeSignalStart \<and> pi_type p \<noteq> PacketTypeSignalStop) \<and>
     (pi_type p = PacketTypeDummy \<and> \<not> server \<longrightarrow> length (pi_data p) \<ge> 8))"

lemma good_infos_simps [simp]:
  "good_infos server []"
  "good_infos server (p # ps) \<longleftrightarrow> length (pi_data p) + unat (pi_pad p) = 536 \<and>
     (server \<or> pi_type p \<noteq> PacketTypeSignalStart \<and> pi_type p \<noteq> PacketTypeSignalStop) \<and>
     (pi_type p = PacketTypeDummy \<and> \<not> server \<longrightarrow> length (pi_data p) \<ge> 8) \<and> good_infos server ps"
  by (auto simp: good_infos_def)

lemma rg_send_simps [simp]:
  "rg_sent (rg_send p conn) = rg_sent conn @ [p]" "IsServer (rg_send p conn) = IsServer conn"
  "rg_buf (rg_send p conn) = rg_buf conn" "receiveQ (rg_send p conn) = receiveQ conn"
  "rg_sp (rg_send p conn) = rg_sp conn" "rg_n (rg_send p conn) = rg_n conn" "rg_r (rg_send p conn) = rg_r conn"
  "ConnState (rg_send p conn) = ConnState conn" "rg_lastSend (rg_send p conn) = rg_lastSend conn"
  "rg_paddingChan (rg_send p conn) = rg_paddingChan conn"
  by (simp_all add: rg_send_def)

lemma regulator_updates [simp]:
  "rg_sent (set_phase ph conn) = rg_sent conn" "rg_buf (set_phase ph conn) = rg_buf conn"
  "receiveQ (set_phase ph conn) = receiveQ conn" "rg_sp (set_phase ph conn) = rg_sp conn"
  "rg_n (set_phase ph conn) = rg_n conn" "rg_lastSend (set_phase ph conn) = rg_lastSend conn"
  "rg_sent (NRealSegReset conn) = rg_sent conn" "rg_buf (NRealSegReset conn) = rg_buf conn"
  "receiveQ (NRealSegReset conn) = receiveQ conn" "rg_sp (NRealSegReset conn) = rg_sp conn"
  "rg_n (NRealSegReset conn) = rg_n conn"
  "rg_sent (NRealSegSentIncrement conn) = rg_sent conn" "rg_buf (NRealSegSentIncrement conn) = rg_buf conn"
  "receiveQ (NRealSegSentIncrement conn) = receiveQ conn" "rg_sp (NRealSegSentIncrement conn) = rg_sp conn"
  "rg_n (NRealSegSentIncrement conn) = rg_n conn"
  "rg_lastSend (NRealSegSentIncrement conn) = rg_lastSend conn"
  "rg_sent (NRealSegRcvIncrement conn) = rg_sent conn" "rg_buf (NRealSegRcvIncrement conn) = rg_buf conn"
  "receiveQ (NRealSegRcvIncrement conn) = receiveQ conn" "rg_sp (NRealSegRcvIncrement conn) = rg_sp conn"
  "rg_n (NRealSegRcvIncrement conn) = rg_n conn"
  by (simp_all add: set_phase_def NRealSegReset_def NRealSegSentIncrement_def NRealSegRcvIncrement_def)

lemma info_simps [simp]:
  "pi_type (rg_empty t) = t" "pi_data (rg_empty t) = []" "pi_pad (rg_empty t) = 536"
  "pi_type (rg_data d ts) = PacketTypePayload" "pi_data (rg_data d ts) = d" "pi_t0 (rg_data d ts) = ts"
  by (simp_all add: rg_empty_def rg_data_def)

lemma rg_data_pad [simp]: "length d \<le> 536 \<Longrightarrow> length d + unat (pi_pad (rg_data d ts)) = 536"
  using unat_pad [of "length d"] by (simp add: rg_data_def del: of_int_diff of_int_of_nat_eq)

text \<open>What a step keeps: it appends good packets that carry what leaves the buffers.\<close>

definition rg_keeps :: "'a regulatorConn_scheme \<Rightarrow> bytes \<Rightarrow> 'a regulatorConn_scheme \<Rightarrow> bool" where
  "rg_keeps conn inp conn' \<longleftrightarrow> IsServer conn' = IsServer conn \<and> queue_cells conn' \<and>
     (\<exists>ps. rg_sent conn' = rg_sent conn @ ps \<and> good_infos (\<not> IsServer conn) ps \<and>
       concat [pi_data p. p \<leftarrow> ps, pi_type p = PacketTypePayload] @ regulator_pending conn' =
         regulator_pending conn @ inp)"

lemma rg_keepsI:
  assumes "IsServer conn' = IsServer conn" "queue_cells conn'" "rg_sent conn' = rg_sent conn @ ps"
    "good_infos (\<not> IsServer conn) ps"
    "concat [pi_data p. p \<leftarrow> ps, pi_type p = PacketTypePayload] @ regulator_pending conn' =
       regulator_pending conn @ inp"
  shows "rg_keeps conn inp conn'"
  using assms by (auto simp: rg_keeps_def)

lemma rg_keeps_quiet:
  assumes "IsServer conn' = IsServer conn" "rg_sent conn' = rg_sent conn" "rg_buf conn' = rg_buf conn"
    "receiveQ conn' = receiveQ conn" "queue_cells conn"
  shows "rg_keeps conn [] conn'"
  using assms by (intro rg_keepsI [where ps = "[]"]) (auto simp: regulator_pending_def queue_cells_def)

lemma rg_keeps_trans:
  assumes "rg_keeps conn a conn1" "rg_keeps conn1 b conn2"
  shows "rg_keeps conn (a @ b) conn2"
proof -
  obtain p where p: "rg_sent conn1 = rg_sent conn @ p" "good_infos (\<not> IsServer conn) p"
    "concat [pi_data x. x \<leftarrow> p, pi_type x = PacketTypePayload] @ regulator_pending conn1 = regulator_pending conn @ a"
    "IsServer conn1 = IsServer conn" using assms(1) by (auto simp: rg_keeps_def)
  obtain q where q: "rg_sent conn2 = rg_sent conn1 @ q" "good_infos (\<not> IsServer conn1) q"
    "concat [pi_data x. x \<leftarrow> q, pi_type x = PacketTypePayload] @ regulator_pending conn2 = regulator_pending conn1 @ b"
    "IsServer conn2 = IsServer conn1" "queue_cells conn2" using assms(2) by (auto simp: rg_keeps_def)
  have "concat [pi_data x. x \<leftarrow> p @ q, pi_type x = PacketTypePayload] @ regulator_pending conn2 =
      regulator_pending conn @ a @ b"
    using p(3) q(3) by simp
  then show ?thesis
    using p q by (intro rg_keepsI [where ps = "p @ q"]) (auto simp: good_infos_def)
qed

lemma server_rate_keeps: "queue_cells conn \<Longrightarrow> rg_keeps conn [] (server_rate fl a b conn)"
  by (rule rg_keeps_quiet) (auto simp: server_rate_def Let_def)

lemma length_budget_bytes [simp]: "length (budget_bytes a b) = 8"
  by (simp add: budget_bytes_def)

lemma server_send_keeps:
  assumes "IsServer conn" "queue_cells conn"
  shows "rg_keeps conn [] (server_send conn)"
proof (cases "rg_buf conn = []")
  case False
  have "length (take 536 (rg_buf conn)) + unat (pi_pad (rg_data (take 536 (rg_buf conn)) ts)) = 536" for ts
    by (rule rg_data_pad) simp
  then show ?thesis
    using False assms
    by (intro rg_keepsI [where ps = "[rg_data (take 536 (rg_buf conn)) (sp_lastSend (rg_sp conn))]"])
      (auto simp: server_send_def queue_cells_def regulator_pending_def Let_def)
next
  case True
  show ?thesis
  proof (cases "LoadCurState conn = StateStart \<and> fst (ConsumePaddingBudget (rg_sp conn))")
    case start: True
    then obtain sp where "ConsumePaddingBudget (rg_sp conn) = (True, sp)" by (cases "ConsumePaddingBudget (rg_sp conn)") auto
    then show ?thesis
      using start True assms
      by (intro rg_keepsI [where ps = "[\<lparr>pi_type = PacketTypeDummy, pi_data = budget_bytes (paddingBudget sp) (totalBudget conn),
          pi_pad = word_of_int (int MaxPacketPaddingLength - (4 + 4)), pi_t0 = sp_lastSend sp\<rparr>]"])
        (auto simp: server_send_def queue_cells_def regulator_pending_def)
  next
    case False
    with True assms(2) have "server_send conn = conn"
      by (auto simp: server_send_def split: prod.splits bool.splits)
    then show ?thesis using rg_keeps_quiet assms(2) by metis
  qed
qed

lemma pause_keeps: "pause rho now wake conn = Some conn' \<Longrightarrow> queue_cells conn \<Longrightarrow> rg_keeps conn [] conn'"
  by (rule rg_keeps_quiet) (auto simp: pause_def split: if_splits)

lemma server_signal_keeps: "server_signal intn now conn = Some conn' \<Longrightarrow> queue_cells conn \<Longrightarrow> rg_keeps conn [] conn'"
  by (rule rg_keeps_quiet) (auto simp: server_signal_def Let_def split: list.splits outcome.splits if_splits)

lemma queue_cells_keep: "rg_keeps conn inp conn' \<Longrightarrow> queue_cells conn'"
  by (simp add: rg_keeps_def)

lemma server_round_keeps:
  assumes "server_round fl a b c d conn = Some conn'" "IsServer conn" "queue_cells conn"
  shows "rg_keeps conn [] conn'"
proof -
  note r = server_rate_keeps [OF assms(3), of fl a b]
  have "IsServer (server_rate fl a b conn)" using r assms(2) by (simp add: rg_keeps_def)
  note s = server_send_keeps [OF this queue_cells_keep [OF r]]
  have "rg_keeps (server_send (server_rate fl a b conn)) [] conn'"
    using assms(1) queue_cells_keep [OF s] by (auto simp: server_round_def Let_def intro: pause_keeps)
  with rg_keeps_trans [OF r s] rg_keeps_trans show ?thesis by (metis append_Nil)
qed

lemma client_upstream_keeps:
  assumes "\<not> IsServer conn" "queue_cells conn"
  shows "rg_keeps conn data (client_upstream clock now data conn)"
proof -
  let ?q = "zip (chop 536 data) (map clock [0..<length (chop 536 data)])"
  have q: "concat (map fst ?q) = data" "\<forall>(d, ts) \<in> set ?q. length d \<le> 536"
    by (auto dest!: set_zip_leftD chop_cells)
  have "\<exists>ps. rg_sent (client_upstream clock now data conn) = rg_sent conn @ ps \<and>
      (ps = [] \<or> ps = [rg_empty PacketTypeSignalStart])"
    by (auto simp: client_upstream_def Let_def)
  then obtain ps where "rg_sent (client_upstream clock now data conn) = rg_sent conn @ ps"
    "ps = [] \<or> ps = [rg_empty PacketTypeSignalStart]" by blast
  moreover have "receiveQ (client_upstream clock now data conn) = receiveQ conn @ ?q"
    "IsServer (client_upstream clock now data conn) = IsServer conn"
    by (auto simp: client_upstream_def Let_def)
  ultimately show ?thesis
    using assms q by (intro rg_keepsI [where ps = ps]) (auto simp: queue_cells_def regulator_pending_def)
qed

lemma client_ticker_keeps:
  assumes "\<not> IsServer conn" "queue_cells conn"
  shows "rg_keeps conn [] (client_ticker conn)"
proof -
  have "\<exists>ps. rg_sent (client_ticker conn) = rg_sent conn @ ps \<and> (ps = [] \<or> ps = [rg_empty PacketTypeSignalStop])"
    by (auto simp: client_ticker_def)
  then obtain ps where "rg_sent (client_ticker conn) = rg_sent conn @ ps" "ps = [] \<or> ps = [rg_empty PacketTypeSignalStop]"
    by blast
  then show ?thesis
    using assms by (intro rg_keepsI [where ps = ps]) (auto simp: queue_cells_def regulator_pending_def client_ticker_def)
qed

lemma client_send_keeps:
  assumes "\<not> IsServer conn" "queue_cells conn"
  shows "rg_keeps conn [] (client_send conn)"
proof (cases "receiveQ conn")
  case Nil
  then have "\<exists>ps. rg_sent (client_send conn) = rg_sent conn @ ps \<and> (ps = [] \<or> ps = [rg_empty PacketTypeDummy])"
    by (auto simp: client_send_def)
  then obtain ps where "rg_sent (client_send conn) = rg_sent conn @ ps" "ps = [] \<or> ps = [rg_empty PacketTypeDummy]"
    by blast
  then show ?thesis
    using assms Nil by (intro rg_keepsI [where ps = ps]) (auto simp: queue_cells_def regulator_pending_def client_send_def)
next
  case (Cons x q)
  then show ?thesis
    using assms by (cases x) (auto intro!: rg_keepsI [where ps = "[rg_data (fst x) 0]"]
        simp: queue_cells_def regulator_pending_def client_send_def)
qed

lemma client_round_keeps:
  assumes "client_round fl a b c d conn = Some conn'" "\<not> IsServer conn" "queue_cells conn"
  shows "rg_keeps conn [] conn'"
proof -
  obtain rho conn1 where P: "client_pace fl a conn = Some (rho, conn1)"
    and Z: "pause (client_rho fl b rho (client_send conn1)) c d (client_send conn1) = Some conn'"
    using assms(1) by (auto simp: client_round_def Let_def split: option.splits)
  have r: "rg_keeps conn [] conn1"
    using P assms(3) by (intro rg_keeps_quiet) (auto simp: client_pace_def Let_def split: if_splits option.splits)
  have "\<not> IsServer conn1" using r assms(2) by (simp add: rg_keeps_def)
  note s = client_send_keeps [OF this queue_cells_keep [OF r]]
  with rg_keeps_trans [OF r s] rg_keeps_trans [OF _ pause_keeps [OF Z queue_cells_keep [OF s]]]
  show ?thesis by (metis append_Nil)
qed

lemma regulator_handle_keeps:
  "regulator_handle conn t p r = Some (conn', e) \<Longrightarrow> queue_cells conn \<Longrightarrow> rg_keeps conn [] conn'"
  by (rule rg_keeps_quiet) (auto simp: regulator_handle_def regulator_switch_def Let_def
      split: if_splits outcome.splits)

lemma regulator_step_keeps:
  assumes "regulator_step fl ev conn = Some conn'" "queue_cells conn"
  shows "rg_keeps conn (regulator_input ev) conn'"
proof (cases ev)
  case (RUpstream data clock now)
  show ?thesis
  proof (cases "IsServer conn")
    case True
    with RUpstream assms show ?thesis
      by (intro rg_keepsI [where ps = "[]"])
        (auto simp: regulator_step_def regulator_pending_def queue_cells_def split: if_splits)
  next
    case False
    with RUpstream assms show ?thesis
      by (auto simp: regulator_step_def intro: client_upstream_keeps split: if_splits)
  qed
next
  case (RSignal intn now)
  with assms show ?thesis by (auto simp: regulator_step_def intro: server_signal_keeps split: if_splits)
next
  case RTick
  with assms show ?thesis by (auto simp: regulator_step_def intro: client_ticker_keeps split: if_splits)
next
  case (RRound a b c d)
  with assms show ?thesis
    by (auto simp: regulator_step_def intro: server_round_keeps client_round_keeps split: if_splits)
next
  case (RRecv t p r)
  with assms show ?thesis by (auto simp: regulator_step_def intro: regulator_handle_keeps split: option.splits)
qed

interpretation regulator: tunnel "regulator_step fl :: regulator_event \<Rightarrow> 'a regulatorConn_scheme \<Rightarrow> 'a regulatorConn_scheme option"
  regulator_cells regulator_pending regulator_input IsServer 544 regulator_accepts queue_cells
  "regulator_handle :: 'p regulatorConn_scheme handler" for fl
proof (unfold_locales, goal_cases)
  case (1 ev s s')
  then obtain ps where ps: "rg_sent s' = rg_sent s @ ps" "good_infos (\<not> IsServer s) ps"
    "concat [pi_data p. p \<leftarrow> ps, pi_type p = PacketTypePayload] @ regulator_pending s' = regulator_pending s @ regulator_input ev"
    using regulator_step_keeps by (fastforce simp: rg_keeps_def)
  let ?new = "map (\<lambda>p. (pi_type p, pi_data p, regulator_tail (pi_t0 p) (pi_pad p))) ps"
  have "payloads ?new = concat [pi_data p. p \<leftarrow> ps, pi_type p = PacketTypePayload]"
    by (induction ps) auto
  moreover have "\<forall>(t, d, r) \<in> set ?new. length d + length r = 544 \<and> regulator_accepts (\<not> IsServer s) t d r"
    using ps(2) by (auto simp: good_infos_def regulator_accepts_def defconn_accepts_def)
  ultimately show ?case using ps by (intro exI [of _ ?new]) (simp add: regulator_cells_def)
next
  case (2 ev s s')
  then show ?case
    by (auto simp: regulator_step_def server_round_def client_round_def pause_def server_send_def server_rate_def
        client_pace_def client_send_def client_upstream_def client_ticker_def server_signal_def regulator_handle_def
        regulator_switch_def Let_def split: regulator_event.splits if_splits option.splits prod.splits list.splits
        outcome.splits bool.splits)
next
  case (3 ev s s')
  then show ?case using regulator_step_keeps queue_cells_keep by blast
qed simp

section \<open>Budget and pace\<close>

definition info_dummies :: "packetInfo list \<Rightarrow> nat" where
  "info_dummies ps = length (filter (\<lambda>p. pi_type p = PacketTypeDummy) ps)"

lemma info_dummies_simps [simp]:
  "info_dummies [] = 0" "info_dummies (ps @ qs) = info_dummies ps + info_dummies qs"
  "info_dummies [p] = (if pi_type p = PacketTypeDummy then 1 else 0)"
  by (simp_all add: info_dummies_def)

fun restarts :: "regulator_event list \<Rightarrow> nat" where
  "restarts [] = 0"
| "restarts (RSignal intn now # evs) = Suc (restarts evs)"
| "restarts (_ # evs) = restarts evs"

text \<open>Every source of randomness in a run behaves like \<open>rand.Intn\<close>.\<close>

fun draws_ok :: "regulator_event \<Rightarrow> bool" where
  "draws_ok (RSignal intn now) = intn_ok intn"
| "draws_ok _ = True"

lemma sp_Init_budget:
  assumes "intn_ok intn" "0 \<le> n" "n < 2 ^ 31" "sp_Init intn now r n sp = Ok sp'"
  shows "0 \<le> paddingBudget sp' \<and> paddingBudget sp' \<le> n \<and> targetRate sp' = r \<and> sp_lastSend sp' = now"
proof -
  obtain v where "Uniform intn 0 n = (Ok v :: (unit, int) outcome)" "0 \<le> v" "v \<le> n"
    using Uniform_ok [OF assms(1), of 0 n] assms(2,3) by (auto simp: in_i64_def)
  moreover from this assms(3) have "in_i32 v" by (simp add: in_i32_def)
  ultimately show ?thesis
    using assms(4) by (auto simp: sp_Init_def SetPaddingBudget_def SetTargetRate_def SetLastSend_def)
qed

lemma ConsumePaddingBudget_cases:
  "0 \<le> paddingBudget sp \<Longrightarrow> (case ConsumePaddingBudget sp of (b, sp') \<Rightarrow>
     paddingBudget sp' = paddingBudget sp - (if b then 1 else 0) \<and> 0 \<le> paddingBudget sp' \<and>
     sp_lastSend sp' = sp_lastSend sp \<and> targetRate sp' = targetRate sp)"
  by (simp add: ConsumePaddingBudget_def)

lemma server_rate_budget [simp]:
  "paddingBudget (rg_sp (server_rate fl a b conn)) = paddingBudget (rg_sp conn)"
  "rg_sent (server_rate fl a b conn) = rg_sent conn" "rg_n (server_rate fl a b conn) = rg_n conn"
  "rg_lastSend (server_rate fl a b conn) = rg_lastSend conn" "rg_buf (server_rate fl a b conn) = rg_buf conn"
  "ConnState (server_rate fl a b conn) = ConnState conn"
  by (simp_all add: server_rate_def CalTargetRate_def SetLastSend_def SetTargetRate_def Let_def)

lemma server_send_budget:
  assumes "0 \<le> paddingBudget (rg_sp conn)"
  shows "int (info_dummies (rg_sent (server_send conn))) + paddingBudget (rg_sp (server_send conn)) =
      int (info_dummies (rg_sent conn)) + paddingBudget (rg_sp conn) \<and>
    0 \<le> paddingBudget (rg_sp (server_send conn)) \<and> rg_n (server_send conn) = rg_n conn"
  using assms ConsumePaddingBudget_cases [OF assms]
  by (auto simp: server_send_def Let_def split: prod.splits bool.splits)

definition spent :: "'a regulatorConn_scheme \<Rightarrow> int" where
  "spent conn = int (info_dummies (rg_sent conn)) + paddingBudget (rg_sp conn)"

definition budget_ok :: "'a regulatorConn_scheme \<Rightarrow> bool" where
  "budget_ok conn \<longleftrightarrow> IsServer conn \<and> 0 \<le> paddingBudget (rg_sp conn) \<and> 0 \<le> rg_n conn \<and> rg_n conn < 2 ^ 31"

lemma regulator_step_budget:
  assumes "regulator_step fl ev conn = Some conn'" "budget_ok conn" "draws_ok ev"
  shows "budget_ok conn' \<and> rg_n conn' = rg_n conn \<and>
    spent conn' \<le> spent conn + rg_n conn * int (restarts [ev])"
proof (cases ev)
  case (RUpstream data clock now)
  with assms show ?thesis by (auto simp: regulator_step_def budget_ok_def spent_def split: if_splits)
next
  case (RSignal intn now)
  then have S: "server_signal intn now conn = Some conn'"
    using assms by (auto simp: regulator_step_def split: if_splits)
  show ?thesis
  proof (cases "hd (rg_paddingChan conn)")
    case False
    with S RSignal assms show ?thesis
      by (auto simp: server_signal_def budget_ok_def spent_def Let_def split: list.splits if_splits)
  next
    case True
    with S obtain chan sp where P: "rg_paddingChan conn = True # chan"
      "sp_Init intn now (rg_r conn) (rg_n conn) (rg_sp conn) = Ok sp"
      "conn' = set_phase StateStart (conn\<lparr>rg_paddingChan := chan, rg_sp := sp, totalBudget := paddingBudget sp\<rparr>)"
      by (auto simp: server_signal_def Let_def split: list.splits outcome.splits)
    from sp_Init_budget [OF _ _ _ P(2)] RSignal assms(2,3)
    have "0 \<le> paddingBudget sp" "paddingBudget sp \<le> rg_n conn" by (auto simp: budget_ok_def)
    with P(3) RSignal assms(2) show ?thesis by (auto simp: budget_ok_def spent_def)
  qed
next
  case RTick
  with assms show ?thesis by (auto simp: regulator_step_def budget_ok_def)
next
  case (RRound a b c d)
  then have "server_round fl a b c d conn = Some conn'"
    using assms(1,2) by (simp add: regulator_step_def budget_ok_def)
  moreover have "IsServer conn' = IsServer conn" using regulator.step_role assms(1) by blast
  ultimately show ?thesis
    using RRound assms(2) server_send_budget [of "server_rate fl a b conn"]
    by (auto simp: server_round_def pause_def budget_ok_def spent_def Let_def split: if_splits)
next
  case (RRecv t p r)
  with assms show ?thesis
    by (auto simp: regulator_step_def regulator_handle_def regulator_switch_def budget_ok_def spent_def Let_def
        split: option.splits outcome.splits if_splits)
qed

lemma regulator_run_budget:
  assumes "regulator.run fl evs conn = Some conn'" "budget_ok conn" "\<forall>ev \<in> set evs. draws_ok ev"
  shows "budget_ok conn' \<and> spent conn' \<le> spent conn + rg_n conn * int (restarts evs)"
  using assms
proof (induction evs arbitrary: conn)
  case (Cons ev evs)
  then obtain conn1 where s1: "regulator_step fl ev conn = Some conn1" "regulator.run fl evs conn1 = Some conn'"
    by (auto split: option.splits)
  have s2: "budget_ok conn1" "rg_n conn1 = rg_n conn" "spent conn1 \<le> spent conn + rg_n conn * int (restarts [ev])"
    using regulator_step_budget [OF s1(1) Cons.prems(2)] Cons.prems(3) by auto
  have "restarts (ev # evs) = restarts [ev] + restarts evs" by (cases ev) auto
  then show ?case using Cons.IH [OF s1(2) s2(1)] Cons.prems(3) s2 by (auto simp: algebra_simps)
qed simp

lemma SleepRho_covers:
  assumes "t \<le> now" "now - t < 2 ^ 62" "0 \<le> rho" "rho < 2 ^ 62"
  shows "t + rho \<le> now + SleepRho t rho now"
proof -
  have "time_sub now t = now - t" "in_i64 (rho - (now - t))"
    using assms by (auto simp: time_sub_def in_i64_def)
  then show ?thesis by (simp add: SleepRho_def Let_def)
qed

lemma SleepRho_stall:
  assumes "t < now" "now - t < 2 ^ 62" "rho = - (2 ^ 63) \<or> rho = 2 ^ 63 - 1"
  shows "t + (2 ^ 63 - 1) \<le> now + SleepRho t rho now"
proof -
  have "time_sub now t = now - t" using assms by (auto simp: time_sub_def)
  moreover have "i64 (- (2 ^ 63) - (now - t)) = 2 ^ 63 - (now - t)"
  proof -
    have "(- (2 ^ 63) - (now - t) + 2 ^ 63) mod 2 ^ 64 = (2 ^ 64 - (now - t)) mod (2 ^ 64 :: int)"
      by (simp only: mod_diff_left_eq [symmetric, of "2 ^ 64"]) simp
    also have "\<dots> = 2 ^ 64 - (now - t)" using assms(1,2) by (intro mod_pos_pos_trivial) auto
    finally have "(- (2 ^ 63) - (now - t) + 2 ^ 63) mod 2 ^ 64 = 2 ^ 64 - (now - t)" .
    then show ?thesis by (simp add: i64_def)
  qed
  moreover have "in_i64 (2 ^ 63 - 1 - (now - t))" using assms by (auto simp: in_i64_def)
  ultimately show ?thesis using assms by (auto simp: SleepRho_def Let_def)
qed

lemma idle_period_zero:
  "1 < rate \<Longrightarrow> idle_period rate = Some 0" "idle_period 1 = Some 1000000000" "idle_period 0 = None"
  by (simp_all add: idle_period_def go_div_def in_i32_def)

section \<open>Properties\<close>

text \<open>C8: RegulaTor relays the stream. Whatever the interleaving of upstream reads, rounds, signals, ticks
  and received packets, everything queued can be sent, occupies 565 bytes per packet (eight more
  than the cells of the other defences, for the surge time), and the peer's reader neither panics nor
  fails and gets exactly what came from upstream but for what is still buffered.\<close>

theorem regulator_relays_stream:
  assumes "regulator.run fl evs conn = Some conn'" "rg_sent conn = []" "rg_buf conn = []" "receiveQ conn = []"
    "link_ok c e dec" "intn_ok intn" "counter (e_nonce e) \<noteq> 0"
    "unat (counter (e_nonce e)) + length (rg_sent conn') \<le> 2 ^ 64"
    "IsServer peer = (\<not> IsServer conn)" "Decoder peer = Some dec" "ReceiveBuffer peer = []"
    "ReceiveDecodedBuffer peer = []"
  shows "\<exists>wire e'. regulator_Send c e (rg_sent conn') = (Ok wire, e') \<and> length wire = 565 * length (rg_sent conn') \<and>
    (\<forall>chunks. concat chunks = wire \<and> [] \<notin> set chunks \<longrightarrow>
      (\<exists>peer' dec'. read_all (regulator_readPackets c intn) peer chunks = (Ok None, peer') \<and>
        Decoder peer' = Some dec' \<and> link_ok c e' dec' \<and>
        ReceiveDecodedBuffer peer' @ regulator_pending conn' = concat (map regulator_input evs)))"
proof -
  have q: "queue_cells conn" "regulator_cells conn = []" "regulator_pending conn = []"
    using assms(2-4) by (simp_all add: queue_cells_def regulator_cells_def regulator_pending_def)
  have fits: "\<forall>p \<in> set (rg_sent conn'). length (pi_data p) + unat (pi_pad p) \<le> 536"
    using regulator.run_cells [OF assms(1) q(1)] q(2) by (fastforce simp: regulator_cells_def)
  obtain wire e' where S: "regulator_Send c e (rg_sent conn') = (Ok wire, e')"
    using regulator_Send_ok [of c "rg_sent conn'" e] fits assms(5,7,8) by (auto simp: link_ok_def unat_gt_0)
  have F: "frames.sends c MaximumSegmentLength e (map (\<lambda>(t, d, r). packet_bytes t d r) (regulator_cells conn')) wire e'"
    using regulator_Send_sends [OF S] by (simp add: regulator_cells_def comp_def)
  have D: "\<exists>peer' dec'. read_all (regulator_readPackets c intn) peer chunks = (Ok None, peer') \<and>
      Decoder peer' = Some dec' \<and> link_ok c e' dec' \<and>
      ReceiveDecodedBuffer peer' @ regulator_pending conn' = concat (map regulator_input evs) \<and>
      length wire = (FrameOverhead + PacketOverhead + 544) * length (regulator_cells conn')"
    if "concat chunks = wire" "[] \<notin> set chunks" for chunks
    unfolding regulator_readPackets_def
    by (rule regulator.tunnel_delivery [OF assms(1) q assms(5,6) F assms(9-12) that])
  have "length wire = 565 * length (rg_sent conn')"
    using D [of "map (\<lambda>b. [b]) wire"] concat_singletons [of wire] by (auto simp: regulator_cells_def)
  with S D show ?thesis by blast
qed

definition fresh_regulator :: "bool \<Rightarrow> decoder option \<Rightarrow> regulatorConn" where
  "fresh_regulator server dec = \<lparr>IsServer = server, LenDist = [], nRealSegSent = 0, nRealSegRcv = 0,
     ConnState = NewState, ReceiveBuffer = [], ReceiveDecodedBuffer = [], Encoder = None, Decoder = dec,
     rg_r = 10, rg_n = 2, rg_t0 = 0, rg_sent = [], rg_paddingChan = [],
     rg_sp = \<lparr>sp_lastSend = 0, targetRate = 10, paddingBudget = 0\<rparr>, totalBudget = 0, rg_buf = [], receiveQ = [],
     rg_lastSend = 0, initialRate = 5, lastRate = 5, rg_written = 0\<rparr>"

definition demo_floats :: rate_floats where
  "demo_floats = \<lparr>pow_rate = (\<lambda>r e. r div 2), rate_threshold = (\<lambda>r. 3 * r), server_period = (\<lambda>r. 1000000000 div r),
     client_rate = (\<lambda>r. r div 2), client_period = (\<lambda>r. if r = 0 then - (2 ^ 63) else 2000000000 div r),
     too_late = (\<lambda>g. g > 5000000000)\<rparr>"

text \<open>A server that is told to start, relays one cell and then sends a dummy.\<close>

definition demo_regulator_run :: "regulator_event list" where
  "demo_regulator_run = [RRecv PacketTypeSignalStart [] (replicate 8 0), RSignal (\<lambda>n. n - 1) 50,
     RUpstream [7, 8] (\<lambda>_. 0) 60, RRound 70 71 72 200000000, RRound 200000001 200000002 200000003 400000000]"

lemmas regulator_eval = regulator_step_def regulator_handle_def regulator_switch_def get_u64_def server_signal_def
  sp_Init_def SetPaddingBudget_def Uniform_def csrand_Intn_def SetTargetRate_def SetLastSend_def server_round_def
  server_rate_def server_send_def CalTargetRate_def CalTargetRateWithLast_def ConsumePaddingBudget_def pause_def
  SleepRho_def time_sub_def set_phase_def rg_send_def

lemma demo_regulator_result:
  "\<exists>conn'. regulator.run demo_floats demo_regulator_run (fresh_regulator True None) = Some conn' \<and>
     map pi_type (rg_sent conn') = [0, 1] \<and> rg_buf conn' = [] \<and> info_dummies (rg_sent conn') = 1"
  by (simp add: demo_regulator_run_def fresh_regulator_def demo_floats_def regulator_eval info_dummies_def
      in_i64_def in_i32_def Let_def)

theorem regulator_relays_stream_witness:
  "\<exists>e d conn' wire e' peer'. NewEncoder (replicate 72 3) = Ok e \<and> NewDecoder (replicate 72 3) = Ok d \<and>
     regulator.run demo_floats demo_regulator_run (fresh_regulator True None) = Some conn' \<and>
     regulator_Send demo_crypto e (rg_sent conn') = (Ok wire, e') \<and>
     read_all (regulator_readPackets demo_crypto (\<lambda>_. 0)) (fresh_regulator False (Some d)) (map (\<lambda>b. [b]) wire) = (Ok None, peer') \<and>
     ReceiveDecodedBuffer peer' = [7, 8]"
proof -
  obtain e d where ed: "NewEncoder (replicate 72 3) = Ok e" "NewDecoder (replicate 72 3) = Ok d"
    "linked e d" "counter (e_nonce e) = 1" using NewEncoder_NewDecoder [of "replicate 72 3"] by auto
  then have l: "link_ok demo_crypto e d" using demo_crypto_link_ok by (simp add: link_ok_def)
  obtain conn' where R: "regulator.run demo_floats demo_regulator_run (fresh_regulator True None) = Some conn'"
    "map pi_type (rg_sent conn') = [0, 1]" "rg_buf conn' = []"
    using demo_regulator_result by (elim exE conjE)
  have n: "length (rg_sent conn') = 2" using arg_cong [OF R(2), of length] by simp
  have role: "IsServer conn'" using regulator.run_cells [OF R(1)] by (simp add: queue_cells_def fresh_regulator_def)
  then have inp: "regulator_pending conn' = []" "concat (map regulator_input demo_regulator_run) = [7, 8]"
    using R(3) by (simp_all add: demo_regulator_run_def regulator_pending_def)
  obtain wire e' where W: "regulator_Send demo_crypto e (rg_sent conn') = (Ok wire, e')"
    "\<forall>chunks. concat chunks = wire \<and> [] \<notin> set chunks \<longrightarrow>
      (\<exists>peer' dec'. read_all (regulator_readPackets demo_crypto (\<lambda>_. 0)) (fresh_regulator False (Some d)) chunks = (Ok None, peer') \<and>
        Decoder peer' = Some dec' \<and> link_ok demo_crypto e' dec' \<and>
        ReceiveDecodedBuffer peer' @ regulator_pending conn' = concat (map regulator_input demo_regulator_run))"
    using regulator_relays_stream [OF R(1) _ _ _ l demo_intn, of "fresh_regulator False (Some d)"] ed(4) n
    by (auto simp: fresh_regulator_def)
  from W(2) [rule_format, OF concat_singletons] obtain peer' where
    "read_all (regulator_readPackets demo_crypto (\<lambda>_. 0)) (fresh_regulator False (Some d)) (map (\<lambda>b. [b]) wire) = (Ok None, peer')"
    "ReceiveDecodedBuffer peer' = [7, 8]" using inp by auto
  with ed R(1) W(1) show ?thesis by blast
qed





text \<open>RegulaTor's client stalls when its clock is behind the server's. The surge time \<open>t0\<close> is
  the server's clock; a client in Start whose clock is behind it computes the rate 0 and the
  period \<open>1/0\<close>, whose conversion to \<open>time.Duration\<close> is the smallest integer on amd64 and the
  largest on arm64. In both cases, with nothing queued behind the packet, the round does not end
  before \<open>2^63 - 1\<close> nanoseconds (292 years).\<close>

lemma regulator_skew_stalls:
  assumes "LoadCurState conn = StateStart" "curTime < rg_t0 conn"
    "client_period fl 0 = - (2 ^ 63) \<or> client_period fl 0 = 2 ^ 63 - 1" "length (receiveQ conn) \<le> 1"
    "rg_lastSend conn < now'" "now' - rg_lastSend conn < 2 ^ 62"
    "client_round fl curTime now now' wake conn = Some conn'"
  shows "rg_lastSend conn + (2 ^ 63 - 1) \<le> wake"
proof -
  have "CalTargetRateWithLast fl (rg_t0 conn) curTime (rg_r conn) = 0"
    using assms(2) by (simp add: CalTargetRateWithLast_def time_sub_def Let_def)
  then have pace: "client_pace fl curTime conn = Some (client_period fl 0, conn\<lparr>lastRate := client_rate fl 0\<rparr>)"
    using assms(1) by (simp add: client_pace_def)
  let ?c = "client_send (conn\<lparr>lastRate := client_rate fl 0\<rparr>)"
  have "receiveQ ?c = []" "rg_lastSend ?c = rg_lastSend conn"
    using assms(4) by (cases "receiveQ conn"; simp add: client_send_def split: prod.splits)+
  then have "now' + SleepRho (rg_lastSend conn) (client_period fl 0) now' \<le> wake"
    using assms(7) pace by (auto simp: client_round_def client_rho_def pause_def split: if_splits)
  with SleepRho_stall [OF assms(5,6,3)] show ?thesis by simp
qed

lemma regulator_skew_stalls_example:
  "\<exists>conn'. client_round demo_floats 70 71 72 (2 ^ 63) ((set_phase StateStart (fresh_regulator False None))\<lparr>rg_t0 := 90\<rparr>) =
       Some conn' \<and> 0 + (2 ^ 63 - 1) \<le> (2 ^ 63 :: int)"
proof -
  let ?c = "(set_phase StateStart (fresh_regulator False None))\<lparr>rg_t0 := 90\<rparr>"
  have i: "i64 (- 9223372036854775880) = 9223372036854775736" by (simp add: i64_def)
  have "\<exists>conn'. client_round demo_floats 70 71 72 (2 ^ 63) ?c = Some conn'"
    by (simp add: client_round_def client_pace_def client_send_def client_rho_def fresh_regulator_def demo_floats_def
        regulator_eval i Let_def)
  then obtain conn' where R: "client_round demo_floats 70 71 72 (2 ^ 63) ?c = Some conn'" by blast
  have "rg_lastSend ?c + (2 ^ 63 - 1) \<le> 2 ^ 63"
    by (rule regulator_skew_stalls [OF _ _ _ _ _ _ R])
      (simp_all add: fresh_regulator_def demo_floats_def)
  with R show ?thesis by (auto simp: fresh_regulator_def)
qed

end
