(* ===== verification/Wfgan.thy ===== *)
theory Wfgan
  imports Complex_Main Defence
begin

text \<open>
  The WFGAN defence, \<open>transports/wfgan/wfgan.go\<close> and \<open>packet.go\<close>. While the defence is on,
  the client sends bursts whose sizes come from a generator (a gRPC service) and ends each one with
  a Finish packet that tells the server how large its answering burst should be. A burst is shaped
  by \<open>sendRefBurst\<close>: real data as far as there is any, dummies for the rest. The loops of the two
  burst routines run one cell per step, so that upstream data may arrive in between;
  \<open>wf_burst\<close> is the loop the main routine is in. The bounds \<open>round(ref * (1 - tol))\<close> and
  \<open>round(ref * (1 + tol))\<close> are the fields of \<open>burst_floats\<close>; the samples of the
  distributions and of the generator are parameters of the events.
\<close>

section \<open>State\<close>

record burst_floats =
  low_ref :: "u32 \<Rightarrow> int" \<comment> \<open>\<open>int(math.Round(float64(ref) * float64(1 - tol)))\<close>\<close>
  up_ref :: "u32 \<Rightarrow> int" \<comment> \<open>\<open>int(math.Round(float64(ref) * float64(1 + tol)))\<close>\<close>

definition maxQueueSize :: nat where [simp]: "maxQueueSize = 1000 * 3"
definition tmpRho :: real where [simp]: "tmpRho = 100"

datatype burst = Idle | RefBurst int | RealBurst

record wfganConn = relay +
  randomP :: real
  canSendChan :: "u32 list"
  iptList :: "real list"
  burstQueue :: "(int \<times> int) list"
  wf_burst :: burst
  wf_response :: "int option"

section \<open>Receiving\<close>

text \<open>\<open>beta\<close> is the sample of \<open>utils.Beta(p)\<close>; \<open>Uint32(payload)\<close> panics on fewer than four bytes.\<close>

definition wfgan_handle :: "real \<Rightarrow> 'a wfganConn_scheme handler" where
  "wfgan_handle beta conn pktType payload rest =
    (if pktType = PacketTypePayload then
       (if length payload > 0 then
          (let conn1 = conn\<lparr>ReceiveDecodedBuffer := ReceiveDecodedBuffer conn @ payload\<rparr>
           in Some (if IsServer conn then conn1 else NRealSegRcvIncrement conn1, None))
        else Some (conn, None))
     else if pktType = PacketTypePrngSeed then
       (if length payload = SeedPacketPayloadLength \<and> \<not> IsServer conn then
          (case SeedFromBytes payload of
             Ok seed \<Rightarrow> Some (conn\<lparr>LenDist := seed\<rparr>, None)
           | Err er \<Rightarrow> Some (conn, Some (SeedError er)) | Panic \<Rightarrow> None)
        else Some (conn, None))
     else if pktType = PacketTypeSignalStart then
       (if \<not> IsServer conn then None
        else if LoadCurState conn \<noteq> StateStart
        then Some (set_phase StateStart (conn\<lparr>randomP := beta\<rparr>), None) else Some (conn, None))
     else if pktType = PacketTypeSignalStop then
       (if \<not> IsServer conn then None
        else if LoadCurState conn \<noteq> StateStop then Some (set_phase StateStop conn, None) else Some (conn, None))
     else if pktType = PacketTypeFinish then
       (if \<not> IsServer conn then None
        else (case (get_u32 payload :: (unit, u32) outcome) of
            Ok num \<Rightarrow> Some (conn\<lparr>canSendChan := canSendChan conn @ [num]\<rparr>, None)
          | _ \<Rightarrow> None))
     else Some (conn, None))"

definition wfgan_readPackets :: "crypto \<Rightarrow> (int \<Rightarrow> int) \<Rightarrow> real \<Rightarrow> 'a wfganConn_scheme \<Rightarrow> bytes \<Rightarrow> nat option \<Rightarrow>
    (unit, packet_error option) outcome \<times> 'a wfganConn_scheme" where
  "wfgan_readPackets c intn beta = read_packets c intn (wfgan_handle beta)"

section \<open>Bursts\<close>

text \<open>\<open>sampleIPT\<close>; \<open>draw\<close> is the result of the floating-point expression of \<open>utils.SampleIPT\<close> (at
  least 0), which panics on a list of one element (\<open>Intn(0)\<close>).\<close>

definition sampleIPT :: "real list \<Rightarrow> real \<Rightarrow> (unit, int) outcome" where
  "sampleIPT ipts draw =
    (if length ipts = 1 then Panic
     else let ipt = (if ipts = [] then 0 else if draw < 0 then 0 else draw);
              ipt' = (if ipt > tmpRho then tmpRho else ipt)
          in Ok (\<lfloor>ipt'\<rfloor> * 1000000))"

definition lowerBound :: "burst_floats \<Rightarrow> u32 \<Rightarrow> int" where
  "lowerBound fl ref = IntMax (low_ref fl ref) 536"

definition upperBound :: "burst_floats \<Rightarrow> u32 \<Rightarrow> int" where
  "upperBound fl ref = up_ref fl ref"

definition ref_size :: "burst_floats \<Rightarrow> u32 \<Rightarrow> nat \<Rightarrow> int" where
  "ref_size fl ref bufSize =
    (if int bufSize < lowerBound fl ref then lowerBound fl ref
     else if int bufSize < upperBound fl ref then int bufSize
     else upperBound fl ref)"

definition count_sent :: "'a wfganConn_scheme \<Rightarrow> 'a wfganConn_scheme" where
  "count_sent conn = (if IsServer conn then conn else NRealSegSentIncrement conn)"

text \<open>One round of the loop of \<open>sendRefBurst\<close> and of \<open>sendRealBurst\<close>.\<close>

definition ref_cell :: "int \<Rightarrow> 'a wfganConn_scheme \<Rightarrow> 'a wfganConn_scheme" where
  "ref_cell toSend conn =
    (if toSend \<ge> int MaxPacketPayloadLength then
       (let d = take MaxPacketPayloadLength (recvBuf conn);
            conn1 = conn\<lparr>recvBuf := drop MaxPacketPayloadLength (recvBuf conn),
              written := i64 (written conn + int (length d)), wf_burst := RefBurst (toSend - int MaxPacketPayloadLength)\<rparr>
        in if d \<noteq> [] then send_pkt (data_cell PacketTypePayload d) (count_sent conn1)
           else send_pkt (data_cell PacketTypeDummy d) conn1)
     else conn\<lparr>wf_burst := Idle\<rparr>)"

definition burst_cell :: "'a wfganConn_scheme \<Rightarrow> 'a wfganConn_scheme" where
  "burst_cell conn =
    (if recvBuf conn \<noteq> [] then
       (let d = take MaxPacketPayloadLength (recvBuf conn)
        in count_sent (send_pkt (data_cell PacketTypePayload d)
             (conn\<lparr>recvBuf := drop MaxPacketPayloadLength (recvBuf conn), written := i64 (written conn + int (length d))\<rparr>)))
     else conn\<lparr>wf_burst := Idle\<rparr>)"

definition begin_ref :: "burst_floats \<Rightarrow> u32 \<Rightarrow> 'a wfganConn_scheme \<Rightarrow> 'a wfganConn_scheme" where
  "begin_ref fl ref conn = conn\<lparr>wf_burst := RefBurst (ref_size fl ref (length (recvBuf conn)))\<rparr>"

section \<open>The server's main loop\<close>

text \<open>A signal is taken off \<open>canSendChan\<close> (\<open>skip\<close> is the Bernoulli sample for \<open>randomP\<close>). The
  routine that watches the state sends 0 in Stop; the channel holds at most 100 signals.\<close>

definition detect_off :: "'a wfganConn_scheme \<Rightarrow> 'a wfganConn_scheme option" where
  "detect_off conn =
    (if LoadCurState conn = StateStop then
       (if length (canSendChan conn) < 100 then Some (conn\<lparr>canSendChan := canSendChan conn @ [0]\<rparr>) else None)
     else Some conn)"

definition server_take :: "burst_floats \<Rightarrow> (real \<Rightarrow> bool) \<Rightarrow> 'a wfganConn_scheme \<Rightarrow> 'a wfganConn_scheme option" where
  "server_take fl skip conn =
    (case canSendChan conn of
       [] \<Rightarrow> None
     | signalByteNum # chan \<Rightarrow>
        (let conn1 = conn\<lparr>canSendChan := chan\<rparr>
         in if wf_burst conn \<noteq> Idle then None
            else if signalByteNum = 0 then Some (conn1\<lparr>wf_burst := RealBurst\<rparr>)
            else if recvBuf conn = [] \<and> skip (randomP conn) then Some conn1
            else Some (begin_ref fl signalByteNum conn1)))"

section \<open>The client's main loop and the generator\<close>

text \<open>The pairs of a generator answer are enqueued while the fixed queue has room; an odd
  element at the end is ignored.\<close>

fun refill :: "int list \<Rightarrow> (int \<times> int) list \<Rightarrow> (int \<times> int) list" where
  "refill (a # b # packets) q = (if length q \<ge> maxQueueSize then q else refill packets (q @ [(a, b)]))"
| "refill _ q = q"

definition client_take :: "burst_floats \<Rightarrow> 'a wfganConn_scheme \<Rightarrow> 'a wfganConn_scheme option" where
  "client_take fl conn =
    (if wf_burst conn \<noteq> Idle \<or> wf_response conn \<noteq> None then None
     else if LoadCurState conn = StateStart then
       (case burstQueue conn of
          [] \<Rightarrow> Some conn
        | (requestSize, responseSize) # q \<Rightarrow>
            Some (begin_ref fl (word_of_int requestSize) (conn\<lparr>burstQueue := q, wf_response := Some responseSize\<rparr>)))
     else Some (conn\<lparr>wf_burst := RealBurst\<rparr>))"

definition client_finish :: "'a wfganConn_scheme \<Rightarrow> 'a wfganConn_scheme option" where
  "client_finish conn =
    (case wf_response conn of
       None \<Rightarrow> None
     | Some responseSize \<Rightarrow>
        if wf_burst conn \<noteq> Idle then None
        else Some (send_pkt \<lparr>PktType = PacketTypeFinish, Data = put_u32 (word_of_int responseSize),
            PadLen = word_of_int (int MaxPacketPaddingLength - 4)\<rparr> (conn\<lparr>wf_response := None\<rparr>)))"

section \<open>Runs\<close>

datatype wfgan_event = WUpstream bytes | WTick | WRecv real byte bytes bytes | WCell
  | WDetect | WServer "real \<Rightarrow> bool" | WClient | WFinish | WRefill "int list"

definition wfgan_step :: "burst_floats \<Rightarrow> wfgan_event \<Rightarrow> 'a wfganConn_scheme \<Rightarrow> 'a wfganConn_scheme option" where
  "wfgan_step fl ev conn =
    (case ev of
       WUpstream data \<Rightarrow> if data = [] \<or> length data > 65535 then None
         else Some (client_start (length data) (conn\<lparr>recvBuf := recvBuf conn @ data\<rparr>))
     | WTick \<Rightarrow> if IsServer conn then None else Some (ticker conn)
     | WRecv beta t p r \<Rightarrow> (case wfgan_handle beta conn t p r of None \<Rightarrow> None | Some (conn', _) \<Rightarrow> Some conn')
     | WCell \<Rightarrow> (case wf_burst conn of Idle \<Rightarrow> None | RefBurst n \<Rightarrow> Some (ref_cell n conn) | RealBurst \<Rightarrow> Some (burst_cell conn))
     | WDetect \<Rightarrow> if IsServer conn then detect_off conn else None
     | WServer skip \<Rightarrow> if IsServer conn then server_take fl skip conn else None
     | WClient \<Rightarrow> if IsServer conn then None else client_take fl conn
     | WFinish \<Rightarrow> if IsServer conn then None else client_finish conn
     | WRefill packets \<Rightarrow> if IsServer conn then None else Some (conn\<lparr>burstQueue := refill packets (burstQueue conn)\<rparr>))"

fun wfgan_input :: "wfgan_event \<Rightarrow> bytes" where
  "wfgan_input (WUpstream data) = data"
| "wfgan_input _ = []"

definition wfgan_accepts :: "bool \<Rightarrow> byte \<Rightarrow> bytes \<Rightarrow> bytes \<Rightarrow> bool" where
  "wfgan_accepts server t p r \<longleftrightarrow> defconn_accepts server t p r \<and>
     (t = PacketTypeFinish \<longrightarrow> server \<and> length p \<ge> 4)"

section \<open>The contract\<close>

lemma wfgan_updates [simp]:
  "wf_burst (send_pkt p conn) = wf_burst conn" "wf_burst (set_phase ph conn) = wf_burst conn"
  "wf_burst (NRealSegReset conn) = wf_burst conn" "wf_burst (NRealSegSentIncrement conn) = wf_burst conn"
  "wf_burst (NRealSegRcvIncrement conn) = wf_burst conn"
  by (simp_all add: set_phase_def send_pkt_def NRealSegReset_def NRealSegSentIncrement_def NRealSegRcvIncrement_def)

lemma count_sent_simps [simp]:
  "queued (count_sent conn) = queued conn" "recvBuf (count_sent conn) = recvBuf conn"
  "IsServer (count_sent conn) = IsServer conn" "wf_burst (count_sent conn) = wf_burst conn"
  "written (count_sent conn) = written conn"
  by (simp_all add: count_sent_def)

interpretation wfgan: packet_handler "wfgan_handle beta :: 'a wfganConn_scheme handler" wfgan_accepts for beta
proof
  fix s :: "'a wfganConn_scheme" and t p r
  show "\<exists>s'. wfgan_handle beta s t p r = Some (s', None) \<and> IsServer s' = IsServer s \<and>
      ReceiveDecodedBuffer s' = ReceiveDecodedBuffer s @ (if t = PacketTypePayload then p else [])"
    if "wfgan_accepts (IsServer s) t p r"
    using that by (auto simp: wfgan_handle_def wfgan_accepts_def defconn_accepts_def SeedFromBytes_def get_u32_def Let_def)
  show "keeps_link (wfgan_handle beta :: 'a wfganConn_scheme handler)"
    by (auto simp: keeps_link_def wfgan_handle_def SeedFromBytes_def NRealSegRcvIncrement_def set_phase_def Let_def
        split: if_splits outcome.splits)
qed

lemma wfgan_accepts_cells [simp]:
  "wfgan_accepts server PacketTypePayload p r" "wfgan_accepts server PacketTypeDummy p r"
  "wfgan_accepts True PacketTypeSignalStart p r" "wfgan_accepts True PacketTypeSignalStop p r"
  "wfgan_accepts True PacketTypeFinish (put_u32 w) r"
  by (simp_all add: wfgan_accepts_def defconn_accepts_def)

lemma ref_cell_keeps: "relay_keeps wfgan_accepts conn [] (ref_cell n conn)"
proof (cases "n \<ge> 536")
  case True
  let ?d = "take 536 (recvBuf conn)"
  let ?p = "data_cell (if ?d \<noteq> [] then PacketTypePayload else PacketTypeDummy) ?d"
  have "queued (ref_cell n conn) = queued conn @ [?p]" "recvBuf (ref_cell n conn) = drop 536 (recvBuf conn)"
    "IsServer (ref_cell n conn) = IsServer conn"
    using True by (auto simp: ref_cell_def Let_def)
  moreover have "cell_ok ?p" by (rule data_cell_ok) simp
  ultimately show ?thesis
    by (intro relay_keepsI [where ps = "[?p]"]) (auto simp: wfgan_accepts_def defconn_accepts_def)
qed (auto intro: relay_keeps_quiet simp: ref_cell_def)

lemma burst_cell_keeps: "relay_keeps wfgan_accepts conn [] (burst_cell conn)"
proof (cases "recvBuf conn = []")
  case False
  let ?p = "data_cell PacketTypePayload (take 536 (recvBuf conn))"
  have "cell_ok ?p" by (rule data_cell_ok) simp
  then show ?thesis
    using False by (intro relay_keepsI [where ps = "[?p]"])
      (auto simp: burst_cell_def wfgan_accepts_def defconn_accepts_def Let_def)
qed (auto intro: relay_keeps_quiet simp: burst_cell_def)

lemma finish_cell_ok [simp]:
  "cell_ok \<lparr>PktType = PacketTypeFinish, Data = put_u32 w, PadLen = word_of_int (int MaxPacketPaddingLength - 4)\<rparr>"
  by (simp add: cell_ok_def)

lemma wfgan_step_keeps:
  assumes "wfgan_step fl ev conn = Some conn'"
  shows "relay_keeps wfgan_accepts conn (wfgan_input ev) conn'"
proof (cases ev)
  case (WUpstream data)
  then show ?thesis
    using assms client_start_step [of "length data" "conn\<lparr>recvBuf := recvBuf conn @ data\<rparr>"]
    by (auto simp: wfgan_step_def relay_keeps_def wfgan_accepts_def defconn_accepts_def split: if_splits)
next
  case WTick
  then show ?thesis
    using assms ticker_step [of conn]
    by (auto simp: wfgan_step_def relay_keeps_def wfgan_accepts_def defconn_accepts_def split: if_splits)
next
  case (WRecv beta t p r)
  with assms show ?thesis
    by (auto simp: wfgan_step_def wfgan_handle_def Let_def intro!: relay_keeps_quiet split: option.splits if_splits outcome.splits)
next
  case WCell
  with assms show ?thesis
    by (auto simp: wfgan_step_def intro: ref_cell_keeps burst_cell_keeps split: burst.splits)
next
  case WDetect
  with assms show ?thesis
    by (auto simp: wfgan_step_def detect_off_def intro!: relay_keeps_quiet split: if_splits)
next
  case (WServer skip)
  with assms show ?thesis
    by (auto simp: wfgan_step_def server_take_def begin_ref_def Let_def intro!: relay_keeps_quiet split: if_splits list.splits)
next
  case WClient
  with assms show ?thesis
    by (auto simp: wfgan_step_def client_take_def begin_ref_def intro!: relay_keeps_quiet split: if_splits list.splits prod.splits)
next
  case WFinish
  with assms obtain n where "\<not> IsServer conn" "conn' = send_pkt \<lparr>PktType = PacketTypeFinish, Data = put_u32 (word_of_int n),
      PadLen = word_of_int (int MaxPacketPaddingLength - 4)\<rparr> (conn\<lparr>wf_response := None\<rparr>)"
    by (auto simp: wfgan_step_def client_finish_def split: if_splits option.splits)
  with WFinish show ?thesis
    by (intro relay_keepsI [where ps = "[\<lparr>PktType = PacketTypeFinish, Data = put_u32 (word_of_int n),
          PadLen = word_of_int (int MaxPacketPaddingLength - 4)\<rparr>]"])
      (simp_all add: wfgan_accepts_def defconn_accepts_def cell_ok_def)
next
  case (WRefill packets)
  with assms show ?thesis by (auto simp: wfgan_step_def intro!: relay_keeps_quiet split: if_splits)
qed

interpretation wfgan: relay_tunnel "wfgan_step fl :: wfgan_event \<Rightarrow> 'a wfganConn_scheme \<Rightarrow> 'a wfganConn_scheme option"
  wfgan_input wfgan_accepts "wfgan_handle beta :: 'p wfganConn_scheme handler" for fl beta
proof (unfold_locales, goal_cases)
  case (1 ev s s')
  from relay_keeps_step [OF wfgan_step_keeps [OF this(1)]] show ?case by simp
next
  case (2 ev s s')
  then show ?case using wfgan_step_keeps by (auto simp: relay_keeps_def)
qed simp_all

section \<open>Burst sizes\<close>

definition burst_cells :: "PacketInfo list \<Rightarrow> nat" where
  "burst_cells ps = length (filter (\<lambda>p. PktType p = PacketTypePayload \<or> PktType p = PacketTypeDummy) ps)"

lemma burst_cells_simps [simp]:
  "burst_cells [] = 0" "burst_cells (ps @ qs) = burst_cells ps + burst_cells qs"
  "burst_cells [p] = (if PktType p = PacketTypePayload \<or> PktType p = PacketTypeDummy then 1 else 0)"
  by (simp_all add: burst_cells_def)

text \<open>The cells that the burst in progress still has to send.\<close>

fun burst_left :: "burst \<Rightarrow> nat" where
  "burst_left (RefBurst n) = nat n div 536"
| "burst_left _ = 0"

fun takes :: "wfgan_event \<Rightarrow> bool" where
  "takes (WServer skip) = True"
| "takes WClient = True"
| "takes _ = False"

lemma ref_cell_count:
  "burst_cells (queued (ref_cell n conn)) + burst_left (wf_burst (ref_cell n conn)) =
     burst_cells (queued conn) + nat n div 536 \<and> wf_burst (ref_cell n conn) \<noteq> RealBurst"
proof (cases "n \<ge> 536")
  case True
  then have "nat n = nat (n - 536) + 536" by simp
  then have "nat n div 536 = Suc (nat (n - 536) div 536)" by (simp add: div_add_self2)
  with True show ?thesis by (auto simp: ref_cell_def Let_def)
next
  case False
  then show ?thesis by (auto simp: ref_cell_def)
qed

lemma burst_step_count:
  assumes "wfgan_step fl ev conn = Some conn'" "\<not> takes ev" "wf_burst conn \<noteq> RealBurst"
  shows "burst_cells (queued conn') + burst_left (wf_burst conn') = burst_cells (queued conn) + burst_left (wf_burst conn) \<and>
    wf_burst conn' \<noteq> RealBurst"
proof (cases ev)
  case WCell
  with assms ref_cell_count [of _ conn] show ?thesis
    by (cases "wf_burst conn") (auto simp: wfgan_step_def)
next
  case (WUpstream data)
  with assms show ?thesis by (auto simp: wfgan_step_def client_start_def split: if_splits)
next
  case (WRecv beta t p r)
  with assms show ?thesis
    by (auto simp: wfgan_step_def wfgan_handle_def Let_def split: option.splits if_splits outcome.splits)
next
  case WFinish
  with assms show ?thesis
    by (auto simp: wfgan_step_def client_finish_def split: option.splits if_splits)
qed (use assms in \<open>auto simp: wfgan_step_def detect_off_def ticker_def split: if_splits\<close>)

lemma burst_run_count:
  assumes "wfgan.run fl evs conn = Some conn'" "\<forall>ev \<in> set evs. \<not> takes ev" "wf_burst conn \<noteq> RealBurst"
  shows "burst_cells (queued conn') + burst_left (wf_burst conn') = burst_cells (queued conn) + burst_left (wf_burst conn)"
  using assms
proof (induction evs arbitrary: conn)
  case (Cons ev evs)
  then obtain conn1 where s1: "wfgan_step fl ev conn = Some conn1" "wfgan.run fl evs conn1 = Some conn'"
    by (auto split: option.splits)
  with burst_step_count [OF s1(1)] Cons show ?case by auto
qed simp

lemma burst_ends:
  assumes "nat n div 536 = k" "wf_burst conn = RefBurst n"
  shows "\<exists>conn'. wfgan.run fl (replicate (Suc k) WCell) conn = Some conn' \<and> wf_burst conn' = Idle"
  using assms
proof (induction k arbitrary: n conn)
  case 0
  then have "n < 536" by (simp add: div_eq_0_iff)
  then have "wfgan_step fl WCell conn = Some (conn\<lparr>wf_burst := Idle\<rparr>)"
    using 0 by (simp add: wfgan_step_def ref_cell_def)
  then show ?case by simp
next
  case (Suc k)
  then have big: "n \<ge> 536" by (cases "n \<ge> 536") auto
  then have "nat n = nat (n - 536) + 536" by simp
  then have "nat n div 536 = Suc (nat (n - 536) div 536)" by (simp add: div_add_self2)
  with Suc.prems(1) have "nat (n - 536) div 536 = k" by simp
  moreover have "wf_burst (ref_cell n conn) = RefBurst (n - 536)" using big by (simp add: ref_cell_def Let_def)
  ultimately obtain conn' where "wfgan.run fl (replicate (Suc k) WCell) (ref_cell n conn) = Some conn'" "wf_burst conn' = Idle"
    using Suc.IH by blast
  moreover have "wfgan_step fl WCell conn = Some (ref_cell n conn)"
    using Suc.prems(2) by (simp add: wfgan_step_def)
  ultimately show ?case by simp
qed

lemma sampleIPT_bound:
  "sampleIPT ipts draw = Ok gap \<Longrightarrow> 0 \<le> gap \<and> gap \<le> 100 * 1000000"
proof -
  assume "sampleIPT ipts draw = Ok gap"
  then have "\<exists>x :: real. gap = \<lfloor>x\<rfloor> * 1000000 \<and> 0 \<le> x \<and> x \<le> 100"
    by (intro exI [of _ "if ipts = [] \<or> draw < 0 then 0 else if draw > 100 then 100 else draw"])
      (auto simp: sampleIPT_def Let_def split: if_splits)
  then obtain x :: real where "gap = \<lfloor>x\<rfloor> * 1000000" "0 \<le> x" "x \<le> 100" by blast
  moreover from this have "0 \<le> \<lfloor>x\<rfloor>" "\<lfloor>x\<rfloor> \<le> 100" by linarith+
  ultimately show ?thesis by simp
qed

section \<open>Properties\<close>

text \<open>C9: WFGAN relays the stream. Whatever the interleaving of upstream reads, bursts, signals, refills and
  received packets, the packets queued so far can be sent, occupy 557 bytes each, and the peer's
  reader gets exactly what came from upstream but for the tail still in the buffer.\<close>

theorem wfgan_relays_stream:
  assumes "wfgan.run fl evs conn = Some conn'" "queued conn = []" "recvBuf conn = []" "link_ok c e dec"
    "intn_ok intn" "counter (e_nonce e) \<noteq> 0" "unat (counter (e_nonce e)) + length (queued conn') \<le> 2 ^ 64"
    "IsServer peer = (\<not> IsServer conn)" "Decoder peer = Some dec" "ReceiveBuffer peer = []"
    "ReceiveDecodedBuffer peer = []"
  shows "\<exists>wire e'. Send_all c e (queued conn') = (Ok wire, e') \<and> length wire = 557 * length (queued conn') \<and>
    (\<forall>chunks. concat chunks = wire \<and> [] \<notin> set chunks \<longrightarrow>
      (\<exists>peer' dec'. read_all (wfgan_readPackets c intn beta) peer chunks = (Ok None, peer') \<and>
        Decoder peer' = Some dec' \<and> link_ok c e' dec' \<and>
        ReceiveDecodedBuffer peer' @ recvBuf conn' = concat (map wfgan_input evs)))"
  unfolding wfgan_readPackets_def by (rule wfgan.relay_delivery [OF assms])

definition fresh_wfgan :: "bool \<Rightarrow> decoder option \<Rightarrow> wfganConn" where
  "fresh_wfgan server dec = \<lparr>IsServer = server, LenDist = [], nRealSegSent = 0, nRealSegRcv = 0,
     ConnState = NewState, ReceiveBuffer = [], ReceiveDecodedBuffer = [], Encoder = None, Decoder = dec,
     recvBuf = [], queued = [], written = 0, randomP = 0, canSendChan = [], iptList = [], burstQueue = [],
     wf_burst = Idle, wf_response = None\<rparr>"

definition demo_bounds :: burst_floats where
  "demo_bounds = \<lparr>low_ref = (\<lambda>r. int (unat r) * 4 div 5), up_ref = (\<lambda>r. int (unat r) * 6 div 5)\<rparr>"

text \<open>A client that gets 540 bytes, goes to Start and sends them in a burst of three cells for a reference of
  2000 bytes, with the Finish packet asking for 700.\<close>

definition demo_wfgan_run :: "wfgan_event list" where
  "demo_wfgan_run = [WRefill [2000, 700], WUpstream (replicate 540 7), WClient, WCell, WCell, WCell, WFinish]"

lemmas wfgan_eval = wfgan_step_def client_start_def client_wakes_def client_take_def begin_ref_def ref_size_def
  lowerBound_def upperBound_def IntMax_def ref_cell_def count_sent_def client_finish_def set_phase_def send_pkt_def
  NRealSegSentIncrement_def

lemma demo_wfgan_result:
  "\<exists>conn'. wfgan.run demo_bounds demo_wfgan_run (fresh_wfgan False None) = Some conn' \<and>
     map PktType (queued conn') = [3, 0, 0, 5] \<and> recvBuf conn' = []"
  by (simp add: demo_wfgan_run_def fresh_wfgan_def demo_bounds_def wfgan_eval Let_def)

theorem wfgan_relays_stream_witness:
  "\<exists>e d conn' wire e' peer'. NewEncoder (replicate 72 3) = Ok e \<and> NewDecoder (replicate 72 3) = Ok d \<and>
     wfgan.run demo_bounds demo_wfgan_run (fresh_wfgan False None) = Some conn' \<and>
     Send_all demo_crypto e (queued conn') = (Ok wire, e') \<and>
     read_all (wfgan_readPackets demo_crypto (\<lambda>_. 0) 0) (fresh_wfgan True (Some d)) (map (\<lambda>b. [b]) wire) = (Ok None, peer') \<and>
     ReceiveDecodedBuffer peer' = replicate 540 7"
proof -
  obtain e d where ed: "NewEncoder (replicate 72 3) = Ok e" "NewDecoder (replicate 72 3) = Ok d"
    "linked e d" "counter (e_nonce e) = 1" using NewEncoder_NewDecoder [of "replicate 72 3"] by auto
  then have l: "link_ok demo_crypto e d" using demo_crypto_link_ok by (simp add: link_ok_def)
  obtain conn' where R: "wfgan.run demo_bounds demo_wfgan_run (fresh_wfgan False None) = Some conn'"
    "map PktType (queued conn') = [3, 0, 0, 5]" "recvBuf conn' = []"
    using demo_wfgan_result by (elim exE conjE)
  have n: "length (queued conn') = 4" using arg_cong [OF R(2), of length] by simp
  have inp: "concat (map wfgan_input demo_wfgan_run) = replicate 540 7" by (simp add: demo_wfgan_run_def)
  obtain wire e' where W: "Send_all demo_crypto e (queued conn') = (Ok wire, e')"
    "\<forall>chunks. concat chunks = wire \<and> [] \<notin> set chunks \<longrightarrow>
      (\<exists>peer' dec'. read_all (wfgan_readPackets demo_crypto (\<lambda>_. 0) 0) (fresh_wfgan True (Some d)) chunks = (Ok None, peer') \<and>
        Decoder peer' = Some dec' \<and> link_ok demo_crypto e' dec' \<and>
        ReceiveDecodedBuffer peer' @ recvBuf conn' = concat (map wfgan_input demo_wfgan_run))"
    using wfgan_relays_stream [OF R(1) _ _ l demo_intn, of "fresh_wfgan True (Some d)" 0] ed(4) n
    by (auto simp: fresh_wfgan_def)
  from W(2) [rule_format, OF concat_singletons] obtain peer' where
    "read_all (wfgan_readPackets demo_crypto (\<lambda>_. 0) 0) (fresh_wfgan True (Some d)) (map (\<lambda>b. [b]) wire) = (Ok None, peer')"
    "ReceiveDecodedBuffer peer' = replicate 540 7" using inp R(3) by auto
  with ed R(1) W(1) show ?thesis by blast
qed

text \<open>C38: The size of a WFGAN burst. A burst begun for a reference size ends, and by its end it has sent
  exactly \<open>toSend div 536\<close> cells, however upstream data, signals and ticks are interleaved with
  it. For a tolerance that leaves room (lower bound at most upper bound), \<open>toSend\<close> is within the
  bounds and at least one cell is sent; it is the size of the buffer when that is within them. But
  a reference whose upper bound is below one cell sends nothing although a full cell is waiting.\<close>

theorem wfgan_burst_size:
  assumes "wfgan.run fl evs (begin_ref fl ref conn) = Some conn'" "\<forall>ev \<in> set evs. \<not> takes ev" "wf_burst conn' = Idle"
  shows "\<exists>toSend conn''. toSend = ref_size fl ref (length (recvBuf conn)) \<and>
    burst_cells (queued conn') = burst_cells (queued conn) + nat toSend div 536 \<and>
    wfgan.run fl (replicate (Suc (nat toSend div 536)) WCell) (begin_ref fl ref conn) = Some conn'' \<and>
    wf_burst conn'' = Idle \<and>
    (lowerBound fl ref \<le> upperBound fl ref \<longrightarrow> lowerBound fl ref \<le> toSend \<and> toSend \<le> upperBound fl ref \<and>
       1 \<le> nat toSend div 536) \<and>
    (lowerBound fl ref \<le> int (length (recvBuf conn)) \<and> int (length (recvBuf conn)) \<le> upperBound fl ref \<longrightarrow>
       toSend = int (length (recvBuf conn))) \<and>
    (upperBound fl ref < 536 \<and> lowerBound fl ref \<le> int (length (recvBuf conn)) \<longrightarrow> nat toSend div 536 = 0)"
proof -
  let ?n = "ref_size fl ref (length (recvBuf conn))"
  have b: "wf_burst (begin_ref fl ref conn) = RefBurst ?n" "queued (begin_ref fl ref conn) = queued conn"
    by (simp_all add: begin_ref_def)
  have "burst_cells (queued conn') = burst_cells (queued conn) + nat ?n div 536"
    using burst_run_count [OF assms(1,2)] b assms(3) by simp
  moreover obtain conn'' where "wfgan.run fl (replicate (Suc (nat ?n div 536)) WCell) (begin_ref fl ref conn) = Some conn''"
    "wf_burst conn'' = Idle" using burst_ends [OF refl b(1)] by blast
  moreover have "536 \<le> lowerBound fl ref" by (simp add: lowerBound_def IntMax_def)
  then have "lowerBound fl ref \<le> upperBound fl ref \<longrightarrow> 1 \<le> nat ?n div 536 \<and> lowerBound fl ref \<le> ?n \<and> ?n \<le> upperBound fl ref"
    by (auto simp: ref_size_def Suc_le_eq div_greater_zero_iff)
  moreover have "upperBound fl ref < 536 \<and> lowerBound fl ref \<le> int (length (recvBuf conn)) \<longrightarrow> nat ?n div 536 = 0"
    using \<open>536 \<le> lowerBound fl ref\<close> by (auto simp: ref_size_def)
  moreover have "lowerBound fl ref \<le> int (length (recvBuf conn)) \<and> int (length (recvBuf conn)) \<le> upperBound fl ref \<longrightarrow>
      ?n = int (length (recvBuf conn))"
    by (auto simp: ref_size_def)
  ultimately show ?thesis by blast
qed

theorem wfgan_burst_size_witness:
  "\<exists>conn'. wfgan.run demo_bounds [WCell, WUpstream [1], WCell, WCell] (begin_ref demo_bounds 1500 (fresh_wfgan True None)) =
     Some conn' \<and> wf_burst conn' = Idle \<and> burst_cells (queued conn') = 2"
proof -
  have "\<exists>conn'. wfgan.run demo_bounds [WCell, WUpstream [1], WCell, WCell]
      (begin_ref demo_bounds 1500 (fresh_wfgan True None)) = Some conn' \<and> wf_burst conn' = Idle"
    by (simp add: fresh_wfgan_def demo_bounds_def wfgan_eval Let_def)
  then obtain conn' where R: "wfgan.run demo_bounds [WCell, WUpstream [1], WCell, WCell]
      (begin_ref demo_bounds 1500 (fresh_wfgan True None)) = Some conn'" "wf_burst conn' = Idle" by blast
  have "ref_size demo_bounds 1500 0 = 1200"
    by (simp add: ref_size_def lowerBound_def upperBound_def IntMax_def demo_bounds_def)
  with wfgan_burst_size [OF R(1) _ R(2)] R show ?thesis by (auto simp: fresh_wfgan_def)
qed

text \<open>Request and response of WFGAN. When the client's burst is over, its Finish packet makes the server
  take up exactly the response size of the pair (as an unsigned 32-bit number): the server then begins
  a burst for it, or skips it when it has no data and the sample says so. A response size of 0 is
  indistinguishable from the signal that the defence is off: the server flushes its buffer.\<close>

lemma wfgan_request_response:
  assumes "client_finish client = Some client'" "wf_response client = Some responseSize" "IsServer server"
    "canSendChan server = []" "wf_burst server = Idle"
  shows "wf_burst client = Idle \<and> wf_response client' = None \<and>
    (\<exists>p. queued client' = queued client @ [p] \<and> cell_ok p \<and>
      (\<exists>server'. wfgan_handle beta server (PktType p) (Data p) (replicate (unat (PadLen p)) 0) = Some (server', None) \<and>
        canSendChan server' = [word_of_int responseSize] \<and>
        server_take fl skip server' =
          (if (word_of_int responseSize :: u32) = 0 then Some (server\<lparr>wf_burst := RealBurst\<rparr>)
           else if recvBuf server = [] \<and> skip (randomP server) then Some server
           else Some (begin_ref fl (word_of_int responseSize) server))))"
proof -
  let ?p = "\<lparr>PktType = PacketTypeFinish, Data = put_u32 (word_of_int responseSize),
      PadLen = word_of_int (int MaxPacketPaddingLength - 4)\<rparr>"
  let ?s = "server\<lparr>canSendChan := [word_of_int responseSize]\<rparr>"
  have same: "server\<lparr>canSendChan := []\<rparr> = server" using assms(4) by simp
  have "wfgan_handle beta server (PktType ?p) (Data ?p) (replicate (unat (PadLen ?p)) 0) = Some (?s, None)"
    using assms(3,4) by (simp add: wfgan_handle_def)
  moreover have "server_take fl skip ?s = (if (word_of_int responseSize :: u32) = 0 then Some (server\<lparr>wf_burst := RealBurst\<rparr>)
      else if recvBuf server = [] \<and> skip (randomP server) then Some server
      else Some (begin_ref fl (word_of_int responseSize) server))"
    using assms(5) same by (simp add: server_take_def begin_ref_def Let_def)
  moreover have "queued client' = queued client @ [?p]" "wf_burst client = Idle" "wf_response client' = None"
    using assms(1,2) by (auto simp: client_finish_def send_pkt_def split: if_splits)
  ultimately show ?thesis using finish_cell_ok by (intro conjI exI [of _ ?p] exI [of _ ?s]) simp_all
qed

lemma wfgan_request_response_example:
  "\<exists>server'. wfgan_handle 0 (fresh_wfgan True None) PacketTypeFinish (put_u32 700) (replicate 532 0) = Some (server', None) \<and>
     server_take demo_bounds (\<lambda>_. False) server' = Some (begin_ref demo_bounds 700 (fresh_wfgan True None))"
proof -
  let ?c = "(fresh_wfgan False None)\<lparr>wf_response := Some 700\<rparr>"
  obtain c' where C: "client_finish ?c = Some c'" "\<And>p. queued c' = queued ?c @ [p] \<Longrightarrow>
      PktType p = PacketTypeFinish \<and> Data p = put_u32 700 \<and> unat (PadLen p) = 532"
    by (auto simp: client_finish_def fresh_wfgan_def send_pkt_def)
  from wfgan_request_response [OF C(1), of 700 "fresh_wfgan True None" 0 demo_bounds "\<lambda>_. False"] C(2)
  show ?thesis by (auto simp: fresh_wfgan_def)
qed

end
