(* ===== verification/Factories.thy ===== *)
theory Factories
  imports StateFile Front Tamaraw Regulator Wfgan
begin

text \<open>
  The factories of the four defences: \<open>ServerFactory\<close> and \<open>ParseArgs\<close> of \<open>transports/front/front.go\<close>,
  \<open>tamaraw.go\<close>, \<open>regulator.go\<close> and \<open>wfgan.go\<close> with their \<open>statefile.go\<close>, and the argument helpers of
  \<open>common/utils/utils.go\<close>. Parsing and printing of floating-point numbers is a parameter.
\<close>

section \<open>Numbers as arguments\<close>

text \<open>\<open>strconv.ParseInt(s, 10, bits)\<close>; \<open>strconv.Atoi\<close> is the same with 64 bits.\<close>

definition ParseInt :: "nat \<Rightarrow> string \<Rightarrow> int option" where
  "ParseInt bits s =
    (let neg = (s \<noteq> [] \<and> hd s = CHR ''-'');
         digits = (if s \<noteq> [] \<and> (hd s = CHR ''-'' \<or> hd s = CHR ''+'') then tl s else s);
         vals = map (\<lambda>c. int (of_char c) - 48) digits;
         n = foldl (\<lambda>a d. 10 * a + d) 0 vals
     in if digits = [] \<or> \<not> list_all (\<lambda>d. 0 \<le> d \<and> d \<le> 9) vals then None
        else if neg then (if n \<le> 2 ^ (bits - 1) then Some (- n) else None)
        else (if n < 2 ^ (bits - 1) then Some n else None))"

definition Atoi :: "string \<Rightarrow> int option" where
  "Atoi = ParseInt 64"

record float_ops =
  parse32 :: "string \<Rightarrow> go_float option" \<comment> \<open>\<open>float32\<close> of \<open>strconv.ParseFloat(s, 32)\<close>\<close>
  parse64 :: "string \<Rightarrow> go_float option" \<comment> \<open>\<open>strconv.ParseFloat(s, 64)\<close>\<close>
  round32 :: "go_float \<Rightarrow> go_float" \<comment> \<open>conversion to \<open>float32\<close>\<close>
  fmt1 :: "go_float \<Rightarrow> string" \<comment> \<open>\<open>%.1f\<close>\<close>
  fmt2 :: "go_float \<Rightarrow> string" \<comment> \<open>\<open>%.2f\<close>\<close>

fun float_leq0 :: "go_float \<Rightarrow> bool" where
  "float_leq0 (Finite r) \<longleftrightarrow> r \<le> 0"
| "float_leq0 NegInf \<longleftrightarrow> True"
| "float_leq0 _ \<longleftrightarrow> False"

fun float_less0 :: "go_float \<Rightarrow> bool" where
  "float_less0 (Finite r) \<longleftrightarrow> r < 0"
| "float_less0 NegInf \<longleftrightarrow> True"
| "float_less0 _ \<longleftrightarrow> False"

definition required :: "(string \<Rightarrow> 'v option) \<Rightarrow> string \<Rightarrow> pt_args \<Rightarrow> (args_error, 'v) outcome" where
  "required parse name args =
    (case args name of None \<Rightarrow> Err (MissingArgument name)
     | Some s \<Rightarrow> (case parse s of None \<Rightarrow> Err (Malformed name) | Some v \<Rightarrow> Ok v))"

definition GetIntArgFromStr :: "string \<Rightarrow> pt_args \<Rightarrow> (args_error, int) outcome" where
  "GetIntArgFromStr = required Atoi"

definition GetFloatArgFromStr :: "float_ops \<Rightarrow> string \<Rightarrow> pt_args \<Rightarrow> (args_error, go_float) outcome" where
  "GetFloatArgFromStr fl = required (parse64 fl)"

definition json_int :: "int \<Rightarrow> jvalue" where
  "json_int n = JNumber (Finite (of_int n))"

text \<open>The clients' \<open>ParseArgs\<close> drop the error of \<open>DefConnClientFactory.ParseArgs\<close> and find out with the type
  assertion on its result, which panics on \<open>nil\<close>. \<open>rest\<close> are the checks in between.\<close>

definition embed_args :: "crypto \<Rightarrow> (nat, bytes) outcome list \<Rightarrow> pt_args \<Rightarrow> (args_error, 'p) outcome \<Rightarrow>
    (args_error, clientArgs \<times> 'p) outcome option" where
  "embed_args c draws args rest =
    (case ParseArgs c draws args of
       None \<Rightarrow> None
     | Some Panic \<Rightarrow> Some Panic
     | Some arguments \<Rightarrow> Some (and_then rest (\<lambda>p. case arguments of Ok ca \<Rightarrow> Ok (ca, p) | _ \<Rightarrow> Panic)))"

text \<open>The servers' \<open>serverStateFromJSONServerState\<close>: the error of the identity is dropped as well, its certificate
  then prints as \<open><nil>\<close>.\<close>

definition defence_state :: "crypto \<Rightarrow> JsonServerState \<Rightarrow> bool \<Rightarrow> string \<Rightarrow> string \<Rightarrow> (string \<times> jvalue) list \<Rightarrow> 'p \<Rightarrow> filesys \<Rightarrow>
    (args_error, DefConnServerState option \<times> 'p) outcome \<times> filesys" where
  "defence_state c js valid msg line extra params fs =
    (case ServerStateFromJsonServerStateInternal c js of
       Panic \<Rightarrow> (Panic, fs)
     | r \<Rightarrow>
        (let st = (case r of Ok st \<Rightarrow> Some st | _ \<Rightarrow> None);
             cert = (case st of Some st \<Rightarrow> ClientString st | None \<Rightarrow> certArg @ ''=<nil> '')
         in if \<not> valid then (Err (InvalidParams msg), fs)
            else write_state (cert @ line) extra js (st, params) fs))"

definition defence_ServerFactory :: "crypto \<Rightarrow> nat entropy \<Rightarrow> (hash_drbg \<Rightarrow> int) \<Rightarrow> pt_args \<Rightarrow>
    (JsonServerState \<Rightarrow> filesys \<Rightarrow> (args_error, DefConnServerState option \<times> 'p) outcome \<times> filesys) \<Rightarrow> filesys \<Rightarrow>
    (args_error, (serverFactory \<times> pt_args) \<times> 'p) outcome \<times> filesys" where
  "defence_ServerFactory c rnd rng args params fs =
    (case ServerFactory c rnd rng args fs of
       (Err e, fs1) \<Rightarrow> (Err e, fs1) | (Panic, fs1) \<Rightarrow> (Panic, fs1)
     | (Ok sf, fs1) \<Rightarrow>
        (case ServerStateFromArgsInternal c rnd args fs1 of
           (Err e, fs2) \<Rightarrow> (Err e, fs2) | (Panic, fs2) \<Rightarrow> (Panic, fs2)
         | (Ok js, fs2) \<Rightarrow>
            (case params js fs2 of
               (Ok (st, p), fs3) \<Rightarrow> (Ok (sf, p), fs3) | (Err e, fs3) \<Rightarrow> (Err e, fs3) | (Panic, fs3) \<Rightarrow> (Panic, fs3))))"

section \<open>FRONT\<close>

definition wMinArg :: string where "wMinArg = ''w-min''"
definition wMaxArg :: string where "wMaxArg = ''w-max''"
definition nServerArg :: string where "nServerArg = ''n-server''"
definition nClientArg :: string where "nClientArg = ''n-client''"

record frontParams =
  fp_wMin :: go_float
  fp_wMax :: go_float
  fp_nServer :: int
  fp_nClient :: int

definition front_client_params :: "float_ops \<Rightarrow> pt_args \<Rightarrow> (args_error, frontParams) outcome" where
  "front_client_params fl args =
    and_then (GetIntArgFromStr nClientArg args) (\<lambda>nClient.
     and_then (GetIntArgFromStr nServerArg args) (\<lambda>nServer.
     and_then (GetFloatArgFromStr fl wMinArg args) (\<lambda>wMin.
     and_then (GetFloatArgFromStr fl wMaxArg args) (\<lambda>wMax.
       Ok \<lparr>fp_wMin = round32 fl wMin, fp_wMax = round32 fl wMax, fp_nServer = nServer, fp_nClient = nClient\<rparr>))))"

definition front_ParseArgs :: "float_ops \<Rightarrow> crypto \<Rightarrow> (nat, bytes) outcome list \<Rightarrow> pt_args \<Rightarrow>
    (args_error, clientArgs \<times> frontParams) outcome option" where
  "front_ParseArgs fl c draws args = embed_args c draws args (front_client_params fl args)"

definition front_clientString :: "float_ops \<Rightarrow> frontParams \<Rightarrow> string" where
  "front_clientString fl p = wMinArg @ ''='' @ fmt1 fl (fp_wMin p) @ '' '' @ wMaxArg @ ''='' @ fmt1 fl (fp_wMax p) @
     '' '' @ nServerArg @ ''='' @ FormatInt (fp_nServer p) @ '' '' @ nClientArg @ ''='' @ FormatInt (fp_nClient p)"

definition front_serverStateFromJSONServerState :: "float_ops \<Rightarrow> crypto \<Rightarrow> frontParams \<Rightarrow> JsonServerState \<Rightarrow> filesys \<Rightarrow>
    (args_error, DefConnServerState option \<times> frontParams) outcome \<times> filesys" where
  "front_serverStateFromJSONServerState fl c p js =
    defence_state c js (\<not> (fp_nServer p \<le> 0 \<or> fp_nClient p \<le> 0) \<and> \<not> (float_leq0 (fp_wMin p) \<or> float_leq0 (fp_wMax p)))
      (if fp_nServer p \<le> 0 \<or> fp_nClient p \<le> 0 then ''n-server'' else ''w-min'') (front_clientString fl p)
      [(''w-min'', JNumber (fp_wMin p)), (''w-max'', JNumber (fp_wMax p)), (''n-server'', json_int (fp_nServer p)),
       (''n-client'', json_int (fp_nClient p))] p"

definition front_params :: "float_ops \<Rightarrow> pt_args \<Rightarrow> (args_error, frontParams) outcome" where
  "front_params fl args =
    and_then (required (parse32 fl) wMaxArg args) (\<lambda>wMax.
    and_then (if args wMinArg = None then Ok (Finite 1) else required (parse32 fl) wMinArg args) (\<lambda>wMin.
    and_then (required Atoi nServerArg args) (\<lambda>nServer.
    and_then (required Atoi nClientArg args) (\<lambda>nClient.
      Ok \<lparr>fp_wMin = wMin, fp_wMax = wMax, fp_nServer = nServer, fp_nClient = nClient\<rparr>))))"

definition with_params :: "(args_error, 'p) outcome \<Rightarrow> ('p \<Rightarrow> JsonServerState \<Rightarrow> filesys \<Rightarrow> (args_error, 's) outcome \<times> filesys) \<Rightarrow>
    JsonServerState \<Rightarrow> filesys \<Rightarrow> (args_error, 's) outcome \<times> filesys" where
  "with_params r k js fs = (case r of Ok p \<Rightarrow> k p js fs | Err e \<Rightarrow> (Err e, fs) | Panic \<Rightarrow> (Panic, fs))"

definition front_ServerFactory :: "float_ops \<Rightarrow> crypto \<Rightarrow> nat entropy \<Rightarrow> (hash_drbg \<Rightarrow> int) \<Rightarrow> pt_args \<Rightarrow> filesys \<Rightarrow>
    (args_error, (serverFactory \<times> pt_args) \<times> frontParams) outcome \<times> filesys" where
  "front_ServerFactory fl c rnd rng args = defence_ServerFactory c rnd rng args
     (with_params (front_params fl args) (front_serverStateFromJSONServerState fl c))"

section \<open>Tamaraw\<close>

definition nSegArg :: string where "nSegArg = ''nseg''"
definition rhoServerArg :: string where "rhoServerArg = ''rho-server''"
definition rhoClientArg :: string where "rhoClientArg = ''rho-client''"

record tamarawParams =
  tp_nSeg :: int
  tp_rhoServer :: int
  tp_rhoClient :: int

definition tamaraw_client_params :: "pt_args \<Rightarrow> (args_error, tamarawParams) outcome" where
  "tamaraw_client_params args =
    and_then (GetIntArgFromStr nSegArg args) (\<lambda>nSeg.
     and_then (GetIntArgFromStr rhoServerArg args) (\<lambda>rhoServer.
     and_then (GetIntArgFromStr rhoClientArg args) (\<lambda>rhoClient.
       Ok \<lparr>tp_nSeg = nSeg, tp_rhoServer = rhoServer, tp_rhoClient = rhoClient\<rparr>)))"

definition tamaraw_ParseArgs :: "crypto \<Rightarrow> (nat, bytes) outcome list \<Rightarrow> pt_args \<Rightarrow>
    (args_error, clientArgs \<times> tamarawParams) outcome option" where
  "tamaraw_ParseArgs c draws args = embed_args c draws args (tamaraw_client_params args)"

definition tamaraw_clientString :: "tamarawParams \<Rightarrow> string" where
  "tamaraw_clientString p = nSegArg @ ''='' @ FormatInt (tp_nSeg p) @ '' '' @ rhoServerArg @ ''='' @ FormatInt (tp_rhoServer p) @
     '' '' @ rhoClientArg @ ''='' @ FormatInt (tp_rhoClient p)"

definition tamaraw_serverStateFromJSONServerState :: "crypto \<Rightarrow> tamarawParams \<Rightarrow> JsonServerState \<Rightarrow> filesys \<Rightarrow>
    (args_error, DefConnServerState option \<times> tamarawParams) outcome \<times> filesys" where
  "tamaraw_serverStateFromJSONServerState c p js =
    defence_state c js (\<not> tp_nSeg p < 0 \<and> \<not> tp_rhoServer p < 0 \<and> \<not> tp_rhoClient p < 0)
      (if tp_nSeg p < 0 then ''nseg'' else if tp_rhoServer p < 0 then ''rho-server'' else ''rho-client'') (tamaraw_clientString p)
      [(''nseg'', json_int (tp_nSeg p)), (''rho-server'', json_int (tp_rhoServer p)), (''rho-client'', json_int (tp_rhoClient p))] p"

definition tamaraw_params :: "pt_args \<Rightarrow> (args_error, tamarawParams) outcome" where
  "tamaraw_params args =
    and_then (required Atoi nSegArg args) (\<lambda>nSeg.
    and_then (required Atoi rhoClientArg args) (\<lambda>rhoClient.
    and_then (required Atoi rhoServerArg args) (\<lambda>rhoServer.
      Ok \<lparr>tp_nSeg = nSeg, tp_rhoServer = rhoServer, tp_rhoClient = rhoClient\<rparr>)))"

definition tamaraw_ServerFactory :: "crypto \<Rightarrow> nat entropy \<Rightarrow> (hash_drbg \<Rightarrow> int) \<Rightarrow> pt_args \<Rightarrow> filesys \<Rightarrow>
    (args_error, (serverFactory \<times> pt_args) \<times> tamarawParams) outcome \<times> filesys" where
  "tamaraw_ServerFactory c rnd rng args = defence_ServerFactory c rnd rng args
     (with_params (tamaraw_params args) (tamaraw_serverStateFromJSONServerState c))"

section \<open>RegulaTor\<close>

definition rArg :: string where "rArg = ''r''"
definition dArg :: string where "dArg = ''d''"
definition tArg :: string where "tArg = ''t''"
definition nArg :: string where "nArg = ''n''"
definition uArg :: string where "uArg = ''u''"
definition cArg :: string where "cArg = ''c''"

record regulatorParams =
  rp_r :: int
  rp_d :: go_float
  rp_t :: go_float
  rp_n :: int
  rp_u :: go_float
  rp_c :: go_float

text \<open>The client reads \<open>r\<close> and \<open>n\<close> as 64-bit integers and converts them to \<open>int32\<close>.\<close>

definition regulator_client_params :: "float_ops \<Rightarrow> pt_args \<Rightarrow> (args_error, regulatorParams) outcome" where
  "regulator_client_params fl args =
    and_then (GetIntArgFromStr rArg args) (\<lambda>r.
     and_then (GetFloatArgFromStr fl dArg args) (\<lambda>d.
     and_then (GetFloatArgFromStr fl tArg args) (\<lambda>t.
     and_then (GetIntArgFromStr nArg args) (\<lambda>n.
     and_then (GetFloatArgFromStr fl uArg args) (\<lambda>u.
     and_then (GetFloatArgFromStr fl cArg args) (\<lambda>cc.
       Ok \<lparr>rp_r = i32 r, rp_d = round32 fl d, rp_t = round32 fl t, rp_n = i32 n, rp_u = round32 fl u,
         rp_c = round32 fl cc\<rparr>))))))"

definition regulator_ParseArgs :: "float_ops \<Rightarrow> crypto \<Rightarrow> (nat, bytes) outcome list \<Rightarrow> pt_args \<Rightarrow>
    (args_error, clientArgs \<times> regulatorParams) outcome option" where
  "regulator_ParseArgs fl c draws args = embed_args c draws args (regulator_client_params fl args)"

definition regulator_clientString :: "float_ops \<Rightarrow> regulatorParams \<Rightarrow> string" where
  "regulator_clientString fl p = rArg @ ''='' @ FormatInt (rp_r p) @ '' '' @ dArg @ ''='' @ fmt2 fl (rp_d p) @ '' '' @
     tArg @ ''='' @ fmt2 fl (rp_t p) @ '' '' @ nArg @ ''='' @ FormatInt (rp_n p) @ '' '' @ uArg @ ''='' @ fmt2 fl (rp_u p) @
     '' '' @ cArg @ ''='' @ fmt2 fl (rp_c p)"

definition regulator_serverStateFromJSONServerState :: "float_ops \<Rightarrow> crypto \<Rightarrow> regulatorParams \<Rightarrow> JsonServerState \<Rightarrow> filesys \<Rightarrow>
    (args_error, DefConnServerState option \<times> regulatorParams) outcome \<times> filesys" where
  "regulator_serverStateFromJSONServerState fl c p js =
    defence_state c js (\<not> (rp_r p \<le> 0 \<or> rp_n p \<le> 0) \<and>
        \<not> (float_leq0 (rp_d p) \<or> float_leq0 (rp_t p) \<or> float_leq0 (rp_u p) \<or> float_leq0 (rp_c p)))
      (if rp_r p \<le> 0 \<or> rp_n p \<le> 0 then ''R'' else ''d'') (regulator_clientString fl p)
      [(''r'', json_int (rp_r p)), (''d'', JNumber (rp_d p)), (''t'', JNumber (rp_t p)), (''n'', json_int (rp_n p)),
       (''u'', JNumber (rp_u p)), (''c'', JNumber (rp_c p))] p"

definition regulator_params :: "float_ops \<Rightarrow> pt_args \<Rightarrow> (args_error, regulatorParams) outcome" where
  "regulator_params fl args =
    and_then (required (ParseInt 32) rArg args) (\<lambda>r.
    and_then (required (parse32 fl) dArg args) (\<lambda>d.
    and_then (required (parse32 fl) tArg args) (\<lambda>t.
    and_then (required (ParseInt 32) nArg args) (\<lambda>n.
    and_then (required (parse32 fl) uArg args) (\<lambda>u.
    and_then (required (parse32 fl) cArg args) (\<lambda>cc.
      Ok \<lparr>rp_r = r, rp_d = d, rp_t = t, rp_n = n, rp_u = u, rp_c = cc\<rparr>))))))"

definition regulator_ServerFactory :: "float_ops \<Rightarrow> crypto \<Rightarrow> nat entropy \<Rightarrow> (hash_drbg \<Rightarrow> int) \<Rightarrow> pt_args \<Rightarrow> filesys \<Rightarrow>
    (args_error, (serverFactory \<times> pt_args) \<times> regulatorParams) outcome \<times> filesys" where
  "regulator_ServerFactory fl c rnd rng args = defence_ServerFactory c rnd rng args
     (with_params (regulator_params fl args) (regulator_serverStateFromJSONServerState fl c))"

section \<open>WFGAN\<close>

definition tolArg :: string where "tolArg = ''tol''"
definition pArg :: string where "pArg = ''p''"

record wfganParams =
  wp_tol :: go_float
  wp_p :: go_float

definition wfgan_client_params :: "float_ops \<Rightarrow> pt_args \<Rightarrow> (args_error, wfganParams) outcome" where
  "wfgan_client_params fl args =
    and_then (GetFloatArgFromStr fl tolArg args) (\<lambda>tol.
     and_then (GetFloatArgFromStr fl pArg args) (\<lambda>p.
       Ok \<lparr>wp_tol = round32 fl tol, wp_p = round32 fl p\<rparr>))"

definition wfgan_ParseArgs :: "float_ops \<Rightarrow> crypto \<Rightarrow> (nat, bytes) outcome list \<Rightarrow> pt_args \<Rightarrow>
    (args_error, clientArgs \<times> wfganParams) outcome option" where
  "wfgan_ParseArgs fl c draws args = embed_args c draws args (wfgan_client_params fl args)"

definition wfgan_clientString :: "float_ops \<Rightarrow> wfganParams \<Rightarrow> string" where
  "wfgan_clientString fl p = tolArg @ ''='' @ fmt1 fl (wp_tol p) @ '' '' @ pArg @ ''='' @ fmt1 fl (wp_p p)"

definition wfgan_serverStateFromJSONServerState :: "float_ops \<Rightarrow> crypto \<Rightarrow> wfganParams \<Rightarrow> JsonServerState \<Rightarrow> filesys \<Rightarrow>
    (args_error, DefConnServerState option \<times> wfganParams) outcome \<times> filesys" where
  "wfgan_serverStateFromJSONServerState fl c p js =
    defence_state c js (\<not> float_less0 (wp_tol p) \<and> \<not> float_less0 (wp_p p)) (if float_less0 (wp_tol p) then ''tol'' else ''p'')
      (wfgan_clientString fl p) [(''tol'', JNumber (wp_tol p)), (''p'', JNumber (wp_p p))] p"

definition wfgan_params :: "float_ops \<Rightarrow> pt_args \<Rightarrow> (args_error, wfganParams) outcome" where
  "wfgan_params fl args =
    and_then (required (parse32 fl) tolArg args) (\<lambda>tol.
    and_then (required (parse32 fl) pArg args) (\<lambda>p. Ok \<lparr>wp_tol = tol, wp_p = p\<rparr>))"

definition wfgan_ServerFactory :: "float_ops \<Rightarrow> crypto \<Rightarrow> nat entropy \<Rightarrow> (hash_drbg \<Rightarrow> int) \<Rightarrow> pt_args \<Rightarrow> filesys \<Rightarrow>
    (args_error, (serverFactory \<times> pt_args) \<times> wfganParams) outcome \<times> filesys" where
  "wfgan_ServerFactory fl c rnd rng args = defence_ServerFactory c rnd rng args
     (with_params (wfgan_params fl args) (wfgan_serverStateFromJSONServerState fl c))"

section \<open>The contract of a defence's factory\<close>

text \<open>The bridge line of the file: the certificate that the factory publishes and the parameters.\<close>

definition advertises :: "filesys \<Rightarrow> pt_args \<Rightarrow> string \<Rightarrow> bool" where
  "advertises fs published line \<longleftrightarrow> (\<exists>cert. published certArg = Some cert \<and>
     files fs BridgeFile_name = Some (TextFile (bridge_prefix @ ''Bridge DefConn <IP ADDRESS>:<PORT> <FINGERPRINT> '' @
       certArg @ ''='' @ cert @ '' '' @ line @ [CHR 0x0A])))"

definition same_identity :: "serverFactory \<Rightarrow> serverFactory \<Rightarrow> bool" where
  "same_identity sf sf' \<longleftrightarrow> sf_nodeID sf' = sf_nodeID sf \<and> sf_identityKey sf' = sf_identityKey sf \<and> sf_lenSeed sf' = sf_lenSeed sf"

locale defence_factory =
  fixes store :: "crypto \<Rightarrow> 'p \<Rightarrow> JsonServerState \<Rightarrow> filesys \<Rightarrow> (args_error, DefConnServerState option \<times> 'p) outcome \<times> filesys"
    and valid :: "'p \<Rightarrow> bool" and line :: "'p \<Rightarrow> string" and extra :: "'p \<Rightarrow> (string \<times> jvalue) list"
  assumes stores: "\<exists>msg. store c p js = defence_state c js (valid p) msg (line p) (extra p) p"
    and unknown: "\<forall>(k, v) \<in> set (extra p). js_field k = None"
begin

lemma factory_Ok:
  assumes "defence_ServerFactory c rnd rng args (with_params r (store c)) fs = (Ok ((sf, pub), p), fs')"
    "rd_err fs StateFile_name = None"
  shows "r = Ok p \<and> valid p \<and> (\<forall>f \<in> {PosInf, NegInf, NaN}. JNumber f \<notin> snd ` set (extra p)) \<and> advertises fs' pub (line p) \<and>
    (good_entropy rnd' \<and> later privateKeyArg = None \<and> later nodeIDArg = None \<and> later seedArg = None \<longrightarrow>
      (\<exists>sf' fs''. ServerFactory c rnd' rng later fs' = (Ok (sf', pub), fs'') \<and> same_identity sf sf'))"
proof -
  obtain fs1 where B: "ServerFactory c rnd rng args fs = (Ok (sf, pub), fs1)"
    using assms(1) by (auto simp: defence_ServerFactory_def split: outcome.splits prod.splits)
  then obtain st where st: "ServerStateFromArgs c rnd args fs = (Ok st, fs1)" "pub = [certArg \<mapsto> cert_String (st_cert st)]"
    and sf: "sf_nodeID sf = st_nodeID st" "sf_identityKey sf = st_identityKey st" "sf_lenSeed sf = st_drbgSeed st"
    by (auto simp: ServerFactory_Ok)
  obtain js where js: "ServerStateFromArgsInternal c rnd args fs1 = (Ok js, fs1)" "ServerStateFromJsonServerStateInternal c js = Ok st"
    using state_reread [OF st(1) assms(2)] by blast
  obtain msg where msg: "store c p js = defence_state c js (valid p) msg (line p) (extra p) p" using stores by blast
  have "with_params r (store c) js fs1 = (Ok (st', p), fs') \<Longrightarrow> r = Ok p \<and> store c p js fs1 = (Ok (st', p), fs')" for st'
  proof (cases r)
    case (Ok q)
    assume W: "with_params r (store c) js fs1 = (Ok (st', p), fs')"
    obtain msg' where "store c q js = defence_state c js (valid q) msg' (line q) (extra q) q" using stores by blast
    with W Ok js(2) have "q = p" by (auto simp: with_params_def defence_state_def write_state_Ok Let_def split: if_splits)
    with W Ok show ?thesis by (simp add: with_params_def)
  qed (auto simp: with_params_def)
  then obtain st' where r: "r = Ok p" and "store c p js fs1 = (Ok (st', p), fs')"
    using assms(1) B js(1) by (auto simp: defence_ServerFactory_def split: outcome.splits prod.splits)
  then have v: "valid p" and W: "write_state (ClientString st @ line p) (extra p) js (st', p) fs1 = (Ok (st', p), fs')"
    using msg js(2) by (auto simp: defence_state_def write_state_Ok Let_def split: if_splits)
  have names: "BridgeFile_name \<noteq> StateFile_name" by (simp add: StateFile_name_def BridgeFile_name_def)
  have adv: "advertises fs' pub (line p)" using W st(2) names by (simp add: advertises_def write_state_Ok ClientString_def)
  have "\<exists>sf' fs''. ServerFactory c rnd' rng later fs' = (Ok (sf', pub), fs'') \<and> same_identity sf sf'"
    if L: "good_entropy rnd'" "later privateKeyArg = None" "later nodeIDArg = None" "later seedArg = None"
  proof -
    have fs': "files fs' StateFile_name = Some (JsonFile (Marshal js @ extra p))" "rd_err fs' StateFile_name = None"
      "wr_err fs' StateFile_name = None" "wr_err fs' BridgeFile_name = None"
      using W state_written [OF st(1)] assms(2) by (auto simp: write_state_Ok)
    from reads_back [OF fs'(1,2) unknown L(2-4), of c rnd'] js(2) fs'(3,4)
    obtain fs'' where "ServerStateFromArgs c rnd' later fs' = (Ok st, fs'')"
      by (auto simp: ServerStateFromArgs_def ServerStateFromJsonServerState_def write_state_Ok)
    moreover obtain key where "csrand_Bytes rnd' 16 = Ok key" "length key = 16"
      using L(1) by (auto simp: good_entropy_def csrand_Bytes_def)
    then obtain f where "rf_New rnd' replayTTL = Ok f" by (auto simp: rf_New_def get_u64_def)
    ultimately show ?thesis using st(2) sf by (auto simp: ServerFactory_Ok NewHashDrbg_def same_identity_def)
  qed
  with r v W adv show ?thesis by (auto simp: write_state_Ok)
qed

end

lemmas param_names = js_field_def fold_name_def Let_def

interpretation front_factory: defence_factory "front_serverStateFromJSONServerState fl"
  "\<lambda>p. \<not> (fp_nServer p \<le> 0 \<or> fp_nClient p \<le> 0) \<and> \<not> (float_leq0 (fp_wMin p) \<or> float_leq0 (fp_wMax p))"
  "front_clientString fl" "\<lambda>p. [(''w-min'', JNumber (fp_wMin p)), (''w-max'', JNumber (fp_wMax p)),
     (''n-server'', json_int (fp_nServer p)), (''n-client'', json_int (fp_nClient p))]" for fl
  by unfold_locales (auto simp: front_serverStateFromJSONServerState_def param_names)

interpretation tamaraw_factory: defence_factory tamaraw_serverStateFromJSONServerState
  "\<lambda>p. \<not> tp_nSeg p < 0 \<and> \<not> tp_rhoServer p < 0 \<and> \<not> tp_rhoClient p < 0" tamaraw_clientString
  "\<lambda>p. [(''nseg'', json_int (tp_nSeg p)), (''rho-server'', json_int (tp_rhoServer p)), (''rho-client'', json_int (tp_rhoClient p))]"
  by unfold_locales (auto simp: tamaraw_serverStateFromJSONServerState_def param_names)

interpretation regulator_factory: defence_factory "regulator_serverStateFromJSONServerState fl"
  "\<lambda>p. \<not> (rp_r p \<le> 0 \<or> rp_n p \<le> 0) \<and> \<not> (float_leq0 (rp_d p) \<or> float_leq0 (rp_t p) \<or> float_leq0 (rp_u p) \<or> float_leq0 (rp_c p))"
  "regulator_clientString fl" "\<lambda>p. [(''r'', json_int (rp_r p)), (''d'', JNumber (rp_d p)), (''t'', JNumber (rp_t p)),
     (''n'', json_int (rp_n p)), (''u'', JNumber (rp_u p)), (''c'', JNumber (rp_c p))]" for fl
  by unfold_locales (auto simp: regulator_serverStateFromJSONServerState_def param_names)

interpretation wfgan_factory: defence_factory "wfgan_serverStateFromJSONServerState fl"
  "\<lambda>p. \<not> float_less0 (wp_tol p) \<and> \<not> float_less0 (wp_p p)" "wfgan_clientString fl"
  "\<lambda>p. [(''tol'', JNumber (wp_tol p)), (''p'', JNumber (wp_p p))]" for fl
  by unfold_locales (auto simp: wfgan_serverStateFromJSONServerState_def param_names)

section \<open>Properties\<close>

lemma positive_float: "(\<exists>x. f = Finite x \<and> 0 < x) \<longleftrightarrow> \<not> float_leq0 f \<and> f \<noteq> PosInf \<and> f \<noteq> NaN"
  by (cases f) auto

lemma nonneg_float: "(\<exists>x. f = Finite x \<and> 0 \<le> x) \<longleftrightarrow> \<not> float_less0 f \<and> f \<noteq> PosInf \<and> f \<noteq> NaN"
  by (cases f) auto

lemma digits_nonneg: "list_all (\<lambda>d :: int. 0 \<le> d \<and> d \<le> 9) ds \<Longrightarrow> 0 \<le> b \<Longrightarrow> 0 \<le> foldl (\<lambda>a d. 10 * a + d) b ds"
  by (induction ds arbitrary: b) auto

lemma ParseInt_range: "ParseInt 32 s = Some n \<Longrightarrow> in_i32 n"
  using digits_nonneg [of "map (\<lambda>c. int (of_char c) - 48) s" 0] digits_nonneg [of "map (\<lambda>c. int (of_char c) - 48) (tl s)" 0]
  by (auto simp: ParseInt_def in_i32_def Let_def split: if_splits)

lemma required_bits: "required (ParseInt 32) name args = Ok n \<Longrightarrow> in_i32 n"
  by (auto simp: required_def dest: ParseInt_range split: option.splits)

text \<open>C30: A factory that starts has usable parameters and advertises itself. When \<open>ServerFactory\<close> of FRONT, Tamaraw,
  RegulaTor or WFGAN succeeds, its parameters are in the ranges that the code demands (and its floats are finite, because
  the state file could not be written otherwise), and the bridge line on disk has the certificate that the factory
  publishes followed by these parameters. Tamaraw's bounds admit zero.\<close>

theorem factories_validate:
  assumes "rd_err fs StateFile_name = None"
  shows "(front_ServerFactory fl c rnd rng args fs = (Ok ((sf, pub), fp), fs') \<longrightarrow>
      0 < fp_nServer fp \<and> 0 < fp_nClient fp \<and> (\<exists>w. fp_wMin fp = Finite w \<and> 0 < w) \<and> (\<exists>w. fp_wMax fp = Finite w \<and> 0 < w) \<and>
      advertises fs' pub (front_clientString fl fp)) \<and>
    (tamaraw_ServerFactory c rnd rng args fs = (Ok ((sf, pub), tp), fs') \<longrightarrow>
      0 \<le> tp_nSeg tp \<and> 0 \<le> tp_rhoServer tp \<and> 0 \<le> tp_rhoClient tp \<and> advertises fs' pub (tamaraw_clientString tp)) \<and>
    (regulator_ServerFactory fl c rnd rng args fs = (Ok ((sf, pub), rp), fs') \<longrightarrow>
      0 < rp_r rp \<and> rp_r rp < 2 ^ 31 \<and> 0 < rp_n rp \<and> rp_n rp < 2 ^ 31 \<and>
      (\<forall>f \<in> {rp_d rp, rp_t rp, rp_u rp, rp_c rp}. \<exists>x. f = Finite x \<and> 0 < x) \<and> advertises fs' pub (regulator_clientString fl rp)) \<and>
    (wfgan_ServerFactory fl c rnd rng args fs = (Ok ((sf, pub), wp), fs') \<longrightarrow>
      (\<forall>f \<in> {wp_tol wp, wp_p wp}. \<exists>x. f = Finite x \<and> 0 \<le> x) \<and> advertises fs' pub (wfgan_clientString fl wp))"
proof (intro conjI impI)
  assume "front_ServerFactory fl c rnd rng args fs = (Ok ((sf, pub), fp), fs')"
  from front_factory.factory_Ok [where rnd' = rnd and later = args, OF this [unfolded front_ServerFactory_def] assms]
  show "0 < fp_nServer fp" "0 < fp_nClient fp" "\<exists>w. fp_wMin fp = Finite w \<and> 0 < w" "\<exists>w. fp_wMax fp = Finite w \<and> 0 < w"
    "advertises fs' pub (front_clientString fl fp)" by (auto simp: positive_float)
next
  assume "tamaraw_ServerFactory c rnd rng args fs = (Ok ((sf, pub), tp), fs')"
  from tamaraw_factory.factory_Ok [where rnd' = rnd and later = args, OF this [unfolded tamaraw_ServerFactory_def] assms]
  show "0 \<le> tp_nSeg tp" "0 \<le> tp_rhoServer tp" "0 \<le> tp_rhoClient tp" "advertises fs' pub (tamaraw_clientString tp)" by auto
next
  assume "regulator_ServerFactory fl c rnd rng args fs = (Ok ((sf, pub), rp), fs')"
  note R = regulator_factory.factory_Ok [where rnd' = rnd and later = args, OF this [unfolded regulator_ServerFactory_def] assms]
  then have "in_i32 (rp_r rp)" "in_i32 (rp_n rp)"
    by (auto simp: regulator_params_def and_then_Ok_iff dest: required_bits)
  with R show "0 < rp_r rp" "rp_r rp < 2 ^ 31" "0 < rp_n rp" "rp_n rp < 2 ^ 31"
    "\<forall>f \<in> {rp_d rp, rp_t rp, rp_u rp, rp_c rp}. \<exists>x. f = Finite x \<and> 0 < x" "advertises fs' pub (regulator_clientString fl rp)"
    by (auto simp: in_i32_def positive_float)
next
  assume "wfgan_ServerFactory fl c rnd rng args fs = (Ok ((sf, pub), wp), fs')"
  from wfgan_factory.factory_Ok [where rnd' = rnd and later = args, OF this [unfolded wfgan_ServerFactory_def] assms]
  show "\<forall>f \<in> {wp_tol wp, wp_p wp}. \<exists>x. f = Finite x \<and> 0 \<le> x" "advertises fs' pub (wfgan_clientString fl wp)" by (auto simp: nonneg_float)
qed

text \<open>C29: Arguments of the defences' clients. With the published arguments alone every \<open>ParseArgs\<close> fails, because the
  parameters of the defence are not among them. With the parameters and the certificate it gives both. With the
  parameters but without a usable identity it panics, where \<open>defconn\<close> itself returns an error.\<close>

theorem defence_arguments:
  assumes "NewKeypair c True draws = Some (Ok k, rest)"
  shows "(parse_identity args = Ok (nid, pk) \<longrightarrow>
      (\<forall>p. front_client_params fl args = Ok p \<longrightarrow> front_ParseArgs fl c draws args =
        Some (Ok (\<lparr>ca_nodeID = nid, ca_publicKey = pk, ca_sessionKey = k\<rparr>, p))) \<and>
      (\<forall>p. tamaraw_client_params args = Ok p \<longrightarrow> tamaraw_ParseArgs c draws args =
        Some (Ok (\<lparr>ca_nodeID = nid, ca_publicKey = pk, ca_sessionKey = k\<rparr>, p))) \<and>
      (\<forall>p. regulator_client_params fl args = Ok p \<longrightarrow> regulator_ParseArgs fl c draws args =
        Some (Ok (\<lparr>ca_nodeID = nid, ca_publicKey = pk, ca_sessionKey = k\<rparr>, p))) \<and>
      (\<forall>p. wfgan_client_params fl args = Ok p \<longrightarrow> wfgan_ParseArgs fl c draws args =
        Some (Ok (\<lparr>ca_nodeID = nid, ca_publicKey = pk, ca_sessionKey = k\<rparr>, p)))) \<and>
    (parse_identity args = Err e \<longrightarrow> ParseArgs c draws args = Some (Err e) \<and>
      (is_ok (front_client_params fl args) \<longrightarrow> front_ParseArgs fl c draws args = Some Panic) \<and>
      (is_ok (tamaraw_client_params args) \<longrightarrow> tamaraw_ParseArgs c draws args = Some Panic) \<and>
      (is_ok (regulator_client_params fl args) \<longrightarrow> regulator_ParseArgs fl c draws args = Some Panic) \<and>
      (is_ok (wfgan_client_params fl args) \<longrightarrow> wfgan_ParseArgs fl c draws args = Some Panic)) \<and>
    (ServerFactory c rnd rng server fs = (Ok (sf, pub), fs') \<longrightarrow>
      front_ParseArgs fl c draws pub = Some (Err (MissingArgument nClientArg)) \<and>
      tamaraw_ParseArgs c draws pub = Some (Err (MissingArgument nSegArg)) \<and>
      regulator_ParseArgs fl c draws pub = Some (Err (MissingArgument rArg)) \<and>
      wfgan_ParseArgs fl c draws pub = Some (Err (MissingArgument tolArg)))"
proof -
  note defs = front_ParseArgs_def tamaraw_ParseArgs_def regulator_ParseArgs_def wfgan_ParseArgs_def
  have good: "embed_args c draws args (Ok p) = Some (Ok (\<lparr>ca_nodeID = nid, ca_publicKey = pk, ca_sessionKey = k\<rparr>, p))"
    if "parse_identity args = Ok (nid, pk)" for p using that assms by (simp add: embed_args_def ParseArgs_def)
  have bad: "embed_args c draws args r = Some Panic" if "parse_identity args = Err e" "is_ok r" for r
    using that by (cases r) (simp_all add: embed_args_def ParseArgs_def)
  have none: "embed_args c draws pub (Err er) = Some (Err er)" for er
  proof -
    obtain x where "ParseArgs c draws pub = Some x" "x \<noteq> Panic"
      using assms identity_no_panic [of pub] by (cases "parse_identity pub") (auto simp: ParseArgs_def)
    then show ?thesis by (cases x) (simp_all add: embed_args_def)
  qed
  have pub: "front_client_params fl pub = Err (MissingArgument nClientArg)" "tamaraw_client_params pub = Err (MissingArgument nSegArg)"
    "regulator_client_params fl pub = Err (MissingArgument rArg)" "wfgan_client_params fl pub = Err (MissingArgument tolArg)"
    if S: "ServerFactory c rnd rng server fs = (Ok (sf, pub), fs')"
  proof -
    obtain cert where "pub = [certArg \<mapsto> cert]" using S by (auto simp: ServerFactory_Ok)
    then show "front_client_params fl pub = Err (MissingArgument nClientArg)" "tamaraw_client_params pub = Err (MissingArgument nSegArg)"
      "regulator_client_params fl pub = Err (MissingArgument rArg)" "wfgan_client_params fl pub = Err (MissingArgument tolArg)"
      by (simp_all add: front_client_params_def tamaraw_client_params_def regulator_client_params_def wfgan_client_params_def
          GetIntArgFromStr_def GetFloatArgFromStr_def required_def certArg_def nClientArg_def nSegArg_def rArg_def tolArg_def)
  qed
  show ?thesis
    by (intro conjI impI allI) (simp_all add: defs good bad none pub ParseArgs_def)
qed

definition demo_float_ops :: float_ops where
  "demo_float_ops = \<lparr>parse32 = \<lambda>s. Some (Finite 1), parse64 = \<lambda>s. Some (Finite 1), round32 = id, fmt1 = \<lambda>_. ''1.0'', fmt2 = \<lambda>_. ''1.00''\<rparr>"

theorem defence_arguments_witness:
  "front_ParseArgs demo_float_ops demo_crypto [Ok (replicate 32 7)]
     [nClientArg \<mapsto> ''10'', nServerArg \<mapsto> ''+20'', wMinArg \<mapsto> ''1'', wMaxArg \<mapsto> ''1''] = Some Panic"
proof -
  let ?args = "[nClientArg \<mapsto> ''10'', nServerArg \<mapsto> ''+20'', wMinArg \<mapsto> ''1'', wMaxArg \<mapsto> ''1'']"
  have "parse_identity ?args = Err (MissingArgument nodeIDArg)"
    by (simp add: parse_identity_def arg_names nClientArg_def nServerArg_def wMinArg_def wMaxArg_def)
  moreover have "is_ok (front_client_params demo_float_ops ?args)"
    by (simp add: front_client_params_def GetIntArgFromStr_def GetFloatArgFromStr_def required_def demo_float_ops_def Atoi_def ParseInt_def
        nClientArg_def nServerArg_def wMinArg_def wMaxArg_def)
  moreover obtain k where "NewKeypair demo_crypto True [Ok (replicate 32 7) :: (nat, bytes) outcome] = Some (Ok k, [])"
    by (auto simp: demo_crypto_def Let_def)
  ultimately show ?thesis using defence_arguments [where args = ?args and fl = demo_float_ops] by blast
qed

definition demo_tamaraw_args :: pt_args where
  "demo_tamaraw_args = [nSegArg \<mapsto> ''0'', rhoServerArg \<mapsto> ''5'', rhoClientArg \<mapsto> ''20'']"

theorem factories_validate_witness:
  "\<exists>sf pub tp fs'. tamaraw_ServerFactory demo_crypto demo_entropy (\<lambda>_. 7)
       demo_tamaraw_args demo_fs = (Ok ((sf, pub), tp), fs') \<and>
     tp_nSeg tp = 0 \<and> advertises fs' pub (tamaraw_clientString tp)"
proof -
  have D: "rd_err demo_fs StateFile_name = None" by (simp add: demo_fs_def)
  have no_id: "demo_tamaraw_args privateKeyArg = None" "demo_tamaraw_args nodeIDArg = None" "demo_tamaraw_args seedArg = None"
    by (simp_all add: demo_tamaraw_args_def arg_names nSegArg_def rhoServerArg_def rhoClientArg_def)
  have p: "tamaraw_params demo_tamaraw_args = Ok \<lparr>tp_nSeg = 0, tp_rhoServer = 5, tp_rhoClient = 20\<rparr>"
    by (simp add: tamaraw_params_def required_def Atoi_def ParseInt_def demo_tamaraw_args_def nSegArg_def rhoServerArg_def rhoClientArg_def)
  obtain sf pub fs1 where S: "ServerFactory demo_crypto demo_entropy (\<lambda>_. 7) demo_tamaraw_args demo_fs = (Ok (sf, pub), fs1)"
    using fresh_start [OF demo_entropy_ok no_id, of demo_fs demo_crypto "\<lambda>_. 7"] by (auto simp: demo_fs_def)
  obtain st where st: "ServerStateFromArgs demo_crypto demo_entropy demo_tamaraw_args demo_fs = (Ok st, fs1)" using S by (auto simp: ServerFactory_Ok)
  obtain js where js: "ServerStateFromArgsInternal demo_crypto demo_entropy demo_tamaraw_args fs1 = (Ok js, fs1)"
    "ServerStateFromJsonServerStateInternal demo_crypto js = Ok st" using state_reread [OF st D] by blast
  have w: "wr_err fs1 = (\<lambda>_. None)" using state_written [OF st] by (auto simp: demo_fs_def)
  obtain fs' where T: "tamaraw_ServerFactory demo_crypto demo_entropy (\<lambda>_. 7) demo_tamaraw_args demo_fs =
      (Ok ((sf, pub), \<lparr>tp_nSeg = 0, tp_rhoServer = 5, tp_rhoClient = 20\<rparr>), fs')"
    using S js p w by (auto simp: tamaraw_ServerFactory_def defence_ServerFactory_def with_params_def
        tamaraw_serverStateFromJSONServerState_def defence_state_def write_state_def NewBridgeFile_def WriteJSONServerState_def
        WriteFile_def json_int_def)
  with factories_validate [OF D, where args = demo_tamaraw_args] show ?thesis by fastforce
qed

end
