(* ===== verification/Connect.thy ===== *)
theory Connect
  imports Factories
begin

text \<open>
  \<open>Dial\<close> of the client factories and \<open>WrapConn\<close> of the server factories of FRONT and Tamaraw: the
  handshake of \<open>defconn\<close>, and a connection of the transport around its result with the parameters of the configuration
  and empty queues. The fields of a connection that are local variables of \<open>ReadFrom\<close> have their initial values.
\<close>

definition wrap_dial :: "(defConn \<Rightarrow> 'c) \<Rightarrow> ((conn_error, defConn) outcome \<times> bool) option \<Rightarrow> ((conn_error, 'c) outcome \<times> bool) option" where
  "wrap_dial f r = map_option (\<lambda>(r, closed). (and_then r (\<lambda>d. Ok (f d)), closed)) r"

definition wrap_server :: "(defConn \<Rightarrow> 'c) \<Rightarrow> (bytes \<times> (conn_error, defConn) outcome \<times> close_action option \<times> serverFactory) option \<Rightarrow>
    (bytes \<times> (conn_error, 'c) outcome \<times> close_action option \<times> serverFactory) option" where
  "wrap_server f r = map_option (\<lambda>(out, r, act, sf). (out, and_then r (\<lambda>d. Ok (f d)), act, sf)) r"

definition front_conn :: "frontParams \<Rightarrow> defConn \<Rightarrow> frontConn" where
  "front_conn p d = relay.extend (defConn.extend d (relay.fields [] [] 0))
     (frontConn.fields (fp_nServer p) (fp_nClient p) [] [] None None True)"

definition front_Dial :: "crypto \<Rightarrow> (int \<Rightarrow> int) \<Rightarrow> nat entropy \<Rightarrow> int \<Rightarrow> nat option \<Rightarrow> nat option \<Rightarrow> nat option \<Rightarrow>
    (nat, net_reads) outcome \<Rightarrow> clientArgs \<times> frontParams \<Rightarrow> ((conn_error, frontConn) outcome \<times> bool) option" where
  "front_Dial c intn rnd now dl1 dl2 wr dial argsT =
     wrap_dial (front_conn (snd argsT)) (Dial c intn rnd now dl1 dl2 wr dial (Some (fst argsT)))"

definition front_WrapConn :: "frontParams \<Rightarrow> crypto \<Rightarrow> (int \<Rightarrow> int) \<Rightarrow> (nat, bytes) outcome list \<Rightarrow> nat entropy \<Rightarrow> nat option \<Rightarrow>
    nat option \<Rightarrow> nat option \<Rightarrow> nat option \<Rightarrow> (nat \<Rightarrow> nat \<Rightarrow> int) \<Rightarrow> int \<Rightarrow> int \<Rightarrow> net_reads \<Rightarrow> serverFactory \<Rightarrow>
    (bytes \<times> (conn_error, frontConn) outcome \<times> close_action option \<times> serverFactory) option" where
  "front_WrapConn p c intn draws rnd dl1 dl2 dl3 wr clks t0 t1 reads sf =
     wrap_server (front_conn p) (WrapConn c intn draws rnd dl1 dl2 dl3 wr clks t0 t1 reads sf)"

definition tamaraw_conn :: "tamarawParams \<Rightarrow> defConn \<Rightarrow> tamarawConn" where
  "tamaraw_conn p d = relay.extend (defConn.extend d (relay.fields [] [] 0))
     (tamarawConn.fields (tp_nSeg p) (tp_rhoClient p) (tp_rhoServer p) 0)"

definition tamaraw_Dial :: "crypto \<Rightarrow> (int \<Rightarrow> int) \<Rightarrow> nat entropy \<Rightarrow> int \<Rightarrow> nat option \<Rightarrow> nat option \<Rightarrow> nat option \<Rightarrow>
    (nat, net_reads) outcome \<Rightarrow> clientArgs \<times> tamarawParams \<Rightarrow> ((conn_error, tamarawConn) outcome \<times> bool) option" where
  "tamaraw_Dial c intn rnd now dl1 dl2 wr dial argsT =
     wrap_dial (tamaraw_conn (snd argsT)) (Dial c intn rnd now dl1 dl2 wr dial (Some (fst argsT)))"

definition tamaraw_WrapConn :: "tamarawParams \<Rightarrow> crypto \<Rightarrow> (int \<Rightarrow> int) \<Rightarrow> (nat, bytes) outcome list \<Rightarrow> nat entropy \<Rightarrow> nat option \<Rightarrow>
    nat option \<Rightarrow> nat option \<Rightarrow> nat option \<Rightarrow> (nat \<Rightarrow> nat \<Rightarrow> int) \<Rightarrow> int \<Rightarrow> int \<Rightarrow> net_reads \<Rightarrow> serverFactory \<Rightarrow>
    (bytes \<times> (conn_error, tamarawConn) outcome \<times> close_action option \<times> serverFactory) option" where
  "tamaraw_WrapConn p c intn draws rnd dl1 dl2 dl3 wr clks t0 t1 reads sf =
     wrap_server (tamaraw_conn p) (WrapConn c intn draws rnd dl1 dl2 dl3 wr clks t0 t1 reads sf)"

section \<open>Both ends of a session\<close>

lemma conn_fields [simp]:
  "IsServer (front_conn p d) = IsServer d" "Encoder (front_conn p d) = Encoder d" "Decoder (front_conn p d) = Decoder d"
  "ReceiveBuffer (front_conn p d) = ReceiveBuffer d" "ReceiveDecodedBuffer (front_conn p d) = ReceiveDecodedBuffer d"
  "queued (front_conn p d) = []" "recvBuf (front_conn p d) = []" "nServer (front_conn p d) = fp_nServer p"
  "nClient (front_conn p d) = fp_nClient p"
  "IsServer (tamaraw_conn q d) = IsServer d" "Encoder (tamaraw_conn q d) = Encoder d" "Decoder (tamaraw_conn q d) = Decoder d"
  "ReceiveBuffer (tamaraw_conn q d) = ReceiveBuffer d" "ReceiveDecodedBuffer (tamaraw_conn q d) = ReceiveDecodedBuffer d"
  "queued (tamaraw_conn q d) = []" "recvBuf (tamaraw_conn q d) = []"
  by (simp_all add: front_conn_def tamaraw_conn_def defConn.defs relay.defs frontConn.defs tamarawConn.defs)

lemma newdefconnClientConn_sent:
  "NewSeed rnd = Ok seed \<Longrightarrow> fst (newdefconnClientConn c intn rnd now None dl2 wr reads ca) =
     fst (defconn_clientHandshake c intn rnd now wr reads (new_conn False seed) (ca_nodeID ca) (ca_publicKey ca) (ca_sessionKey ca))"
  by (auto simp: newdefconnClientConn_def split: prod.splits option.splits outcome.splits)

text \<open>A configured client and the server whose certificate it has: \<open>WrapConn\<close> and \<open>Dial\<close> both succeed on each other's
  messages, with linked encoders and decoders.\<close>

lemma endpoints_linked:
  assumes S: "session_setting c intn intn' rnd rnd' now clks H sf (ca_sessionKey ca) sk blob"
    and id: "ca_nodeID ca = sf_nodeID sf" "ca_publicKey ca = kp_public (sf_identityKey sf)"
    and sk: "NewKeypair c True sdraws = Some (Ok sk, rest)"
    and blob: "fst (newdefconnClientConn c intn rnd now None None None [] ca) = blob"
    and chunks: "concat chunks = blob" "[] \<notin> set chunks"
  shows "\<exists>out sconn sf'. WrapConn c intn' sdraws rnd' None None dl None clks t0 t1 (map Ok chunks @ later) sf =
      Some (out, Ok sconn, None, sf') \<and>
    (\<forall>rchunks. concat rchunks = out \<and>
        first_mark out (take 16 (drop (length out - 589) out)) (length out - 589) \<longrightarrow>
      (\<exists>seed b ec dc ds. Dial c intn rnd now None None None (Ok (map Ok rchunks)) (Some ca) =
          Some (Ok ((new_conn False seed)\<lparr>ReceiveBuffer := b, Encoder := Some ec, Decoder := Some dc\<rparr>), False) \<and>
        counter (e_nonce ec) = 1 \<and> link_ok c ec ds \<and>
        Decoder sconn = Some ds \<and> ReceiveBuffer sconn = [] \<and> ReceiveDecodedBuffer sconn = [] \<and> IsServer sconn))"
proof -
  have "good_entropy rnd" using S by (simp add: session_setting_def)
  then obtain seed where seed: "NewSeed rnd = Ok seed" unfolding good_entropy_def NewSeed_def csrand_Bytes_def by blast
  let ?cc = "new_conn False seed" and ?sc = "new_conn True (sf_lenSeed sf)"
  have ends: "\<not> IsServer ?cc" "ReceiveBuffer ?cc = []" "IsServer ?sc" "ReceiveBuffer ?sc = []" "ReceiveDecodedBuffer ?sc = []"
    by (simp_all add: new_conn_def)
  have dial: "Dial c intn rnd now None None None (Ok reads) (Some ca) = Some (Ok conn, False)"
    if "defconn_clientHandshake c intn rnd now None reads ?cc (sf_nodeID sf) (kp_public (sf_identityKey sf)) (ca_sessionKey ca)
        = (out, Some (Ok conn, later))" for reads out conn later
    using that seed id by (simp add: Dial_def newdefconnClientConn_def)
  have sent: "fst (defconn_clientHandshake c intn rnd now None [] ?cc (sf_nodeID sf) (kp_public (sf_identityKey sf)) (ca_sessionKey ca)) = blob"
    using blob id newdefconnClientConn_sent [OF seed] by simp
  from session_links [OF S ends(1-4) sent chunks, of later]
  obtain out sconn f' where W: "defconn_serverHandshake c intn' rnd' None None None clks (map Ok chunks @ later) sf ?sc sk =
      (out, Some (Ok sconn, later), f')"
    and L: "\<And>rchunks. concat rchunks = out \<and> first_mark out (take 16 (drop (length out - 589) out)) (length out - 589) \<Longrightarrow>
      \<exists>cconn k ec dc es0 es ds frame.
        defconn_clientHandshake c intn rnd now None (map Ok rchunks) ?cc (sf_nodeID sf)
          (kp_public (sf_identityKey sf)) (ca_sessionKey ca) = (blob, Some (Ok cconn, map Ok (drop k rchunks))) \<and>
        cconn = ?cc\<lparr>ReceiveBuffer := ReceiveBuffer cconn, Encoder := Some ec, Decoder := Some dc\<rparr> \<and>
        sconn = ?sc\<lparr>Encoder := Some es, Decoder := Some ds\<rparr> \<and>
        link_ok c ec ds \<and> link_ok c es0 dc \<and> counter (e_nonce ec) = 1 \<and> counter (e_nonce es0) = 1 \<and>
        Send_all c es0 [seed_packet (sf_lenSeed sf)] = (Ok frame, es) \<and>
        ReceiveBuffer cconn @ concat (drop k rchunks) = frame" by blast
  have "WrapConn c intn' sdraws rnd' None None dl None clks t0 t1 (map Ok chunks @ later) sf =
      Some (out, Ok sconn, None, sf\<lparr>sf_replayFilter := f'\<rparr>)"
    using W sk by (simp add: WrapConn_def)
  moreover have "\<exists>seed b ec dc ds. Dial c intn rnd now None None None (Ok (map Ok rchunks)) (Some ca) =
          Some (Ok ((new_conn False seed)\<lparr>ReceiveBuffer := b, Encoder := Some ec, Decoder := Some dc\<rparr>), False) \<and>
        counter (e_nonce ec) = 1 \<and> link_ok c ec ds \<and>
        Decoder sconn = Some ds \<and> ReceiveBuffer sconn = [] \<and> ReceiveDecodedBuffer sconn = [] \<and> IsServer sconn"
    if R: "concat rchunks = out \<and> first_mark out (take 16 (drop (length out - 589) out)) (length out - 589)" for rchunks
  proof -
    from L [OF R] obtain cconn k ec dc es ds where
      C: "defconn_clientHandshake c intn rnd now None (map Ok rchunks) ?cc (sf_nodeID sf)
          (kp_public (sf_identityKey sf)) (ca_sessionKey ca) = (blob, Some (Ok cconn, map Ok (drop k rchunks)))"
      and E: "cconn = ?cc\<lparr>ReceiveBuffer := ReceiveBuffer cconn, Encoder := Some ec, Decoder := Some dc\<rparr>"
        "sconn = ?sc\<lparr>Encoder := Some es, Decoder := Some ds\<rparr>" "link_ok c ec ds" "counter (e_nonce ec) = 1" by blast
    have "Decoder sconn = Some ds" "ReceiveBuffer sconn = []" "ReceiveDecodedBuffer sconn = []" "IsServer sconn"
      by (simp_all add: E(2) ends)
    moreover have "Dial c intn rnd now None None None (Ok (map Ok rchunks)) (Some ca) =
        Some (Ok (?cc\<lparr>ReceiveBuffer := ReceiveBuffer cconn, Encoder := Some ec, Decoder := Some dc\<rparr>), False)"
      by (subst E(1) [symmetric]) (rule dial [OF C])
    ultimately show ?thesis using E(3,4) by blast
  qed
  ultimately show ?thesis by blast
qed

end
