(* ===== verification/RandomWT.thy ===== *)
theory RandomWT
  imports Defence
begin

text \<open>
  The Random-WT defence (a randomised walkie-talkie), \<open>transports/randomwt/randomwt.go\<close>,
  \<open>packet.go\<close> and \<open>state.go\<close>. The two ends talk in turns: a burst ends with a Finish packet,
  which hands the turn to the peer through its channel \<open>canSendChan\<close>. The main loop of \<open>ReadFrom\<close>
  is modelled one channel operation per step, so that the ticker, the send routine and the reader may act in
  between; \<open>talk\<close> is the point the main loop has reached. The framing, the packet layout and the handshake of
  the package are textual copies of those of \<open>defconn\<close>, and the record extends the connection of
  \<open>Defence\<close>: \<open>recvBuf\<close> is the local \<open>receiveBuf\<close> of \<open>padRealBurst\<close>, \<open>queued\<close> what was
  sent to \<open>writeChan\<close>; the fields \<open>ConnState\<close>, \<open>nRealSegSent\<close> and \<open>nRealSegRcv\<close> do not exist in
  this package and are not used.

  Samples and the results of upstream reads are parameters of the events. The packet that the deferred
  \<open>tearDown\<close> writes when \<open>ReadFrom\<close> returns is not part of the runs.
\<close>

section \<open>State\<close>

definition packetTypePayload :: byte where [simp]: "packetTypePayload = 0"
definition packetTypeDummy :: byte where [simp]: "packetTypeDummy = 1"
definition packetTypePrngSeed :: byte where [simp]: "packetTypePrngSeed = 2"
definition packetTypeFakeFinish :: byte where [simp]: "packetTypeFakeFinish = 3"
definition packetTypeRealFinish :: byte where [simp]: "packetTypeRealFinish = 4"
definition packetTypeTearDown :: byte where [simp]: "packetTypeTearDown = 5"
definition packetTypeSignalStart :: byte where [simp]: "packetTypeSignalStart = 6"
definition packetTypeSignalStop :: byte where [simp]: "packetTypeSignalStop = 7"

datatype wt_state = stateStart | stateStop | stateStartReady

datatype signal = signalReal | signalDummy | signalTearDown

text \<open>Where the main loop is: in its \<open>select\<close>; before the upstream read of \<open>padRealBurst\<close>; in the loop over
  the data (with the bound for the dummies that follow); in the loop of \<open>sampleDummyBurst\<close> (the dummies left,
  and whether the packet that ends the burst is a FakeFinish or a RealFinish); or returned.\<close>

datatype talk = Select | Upstream_read | Cells int | Dummies nat bool | Returned

record randomwtConn = relay +
  wt_nClientReal :: int
  wt_nServerReal :: int
  wt_nClientFake :: int
  wt_nServerFake :: int
  wt_state :: wt_state
  wt_chan :: "signal list"
  realNSeg :: u32
  isFakeTurn :: u32
  wt_sent :: nat
  wt_talk :: talk

section \<open>Receiving\<close>

text \<open>The \<open>switch\<close> of \<open>readPackets\<close>. The channel holds one signal; a reader that finds it full waits for
  the main loop to take it, which here is a channel with two signals.\<close>

definition randomwt_handle :: "'a randomwtConn_scheme handler" where
  "randomwt_handle conn pktType payload rest =
    (if pktType = packetTypePayload then
       (if length payload > 0
        then Some (conn\<lparr>ReceiveDecodedBuffer := ReceiveDecodedBuffer conn @ payload\<rparr>, None)
        else Some (conn, None))
     else if pktType = packetTypePrngSeed then
       (if length payload = SeedPacketPayloadLength \<and> \<not> IsServer conn then
          (case SeedFromBytes payload of
             Ok seed \<Rightarrow> Some (conn\<lparr>LenDist := seed\<rparr>, None)
           | Err er \<Rightarrow> Some (conn, Some (SeedError er)) | Panic \<Rightarrow> None)
        else Some (conn, None))
     else if pktType = packetTypeRealFinish then Some (conn\<lparr>wt_chan := wt_chan conn @ [signalReal]\<rparr>, None)
     else if pktType = packetTypeFakeFinish then Some (conn\<lparr>wt_chan := wt_chan conn @ [signalDummy]\<rparr>, None)
     else if pktType = packetTypeTearDown then Some (conn\<lparr>wt_chan := wt_chan conn @ [signalTearDown]\<rparr>, None)
     else if pktType = packetTypeSignalStart then
       (if \<not> IsServer conn then None
        else if wt_state conn \<noteq> stateStart then Some (conn\<lparr>wt_state := stateStart\<rparr>, None) else Some (conn, None))
     else if pktType = packetTypeSignalStop then
       (if \<not> IsServer conn then None
        else if wt_state conn \<noteq> stateStop then Some (conn\<lparr>wt_state := stateStop\<rparr>, None) else Some (conn, None))
     else Some (conn, None))"

definition randomwt_readPackets :: "crypto \<Rightarrow> (int \<Rightarrow> int) \<Rightarrow> 'a randomwtConn_scheme \<Rightarrow> bytes \<Rightarrow> nat option \<Rightarrow>
    (unit, packet_error option) outcome \<times> 'a randomwtConn_scheme" where
  "randomwt_readPackets c intn = read_packets c intn randomwt_handle"

section \<open>Bursts\<close>

text \<open>The size of a dummy burst; \<open>Panic\<close> where \<open>utils.Uniform\<close> panics (a negative bound).\<close>

definition sampleDummyBurst :: "(int \<Rightarrow> int) \<Rightarrow> int \<Rightarrow> 'a randomwtConn_scheme \<Rightarrow> (unit, nat) outcome" where
  "sampleDummyBurst intn n conn =
    (if wt_state conn = stateStop then Ok 0 else and_then (Uniform intn 0 n) (\<lambda>k. Ok (nat k)))"

text \<open>\<open>sampleDummyBurst\<close> is entered: the dummies and the packet that ends the burst are still to be sent.\<close>

definition begin_dummies :: "(int \<Rightarrow> int) \<Rightarrow> int \<Rightarrow> bool \<Rightarrow> 'a randomwtConn_scheme \<Rightarrow> 'a randomwtConn_scheme option" where
  "begin_dummies intn n fake conn =
    (case sampleDummyBurst intn n conn of
       Ok k \<Rightarrow> Some (conn\<lparr>wt_talk := Dummies k fake\<rparr>)
     | _ \<Rightarrow> None)"

definition finish_type :: "bool \<Rightarrow> byte" where
  "finish_type fake = (if fake then packetTypeFakeFinish else packetTypeRealFinish)"

definition dummy_step :: "nat \<Rightarrow> bool \<Rightarrow> 'a randomwtConn_scheme \<Rightarrow> 'a randomwtConn_scheme" where
  "dummy_step k fake conn =
    (if k > 0 then send_pkt (empty_cell packetTypeDummy) (conn\<lparr>wt_talk := Dummies (k - 1) fake\<rparr>)
     else send_pkt (empty_cell (finish_type fake)) (conn\<lparr>wt_talk := Select\<rparr>))"

definition nFake :: "'a randomwtConn_scheme \<Rightarrow> int" where
  "nFake conn = (if IsServer conn then wt_nServerFake conn else wt_nClientFake conn)"

definition nReal :: "'a randomwtConn_scheme \<Rightarrow> int" where
  "nReal conn = (if IsServer conn then wt_nServerReal conn else wt_nClientReal conn)"

text \<open>In Start neither branch assigns \<open>nextState\<close>, which is then the zero value \<open>stateStart\<close>.\<close>

definition nextState :: "nat \<Rightarrow> wt_state \<Rightarrow> wt_state" where
  "nextState rdLen cur =
    (if cur = stateStop then (if rdLen \<le> MaxPacketPayloadLength then stateStartReady else stateStart)
     else if cur = stateStartReady then stateStart
     else stateStart)"

definition client_state :: "nat \<Rightarrow> 'a randomwtConn_scheme \<Rightarrow> 'a randomwtConn_scheme" where
  "client_state rdLen conn =
    (if IsServer conn then conn
     else (let next = nextState rdLen (wt_state conn);
               conn1 = (if next = stateStart \<and> wt_state conn \<noteq> stateStart
                        then send_pkt (empty_cell packetTypeSignalStart) conn else conn)
           in conn1\<lparr>wt_state := next\<rparr>))"

text \<open>The read of \<open>padRealBurst\<close>: data, a timeout, or an error (also of \<open>SetReadDeadline\<close>).\<close>

datatype upstream = Read_data bytes | Read_timeout | Read_error

definition padRealBurst :: "(int \<Rightarrow> int) \<Rightarrow> upstream \<Rightarrow> 'a randomwtConn_scheme \<Rightarrow> 'a randomwtConn_scheme option" where
  "padRealBurst intn rd conn =
    (case rd of
       Read_data d \<Rightarrow>
         if length d > 65535 then None
         else Some ((client_state (length d) conn)\<lparr>recvBuf := recvBuf conn @ d, wt_talk := Cells (nReal conn)\<rparr>)
     | Read_timeout \<Rightarrow> begin_dummies intn (nFake conn) False conn
     | Read_error \<Rightarrow> Some (conn\<lparr>wt_talk := Returned\<rparr>))"

definition real_step :: "(int \<Rightarrow> int) \<Rightarrow> int \<Rightarrow> 'a randomwtConn_scheme \<Rightarrow> 'a randomwtConn_scheme option" where
  "real_step intn n conn =
    (if recvBuf conn \<noteq> [] then
       (let d = take MaxPacketPayloadLength (recvBuf conn)
        in Some (send_pkt (data_cell packetTypePayload d)
             (conn\<lparr>recvBuf := drop MaxPacketPayloadLength (recvBuf conn),
               written := i64 (written conn + int (length d))\<rparr>)))
     else begin_dummies intn n False conn)"

section \<open>The main loop\<close>

text \<open>\<open>fake\<close> is the Bernoulli sample for \<open>pFake\<close>. A client that skips its fake turn puts the turn back into its
  own channel.\<close>

definition clientTalkie :: "(int \<Rightarrow> int) \<Rightarrow> bool \<Rightarrow> u32 \<Rightarrow> 'a randomwtConn_scheme \<Rightarrow> 'a randomwtConn_scheme option" where
  "clientTalkie intn fake turn conn =
    (if wt_state conn \<noteq> stateStop \<and> turn mod 2 = 1 then
       (if fake then begin_dummies intn (wt_nClientFake conn) True conn
        else if wt_chan conn = [] then Some (conn\<lparr>wt_chan := [signalReal]\<rparr>) else None)
     else Some (conn\<lparr>wt_talk := Upstream_read\<rparr>))"

definition serverTalkie :: "(int \<Rightarrow> int) \<Rightarrow> signal \<Rightarrow> 'a randomwtConn_scheme \<Rightarrow> 'a randomwtConn_scheme option" where
  "serverTalkie intn sig conn =
    (case sig of
       signalDummy \<Rightarrow> begin_dummies intn (wt_nServerFake conn) True conn
     | signalReal \<Rightarrow> Some (conn\<lparr>wt_talk := Upstream_read\<rparr>)
     | signalTearDown \<Rightarrow> None)"

definition take_signal :: "(int \<Rightarrow> int) \<Rightarrow> bool \<Rightarrow> 'a randomwtConn_scheme \<Rightarrow> 'a randomwtConn_scheme option" where
  "take_signal intn fake conn =
    (case wt_chan conn of
       [] \<Rightarrow> None
     | sig # chan \<Rightarrow>
        (let conn1 = conn\<lparr>wt_chan := chan\<rparr>
         in if wt_talk conn \<noteq> Select then None
            else if sig = signalTearDown then Some (conn1\<lparr>wt_talk := Returned\<rparr>)
            else if \<not> IsServer conn
            then clientTalkie intn fake (isFakeTurn conn) (conn1\<lparr>isFakeTurn := (isFakeTurn conn + 1) mod 2\<rparr>)
            else serverTalkie intn sig conn1))"

text \<open>The timer that breaks a silence of \<open>aliveCheckingTime\<close>.\<close>

definition alive :: "'a randomwtConn_scheme \<Rightarrow> 'a randomwtConn_scheme option" where
  "alive conn = (if wt_talk conn = Select then Some (send_pkt (empty_cell packetTypeRealFinish) conn) else None)"

section \<open>The other goroutines\<close>

text \<open>The send routine takes the next packet off \<open>writeChan\<close> and counts real packets.\<close>

definition wt_send :: "'a randomwtConn_scheme \<Rightarrow> 'a randomwtConn_scheme option" where
  "wt_send conn =
    (if wt_sent conn < length (queued conn) then
       Some (conn\<lparr>wt_sent := wt_sent conn + 1,
         realNSeg := (if PktType (queued conn ! wt_sent conn) = packetTypePayload
                      then realNSeg conn + 1 else realNSeg conn)\<rparr>)
     else None)"

definition wt_ticker :: "'a randomwtConn_scheme \<Rightarrow> 'a randomwtConn_scheme" where
  "wt_ticker conn =
    (if \<not> IsServer conn \<and> wt_state conn \<noteq> stateStop \<and> realNSeg conn < 2
     then (send_pkt (empty_cell packetTypeSignalStop) conn)\<lparr>wt_state := stateStop\<rparr> else conn)\<lparr>realNSeg := 0\<rparr>"

section \<open>Runs\<close>

datatype randomwt_event = RTake "int \<Rightarrow> int" bool | RRead "int \<Rightarrow> int" upstream | RCell "int \<Rightarrow> int" | RDummy
  | RAlive | RError | RSend | RTick | RRecv byte bytes bytes

definition randomwt_step :: "randomwt_event \<Rightarrow> 'a randomwtConn_scheme \<Rightarrow> 'a randomwtConn_scheme option" where
  "randomwt_step ev conn =
    (case ev of
       RTake intn fake \<Rightarrow> take_signal intn fake conn
     | RRead intn rd \<Rightarrow> if wt_talk conn = Upstream_read then padRealBurst intn rd conn else None
     | RCell intn \<Rightarrow> (case wt_talk conn of Cells n \<Rightarrow> real_step intn n conn | _ \<Rightarrow> None)
     | RDummy \<Rightarrow> (case wt_talk conn of Dummies k fake \<Rightarrow> Some (dummy_step k fake conn) | _ \<Rightarrow> None)
     | RAlive \<Rightarrow> alive conn
     | RError \<Rightarrow> if wt_talk conn = Select then Some (conn\<lparr>wt_talk := Returned\<rparr>) else None
     | RSend \<Rightarrow> wt_send conn
     | RTick \<Rightarrow> Some (wt_ticker conn)
     | RRecv t p r \<Rightarrow> (case randomwt_handle conn t p r of None \<Rightarrow> None | Some (conn', _) \<Rightarrow> Some conn'))"

fun randomwt_input :: "randomwt_event \<Rightarrow> bytes" where
  "randomwt_input (RRead intn (Read_data d)) = d"
| "randomwt_input _ = []"

definition randomwt_accepts :: "bool \<Rightarrow> byte \<Rightarrow> bytes \<Rightarrow> bytes \<Rightarrow> bool" where
  "randomwt_accepts server t p r \<longleftrightarrow> server \<or> (t \<noteq> packetTypeSignalStart \<and> t \<noteq> packetTypeSignalStop)"

section \<open>The contract\<close>

interpretation randomwt: packet_handler "randomwt_handle :: 'a randomwtConn_scheme handler" randomwt_accepts
proof
  fix s :: "'a randomwtConn_scheme" and t p r
  show "\<exists>s'. randomwt_handle s t p r = Some (s', None) \<and> IsServer s' = IsServer s \<and>
      ReceiveDecodedBuffer s' = ReceiveDecodedBuffer s @ (if t = PacketTypePayload then p else [])"
    if "randomwt_accepts (IsServer s) t p r"
    using that by (auto simp: randomwt_handle_def randomwt_accepts_def SeedFromBytes_def)
  show "keeps_link (randomwt_handle :: 'a randomwtConn_scheme handler)"
    by (auto simp: keeps_link_def randomwt_handle_def SeedFromBytes_def split: if_splits outcome.splits)
qed

lemma wt_send_pkt [simp]:
  "wt_talk (send_pkt p conn) = wt_talk conn" "wt_chan (send_pkt p conn) = wt_chan conn"
  "wt_sent (send_pkt p conn) = wt_sent conn" "wt_state (send_pkt p conn) = wt_state conn"
  "wt_nClientReal (send_pkt p conn) = wt_nClientReal conn" "wt_nServerReal (send_pkt p conn) = wt_nServerReal conn"
  "wt_nClientFake (send_pkt p conn) = wt_nClientFake conn" "wt_nServerFake (send_pkt p conn) = wt_nServerFake conn"
  by (simp_all add: send_pkt_def)

lemma begin_dummies_Some:
  "begin_dummies intn n fake conn = Some conn' \<Longrightarrow> \<exists>k. conn' = conn\<lparr>wt_talk := Dummies k fake\<rparr>"
  by (auto simp: begin_dummies_def split: outcome.splits)

text \<open>The packets that the steps put into \<open>writeChan\<close>; the last two of them only a client sends.\<close>

lemma client_state_sends:
  "\<exists>ps. queued (client_state n conn) = queued conn @ ps \<and> recvBuf (client_state n conn) = recvBuf conn \<and>
     IsServer (client_state n conn) = IsServer conn \<and> wt_chan (client_state n conn) = wt_chan conn \<and>
     wt_sent (client_state n conn) = wt_sent conn \<and>
     (ps = [] \<or> \<not> IsServer conn \<and> ps = [empty_cell packetTypeSignalStart])"
  by (auto simp: client_state_def Let_def)

lemma ticker_sends:
  "\<exists>ps. queued (wt_ticker conn) = queued conn @ ps \<and> recvBuf (wt_ticker conn) = recvBuf conn \<and>
     IsServer (wt_ticker conn) = IsServer conn \<and> wt_chan (wt_ticker conn) = wt_chan conn \<and>
     wt_sent (wt_ticker conn) = wt_sent conn \<and> wt_talk (wt_ticker conn) = wt_talk conn \<and>
     (ps = [] \<or> \<not> IsServer conn \<and> ps = [empty_cell packetTypeSignalStop])"
  by (auto simp: wt_ticker_def)

definition fin_type :: "byte \<Rightarrow> bool" where
  "fin_type t \<longleftrightarrow> t = packetTypeRealFinish \<or> t = packetTypeFakeFinish"

lemma randomwt_accepts_cells [simp]:
  "randomwt_accepts server 0 p r" "randomwt_accepts server 1 p r" "randomwt_accepts True t p r"
  "fin_type t \<Longrightarrow> randomwt_accepts server t p r"
  by (auto simp: randomwt_accepts_def fin_type_def)

lemma fin_type_finish [simp]: "fin_type (finish_type fake)" "fin_type 4" "fin_type 3"
  by (simp_all add: fin_type_def finish_type_def)

lemma padRealBurst_keeps:
  assumes "padRealBurst intn rd conn = Some conn'"
  shows "relay_keeps randomwt_accepts conn (randomwt_input (RRead intn rd)) conn'"
proof (cases rd)
  case (Read_data d)
  then show ?thesis
    using assms client_state_sends [of "length d" conn]
    by (auto simp: padRealBurst_def relay_keeps_def split: if_splits)
qed (use assms in \<open>auto simp: padRealBurst_def intro!: relay_keeps_quiet dest!: begin_dummies_Some\<close>)

lemma real_step_keeps:
  assumes "real_step intn n conn = Some conn'"
  shows "relay_keeps randomwt_accepts conn [] conn'"
proof (cases "recvBuf conn = []")
  case False
  let ?p = "data_cell packetTypePayload (take 536 (recvBuf conn))"
  have "cell_ok ?p" by (rule data_cell_ok) simp
  then show ?thesis
    using False assms by (intro relay_keepsI [where ps = "[?p]"]) (auto simp: real_step_def Let_def)
qed (use assms in \<open>auto simp: real_step_def intro!: relay_keeps_quiet dest!: begin_dummies_Some\<close>)

lemma dummy_step_keeps: "relay_keeps randomwt_accepts conn [] (dummy_step k fake conn)"
  by (rule relay_keepsI [where ps = "[empty_cell (if k > 0 then packetTypeDummy else finish_type fake)]"])
    (auto simp: dummy_step_def finish_type_def)

lemma take_signal_quiet:
  assumes "take_signal intn fake conn = Some conn'"
  shows "IsServer conn' = IsServer conn \<and> queued conn' = queued conn \<and> recvBuf conn' = recvBuf conn \<and>
    wt_sent conn' = wt_sent conn"
  using assms by (auto simp: take_signal_def clientTalkie_def serverTalkie_def Let_def
      split: list.splits if_splits signal.splits dest!: begin_dummies_Some)

lemma randomwt_handle_quiet:
  assumes "randomwt_handle conn t p r = Some (conn', e)"
  shows "IsServer conn' = IsServer conn \<and> queued conn' = queued conn \<and> recvBuf conn' = recvBuf conn \<and>
    wt_sent conn' = wt_sent conn \<and> wt_talk conn' = wt_talk conn \<and>
    (\<exists>sig. wt_chan conn' = wt_chan conn @ sig \<and> length sig = (if fin_type t \<or> t = packetTypeTearDown then 1 else 0))"
  using assms by (auto simp: randomwt_handle_def fin_type_def split: if_splits outcome.splits)

lemma randomwt_step_keeps:
  assumes "randomwt_step ev conn = Some conn'"
  shows "relay_keeps randomwt_accepts conn (randomwt_input ev) conn'"
proof (cases ev)
  case (RTake intn fake)
  with assms take_signal_quiet [of intn fake conn conn'] show ?thesis
    by (auto simp: randomwt_step_def intro: relay_keeps_quiet)
next
  case (RRead intn rd)
  with assms show ?thesis by (auto simp: randomwt_step_def intro: padRealBurst_keeps split: if_splits)
next
  case (RCell intn)
  with assms show ?thesis by (auto simp: randomwt_step_def intro: real_step_keeps split: talk.splits)
next
  case RDummy
  with assms show ?thesis by (auto simp: randomwt_step_def intro: dummy_step_keeps split: talk.splits)
next
  case RAlive
  with assms show ?thesis
    by (auto simp: randomwt_step_def alive_def randomwt_accepts_def relay_keeps_def split: if_splits)
next
  case RTick
  with assms ticker_sends [of conn] show ?thesis by (auto simp: randomwt_step_def relay_keeps_def)
next
  case (RRecv t p r)
  with assms randomwt_handle_quiet [of conn t p r conn'] show ?thesis
    by (auto simp: randomwt_step_def intro!: relay_keeps_quiet split: option.splits)
qed (use assms in \<open>auto simp: randomwt_step_def wt_send_def intro!: relay_keeps_quiet split: if_splits\<close>)

interpretation randomwt: relay_tunnel "randomwt_step :: randomwt_event \<Rightarrow> 'a randomwtConn_scheme \<Rightarrow> 'a randomwtConn_scheme option"
  randomwt_input randomwt_accepts "randomwt_handle :: 'p randomwtConn_scheme handler"
proof (unfold_locales, goal_cases)
  case (1 ev s s')
  from relay_keeps_step [OF randomwt_step_keeps [OF this(1)]] show ?case by simp
next
  case (2 ev s s')
  then show ?case using randomwt_step_keeps by (auto simp: relay_keeps_def)
qed simp_all

section \<open>Two ends that take turns\<close>

text \<open>A client and a server with the network between them: \<open>c2s\<close> and \<open>s2c\<close> are the numbers of packets
  that have arrived. By the delivery theorem packets arrive whole and in order. The timer that breaks a
  silence is left out here: it gives the peer a turn that nobody handed over.\<close>

record wt_net =
  wt_client :: randomwtConn
  wt_server :: randomwtConn
  c2s :: nat
  s2c :: nat

fun own_event :: "randomwt_event \<Rightarrow> bool" where
  "own_event RAlive = False"
| "own_event (RRecv _ _ _) = False"
| "own_event _ = True"

definition arrives :: "PacketInfo \<Rightarrow> randomwtConn \<Rightarrow> randomwtConn option" where
  "arrives p conn = randomwt_step (RRecv (PktType p) (Data p) (replicate (unat (PadLen p)) 0)) conn"

inductive wt_step :: "wt_net \<Rightarrow> wt_net \<Rightarrow> bool" where
  Client: "own_event ev \<Longrightarrow> randomwt_step ev (wt_client n) = Some conn \<Longrightarrow> wt_step n (n\<lparr>wt_client := conn\<rparr>)"
| Server: "own_event ev \<Longrightarrow> randomwt_step ev (wt_server n) = Some conn \<Longrightarrow> wt_step n (n\<lparr>wt_server := conn\<rparr>)"
| To_server: "c2s n < wt_sent (wt_client n) \<Longrightarrow> arrives (queued (wt_client n) ! c2s n) (wt_server n) = Some conn \<Longrightarrow>
    wt_step n (n\<lparr>wt_server := conn, c2s := c2s n + 1\<rparr>)"
| To_client: "s2c n < wt_sent (wt_server n) \<Longrightarrow> arrives (queued (wt_server n) ! s2c n) (wt_client n) = Some conn \<Longrightarrow>
    wt_step n (n\<lparr>wt_client := conn, s2c := s2c n + 1\<rparr>)"

text \<open>Entering the copy loop: the client has the first turn.\<close>

definition wt_end :: "bool \<Rightarrow> randomwtConn \<Rightarrow> bool" where
  "wt_end server conn \<longleftrightarrow> IsServer conn = server \<and> wt_talk conn = Select \<and> queued conn = [] \<and> wt_sent conn = 0 \<and>
     wt_chan conn = (if server then [] else [signalReal])"

definition wt_init :: "wt_net \<Rightarrow> bool" where
  "wt_init n \<longleftrightarrow> wt_end False (wt_client n) \<and> wt_end True (wt_server n) \<and> c2s n = 0 \<and> s2c n = 0"

definition talking :: "'a randomwtConn_scheme \<Rightarrow> bool" where
  "talking conn \<longleftrightarrow> wt_talk conn \<noteq> Select \<and> wt_talk conn \<noteq> Returned"

subsection \<open>One end\<close>

definition fins :: "PacketInfo list \<Rightarrow> nat" where
  "fins ps = length (filter (\<lambda>p. fin_type (PktType p)) ps)"

definition turns_of :: "'a randomwtConn_scheme \<Rightarrow> nat" where
  "turns_of conn = length (wt_chan conn) + (if talking conn then 1 else 0)"

text \<open>A burst without the stop signals, which the ticker may put anywhere.\<close>

definition burst_of :: "PacketInfo list \<Rightarrow> PacketInfo list" where
  "burst_of ps = filter (\<lambda>p. PktType p \<noteq> packetTypeSignalStop) ps"

lemma fins_simps [simp]:
  "fins [] = 0" "fins (p # ps) = (if fin_type (PktType p) then 1 else 0) + fins ps" "fins (ps @ qs) = fins ps + fins qs"
  by (simp_all add: fins_def)

lemma burst_of_simps [simp]:
  "burst_of [] = []" "burst_of (ps @ qs) = burst_of ps @ burst_of qs"
  "burst_of (p # ps) = (if PktType p = 7 then burst_of ps else p # burst_of ps)"
  by (simp_all add: burst_of_def)

lemma fin_type_numeral [simp]: "\<not> fin_type 0" "\<not> fin_type 1" "\<not> fin_type 6" "\<not> fin_type 7" "\<not> fin_type 5"
  by (simp_all add: fin_type_def)

lemma finish_type_not [simp]: "finish_type fake \<noteq> 7" "finish_type fake \<noteq> 6" "finish_type fake \<noteq> 5"
  by (simp_all add: finish_type_def)

text \<open>What a step of an end's own routines does: it appends at most one packet; a turn is used up by the Finish
  packet, or lost when the routine returns; and a burst packet is followed by more of the burst or is its Finish.\<close>

definition own_step :: "'a randomwtConn_scheme \<Rightarrow> PacketInfo list \<Rightarrow> 'a randomwtConn_scheme \<Rightarrow> bool" where
  "own_step conn ps conn' \<longleftrightarrow> IsServer conn' = IsServer conn \<and> queued conn' = queued conn @ ps \<and>
     wt_sent conn \<le> wt_sent conn' \<and> wt_sent conn' \<le> max (wt_sent conn) (length (queued conn)) \<and>
     (\<forall>p \<in> set ps. PktType p \<noteq> 5 \<and> randomwt_accepts (\<not> IsServer conn) (PktType p) (Data p) (replicate (unat (PadLen p)) 0)) \<and>
     turns_of conn' + fins ps \<le> turns_of conn \<and>
     (wt_talk conn' \<noteq> Returned \<longrightarrow> wt_talk conn \<noteq> Returned \<and> turns_of conn' + fins ps = turns_of conn) \<and>
     (if burst_of ps = [] then talking conn \<longrightarrow> talking conn' \<or> turns_of conn' < turns_of conn
      else talking conn' \<or> fin_type (PktType (last (burst_of ps))))"

lemma take_signal_own: "take_signal intn fake conn = Some conn' \<Longrightarrow> own_step conn [] conn'"
  using take_signal_quiet [of intn fake conn conn']
  by (auto simp: own_step_def take_signal_def clientTalkie_def serverTalkie_def turns_of_def talking_def Let_def
      split: list.splits if_splits signal.splits dest!: begin_dummies_Some)

lemma padRealBurst_own:
  assumes "padRealBurst intn rd conn = Some conn'" "wt_talk conn = Upstream_read"
  shows "\<exists>ps. own_step conn ps conn'"
proof (cases rd)
  case (Read_data d)
  then show ?thesis
    using assms client_state_sends [of "length d" conn]
    by (auto simp: padRealBurst_def own_step_def turns_of_def talking_def split: if_splits)
qed (use assms in \<open>auto simp: padRealBurst_def own_step_def turns_of_def talking_def intro!: exI [of _ "[]"]
      dest!: begin_dummies_Some\<close>)

lemma real_step_own:
  assumes "real_step intn n conn = Some conn'" "wt_talk conn = Cells n"
  shows "\<exists>ps. own_step conn ps conn'"
proof (cases "recvBuf conn = []")
  case False
  let ?p = "data_cell packetTypePayload (take 536 (recvBuf conn))"
  show ?thesis
    using False assms by (intro exI [of _ "[?p]"]) (auto simp: real_step_def own_step_def turns_of_def talking_def Let_def)
qed (use assms in \<open>auto simp: real_step_def own_step_def turns_of_def talking_def intro!: exI [of _ "[]"]
      dest!: begin_dummies_Some\<close>)

lemma dummy_step_own: "wt_talk conn = Dummies k fake \<Longrightarrow> \<exists>ps. own_step conn ps (dummy_step k fake conn)"
  by (rule exI [of _ "[empty_cell (if k > 0 then packetTypeDummy else finish_type fake)]"])
    (auto simp: dummy_step_def own_step_def turns_of_def talking_def)

lemma own_event_step:
  assumes "randomwt_step ev conn = Some conn'" "own_event ev"
  shows "\<exists>ps. own_step conn ps conn'"
proof (cases ev)
  case RTick
  with assms ticker_sends [of conn] show ?thesis
    by (auto simp: randomwt_step_def own_step_def turns_of_def talking_def)
next
  case (RTake intn fake)
  with assms show ?thesis by (auto simp: randomwt_step_def intro: take_signal_own)
next
  case (RRead intn rd)
  with assms show ?thesis by (auto simp: randomwt_step_def intro: padRealBurst_own split: if_splits)
next
  case (RCell intn)
  with assms show ?thesis by (auto simp: randomwt_step_def intro: real_step_own split: talk.splits)
next
  case RDummy
  with assms show ?thesis by (auto simp: randomwt_step_def intro: dummy_step_own split: talk.splits)
qed (use assms in \<open>auto simp: randomwt_step_def wt_send_def own_step_def turns_of_def talking_def
      intro!: exI [of _ "[]"] split: if_splits\<close>)

subsection \<open>Both ends\<close>

text \<open>The turns in the system: held by an end, waiting in a channel, or on the way in a Finish packet. The invariant
  is stated for two ends \<open>a\<close> and \<open>b\<close> of which \<open>i\<close> and \<open>j\<close> packets have arrived, and is symmetric.\<close>

definition turns :: "randomwtConn \<Rightarrow> nat \<Rightarrow> randomwtConn \<Rightarrow> nat \<Rightarrow> nat" where
  "turns a i b j = turns_of a + turns_of b + fins (drop i (queued a)) + fins (drop j (queued b))"

definition sends_well :: "nat \<Rightarrow> randomwtConn \<Rightarrow> bool" where
  "sends_well i conn \<longleftrightarrow> i \<le> wt_sent conn \<and> wt_sent conn \<le> length (queued conn) \<and>
     (\<forall>p \<in> set (queued conn). PktType p \<noteq> 5 \<and>
       randomwt_accepts (\<not> IsServer conn) (PktType p) (Data p) (replicate (unat (PadLen p)) 0))"

definition flight :: "nat \<Rightarrow> nat \<Rightarrow> randomwtConn \<Rightarrow> bool" where
  "flight t i conn \<longleftrightarrow> burst_of (drop i (queued conn)) = [] \<or> talking conn \<or>
     fin_type (PktType (last (burst_of (drop i (queued conn))))) \<or> t = 0"

definition turns_ok :: "randomwtConn \<Rightarrow> nat \<Rightarrow> randomwtConn \<Rightarrow> nat \<Rightarrow> bool" where
  "turns_ok a i b j \<longleftrightarrow> IsServer b = (\<not> IsServer a) \<and> sends_well i a \<and> sends_well j b \<and>
     turns a i b j \<le> 1 \<and> (wt_talk a \<noteq> Returned \<and> wt_talk b \<noteq> Returned \<longrightarrow> turns a i b j = 1) \<and>
     flight (turns a i b j) i a \<and> flight (turns a i b j) j b"

lemma turns_ok_sym: "turns_ok a i b j \<Longrightarrow> turns_ok b j a i"
  by (auto simp: turns_ok_def turns_def algebra_simps)

lemma flight_mono: "flight t i conn \<Longrightarrow> t' \<le> t \<Longrightarrow> flight t' i conn"
  by (auto simp: flight_def)

lemma own_step_flight:
  assumes "own_step conn ps conn'" "flight t i conn" "i \<le> length (queued conn)" "t \<le> 1"
    "t = turns_of conn + rest" "t' = turns_of conn' + fins ps + rest"
  shows "flight t' i conn'"
proof -
  have b: "burst_of (drop i (queued conn')) = burst_of (drop i (queued conn)) @ burst_of ps"
    using assms(1,3) by (simp add: own_step_def)
  have le: "t' \<le> t" using assms(1,5,6) by (simp add: own_step_def)
  show ?thesis
  proof (cases "burst_of ps = []")
    case True
    then have "talking conn \<Longrightarrow> talking conn' \<or> t' = 0"
      using assms(1,4,5,6) by (auto simp: own_step_def turns_of_def burst_of_def filter_empty_conv fins_def fin_type_def)
    then show ?thesis using assms(2) le True b by (auto simp: flight_def)
  next
    case False
    then show ?thesis using assms(1) b by (auto simp: flight_def own_step_def)
  qed
qed

lemma own_step_turns_ok:
  assumes "own_step a ps a'" "turns_ok a i b j"
  shows "turns_ok a' i b j"
proof -
  have i: "i \<le> length (queued a)" using assms(2) by (simp add: turns_ok_def sends_well_def)
  then have t: "turns a' i b j = turns_of a' + fins ps + (turns_of b + fins (drop i (queued a)) + fins (drop j (queued b)))"
    using assms(1) by (simp add: turns_def own_step_def)
  have le: "turns a' i b j \<le> turns a i b j" using assms(1) t by (simp add: turns_def own_step_def)
  have "flight (turns a' i b j) i a'"
    by (rule own_step_flight [OF assms(1) _ i _ _ t, of "turns a i b j"]) (use assms(2) in \<open>simp_all add: turns_ok_def turns_def\<close>)
  moreover have "flight (turns a' i b j) j b" using assms(2) le by (auto simp: turns_ok_def intro: flight_mono)
  moreover have "sends_well i a'"
    using assms by (auto simp: turns_ok_def sends_well_def own_step_def)
  moreover have "wt_talk a' \<noteq> Returned \<and> wt_talk b \<noteq> Returned \<longrightarrow> turns a' i b j = 1"
    using assms t by (auto simp: turns_ok_def turns_def own_step_def)
  ultimately show ?thesis using assms le by (auto simp: turns_ok_def own_step_def)
qed

lemma arrives_quiet:
  assumes "arrives p conn = Some conn'" "PktType p \<noteq> 5"
  obtains sig where "IsServer conn' = IsServer conn" "queued conn' = queued conn" "wt_sent conn' = wt_sent conn"
    "wt_talk conn' = wt_talk conn" "wt_chan conn' = wt_chan conn @ sig"
    "length sig = (if fin_type (PktType p) then 1 else 0)"
proof -
  obtain e where "randomwt_handle conn (PktType p) (Data p) (replicate (unat (PadLen p)) 0) = Some (conn', e)"
    using assms(1) by (auto simp: arrives_def randomwt_step_def split: option.splits)
  from randomwt_handle_quiet [OF this] assms(2) that show ?thesis by auto
qed

lemma arrives_turns_ok:
  assumes "i < wt_sent a" "arrives (queued a ! i) b = Some b'" "turns_ok a i b j"
  shows "turns_ok a (i + 1) b' j"
proof -
  let ?p = "queued a ! i"
  have i: "i < length (queued a)" using assms(1,3) by (simp add: turns_ok_def sends_well_def)
  then have d: "drop i (queued a) = ?p # drop (Suc i) (queued a)" by (simp add: Cons_nth_drop_Suc)
  have p: "PktType ?p \<noteq> 5" using assms(3) i by (simp add: turns_ok_def sends_well_def)
  obtain sig where b': "IsServer b' = IsServer b" "queued b' = queued b" "wt_sent b' = wt_sent b" "wt_talk b' = wt_talk b"
    "wt_chan b' = wt_chan b @ sig" "length sig = (if fin_type (PktType ?p) then 1 else 0)"
    by (rule arrives_quiet [OF assms(2) p])
  have t: "turns a (i + 1) b' j = turns a i b j"
    using b' d by (simp add: turns_def turns_of_def talking_def)
  have "flight (turns a i b j) (i + 1) a"
    using assms(3) d by (auto simp: turns_ok_def flight_def split: if_splits)
  moreover have "flight (turns a i b j) j b'"
    using assms(3) b'(2,4) by (simp add: turns_ok_def flight_def talking_def)
  moreover have "sends_well (i + 1) a" using assms(1,3) by (simp add: turns_ok_def sends_well_def)
  moreover have "sends_well j b' = sends_well j b" by (simp only: sends_well_def b'(1-3))
  ultimately show ?thesis using assms(3) b'(1,4) t by (simp add: turns_ok_def)
qed

definition net_ok :: "wt_net \<Rightarrow> bool" where
  "net_ok n \<longleftrightarrow> IsServer (wt_server n) \<and> turns_ok (wt_client n) (c2s n) (wt_server n) (s2c n)"

lemma wt_step_net_ok: "wt_step n n' \<Longrightarrow> net_ok n \<Longrightarrow> net_ok n'"
proof (induction rule: wt_step.induct)
  case (Client ev n conn)
  then show ?case using own_event_step own_step_turns_ok by (fastforce simp: net_ok_def)
next
  case (Server ev n conn)
  obtain ps where ps: "own_step (wt_server n) ps conn" using own_event_step Server by blast
  then show ?case
    using turns_ok_sym own_step_turns_ok [OF ps turns_ok_sym] Server(3) by (auto simp: net_ok_def own_step_def)
next
  case (To_server n conn)
  then have "turns_ok (wt_client n) (c2s n + 1) conn (s2c n)" "\<not> IsServer (wt_client n)"
    using arrives_turns_ok [OF To_server(1,2)] by (auto simp: net_ok_def turns_ok_def)
  then show ?case by (simp add: net_ok_def turns_ok_def)
next
  case (To_client n conn)
  then show ?case using turns_ok_sym arrives_turns_ok [OF To_client(1,2) turns_ok_sym] by (simp add: net_ok_def)
qed

lemma wt_init_net_ok: "wt_init n \<Longrightarrow> net_ok n"
  by (auto simp: wt_init_def wt_end_def net_ok_def turns_ok_def turns_def turns_of_def talking_def sends_well_def flight_def)

lemma wt_reachable_net_ok: "wt_step\<^sup>*\<^sup>* n n' \<Longrightarrow> wt_init n \<Longrightarrow> net_ok n'"
  by (induction rule: rtranclp_induct) (auto intro: wt_step_net_ok wt_init_net_ok)

subsection \<open>Progress\<close>

text \<open>The bounds of the configuration for which \<open>utils.Uniform\<close> does not panic.\<close>

definition bounds_ok :: "'a randomwtConn_scheme \<Rightarrow> bool" where
  "bounds_ok conn \<longleftrightarrow> (\<forall>n \<in> {wt_nClientReal conn, wt_nServerReal conn, wt_nClientFake conn, wt_nServerFake conn}.
     0 \<le> n \<and> n < 2 ^ 62) \<and> (\<forall>n. wt_talk conn = Cells n \<longrightarrow> 0 \<le> n \<and> n < 2 ^ 62)"

lemma Uniform_zero: "0 \<le> n \<Longrightarrow> n < 2 ^ 62 \<Longrightarrow> \<exists>k. (Uniform (\<lambda>_. 0) 0 n :: (unit, int) outcome) = Ok k"
  using Uniform_ok [of "\<lambda>_. 0" 0 n] by (auto simp: intn_ok_def in_i64_def)

lemma begin_dummies_progress: "0 \<le> n \<Longrightarrow> n < 2 ^ 62 \<Longrightarrow> \<exists>conn'. begin_dummies (\<lambda>_. 0) n fake conn = Some conn'"
  using Uniform_zero [of n] by (auto simp: begin_dummies_def sampleDummyBurst_def)

text \<open>An end whose main loop is in a burst, or that finds a signal in its channel, can go on: by a step that is not
  a tick of the ticker.\<close>

lemma talking_progress:
  assumes "talking conn" "bounds_ok conn"
  shows "\<exists>ev conn'. own_event ev \<and> ev \<noteq> RTick \<and> randomwt_step ev conn = Some conn'"
proof (cases "wt_talk conn")
  case Upstream_read
  then show ?thesis
    by (intro exI [of _ "RRead (\<lambda>_. 0) (Read_data [])"]) (simp add: randomwt_step_def padRealBurst_def)
next
  case (Cells n)
  then have "\<exists>conn'. randomwt_step (RCell (\<lambda>_. 0)) conn = Some conn'"
    using begin_dummies_progress [of n False conn] assms(2) by (auto simp: randomwt_step_def real_step_def bounds_ok_def Let_def)
  then show ?thesis by (intro exI [of _ "RCell (\<lambda>_. 0)"]) simp
next
  case (Dummies k fake)
  then show ?thesis by (intro exI [of _ RDummy]) (simp add: randomwt_step_def)
qed (use assms(1) in \<open>simp_all add: talking_def\<close>)

lemma signal_progress:
  assumes "wt_talk conn = Select" "length (wt_chan conn) = 1" "bounds_ok conn"
  shows "\<exists>conn'. randomwt_step (RTake (\<lambda>_. 0) True) conn = Some conn'"
proof -
  obtain sig where "wt_chan conn = [sig]" using assms(2) by (auto simp: length_Suc_conv)
  then show ?thesis
    using assms(1,3) begin_dummies_progress
    by (cases sig) (auto simp: randomwt_step_def take_signal_def clientTalkie_def serverTalkie_def bounds_ok_def Let_def)
qed

text \<open>A Finish packet on the way can be sent or can arrive: the peer accepts every packet before it.\<close>

lemma flight_progress:
  assumes "sends_well i a" "IsServer b = (\<not> IsServer a)" "i < length (queued a)"
  shows "(\<exists>a'. randomwt_step RSend a = Some a') \<or> (i < wt_sent a \<and> (\<exists>b'. arrives (queued a ! i) b = Some b'))"
proof (cases "i < wt_sent a")
  case True
  have "randomwt_accepts (IsServer b) (PktType (queued a ! i)) (Data (queued a ! i))
      (replicate (unat (PadLen (queued a ! i))) 0)" using assms by (simp add: sends_well_def)
  from randomwt.handles [OF this] True show ?thesis by (auto simp: arrives_def randomwt_step_def)
next
  case False
  then show ?thesis using assms(1,3) by (auto simp: randomwt_step_def wt_send_def sends_well_def)
qed

lemma randomwt_step_bounds:
  assumes "randomwt_step ev conn = Some conn'" "bounds_ok conn"
  shows "bounds_ok conn'"
proof -
  have same: "wt_nClientReal (client_state n conn) = wt_nClientReal conn" "wt_nServerReal (client_state n conn) = wt_nServerReal conn"
    "wt_nClientFake (client_state n conn) = wt_nClientFake conn" "wt_nServerFake (client_state n conn) = wt_nServerFake conn"
    "wt_nClientReal (wt_ticker conn) = wt_nClientReal conn" "wt_nServerReal (wt_ticker conn) = wt_nServerReal conn"
    "wt_nClientFake (wt_ticker conn) = wt_nClientFake conn" "wt_nServerFake (wt_ticker conn) = wt_nServerFake conn"
    "wt_talk (wt_ticker conn) = wt_talk conn" for n
    by (simp_all add: client_state_def wt_ticker_def Let_def)
  show ?thesis
  proof (cases ev)
    case (RTake intn fake)
    with assms show ?thesis
      by (auto simp: randomwt_step_def take_signal_def clientTalkie_def serverTalkie_def bounds_ok_def Let_def
          split: list.splits if_splits signal.splits dest!: begin_dummies_Some)
  next
    case (RRead intn rd)
    with assms same show ?thesis
      by (auto simp: randomwt_step_def padRealBurst_def bounds_ok_def nReal_def split: if_splits upstream.splits
          dest!: begin_dummies_Some)
  next
    case (RRecv t p r)
    with assms show ?thesis
      by (auto simp: randomwt_step_def randomwt_handle_def bounds_ok_def split: option.splits if_splits outcome.splits)
  qed (use assms same in \<open>auto simp: randomwt_step_def real_step_def dummy_step_def alive_def wt_send_def bounds_ok_def Let_def
      split: if_splits talk.splits dest!: begin_dummies_Some\<close>)
qed

lemma wt_reachable_bounds:
  assumes "wt_step\<^sup>*\<^sup>* n n'" "bounds_ok (wt_client n)" "bounds_ok (wt_server n)"
  shows "bounds_ok (wt_client n') \<and> bounds_ok (wt_server n')"
  using assms
proof (induction rule: rtranclp_induct)
  case (step y z)
  from step(2) show ?case
    using step.IH [OF step.prems] by cases (auto simp: arrives_def intro: randomwt_step_bounds)
qed simp

section \<open>Properties\<close>

text \<open>C11: Random-WT relays the stream. Whatever the interleaving of turns, upstream reads, timeouts, dummies, ticks and
  received packets, the packets queued so far can be sent, occupy 557 bytes each, and the peer's reader gets
  exactly what came from upstream but for the part of the current burst that is not yet queued.\<close>

theorem randomwt_relays_stream:
  assumes "randomwt.run evs conn = Some conn'" "queued conn = []" "recvBuf conn = []" "link_ok c e dec"
    "intn_ok intn" "counter (e_nonce e) \<noteq> 0" "unat (counter (e_nonce e)) + length (queued conn') \<le> 2 ^ 64"
    "IsServer peer = (\<not> IsServer conn)" "Decoder peer = Some dec" "ReceiveBuffer peer = []"
    "ReceiveDecodedBuffer peer = []"
  shows "\<exists>wire e'. Send_all c e (queued conn') = (Ok wire, e') \<and> length wire = 557 * length (queued conn') \<and>
    (\<forall>chunks. concat chunks = wire \<and> [] \<notin> set chunks \<longrightarrow>
      (\<exists>peer' dec'. read_all (randomwt_readPackets c intn) peer chunks = (Ok None, peer') \<and>
        Decoder peer' = Some dec' \<and> link_ok c e' dec' \<and>
        ReceiveDecodedBuffer peer' @ recvBuf conn' = concat (map randomwt_input evs)))"
  unfolding randomwt_readPackets_def by (rule randomwt.relay_delivery [OF assms])

definition fresh_wt :: "bool \<Rightarrow> decoder option \<Rightarrow> randomwtConn" where
  "fresh_wt server dec = \<lparr>IsServer = server, LenDist = [], nRealSegSent = 0, nRealSegRcv = 0,
     ConnState = NewState, ReceiveBuffer = [], ReceiveDecodedBuffer = [], Encoder = None, Decoder = dec,
     recvBuf = [], queued = [], written = 0, wt_nClientReal = 3, wt_nServerReal = 4, wt_nClientFake = 5,
     wt_nServerFake = 6, wt_state = stateStop, wt_chan = (if server then [] else [signalReal]), realNSeg = 0,
     isFakeTurn = 0, wt_sent = 0, wt_talk = Select\<rparr>"

text \<open>The first turn of a client: 540 bytes from upstream make a start signal and two cells, then one dummy and
  the Finish packet.\<close>

definition demo_wt_run :: "randomwt_event list" where
  "demo_wt_run = [RTake (\<lambda>_. 1) True, RRead (\<lambda>_. 1) (Read_data (replicate 540 7)), RCell (\<lambda>_. 1), RCell (\<lambda>_. 1),
     RCell (\<lambda>_. 1), RDummy, RDummy]"

lemmas randomwt_eval = randomwt_step_def take_signal_def clientTalkie_def padRealBurst_def client_state_def nextState_def
  nReal_def real_step_def begin_dummies_def sampleDummyBurst_def Uniform_def csrand_Intn_def i64_def dummy_step_def
  finish_type_def send_pkt_def

lemma demo_wt_result:
  "\<exists>conn'. randomwt.run demo_wt_run (fresh_wt False None) = Some conn' \<and>
     map PktType (queued conn') = [6, 0, 0, 1, 4] \<and> recvBuf conn' = []"
  by (simp add: demo_wt_run_def fresh_wt_def randomwt_eval Let_def)

theorem randomwt_relays_stream_witness:
  "\<exists>e d conn' wire e' peer'. NewEncoder (replicate 72 3) = Ok e \<and> NewDecoder (replicate 72 3) = Ok d \<and>
     randomwt.run demo_wt_run (fresh_wt False None) = Some conn' \<and>
     Send_all demo_crypto e (queued conn') = (Ok wire, e') \<and>
     read_all (randomwt_readPackets demo_crypto (\<lambda>_. 0)) (fresh_wt True (Some d)) (map (\<lambda>b. [b]) wire) = (Ok None, peer') \<and>
     ReceiveDecodedBuffer peer' = replicate 540 7"
proof -
  obtain e d where ed: "NewEncoder (replicate 72 3) = Ok e" "NewDecoder (replicate 72 3) = Ok d"
    "linked e d" "counter (e_nonce e) = 1" using NewEncoder_NewDecoder [of "replicate 72 3"] by auto
  then have l: "link_ok demo_crypto e d" using demo_crypto_link_ok by (simp add: link_ok_def)
  obtain conn' where R: "randomwt.run demo_wt_run (fresh_wt False None) = Some conn'"
    "map PktType (queued conn') = [6, 0, 0, 1, 4]" "recvBuf conn' = []"
    using demo_wt_result by (elim exE conjE)
  have n: "length (queued conn') = 5" using arg_cong [OF R(2), of length] by simp
  have inp: "concat (map randomwt_input demo_wt_run) = replicate 540 7" by (simp add: demo_wt_run_def)
  obtain wire e' where W: "Send_all demo_crypto e (queued conn') = (Ok wire, e')"
    "\<forall>chunks. concat chunks = wire \<and> [] \<notin> set chunks \<longrightarrow>
      (\<exists>peer' dec'. read_all (randomwt_readPackets demo_crypto (\<lambda>_. 0)) (fresh_wt True (Some d)) chunks = (Ok None, peer') \<and>
        Decoder peer' = Some dec' \<and> link_ok demo_crypto e' dec' \<and>
        ReceiveDecodedBuffer peer' @ recvBuf conn' = concat (map randomwt_input demo_wt_run))"
    using randomwt_relays_stream [OF R(1) _ _ l demo_intn, of "fresh_wt True (Some d)"] ed(4) n
    by (auto simp: fresh_wt_def)
  from W(2) [rule_format, OF concat_singletons] obtain peer' where
    "read_all (randomwt_readPackets demo_crypto (\<lambda>_. 0)) (fresh_wt True (Some d)) (map (\<lambda>b. [b]) wire) = (Ok None, peer')"
    "ReceiveDecodedBuffer peer' = replicate 540 7" using inp R(3) by auto
  with ed R(1) W(1) show ?thesis by blast
qed


definition demo_net :: wt_net where
  "demo_net = \<lparr>wt_client = fresh_wt False None, wt_server = fresh_wt True None, c2s = 0, s2c = 0\<rparr>"

lemma demo_net_init: "wt_init demo_net" "bounds_ok (wt_client demo_net)" "bounds_ok (wt_server demo_net)"
  by (simp_all add: wt_init_def wt_end_def demo_net_def fresh_wt_def bounds_ok_def)




end
