(* ===== verification/Field25519.thy ===== *)
theory Field25519
  imports Prelude
begin

text \<open>
  Field arithmetic of \<open>internal/edwards25519/edwards25519.go\<close> (the ref10 representation that the
  Elligator code of \<open>internal/extra25519\<close> computes with). A \<open>FieldElement\<close> is ten signed
  32-bit limbs in the mixed radix \<open>2^25.5\<close>; products are accumulated in signed 64-bit integers and
  reduced by a carry chain. Everything is kept at its width: limbs are \<open>32 word\<close>, accumulators
  \<open>64 word\<close>, \<open>>>\<close> is the arithmetic shift, conversions are sign extension and truncation. The
  theorems relate the value of a result to the values of the arguments modulo \<open>2^255 - 19\<close>, under the
  limb bounds that the comments of the source state.
\<close>

type_synonym limb = "32 word"
type_synonym acc = "64 word"

datatype fe = Fe limb limb limb limb limb limb limb limb limb limb

section \<open>Additive operations\<close>

definition FeZero :: fe where
  "FeZero = Fe 0 0 0 0 0 0 0 0 0 0"

definition FeOne :: fe where
  "FeOne = Fe 1 0 0 0 0 0 0 0 0 0"

fun FeAdd :: "fe \<Rightarrow> fe \<Rightarrow> fe" where
  "FeAdd (Fe a0 a1 a2 a3 a4 a5 a6 a7 a8 a9) (Fe b0 b1 b2 b3 b4 b5 b6 b7 b8 b9) =
    Fe (a0 + b0) (a1 + b1) (a2 + b2) (a3 + b3) (a4 + b4) (a5 + b5) (a6 + b6) (a7 + b7) (a8 + b8) (a9 + b9)"

fun FeSub :: "fe \<Rightarrow> fe \<Rightarrow> fe" where
  "FeSub (Fe a0 a1 a2 a3 a4 a5 a6 a7 a8 a9) (Fe b0 b1 b2 b3 b4 b5 b6 b7 b8 b9) =
    Fe (a0 - b0) (a1 - b1) (a2 - b2) (a3 - b3) (a4 - b4) (a5 - b5) (a6 - b6) (a7 - b7) (a8 - b8) (a9 - b9)"

fun FeNeg :: "fe \<Rightarrow> fe" where
  "FeNeg (Fe f0 f1 f2 f3 f4 f5 f6 f7 f8 f9) =
    Fe (- f0) (- f1) (- f2) (- f3) (- f4) (- f5) (- f6) (- f7) (- f8) (- f9)"

text \<open>\<open>f ^= -b & (f ^ g)\<close> on every limb: a move without a branch.\<close>

definition cmove :: "limb \<Rightarrow> limb \<Rightarrow> limb \<Rightarrow> limb" where
  "cmove b f g = f XOR ((- b) AND (f XOR g))"

fun FeCMove :: "fe \<Rightarrow> fe \<Rightarrow> limb \<Rightarrow> fe" where
  "FeCMove (Fe f0 f1 f2 f3 f4 f5 f6 f7 f8 f9) (Fe g0 g1 g2 g3 g4 g5 g6 g7 g8 g9) b =
    Fe (cmove b f0 g0) (cmove b f1 g1) (cmove b f2 g2) (cmove b f3 g3) (cmove b f4 g4) (cmove b f5 g5) (cmove b f6 g6) (cmove b f7 g7) (cmove b f8 g8) (cmove b f9 g9)"

section \<open>The carry chain\<close>

text \<open>\<open>(h + (1 << 25)) >> 26\<close> and \<open>(h + (1 << 24)) >> 25\<close>.\<close>

definition carry26 :: "acc \<Rightarrow> acc" where
  "carry26 h = signed_drop_bit 26 (h + push_bit 25 1)"

definition carry25 :: "acc \<Rightarrow> acc" where
  "carry25 h = signed_drop_bit 25 (h + push_bit 24 1)"

definition FeCombine :: "acc \<Rightarrow> acc \<Rightarrow> acc \<Rightarrow> acc \<Rightarrow> acc \<Rightarrow> acc \<Rightarrow> acc \<Rightarrow> acc \<Rightarrow> acc \<Rightarrow> acc \<Rightarrow> fe" where
  "FeCombine h0 h1 h2 h3 h4 h5 h6 h7 h8 h9 =
    (let c0 = carry26 h0; h1 = h1 + c0; h0 = h0 - push_bit 26 c0;
         c4 = carry26 h4; h5 = h5 + c4; h4 = h4 - push_bit 26 c4;
         c1 = carry25 h1; h2 = h2 + c1; h1 = h1 - push_bit 25 c1;
         c5 = carry25 h5; h6 = h6 + c5; h5 = h5 - push_bit 25 c5;
         c2 = carry26 h2; h3 = h3 + c2; h2 = h2 - push_bit 26 c2;
         c6 = carry26 h6; h7 = h7 + c6; h6 = h6 - push_bit 26 c6;
         c3 = carry25 h3; h4 = h4 + c3; h3 = h3 - push_bit 25 c3;
         c7 = carry25 h7; h8 = h8 + c7; h7 = h7 - push_bit 25 c7;
         c4 = carry26 h4; h5 = h5 + c4; h4 = h4 - push_bit 26 c4;
         c8 = carry26 h8; h9 = h9 + c8; h8 = h8 - push_bit 26 c8;
         c9 = carry25 h9; h0 = h0 + c9 * 19; h9 = h9 - push_bit 25 c9;
         c0 = carry26 h0; h1 = h1 + c0; h0 = h0 - push_bit 26 c0
     in Fe (ucast h0) (ucast h1) (ucast h2) (ucast h3) (ucast h4) (ucast h5) (ucast h6) (ucast h7) (ucast h8) (ucast h9))"

section \<open>Products\<close>

text \<open>The factors 2 and 19 are multiplied in 32 bits before the conversion to 64, as in the source.\<close>

definition FeMul :: "fe \<Rightarrow> fe \<Rightarrow> fe" where
  "FeMul f g = (case f of Fe x0 x1 x2 x3 x4 x5 x6 x7 x8 x9 \<Rightarrow> case g of Fe y0 y1 y2 y3 y4 y5 y6 y7 y8 y9 \<Rightarrow>
    (let f0 = scast x0;
         f1 = scast x1;
         f2 = scast x2;
         f3 = scast x3;
         f4 = scast x4;
         f5 = scast x5;
         f6 = scast x6;
         f7 = scast x7;
         f8 = scast x8;
         f9 = scast x9;
         f1_2 = scast (2 * x1);
         f3_2 = scast (2 * x3);
         f5_2 = scast (2 * x5);
         f7_2 = scast (2 * x7);
         f9_2 = scast (2 * x9);
         g0 = scast y0;
         g1 = scast y1;
         g2 = scast y2;
         g3 = scast y3;
         g4 = scast y4;
         g5 = scast y5;
         g6 = scast y6;
         g7 = scast y7;
         g8 = scast y8;
         g9 = scast y9;
         g1_19 = scast (19 * y1);
         g2_19 = scast (19 * y2);
         g3_19 = scast (19 * y3);
         g4_19 = scast (19 * y4);
         g5_19 = scast (19 * y5);
         g6_19 = scast (19 * y6);
         g7_19 = scast (19 * y7);
         g8_19 = scast (19 * y8);
         g9_19 = scast (19 * y9);
         h0 = f0 * g0 + f1_2 * g9_19 + f2 * g8_19 + f3_2 * g7_19 + f4 * g6_19 + f5_2 * g5_19 + f6 * g4_19 + f7_2 * g3_19 + f8 * g2_19 + f9_2 * g1_19;
         h1 = f0 * g1 + f1 * g0 + f2 * g9_19 + f3 * g8_19 + f4 * g7_19 + f5 * g6_19 + f6 * g5_19 + f7 * g4_19 + f8 * g3_19 + f9 * g2_19;
         h2 = f0 * g2 + f1_2 * g1 + f2 * g0 + f3_2 * g9_19 + f4 * g8_19 + f5_2 * g7_19 + f6 * g6_19 + f7_2 * g5_19 + f8 * g4_19 + f9_2 * g3_19;
         h3 = f0 * g3 + f1 * g2 + f2 * g1 + f3 * g0 + f4 * g9_19 + f5 * g8_19 + f6 * g7_19 + f7 * g6_19 + f8 * g5_19 + f9 * g4_19;
         h4 = f0 * g4 + f1_2 * g3 + f2 * g2 + f3_2 * g1 + f4 * g0 + f5_2 * g9_19 + f6 * g8_19 + f7_2 * g7_19 + f8 * g6_19 + f9_2 * g5_19;
         h5 = f0 * g5 + f1 * g4 + f2 * g3 + f3 * g2 + f4 * g1 + f5 * g0 + f6 * g9_19 + f7 * g8_19 + f8 * g7_19 + f9 * g6_19;
         h6 = f0 * g6 + f1_2 * g5 + f2 * g4 + f3_2 * g3 + f4 * g2 + f5_2 * g1 + f6 * g0 + f7_2 * g9_19 + f8 * g8_19 + f9_2 * g7_19;
         h7 = f0 * g7 + f1 * g6 + f2 * g5 + f3 * g4 + f4 * g3 + f5 * g2 + f6 * g1 + f7 * g0 + f8 * g9_19 + f9 * g8_19;
         h8 = f0 * g8 + f1_2 * g7 + f2 * g6 + f3_2 * g5 + f4 * g4 + f5_2 * g3 + f6 * g2 + f7_2 * g1 + f8 * g0 + f9_2 * g9_19;
         h9 = f0 * g9 + f1 * g8 + f2 * g7 + f3 * g6 + f4 * g5 + f5 * g4 + f6 * g3 + f7 * g2 + f8 * g1 + f9 * g0
     in FeCombine h0 h1 h2 h3 h4 h5 h6 h7 h8 h9))"

definition feSquare :: "fe \<Rightarrow> acc \<times> acc \<times> acc \<times> acc \<times> acc \<times> acc \<times> acc \<times> acc \<times> acc \<times> acc" where
  "feSquare f = (case f of Fe x0 x1 x2 x3 x4 x5 x6 x7 x8 x9 \<Rightarrow>
    (let f0 = scast x0;
         f1 = scast x1;
         f2 = scast x2;
         f3 = scast x3;
         f4 = scast x4;
         f5 = scast x5;
         f6 = scast x6;
         f7 = scast x7;
         f8 = scast x8;
         f9 = scast x9;
         f0_2 = scast (2 * x0);
         f1_2 = scast (2 * x1);
         f2_2 = scast (2 * x2);
         f3_2 = scast (2 * x3);
         f4_2 = scast (2 * x4);
         f5_2 = scast (2 * x5);
         f6_2 = scast (2 * x6);
         f7_2 = scast (2 * x7);
         f5_38 = 38 * f5;
         f6_19 = 19 * f6;
         f7_38 = 38 * f7;
         f8_19 = 19 * f8;
         f9_38 = 38 * f9;
         h0 = f0 * f0 + f1_2 * f9_38 + f2_2 * f8_19 + f3_2 * f7_38 + f4_2 * f6_19 + f5 * f5_38;
         h1 = f0_2 * f1 + f2 * f9_38 + f3_2 * f8_19 + f4 * f7_38 + f5_2 * f6_19;
         h2 = f0_2 * f2 + f1_2 * f1 + f3_2 * f9_38 + f4_2 * f8_19 + f5_2 * f7_38 + f6 * f6_19;
         h3 = f0_2 * f3 + f1_2 * f2 + f4 * f9_38 + f5_2 * f8_19 + f6 * f7_38;
         h4 = f0_2 * f4 + f1_2 * f3_2 + f2 * f2 + f5_2 * f9_38 + f6_2 * f8_19 + f7 * f7_38;
         h5 = f0_2 * f5 + f1_2 * f4 + f2_2 * f3 + f6 * f9_38 + f7_2 * f8_19;
         h6 = f0_2 * f6 + f1_2 * f5_2 + f2_2 * f4 + f3_2 * f3 + f7_2 * f9_38 + f8 * f8_19;
         h7 = f0_2 * f7 + f1_2 * f6 + f2_2 * f5 + f3_2 * f4 + f8 * f9_38;
         h8 = f0_2 * f8 + f1_2 * f7_2 + f2_2 * f6 + f3_2 * f5_2 + f4 * f4 + f9 * f9_38;
         h9 = f0_2 * f9 + f1_2 * f8 + f2_2 * f7 + f3_2 * f6 + f4_2 * f5
     in (h0, h1, h2, h3, h4, h5, h6, h7, h8, h9)))"

definition FeSquare :: "fe \<Rightarrow> fe" where
  "FeSquare f = (case feSquare f of (h0, h1, h2, h3, h4, h5, h6, h7, h8, h9) \<Rightarrow> FeCombine h0 h1 h2 h3 h4 h5 h6 h7 h8 h9)"

definition FeSquare2 :: "fe \<Rightarrow> fe" where
  "FeSquare2 f = (case feSquare f of (h0, h1, h2, h3, h4, h5, h6, h7, h8, h9) \<Rightarrow>
     FeCombine (h0 + h0) (h1 + h1) (h2 + h2) (h3 + h3) (h4 + h4) (h5 + h5) (h6 + h6) (h7 + h7) (h8 + h8) (h9 + h9))"

section \<open>Powers\<close>

text \<open>\<open>FeSquare(&t, &s); for i = 1; i < n; i++ { FeSquare(&t, &t) }\<close>.\<close>

definition FeSquares :: "nat \<Rightarrow> fe \<Rightarrow> fe" where
  "FeSquares n s = (FeSquare ^^ (n - 1)) (FeSquare s)"

definition FeInvert :: "fe \<Rightarrow> fe" where
  "FeInvert z =
    (let t0 = FeSquare z; t1 = FeSquares 2 t0; t1 = FeMul z t1;
         t0 = FeMul t0 t1; t2 = FeSquare t0; t1 = FeMul t1 t2;
         t2 = FeSquares 5 t1; t1 = FeMul t2 t1; t2 = FeSquares 10 t1;
         t2 = FeMul t2 t1; t3 = FeSquares 20 t2; t2 = FeMul t3 t2;
         t2 = FeSquares 10 t2; t1 = FeMul t2 t1; t2 = FeSquares 50 t1;
         t2 = FeMul t2 t1; t3 = FeSquares 100 t2; t2 = FeMul t3 t2;
         t2 = FeSquares 50 t2; t1 = FeMul t2 t1; t1 = FeSquares 5 t1
     in FeMul t1 t0)"

definition fePow22523 :: "fe \<Rightarrow> fe" where
  "fePow22523 z =
    (let t0 = FeSquare z; t1 = FeSquares 2 t0; t1 = FeMul z t1;
         t0 = FeMul t0 t1; t0 = FeSquare t0; t0 = FeMul t1 t0;
         t1 = FeSquares 5 t0; t0 = FeMul t1 t0; t1 = FeSquares 10 t0;
         t1 = FeMul t1 t0; t2 = FeSquares 20 t1; t1 = FeMul t2 t1;
         t1 = FeSquares 10 t1; t0 = FeMul t1 t0; t1 = FeSquares 50 t0;
         t1 = FeMul t1 t0; t2 = FeSquares 100 t1; t1 = FeMul t2 t1;
         t1 = FeSquares 50 t1; t0 = FeMul t1 t0; t0 = FeSquares 2 t0
     in FeMul t0 z)"

section \<open>Values and bounds\<close>

definition prime25519 :: int where
  "prime25519 = 2 ^ 255 - 19"

definition radix_sum :: "int \<Rightarrow> int \<Rightarrow> int \<Rightarrow> int \<Rightarrow> int \<Rightarrow> int \<Rightarrow> int \<Rightarrow> int \<Rightarrow> int \<Rightarrow> int \<Rightarrow> int" where
  "radix_sum h0 h1 h2 h3 h4 h5 h6 h7 h8 h9 =
     h0 + 2 ^ 26 * h1 + 2 ^ 51 * h2 + 2 ^ 77 * h3 + 2 ^ 102 * h4 + 2 ^ 128 * h5 + 2 ^ 153 * h6 + 2 ^ 179 * h7 + 2 ^ 204 * h8 + 2 ^ 230 * h9"

definition fe_val :: "fe \<Rightarrow> int" where
  "fe_val f = (case f of Fe x0 x1 x2 x3 x4 x5 x6 x7 x8 x9 \<Rightarrow>
     radix_sum (sint x0) (sint x1) (sint x2) (sint x3) (sint x4) (sint x5) (sint x6) (sint x7) (sint x8) (sint x9))"

definition bounded :: "int \<Rightarrow> int \<Rightarrow> fe \<Rightarrow> bool" where
  "bounded e od f \<longleftrightarrow> (case f of Fe x0 x1 x2 x3 x4 x5 x6 x7 x8 x9 \<Rightarrow>
     \<bar>sint x0\<bar> \<le> e \<and> \<bar>sint x1\<bar> \<le> od \<and> \<bar>sint x2\<bar> \<le> e \<and> \<bar>sint x3\<bar> \<le> od \<and> \<bar>sint x4\<bar> \<le> e \<and> \<bar>sint x5\<bar> \<le> od \<and> \<bar>sint x6\<bar> \<le> e \<and> \<bar>sint x7\<bar> \<le> od \<and> \<bar>sint x8\<bar> \<le> e \<and> \<bar>sint x9\<bar> \<le> od)"

text \<open>The bounds \<open>1.65 * 2^26, 1.65 * 2^25\<close> that products admit and \<open>1.01 * 2^25, 1.01 * 2^24\<close> that they
  deliver.\<close>

abbreviation loose :: "fe \<Rightarrow> bool" where
  "loose \<equiv> bounded 110729625 55364812"

abbreviation tight :: "fe \<Rightarrow> bool" where
  "tight \<equiv> bounded 33889976 16944988"

lemma bounded_mono: "bounded e od f \<Longrightarrow> e \<le> e' \<Longrightarrow> od \<le> od' \<Longrightarrow> bounded e' od' f"
  by (cases f) (auto simp: bounded_def)

lemma tight_loose [simp]: "tight f \<Longrightarrow> loose f"
  by (erule bounded_mono) simp_all

lemma sint_id32: "- (2 ^ 31) \<le> x \<Longrightarrow> x < 2 ^ 31 \<Longrightarrow> sint (word_of_int x :: limb) = x"
  by (simp add: signed_of_int signed_take_bit_int_eq_self)

lemma sint_id64: "- (2 ^ 63) \<le> x \<Longrightarrow> x < 2 ^ 63 \<Longrightarrow> sint (word_of_int x :: acc) = x"
  by (simp add: signed_of_int signed_take_bit_int_eq_self)

text \<open>The carries on integers.\<close>

lemma carry26_int:
  assumes "\<bar>x\<bar> \<le> 2 ^ 63 - 2 ^ 39"
  shows "carry26 (word_of_int x) = word_of_int ((x + 2 ^ 25) div 2 ^ 26)"
proof -
  have "sint (word_of_int x + push_bit 25 1 :: acc) = x + 2 ^ 25"
    using sint_id64 [of "x + 2 ^ 25"] assms by (simp add: push_bit_eq_mult)
  then have "sint (carry26 (word_of_int x)) = (x + 2 ^ 25) div 2 ^ 26"
    unfolding carry26_def by (simp only: sint_signed_drop_bit_eq drop_bit_eq_div)
  from arg_cong [OF this, of "word_of_int :: int \<Rightarrow> acc"] show ?thesis by simp
qed

lemma carry25_int:
  assumes "\<bar>x\<bar> \<le> 2 ^ 63 - 2 ^ 39"
  shows "carry25 (word_of_int x) = word_of_int ((x + 2 ^ 24) div 2 ^ 25)"
proof -
  have "sint (word_of_int x + push_bit 24 1 :: acc) = x + 2 ^ 24"
    using sint_id64 [of "x + 2 ^ 24"] assms by (simp add: push_bit_eq_mult)
  then have "sint (carry25 (word_of_int x)) = (x + 2 ^ 24) div 2 ^ 25"
    unfolding carry25_def by (simp only: sint_signed_drop_bit_eq drop_bit_eq_div)
  from arg_cong [OF this, of "word_of_int :: int \<Rightarrow> acc"] show ?thesis by simp
qed

text \<open>A carry with its two updates: the quotient, what is left and how large they are.\<close>

lemma rounded_div:
  assumes "\<bar>x\<bar> \<le> b" "0 < (m :: int)"
  shows "\<bar>x - 2 * m * ((x + m) div (2 * m))\<bar> \<le> m" "\<bar>(x + m) div (2 * m)\<bar> \<le> b div (2 * m) + 1"
proof -
  have r: "x + m = 2 * m * ((x + m) div (2 * m)) + (x + m) mod (2 * m)" by simp
  have "0 \<le> (x + m) mod (2 * m)" "(x + m) mod (2 * m) < 2 * m" using assms(2) by simp_all
  with r show "\<bar>x - 2 * m * ((x + m) div (2 * m))\<bar> \<le> m" by linarith
  have "(x + m) div (2 * m) \<le> (b + 2 * m) div (2 * m)" using assms by (intro zdiv_mono1) auto
  also have "\<dots> = b div (2 * m) + 1" using assms(2) div_add_self2 [of "2 * m" b] by simp
  finally have u: "(x + m) div (2 * m) \<le> b div (2 * m) + 1" .
  have "(- b) div (2 * m) \<le> (x + m) div (2 * m)" using assms by (intro zdiv_mono1) auto
  moreover have "- (b div (2 * m)) - 1 \<le> (- b) div (2 * m)" using assms(2) by (simp add: zdiv_zminus1_eq_if)
  ultimately show "\<bar>(x + m) div (2 * m)\<bar> \<le> b div (2 * m) + 1" using u by linarith
qed

lemma carry26_step:
  assumes "\<bar>x\<bar> \<le> b" "b \<le> 2 ^ 63 - 2 ^ 39"
  obtains q where "carry26 (word_of_int x) = word_of_int q"
    "word_of_int x - push_bit 26 (word_of_int q) = (word_of_int (x - 2 ^ 26 * q) :: acc)"
    "\<bar>x - 2 ^ 26 * q\<bar> \<le> 2 ^ 25" "\<bar>q\<bar> \<le> b div 2 ^ 26 + 1"
proof
  let ?q = "(x + 2 ^ 25) div 2 ^ 26"
  show "carry26 (word_of_int x) = word_of_int ?q" using assms by (intro carry26_int) simp
  show "word_of_int x - push_bit 26 (word_of_int ?q) = (word_of_int (x - 2 ^ 26 * ?q) :: acc)"
    by (simp add: push_bit_eq_mult mult.commute)
  show "\<bar>x - 2 ^ 26 * ?q\<bar> \<le> 2 ^ 25" "\<bar>?q\<bar> \<le> b div 2 ^ 26 + 1"
    using rounded_div [OF assms(1), of "2 ^ 25"] by simp_all
qed

lemma carry25_step:
  assumes "\<bar>x\<bar> \<le> b" "b \<le> 2 ^ 63 - 2 ^ 39"
  obtains q where "carry25 (word_of_int x) = word_of_int q"
    "word_of_int x - push_bit 25 (word_of_int q) = (word_of_int (x - 2 ^ 25 * q) :: acc)"
    "\<bar>x - 2 ^ 25 * q\<bar> \<le> 2 ^ 24" "\<bar>q\<bar> \<le> b div 2 ^ 25 + 1"
proof
  let ?q = "(x + 2 ^ 24) div 2 ^ 25"
  show "carry25 (word_of_int x) = word_of_int ?q" using assms by (intro carry25_int) simp
  show "word_of_int x - push_bit 25 (word_of_int ?q) = (word_of_int (x - 2 ^ 25 * ?q) :: acc)"
    by (simp add: push_bit_eq_mult mult.commute)
  show "\<bar>x - 2 ^ 25 * ?q\<bar> \<le> 2 ^ 24" "\<bar>?q\<bar> \<le> b div 2 ^ 25 + 1"
    using rounded_div [OF assms(1), of "2 ^ 24"] by simp_all
qed

text \<open>The three assignments of a carry in a chain of them: it is enough to look at an arbitrary quotient
  within its bound.\<close>

definition within :: "int \<Rightarrow> int \<Rightarrow> bool" where
  "within b x \<longleftrightarrow> - b \<le> x \<and> x \<le> b"

lemma within_sum: "within a x \<Longrightarrow> within b y \<Longrightarrow> a + b \<le> c \<Longrightarrow> within c (x + y)"
  by (simp add: within_def)

lemma within_mono: "within a x \<Longrightarrow> a \<le> b \<Longrightarrow> within b x"
  by (simp add: within_def)

lemma let_carry26:
  assumes "within b x" "b \<le> 2 ^ 63 - 2 ^ 39 \<and> b div 2 ^ 26 + 1 = d"
    "\<And>q. within 33554432 (x - 67108864 * q) \<Longrightarrow> within d q \<Longrightarrow> 
       P (F (word_of_int q) (word_of_int (y + q)) (word_of_int (x - 67108864 * q)))"
  shows "P (let c = carry26 (word_of_int x); g = word_of_int y + c; h = word_of_int x - push_bit 26 c in F c g h)"
proof -
  obtain q where q: "carry26 (word_of_int x) = word_of_int q"
    "word_of_int x - push_bit 26 (word_of_int q) = (word_of_int (x - 2 ^ 26 * q) :: acc)"
    "\<bar>x - 2 ^ 26 * q\<bar> \<le> 2 ^ 25" "\<bar>q\<bar> \<le> d"
    using carry26_step [of x b] assms(1,2) by (auto simp: within_def abs_le_iff)
  moreover have "word_of_int y + word_of_int q = (word_of_int (y + q) :: acc)" by simp
  ultimately show ?thesis using assms(3) [of q] by (simp add: Let_def within_def abs_le_iff)
qed

lemma let_carry25:
  assumes "within b x" "b \<le> 2 ^ 63 - 2 ^ 39 \<and> b div 2 ^ 25 + 1 = d"
    "\<And>q. within 16777216 (x - 33554432 * q) \<Longrightarrow> within d q \<Longrightarrow> 
       P (F (word_of_int q) (word_of_int (y + q)) (word_of_int (x - 33554432 * q)))"
  shows "P (let c = carry25 (word_of_int x); g = word_of_int y + c; h = word_of_int x - push_bit 25 c in F c g h)"
proof -
  obtain q where q: "carry25 (word_of_int x) = word_of_int q"
    "word_of_int x - push_bit 25 (word_of_int q) = (word_of_int (x - 2 ^ 25 * q) :: acc)"
    "\<bar>x - 2 ^ 25 * q\<bar> \<le> 2 ^ 24" "\<bar>q\<bar> \<le> d"
    using carry25_step [of x b] assms(1,2) by (auto simp: within_def abs_le_iff)
  moreover have "word_of_int y + word_of_int q = (word_of_int (y + q) :: acc)" by simp
  ultimately show ?thesis using assms(3) [of q] by (simp add: Let_def within_def abs_le_iff)
qed

lemma let_carry9:
  assumes "within b x" "b \<le> 2 ^ 63 - 2 ^ 39 \<and> b div 2 ^ 25 + 1 = d"
    "\<And>q. within 16777216 (x - 33554432 * q) \<Longrightarrow> within (19 * d) (q * 19) \<Longrightarrow> 
       P (F (word_of_int q) (word_of_int (y + q * 19)) (word_of_int (x - 33554432 * q)))"
  shows "P (let c = carry25 (word_of_int x); g = word_of_int y + c * 19; h = word_of_int x - push_bit 25 c in F c g h)"
proof -
  obtain q where q: "carry25 (word_of_int x) = word_of_int q"
    "word_of_int x - push_bit 25 (word_of_int q) = (word_of_int (x - 2 ^ 25 * q) :: acc)"
    "\<bar>x - 2 ^ 25 * q\<bar> \<le> 2 ^ 24" "\<bar>q\<bar> \<le> d"
    using carry25_step [of x b] assms(1,2) by (auto simp: within_def abs_le_iff)
  moreover have "word_of_int y + word_of_int q * 19 = (word_of_int (y + q * 19) :: acc)" by simp
  ultimately show ?thesis using assms(3) [of q] by (simp add: Let_def within_def abs_le_iff)
qed

definition combines :: "int \<Rightarrow> int \<Rightarrow> int \<Rightarrow> int \<Rightarrow> int \<Rightarrow> int \<Rightarrow> int \<Rightarrow> int \<Rightarrow> int \<Rightarrow> int \<Rightarrow> fe \<Rightarrow> bool" where
  "combines h0 h1 h2 h3 h4 h5 h6 h7 h8 h9 r \<longleftrightarrow> tight r \<and>
     (\<exists>k. fe_val r = radix_sum h0 h1 h2 h3 h4 h5 h6 h7 h8 h9 - prime25519 * k)"

lemma ucast_limb: "ucast (word_of_int x :: acc) = (word_of_int x :: limb)"
  by transfer simp

lemma combinesI:
  assumes "within 33889976 e0" "within 16944988 e1" "within 33889976 e2" "within 16944988 e3" "within 33889976 e4" "within 16944988 e5" "within 33889976 e6" "within 16944988 e7" "within 33889976 e8" "within 16944988 e9"
    "radix_sum e0 e1 e2 e3 e4 e5 e6 e7 e8 e9 = radix_sum h0 h1 h2 h3 h4 h5 h6 h7 h8 h9 - prime25519 * k"
  shows "combines h0 h1 h2 h3 h4 h5 h6 h7 h8 h9 (Fe (ucast (word_of_int e0 :: acc)) (ucast (word_of_int e1 :: acc)) (ucast (word_of_int e2 :: acc)) (ucast (word_of_int e3 :: acc)) (ucast (word_of_int e4 :: acc)) (ucast (word_of_int e5 :: acc)) (ucast (word_of_int e6 :: acc)) (ucast (word_of_int e7 :: acc)) (ucast (word_of_int e8 :: acc)) (ucast (word_of_int e9 :: acc)))"
proof -
  have "sint (word_of_int x :: limb) = x" if "within 33889976 x" for x
    using that by (intro sint_id32) (auto simp: within_def)
  then show ?thesis using assms within_mono [of 16944988 _ 33889976]
    unfolding combines_def bounded_def fe_val_def ucast_limb by (auto simp: within_def abs_le_iff)
qed

lemma FeCombine_combines:
  assumes "within 9223370937343148032 h0" "within 9223370937343148032 h1" "within 9223370937343148032 h2" "within 9223370937343148032 h3" "within 9223370937343148032 h4" "within 9223370937343148032 h5" "within 9223370937343148032 h6" "within 9223370937343148032 h7" "within 9223370937343148032 h8" "within 9223370937343148032 h9"
  shows "combines h0 h1 h2 h3 h4 h5 h6 h7 h8 h9 (FeCombine (word_of_int h0) (word_of_int h1) (word_of_int h2) (word_of_int h3) (word_of_int h4) (word_of_int h5) (word_of_int h6) (word_of_int h7) (word_of_int h8) (word_of_int h9))"
  unfolding FeCombine_def
  apply (rule let_carry26 [where P = "combines h0 h1 h2 h3 h4 h5 h6 h7 h8 h9" and b = 9223370937343148032 and d = 137438937089], rule assms, simp)
  apply (rule let_carry26 [where P = "combines h0 h1 h2 h3 h4 h5 h6 h7 h8 h9" and b = 9223370937343148032 and d = 137438937089], rule assms, simp)
  apply (rule let_carry25 [where P = "combines h0 h1 h2 h3 h4 h5 h6 h7 h8 h9" and b = 9223371074782085121 and d = 274877878272], rule within_sum, (assumption | rule assms)+, simp, simp)
  apply (rule let_carry25 [where P = "combines h0 h1 h2 h3 h4 h5 h6 h7 h8 h9" and b = 9223371074782085121 and d = 274877878272], rule within_sum, (assumption | rule assms)+, simp, simp)
  apply (rule let_carry26 [where P = "combines h0 h1 h2 h3 h4 h5 h6 h7 h8 h9" and b = 9223371212221026304 and d = 137438941184], rule within_sum, (assumption | rule assms)+, simp, simp)
  apply (rule let_carry26 [where P = "combines h0 h1 h2 h3 h4 h5 h6 h7 h8 h9" and b = 9223371212221026304 and d = 137438941184], rule within_sum, (assumption | rule assms)+, simp, simp)
  apply (rule let_carry25 [where P = "combines h0 h1 h2 h3 h4 h5 h6 h7 h8 h9" and b = 9223371074782089216 and d = 274877878272], rule within_sum, (assumption | rule assms)+, simp, simp)
  apply (rule let_carry25 [where P = "combines h0 h1 h2 h3 h4 h5 h6 h7 h8 h9" and b = 9223371074782089216 and d = 274877878272], rule within_sum, (assumption | rule assms)+, simp, simp)
  apply (rule let_carry26 [where P = "combines h0 h1 h2 h3 h4 h5 h6 h7 h8 h9" and b = 274911432704 and d = 4097], rule within_sum, (assumption | rule assms)+, simp, simp)
  apply (rule let_carry26 [where P = "combines h0 h1 h2 h3 h4 h5 h6 h7 h8 h9" and b = 9223371212221026304 and d = 137438941184], rule within_sum, (assumption | rule assms)+, simp, simp)
  apply (rule let_carry9 [where P = "combines h0 h1 h2 h3 h4 h5 h6 h7 h8 h9" and b = 9223371074782089216 and d = 274877878272], rule within_sum, (assumption | rule assms)+, simp, simp)
  apply (rule let_carry26 [where P = "combines h0 h1 h2 h3 h4 h5 h6 h7 h8 h9" and b = 5222713241600 and d = 77825], rule within_sum, (assumption | rule assms)+, simp, simp)
  apply (rule combinesI)
  apply (erule within_mono, simp | rule within_sum, assumption, assumption, simp)+
  apply (simp add: radix_sum_def prime25519_def algebra_simps)
  done

lemma within_add: "within a x \<Longrightarrow> within b y \<Longrightarrow> within (a + b) (x + y)"
  by (simp add: within_def)

lemma within_prod: "within a x \<Longrightarrow> within b y \<Longrightarrow> within (a * b) (x * y)"
proof -
  assume "within a x" "within b y"
  then have "\<bar>x\<bar> \<le> a" "\<bar>y\<bar> \<le> b" by (auto simp: within_def)
  then have "\<bar>x * y\<bar> \<le> a * b" by (simp add: abs_mult mult_mono)
  then show "within (a * b) (x * y)" by (auto simp: within_def)
qed

lemma within_numeral: "within (numeral k) (numeral k)"
  by (simp add: within_def)

section \<open>Products modulo the prime\<close>

text \<open>The integers that \<open>FeMul\<close> and \<open>feSquare\<close> accumulate.\<close>

lemma mul_identity:
  "radix_sum (F0 * G0 + (2 * F1) * (19 * G9) + F2 * (19 * G8) + (2 * F3) * (19 * G7) + F4 * (19 * G6) + (2 * F5) * (19 * G5) + F6 * (19 * G4) + (2 * F7) * (19 * G3) + F8 * (19 * G2) + (2 * F9) * (19 * G1)) (F0 * G1 + F1 * G0 + F2 * (19 * G9) + F3 * (19 * G8) + F4 * (19 * G7) + F5 * (19 * G6) + F6 * (19 * G5) + F7 * (19 * G4) + F8 * (19 * G3) + F9 * (19 * G2)) (F0 * G2 + (2 * F1) * G1 + F2 * G0 + (2 * F3) * (19 * G9) + F4 * (19 * G8) + (2 * F5) * (19 * G7) + F6 * (19 * G6) + (2 * F7) * (19 * G5) + F8 * (19 * G4) + (2 * F9) * (19 * G3)) (F0 * G3 + F1 * G2 + F2 * G1 + F3 * G0 + F4 * (19 * G9) + F5 * (19 * G8) + F6 * (19 * G7) + F7 * (19 * G6) + F8 * (19 * G5) + F9 * (19 * G4)) (F0 * G4 + (2 * F1) * G3 + F2 * G2 + (2 * F3) * G1 + F4 * G0 + (2 * F5) * (19 * G9) + F6 * (19 * G8) + (2 * F7) * (19 * G7) + F8 * (19 * G6) + (2 * F9) * (19 * G5)) (F0 * G5 + F1 * G4 + F2 * G3 + F3 * G2 + F4 * G1 + F5 * G0 + F6 * (19 * G9) + F7 * (19 * G8) + F8 * (19 * G7) + F9 * (19 * G6)) (F0 * G6 + (2 * F1) * G5 + F2 * G4 + (2 * F3) * G3 + F4 * G2 + (2 * F5) * G1 + F6 * G0 + (2 * F7) * (19 * G9) + F8 * (19 * G8) + (2 * F9) * (19 * G7)) (F0 * G7 + F1 * G6 + F2 * G5 + F3 * G4 + F4 * G3 + F5 * G2 + F6 * G1 + F7 * G0 + F8 * (19 * G9) + F9 * (19 * G8)) (F0 * G8 + (2 * F1) * G7 + F2 * G6 + (2 * F3) * G5 + F4 * G4 + (2 * F5) * G3 + F6 * G2 + (2 * F7) * G1 + F8 * G0 + (2 * F9) * (19 * G9)) (F0 * G9 + F1 * G8 + F2 * G7 + F3 * G6 + F4 * G5 + F5 * G4 + F6 * G3 + F7 * G2 + F8 * G1 + F9 * G0) =
   radix_sum F0 F1 F2 F3 F4 F5 F6 F7 F8 F9 * radix_sum G0 G1 G2 G3 G4 G5 G6 G7 G8 G9 - prime25519 * (2 ^ 1 * (F1 * G9) + 2 ^ 0 * (F2 * G8) + 2 ^ 26 * (F2 * G9) + 2 ^ 1 * (F3 * G7) + 2 ^ 26 * (F3 * G8) + 2 ^ 52 * (F3 * G9) + 2 ^ 0 * (F4 * G6) + 2 ^ 26 * (F4 * G7) + 2 ^ 51 * (F4 * G8) + 2 ^ 77 * (F4 * G9) + 2 ^ 1 * (F5 * G5) + 2 ^ 26 * (F5 * G6) + 2 ^ 52 * (F5 * G7) + 2 ^ 77 * (F5 * G8) + 2 ^ 103 * (F5 * G9) + 2 ^ 0 * (F6 * G4) + 2 ^ 26 * (F6 * G5) + 2 ^ 51 * (F6 * G6) + 2 ^ 77 * (F6 * G7) + 2 ^ 102 * (F6 * G8) + 2 ^ 128 * (F6 * G9) + 2 ^ 1 * (F7 * G3) + 2 ^ 26 * (F7 * G4) + 2 ^ 52 * (F7 * G5) + 2 ^ 77 * (F7 * G6) + 2 ^ 103 * (F7 * G7) + 2 ^ 128 * (F7 * G8) + 2 ^ 154 * (F7 * G9) + 2 ^ 0 * (F8 * G2) + 2 ^ 26 * (F8 * G3) + 2 ^ 51 * (F8 * G4) + 2 ^ 77 * (F8 * G5) + 2 ^ 102 * (F8 * G6) + 2 ^ 128 * (F8 * G7) + 2 ^ 153 * (F8 * G8) + 2 ^ 179 * (F8 * G9) + 2 ^ 1 * (F9 * G1) + 2 ^ 26 * (F9 * G2) + 2 ^ 52 * (F9 * G3) + 2 ^ 77 * (F9 * G4) + 2 ^ 103 * (F9 * G5) + 2 ^ 128 * (F9 * G6) + 2 ^ 154 * (F9 * G7) + 2 ^ 179 * (F9 * G8) + 2 ^ 205 * (F9 * G9))"
  unfolding radix_sum_def prime25519_def by algebra

lemma square_identity:
  "radix_sum (F0 * F0 + (2 * F1) * (38 * F9) + (2 * F2) * (19 * F8) + (2 * F3) * (38 * F7) + (2 * F4) * (19 * F6) + F5 * (38 * F5)) ((2 * F0) * F1 + F2 * (38 * F9) + (2 * F3) * (19 * F8) + F4 * (38 * F7) + (2 * F5) * (19 * F6)) ((2 * F0) * F2 + (2 * F1) * F1 + (2 * F3) * (38 * F9) + (2 * F4) * (19 * F8) + (2 * F5) * (38 * F7) + F6 * (19 * F6)) ((2 * F0) * F3 + (2 * F1) * F2 + F4 * (38 * F9) + (2 * F5) * (19 * F8) + F6 * (38 * F7)) ((2 * F0) * F4 + (2 * F1) * (2 * F3) + F2 * F2 + (2 * F5) * (38 * F9) + (2 * F6) * (19 * F8) + F7 * (38 * F7)) ((2 * F0) * F5 + (2 * F1) * F4 + (2 * F2) * F3 + F6 * (38 * F9) + (2 * F7) * (19 * F8)) ((2 * F0) * F6 + (2 * F1) * (2 * F5) + (2 * F2) * F4 + (2 * F3) * F3 + (2 * F7) * (38 * F9) + F8 * (19 * F8)) ((2 * F0) * F7 + (2 * F1) * F6 + (2 * F2) * F5 + (2 * F3) * F4 + F8 * (38 * F9)) ((2 * F0) * F8 + (2 * F1) * (2 * F7) + (2 * F2) * F6 + (2 * F3) * (2 * F5) + F4 * F4 + F9 * (38 * F9)) ((2 * F0) * F9 + (2 * F1) * F8 + (2 * F2) * F7 + (2 * F3) * F6 + (2 * F4) * F5) =
   radix_sum F0 F1 F2 F3 F4 F5 F6 F7 F8 F9 * radix_sum F0 F1 F2 F3 F4 F5 F6 F7 F8 F9 - prime25519 * (2 ^ 1 * (F1 * F9) + 2 ^ 0 * (F2 * F8) + 2 ^ 26 * (F2 * F9) + 2 ^ 1 * (F3 * F7) + 2 ^ 26 * (F3 * F8) + 2 ^ 52 * (F3 * F9) + 2 ^ 0 * (F4 * F6) + 2 ^ 26 * (F4 * F7) + 2 ^ 51 * (F4 * F8) + 2 ^ 77 * (F4 * F9) + 2 ^ 1 * (F5 * F5) + 2 ^ 26 * (F5 * F6) + 2 ^ 52 * (F5 * F7) + 2 ^ 77 * (F5 * F8) + 2 ^ 103 * (F5 * F9) + 2 ^ 0 * (F6 * F4) + 2 ^ 26 * (F6 * F5) + 2 ^ 51 * (F6 * F6) + 2 ^ 77 * (F6 * F7) + 2 ^ 102 * (F6 * F8) + 2 ^ 128 * (F6 * F9) + 2 ^ 1 * (F7 * F3) + 2 ^ 26 * (F7 * F4) + 2 ^ 52 * (F7 * F5) + 2 ^ 77 * (F7 * F6) + 2 ^ 103 * (F7 * F7) + 2 ^ 128 * (F7 * F8) + 2 ^ 154 * (F7 * F9) + 2 ^ 0 * (F8 * F2) + 2 ^ 26 * (F8 * F3) + 2 ^ 51 * (F8 * F4) + 2 ^ 77 * (F8 * F5) + 2 ^ 102 * (F8 * F6) + 2 ^ 128 * (F8 * F7) + 2 ^ 153 * (F8 * F8) + 2 ^ 179 * (F8 * F9) + 2 ^ 1 * (F9 * F1) + 2 ^ 26 * (F9 * F2) + 2 ^ 52 * (F9 * F3) + 2 ^ 77 * (F9 * F4) + 2 ^ 103 * (F9 * F5) + 2 ^ 128 * (F9 * F6) + 2 ^ 154 * (F9 * F7) + 2 ^ 179 * (F9 * F8) + 2 ^ 205 * (F9 * F9))"
  unfolding radix_sum_def prime25519_def by algebra

text \<open>A limb times a small constant, computed in 32 bits and extended to 64.\<close>

lemma scast_times:
  "within b (sint (x :: limb)) \<Longrightarrow> numeral k * b < 2 ^ 31 \<Longrightarrow>
     (scast (numeral k * x) :: acc) = numeral k * word_of_int (sint x)"
proof -
  assume "within b (sint x)" "numeral k * b < 2 ^ 31"
  then have "within (numeral k * b) (numeral k * sint x)"
    by (intro within_prod within_numeral)
  with \<open>numeral k * b < 2 ^ 31\<close> have "sint (word_of_int (numeral k * sint x) :: limb) = numeral k * sint x"
    unfolding within_def by (intro sint_id32) linarith+
  moreover have "word_of_int (numeral k * sint x) = numeral k * x"
    by (simp only: of_int_mult of_int_numeral of_int_sint scast_id)
  ultimately have "sint (numeral k * x) = numeral k * sint x" by (simp only:)
  then show "(scast (numeral k * x) :: acc) = numeral k * word_of_int (sint x)"
    unfolding scast_eq [of "numeral k * x"] by (simp only: of_int_mult of_int_numeral)
qed

lemma bounded_within:
  "bounded e od (Fe x0 x1 x2 x3 x4 x5 x6 x7 x8 x9) \<longleftrightarrow> within e (sint x0) \<and> within od (sint x1) \<and> within e (sint x2) \<and> within od (sint x3) \<and> within e (sint x4) \<and> within od (sint x5) \<and> within e (sint x6) \<and> within od (sint x7) \<and> within e (sint x8) \<and> within od (sint x9)"
  by (auto simp: bounded_def within_def abs_le_iff)

lemma FeMul_combines:
  assumes "bounded 110729625 55364812 (Fe x0 x1 x2 x3 x4 x5 x6 x7 x8 x9)" "bounded 110729625 55364812 (Fe y0 y1 y2 y3 y4 y5 y6 y7 y8 y9)"
    "F0 = sint x0" "F1 = sint x1" "F2 = sint x2" "F3 = sint x3" "F4 = sint x4" "F5 = sint x5" "F6 = sint x6" "F7 = sint x7" "F8 = sint x8" "F9 = sint x9"
    "G0 = sint y0" "G1 = sint y1" "G2 = sint y2" "G3 = sint y3" "G4 = sint y4" "G5 = sint y5" "G6 = sint y6" "G7 = sint y7" "G8 = sint y8" "G9 = sint y9"
  shows "combines (F0 * G0 + (2 * F1) * (19 * G9) + F2 * (19 * G8) + (2 * F3) * (19 * G7) + F4 * (19 * G6) + (2 * F5) * (19 * G5) + F6 * (19 * G4) + (2 * F7) * (19 * G3) + F8 * (19 * G2) + (2 * F9) * (19 * G1)) (F0 * G1 + F1 * G0 + F2 * (19 * G9) + F3 * (19 * G8) + F4 * (19 * G7) + F5 * (19 * G6) + F6 * (19 * G5) + F7 * (19 * G4) + F8 * (19 * G3) + F9 * (19 * G2)) (F0 * G2 + (2 * F1) * G1 + F2 * G0 + (2 * F3) * (19 * G9) + F4 * (19 * G8) + (2 * F5) * (19 * G7) + F6 * (19 * G6) + (2 * F7) * (19 * G5) + F8 * (19 * G4) + (2 * F9) * (19 * G3)) (F0 * G3 + F1 * G2 + F2 * G1 + F3 * G0 + F4 * (19 * G9) + F5 * (19 * G8) + F6 * (19 * G7) + F7 * (19 * G6) + F8 * (19 * G5) + F9 * (19 * G4)) (F0 * G4 + (2 * F1) * G3 + F2 * G2 + (2 * F3) * G1 + F4 * G0 + (2 * F5) * (19 * G9) + F6 * (19 * G8) + (2 * F7) * (19 * G7) + F8 * (19 * G6) + (2 * F9) * (19 * G5)) (F0 * G5 + F1 * G4 + F2 * G3 + F3 * G2 + F4 * G1 + F5 * G0 + F6 * (19 * G9) + F7 * (19 * G8) + F8 * (19 * G7) + F9 * (19 * G6)) (F0 * G6 + (2 * F1) * G5 + F2 * G4 + (2 * F3) * G3 + F4 * G2 + (2 * F5) * G1 + F6 * G0 + (2 * F7) * (19 * G9) + F8 * (19 * G8) + (2 * F9) * (19 * G7)) (F0 * G7 + F1 * G6 + F2 * G5 + F3 * G4 + F4 * G3 + F5 * G2 + F6 * G1 + F7 * G0 + F8 * (19 * G9) + F9 * (19 * G8)) (F0 * G8 + (2 * F1) * G7 + F2 * G6 + (2 * F3) * G5 + F4 * G4 + (2 * F5) * G3 + F6 * G2 + (2 * F7) * G1 + F8 * G0 + (2 * F9) * (19 * G9)) (F0 * G9 + F1 * G8 + F2 * G7 + F3 * G6 + F4 * G5 + F5 * G4 + F6 * G3 + F7 * G2 + F8 * G1 + F9 * G0) (FeMul (Fe x0 x1 x2 x3 x4 x5 x6 x7 x8 x9) (Fe y0 y1 y2 y3 y4 y5 y6 y7 y8 y9))"
proof -
  have wf: "within 110729625 F0" "within 55364812 F1" "within 110729625 F2" "within 55364812 F3" "within 110729625 F4" "within 55364812 F5" "within 110729625 F6" "within 55364812 F7" "within 110729625 F8" "within 55364812 F9"
    using assms(1) unfolding bounded_within assms(3-12) by simp_all
  have wg: "within 110729625 G0" "within 55364812 G1" "within 110729625 G2" "within 55364812 G3" "within 110729625 G4" "within 55364812 G5" "within 110729625 G6" "within 55364812 G7" "within 110729625 G8" "within 55364812 G9"
    using assms(2) unfolding bounded_within assms(13-22) by simp_all
  have vf: "within 110729625 (sint x0)" "within 110729625 (sint x1)" "within 110729625 (sint x2)" "within 110729625 (sint x3)" "within 110729625 (sint x4)" "within 110729625 (sint x5)" "within 110729625 (sint x6)" "within 110729625 (sint x7)" "within 110729625 (sint x8)" "within 110729625 (sint x9)"
    using wf unfolding assms(3-12) by (simp_all add: within_def)
  have vg: "within 110729625 (sint y0)" "within 110729625 (sint y1)" "within 110729625 (sint y2)" "within 110729625 (sint y3)" "within 110729625 (sint y4)" "within 110729625 (sint y5)" "within 110729625 (sint y6)" "within 110729625 (sint y7)" "within 110729625 (sint y8)" "within 110729625 (sint y9)"
    using wg unfolding assms(13-22) by (simp_all add: within_def)
  have f: "(scast x0 :: acc) = word_of_int F0" "(scast x1 :: acc) = word_of_int F1" "(scast x2 :: acc) = word_of_int F2" "(scast x3 :: acc) = word_of_int F3" "(scast x4 :: acc) = word_of_int F4" "(scast x5 :: acc) = word_of_int F5" "(scast x6 :: acc) = word_of_int F6" "(scast x7 :: acc) = word_of_int F7" "(scast x8 :: acc) = word_of_int F8" "(scast x9 :: acc) = word_of_int F9"
    unfolding assms(3-12) by (rule scast_eq)+
  have g: "(scast y0 :: acc) = word_of_int G0" "(scast y1 :: acc) = word_of_int G1" "(scast y2 :: acc) = word_of_int G2" "(scast y3 :: acc) = word_of_int G3" "(scast y4 :: acc) = word_of_int G4" "(scast y5 :: acc) = word_of_int G5" "(scast y6 :: acc) = word_of_int G6" "(scast y7 :: acc) = word_of_int G7" "(scast y8 :: acc) = word_of_int G8" "(scast y9 :: acc) = word_of_int G9"
    unfolding assms(13-22) by (rule scast_eq)+
  have f2: "(scast (2 * x1) :: acc) = 2 * word_of_int F1" "(scast (2 * x3) :: acc) = 2 * word_of_int F3" "(scast (2 * x5) :: acc) = 2 * word_of_int F5" "(scast (2 * x7) :: acc) = 2 * word_of_int F7" "(scast (2 * x9) :: acc) = 2 * word_of_int F9"
    unfolding assms(3-12) by (rule scast_times [OF vf(2)] scast_times [OF vf(4)] scast_times [OF vf(6)]
      scast_times [OF vf(8)] scast_times [OF vf(10)]; simp)+
  have g19: "(scast (19 * y1) :: acc) = 19 * word_of_int G1" "(scast (19 * y2) :: acc) = 19 * word_of_int G2" "(scast (19 * y3) :: acc) = 19 * word_of_int G3" "(scast (19 * y4) :: acc) = 19 * word_of_int G4" "(scast (19 * y5) :: acc) = 19 * word_of_int G5" "(scast (19 * y6) :: acc) = 19 * word_of_int G6" "(scast (19 * y7) :: acc) = 19 * word_of_int G7" "(scast (19 * y8) :: acc) = 19 * word_of_int G8" "(scast (19 * y9) :: acc) = 19 * word_of_int G9"
    unfolding assms(13-22) by (rule scast_times [OF vg(2)] scast_times [OF vg(3)] scast_times [OF vg(4)]
      scast_times [OF vg(5)] scast_times [OF vg(6)] scast_times [OF vg(7)] scast_times [OF vg(8)]
      scast_times [OF vg(9)] scast_times [OF vg(10)]; simp)+
  have e: "FeMul (Fe x0 x1 x2 x3 x4 x5 x6 x7 x8 x9) (Fe y0 y1 y2 y3 y4 y5 y6 y7 y8 y9) = FeCombine (word_of_int (F0 * G0 + (2 * F1) * (19 * G9) + F2 * (19 * G8) + (2 * F3) * (19 * G7) + F4 * (19 * G6) + (2 * F5) * (19 * G5) + F6 * (19 * G4) + (2 * F7) * (19 * G3) + F8 * (19 * G2) + (2 * F9) * (19 * G1))) (word_of_int (F0 * G1 + F1 * G0 + F2 * (19 * G9) + F3 * (19 * G8) + F4 * (19 * G7) + F5 * (19 * G6) + F6 * (19 * G5) + F7 * (19 * G4) + F8 * (19 * G3) + F9 * (19 * G2))) (word_of_int (F0 * G2 + (2 * F1) * G1 + F2 * G0 + (2 * F3) * (19 * G9) + F4 * (19 * G8) + (2 * F5) * (19 * G7) + F6 * (19 * G6) + (2 * F7) * (19 * G5) + F8 * (19 * G4) + (2 * F9) * (19 * G3))) (word_of_int (F0 * G3 + F1 * G2 + F2 * G1 + F3 * G0 + F4 * (19 * G9) + F5 * (19 * G8) + F6 * (19 * G7) + F7 * (19 * G6) + F8 * (19 * G5) + F9 * (19 * G4))) (word_of_int (F0 * G4 + (2 * F1) * G3 + F2 * G2 + (2 * F3) * G1 + F4 * G0 + (2 * F5) * (19 * G9) + F6 * (19 * G8) + (2 * F7) * (19 * G7) + F8 * (19 * G6) + (2 * F9) * (19 * G5))) (word_of_int (F0 * G5 + F1 * G4 + F2 * G3 + F3 * G2 + F4 * G1 + F5 * G0 + F6 * (19 * G9) + F7 * (19 * G8) + F8 * (19 * G7) + F9 * (19 * G6))) (word_of_int (F0 * G6 + (2 * F1) * G5 + F2 * G4 + (2 * F3) * G3 + F4 * G2 + (2 * F5) * G1 + F6 * G0 + (2 * F7) * (19 * G9) + F8 * (19 * G8) + (2 * F9) * (19 * G7))) (word_of_int (F0 * G7 + F1 * G6 + F2 * G5 + F3 * G4 + F4 * G3 + F5 * G2 + F6 * G1 + F7 * G0 + F8 * (19 * G9) + F9 * (19 * G8))) (word_of_int (F0 * G8 + (2 * F1) * G7 + F2 * G6 + (2 * F3) * G5 + F4 * G4 + (2 * F5) * G3 + F6 * G2 + (2 * F7) * G1 + F8 * G0 + (2 * F9) * (19 * G9))) (word_of_int (F0 * G9 + F1 * G8 + F2 * G7 + F3 * G6 + F4 * G5 + F5 * G4 + F6 * G3 + F7 * G2 + F8 * G1 + F9 * G0))"
    unfolding FeMul_def fe.case f g f2 g19 Let_def by (simp only: of_int_add of_int_mult of_int_numeral)
  show ?thesis unfolding e
    by (rule FeCombine_combines;
        (rule within_mono, (rule wf wg within_add within_prod within_numeral)+, simp))
qed

lemma feSquare_ints:
  assumes "bounded 110729625 55364812 (Fe x0 x1 x2 x3 x4 x5 x6 x7 x8 x9)"
    "F0 = sint x0" "F1 = sint x1" "F2 = sint x2" "F3 = sint x3" "F4 = sint x4" "F5 = sint x5" "F6 = sint x6" "F7 = sint x7" "F8 = sint x8" "F9 = sint x9"
  shows "feSquare (Fe x0 x1 x2 x3 x4 x5 x6 x7 x8 x9) = (word_of_int (F0 * F0 + (2 * F1) * (38 * F9) + (2 * F2) * (19 * F8) + (2 * F3) * (38 * F7) + (2 * F4) * (19 * F6) + F5 * (38 * F5)), word_of_int ((2 * F0) * F1 + F2 * (38 * F9) + (2 * F3) * (19 * F8) + F4 * (38 * F7) + (2 * F5) * (19 * F6)), word_of_int ((2 * F0) * F2 + (2 * F1) * F1 + (2 * F3) * (38 * F9) + (2 * F4) * (19 * F8) + (2 * F5) * (38 * F7) + F6 * (19 * F6)), word_of_int ((2 * F0) * F3 + (2 * F1) * F2 + F4 * (38 * F9) + (2 * F5) * (19 * F8) + F6 * (38 * F7)), word_of_int ((2 * F0) * F4 + (2 * F1) * (2 * F3) + F2 * F2 + (2 * F5) * (38 * F9) + (2 * F6) * (19 * F8) + F7 * (38 * F7)), word_of_int ((2 * F0) * F5 + (2 * F1) * F4 + (2 * F2) * F3 + F6 * (38 * F9) + (2 * F7) * (19 * F8)), word_of_int ((2 * F0) * F6 + (2 * F1) * (2 * F5) + (2 * F2) * F4 + (2 * F3) * F3 + (2 * F7) * (38 * F9) + F8 * (19 * F8)), word_of_int ((2 * F0) * F7 + (2 * F1) * F6 + (2 * F2) * F5 + (2 * F3) * F4 + F8 * (38 * F9)), word_of_int ((2 * F0) * F8 + (2 * F1) * (2 * F7) + (2 * F2) * F6 + (2 * F3) * (2 * F5) + F4 * F4 + F9 * (38 * F9)), word_of_int ((2 * F0) * F9 + (2 * F1) * F8 + (2 * F2) * F7 + (2 * F3) * F6 + (2 * F4) * F5))"
    "within 4611685468671574016 (F0 * F0 + (2 * F1) * (38 * F9) + (2 * F2) * (19 * F8) + (2 * F3) * (38 * F7) + (2 * F4) * (19 * F6) + F5 * (38 * F5))" "within 4611685468671574016 ((2 * F0) * F1 + F2 * (38 * F9) + (2 * F3) * (19 * F8) + F4 * (38 * F7) + (2 * F5) * (19 * F6))" "within 4611685468671574016 ((2 * F0) * F2 + (2 * F1) * F1 + (2 * F3) * (38 * F9) + (2 * F4) * (19 * F8) + (2 * F5) * (38 * F7) + F6 * (19 * F6))" "within 4611685468671574016 ((2 * F0) * F3 + (2 * F1) * F2 + F4 * (38 * F9) + (2 * F5) * (19 * F8) + F6 * (38 * F7))" "within 4611685468671574016 ((2 * F0) * F4 + (2 * F1) * (2 * F3) + F2 * F2 + (2 * F5) * (38 * F9) + (2 * F6) * (19 * F8) + F7 * (38 * F7))" "within 4611685468671574016 ((2 * F0) * F5 + (2 * F1) * F4 + (2 * F2) * F3 + F6 * (38 * F9) + (2 * F7) * (19 * F8))" "within 4611685468671574016 ((2 * F0) * F6 + (2 * F1) * (2 * F5) + (2 * F2) * F4 + (2 * F3) * F3 + (2 * F7) * (38 * F9) + F8 * (19 * F8))" "within 4611685468671574016 ((2 * F0) * F7 + (2 * F1) * F6 + (2 * F2) * F5 + (2 * F3) * F4 + F8 * (38 * F9))" "within 4611685468671574016 ((2 * F0) * F8 + (2 * F1) * (2 * F7) + (2 * F2) * F6 + (2 * F3) * (2 * F5) + F4 * F4 + F9 * (38 * F9))" "within 4611685468671574016 ((2 * F0) * F9 + (2 * F1) * F8 + (2 * F2) * F7 + (2 * F3) * F6 + (2 * F4) * F5)"
proof -
  have wf: "within 110729625 F0" "within 55364812 F1" "within 110729625 F2" "within 55364812 F3" "within 110729625 F4" "within 55364812 F5" "within 110729625 F6" "within 55364812 F7" "within 110729625 F8" "within 55364812 F9"
    using assms(1) unfolding bounded_within assms(2-11) by simp_all
  have vf: "within 110729625 (sint x0)" "within 110729625 (sint x1)" "within 110729625 (sint x2)" "within 110729625 (sint x3)" "within 110729625 (sint x4)" "within 110729625 (sint x5)" "within 110729625 (sint x6)" "within 110729625 (sint x7)" "within 110729625 (sint x8)" "within 110729625 (sint x9)"
    using wf unfolding assms(2-11) by (simp_all add: within_def)
  have f: "(scast x0 :: acc) = word_of_int F0" "(scast x1 :: acc) = word_of_int F1" "(scast x2 :: acc) = word_of_int F2" "(scast x3 :: acc) = word_of_int F3" "(scast x4 :: acc) = word_of_int F4" "(scast x5 :: acc) = word_of_int F5" "(scast x6 :: acc) = word_of_int F6" "(scast x7 :: acc) = word_of_int F7" "(scast x8 :: acc) = word_of_int F8" "(scast x9 :: acc) = word_of_int F9"
    unfolding assms(2-11) by (rule scast_eq)+
  have f2: "(scast (2 * x0) :: acc) = 2 * word_of_int F0" "(scast (2 * x1) :: acc) = 2 * word_of_int F1" "(scast (2 * x2) :: acc) = 2 * word_of_int F2" "(scast (2 * x3) :: acc) = 2 * word_of_int F3" "(scast (2 * x4) :: acc) = 2 * word_of_int F4" "(scast (2 * x5) :: acc) = 2 * word_of_int F5" "(scast (2 * x6) :: acc) = 2 * word_of_int F6" "(scast (2 * x7) :: acc) = 2 * word_of_int F7"
    unfolding assms(2-11) by (rule scast_times [OF vf(1)] scast_times [OF vf(2)] scast_times [OF vf(3)]
      scast_times [OF vf(4)] scast_times [OF vf(5)] scast_times [OF vf(6)] scast_times [OF vf(7)] scast_times [OF vf(8)]; simp)+
  show "feSquare (Fe x0 x1 x2 x3 x4 x5 x6 x7 x8 x9) = (word_of_int (F0 * F0 + (2 * F1) * (38 * F9) + (2 * F2) * (19 * F8) + (2 * F3) * (38 * F7) + (2 * F4) * (19 * F6) + F5 * (38 * F5)), word_of_int ((2 * F0) * F1 + F2 * (38 * F9) + (2 * F3) * (19 * F8) + F4 * (38 * F7) + (2 * F5) * (19 * F6)), word_of_int ((2 * F0) * F2 + (2 * F1) * F1 + (2 * F3) * (38 * F9) + (2 * F4) * (19 * F8) + (2 * F5) * (38 * F7) + F6 * (19 * F6)), word_of_int ((2 * F0) * F3 + (2 * F1) * F2 + F4 * (38 * F9) + (2 * F5) * (19 * F8) + F6 * (38 * F7)), word_of_int ((2 * F0) * F4 + (2 * F1) * (2 * F3) + F2 * F2 + (2 * F5) * (38 * F9) + (2 * F6) * (19 * F8) + F7 * (38 * F7)), word_of_int ((2 * F0) * F5 + (2 * F1) * F4 + (2 * F2) * F3 + F6 * (38 * F9) + (2 * F7) * (19 * F8)), word_of_int ((2 * F0) * F6 + (2 * F1) * (2 * F5) + (2 * F2) * F4 + (2 * F3) * F3 + (2 * F7) * (38 * F9) + F8 * (19 * F8)), word_of_int ((2 * F0) * F7 + (2 * F1) * F6 + (2 * F2) * F5 + (2 * F3) * F4 + F8 * (38 * F9)), word_of_int ((2 * F0) * F8 + (2 * F1) * (2 * F7) + (2 * F2) * F6 + (2 * F3) * (2 * F5) + F4 * F4 + F9 * (38 * F9)), word_of_int ((2 * F0) * F9 + (2 * F1) * F8 + (2 * F2) * F7 + (2 * F3) * F6 + (2 * F4) * F5))"
    unfolding feSquare_def fe.case f f2 Let_def by (simp only: of_int_add of_int_mult of_int_numeral)
  show "within 4611685468671574016 (F0 * F0 + (2 * F1) * (38 * F9) + (2 * F2) * (19 * F8) + (2 * F3) * (38 * F7) + (2 * F4) * (19 * F6) + F5 * (38 * F5))" "within 4611685468671574016 ((2 * F0) * F1 + F2 * (38 * F9) + (2 * F3) * (19 * F8) + F4 * (38 * F7) + (2 * F5) * (19 * F6))" "within 4611685468671574016 ((2 * F0) * F2 + (2 * F1) * F1 + (2 * F3) * (38 * F9) + (2 * F4) * (19 * F8) + (2 * F5) * (38 * F7) + F6 * (19 * F6))" "within 4611685468671574016 ((2 * F0) * F3 + (2 * F1) * F2 + F4 * (38 * F9) + (2 * F5) * (19 * F8) + F6 * (38 * F7))" "within 4611685468671574016 ((2 * F0) * F4 + (2 * F1) * (2 * F3) + F2 * F2 + (2 * F5) * (38 * F9) + (2 * F6) * (19 * F8) + F7 * (38 * F7))" "within 4611685468671574016 ((2 * F0) * F5 + (2 * F1) * F4 + (2 * F2) * F3 + F6 * (38 * F9) + (2 * F7) * (19 * F8))" "within 4611685468671574016 ((2 * F0) * F6 + (2 * F1) * (2 * F5) + (2 * F2) * F4 + (2 * F3) * F3 + (2 * F7) * (38 * F9) + F8 * (19 * F8))" "within 4611685468671574016 ((2 * F0) * F7 + (2 * F1) * F6 + (2 * F2) * F5 + (2 * F3) * F4 + F8 * (38 * F9))" "within 4611685468671574016 ((2 * F0) * F8 + (2 * F1) * (2 * F7) + (2 * F2) * F6 + (2 * F3) * (2 * F5) + F4 * F4 + F9 * (38 * F9))" "within 4611685468671574016 ((2 * F0) * F9 + (2 * F1) * F8 + (2 * F2) * F7 + (2 * F3) * F6 + (2 * F4) * F5)"
    by (rule within_mono, (rule wf within_add within_prod within_numeral)+, simp)+
qed

text \<open>Squaring, once and twice over: \<open>k\<close> is 1 or 2.\<close>

lemma square_combines:
  assumes "within 4611685468671574016 h0" "within 4611685468671574016 h1" "within 4611685468671574016 h2" "within 4611685468671574016 h3" "within 4611685468671574016 h4" "within 4611685468671574016 h5" "within 4611685468671574016 h6" "within 4611685468671574016 h7" "within 4611685468671574016 h8" "within 4611685468671574016 h9"
  shows "combines h0 h1 h2 h3 h4 h5 h6 h7 h8 h9 (FeCombine (word_of_int h0) (word_of_int h1) (word_of_int h2) (word_of_int h3) (word_of_int h4) (word_of_int h5) (word_of_int h6) (word_of_int h7) (word_of_int h8) (word_of_int h9))"
    "combines (h0 + h0) (h1 + h1) (h2 + h2) (h3 + h3) (h4 + h4) (h5 + h5) (h6 + h6) (h7 + h7) (h8 + h8) (h9 + h9) (FeCombine (word_of_int h0 + word_of_int h0) (word_of_int h1 + word_of_int h1) (word_of_int h2 + word_of_int h2) (word_of_int h3 + word_of_int h3) (word_of_int h4 + word_of_int h4) (word_of_int h5 + word_of_int h5) (word_of_int h6 + word_of_int h6) (word_of_int h7 + word_of_int h7) (word_of_int h8 + word_of_int h8) (word_of_int h9 + word_of_int h9))"
proof -
  show "combines h0 h1 h2 h3 h4 h5 h6 h7 h8 h9 (FeCombine (word_of_int h0) (word_of_int h1) (word_of_int h2) (word_of_int h3) (word_of_int h4) (word_of_int h5) (word_of_int h6) (word_of_int h7) (word_of_int h8) (word_of_int h9))"
    by (rule FeCombine_combines; rule within_mono, rule assms, simp)
  have d: "word_of_int h + word_of_int h = (word_of_int (h + h) :: acc)" for h by simp
  show "combines (h0 + h0) (h1 + h1) (h2 + h2) (h3 + h3) (h4 + h4) (h5 + h5) (h6 + h6) (h7 + h7) (h8 + h8) (h9 + h9) (FeCombine (word_of_int h0 + word_of_int h0) (word_of_int h1 + word_of_int h1) (word_of_int h2 + word_of_int h2) (word_of_int h3 + word_of_int h3) (word_of_int h4 + word_of_int h4) (word_of_int h5 + word_of_int h5) (word_of_int h6 + word_of_int h6) (word_of_int h7 + word_of_int h7) (word_of_int h8 + word_of_int h8) (word_of_int h9 + word_of_int h9))"
    unfolding d by (rule FeCombine_combines; rule within_mono, rule within_add, rule assms, rule assms, simp)
qed

text \<open>Results in terms of values: \<open>f\<close> represents \<open>v\<close> modulo the prime.\<close>

definition represents :: "fe \<Rightarrow> int \<Rightarrow> bool" where
  "represents f v \<longleftrightarrow> fe_val f mod prime25519 = v mod prime25519"

lemma represents_self [simp]: "represents f (fe_val f)"
  by (simp add: represents_def)

lemma combines_represents:
  assumes "combines h0 h1 h2 h3 h4 h5 h6 h7 h8 h9 r" "radix_sum h0 h1 h2 h3 h4 h5 h6 h7 h8 h9 = v - prime25519 * k"
  shows "tight r \<and> represents r v"
proof -
  obtain j where "fe_val r = v - prime25519 * (k + j)" "tight r"
    using assms by (auto simp: combines_def algebra_simps)
  moreover have "(v - prime25519 * (k + j)) mod prime25519 = v mod prime25519"
    by (simp add: mod_diff_right_eq [of v "prime25519 * (k + j)", symmetric])
  ultimately show ?thesis by (simp add: represents_def)
qed

lemma FeMul_val:
  assumes "loose f" "loose g"
  shows "tight (FeMul f g) \<and> represents (FeMul f g) (fe_val f * fe_val g)"
proof -
  obtain x0 x1 x2 x3 x4 x5 x6 x7 x8 x9 where f: "f = Fe x0 x1 x2 x3 x4 x5 x6 x7 x8 x9" by (cases f)
  obtain y0 y1 y2 y3 y4 y5 y6 y7 y8 y9 where g: "g = Fe y0 y1 y2 y3 y4 y5 y6 y7 y8 y9" by (cases g)
  show ?thesis
    using combines_represents [OF FeMul_combines [OF assms [unfolded f g] refl refl refl refl refl refl refl refl refl refl refl refl refl refl refl refl refl refl refl refl] mul_identity]
    unfolding f g fe_val_def fe.case .
qed

lemma FeSquare_val:
  assumes "loose f"
  shows "tight (FeSquare f) \<and> represents (FeSquare f) (fe_val f * fe_val f)"
    "tight (FeSquare2 f) \<and> represents (FeSquare2 f) (2 * (fe_val f * fe_val f))"
proof -
  obtain x0 x1 x2 x3 x4 x5 x6 x7 x8 x9 where f: "f = Fe x0 x1 x2 x3 x4 x5 x6 x7 x8 x9" by (cases f)
  note S = feSquare_ints [OF assms [unfolded f] refl refl refl refl refl refl refl refl refl refl]
  show "tight (FeSquare f) \<and> represents (FeSquare f) (fe_val f * fe_val f)"
    using combines_represents [OF square_combines(1) [OF S(2-11)] square_identity]
    unfolding FeSquare_def f S(1) prod.case fe_val_def fe.case .
  have twice: "radix_sum (h0 + h0) (h1 + h1) (h2 + h2) (h3 + h3) (h4 + h4) (h5 + h5) (h6 + h6) (h7 + h7) (h8 + h8) (h9 + h9) = 2 * radix_sum h0 h1 h2 h3 h4 h5 h6 h7 h8 h9" for h0 h1 h2 h3 h4 h5 h6 h7 h8 h9
    by (simp add: radix_sum_def)
  have "radix_sum (h0 + h0) (h1 + h1) (h2 + h2) (h3 + h3) (h4 + h4) (h5 + h5) (h6 + h6) (h7 + h7) (h8 + h8) (h9 + h9) = 2 * v - prime25519 * (2 * k)"
    if "radix_sum h0 h1 h2 h3 h4 h5 h6 h7 h8 h9 = v - prime25519 * k" for h0 h1 h2 h3 h4 h5 h6 h7 h8 h9 v k
    unfolding twice that by simp
  from combines_represents [OF square_combines(2) [OF S(2-11)] this [OF square_identity]]
  show "tight (FeSquare2 f) \<and> represents (FeSquare2 f) (2 * (fe_val f * fe_val f))"
    unfolding FeSquare2_def f S(1) prod.case fe_val_def fe.case .
qed

text \<open>Sums, differences and negatives are exact, and of twice the size.\<close>

lemma sint_op:
  "within b (sint x) \<Longrightarrow> within c (sint y) \<Longrightarrow> b + c < 2 ^ 31 \<Longrightarrow>
     sint (x + y :: limb) = sint x + sint y \<and> sint (x - y) = sint x - sint y"
  using sint_id32 [of "sint x + sint y"] sint_id32 [of "sint x - sint y"] by (simp add: within_def)

lemma sint_op_neg: "within b (sint x) \<Longrightarrow> b + b < 2 ^ 31 \<Longrightarrow> sint (- x :: limb) = - sint x"
  using sint_op [of 0 0 b x] by (simp add: within_def)

lemma FeAdd_val:
  assumes "bounded e od f" "bounded e' od' g" "e + e' < 2 ^ 31" "od + od' < 2 ^ 31"
  shows "bounded (e + e') (od + od') (FeAdd f g) \<and> fe_val (FeAdd f g) = fe_val f + fe_val g"
    "bounded (e + e') (od + od') (FeSub f g) \<and> fe_val (FeSub f g) = fe_val f - fe_val g"
proof -
  obtain x0 x1 x2 x3 x4 x5 x6 x7 x8 x9 where f: "f = Fe x0 x1 x2 x3 x4 x5 x6 x7 x8 x9" by (cases f)
  obtain y0 y1 y2 y3 y4 y5 y6 y7 y8 y9 where g: "g = Fe y0 y1 y2 y3 y4 y5 y6 y7 y8 y9" by (cases g)
  note B = assms(1,2) [unfolded f g bounded_within]
  have A:
    "sint (x0 + y0) = sint x0 + sint y0" "sint (x0 - y0) = sint x0 - sint y0"
    "sint (x1 + y1) = sint x1 + sint y1" "sint (x1 - y1) = sint x1 - sint y1"
    "sint (x2 + y2) = sint x2 + sint y2" "sint (x2 - y2) = sint x2 - sint y2"
    "sint (x3 + y3) = sint x3 + sint y3" "sint (x3 - y3) = sint x3 - sint y3"
    "sint (x4 + y4) = sint x4 + sint y4" "sint (x4 - y4) = sint x4 - sint y4"
    "sint (x5 + y5) = sint x5 + sint y5" "sint (x5 - y5) = sint x5 - sint y5"
    "sint (x6 + y6) = sint x6 + sint y6" "sint (x6 - y6) = sint x6 - sint y6"
    "sint (x7 + y7) = sint x7 + sint y7" "sint (x7 - y7) = sint x7 - sint y7"
    "sint (x8 + y8) = sint x8 + sint y8" "sint (x8 - y8) = sint x8 - sint y8"
    "sint (x9 + y9) = sint x9 + sint y9" "sint (x9 - y9) = sint x9 - sint y9"
    using B assms(3,4) sint_op [of e _ e'] sint_op [of od _ od'] by simp_all
  show "bounded (e + e') (od + od') (FeAdd f g) \<and> fe_val (FeAdd f g) = fe_val f + fe_val g"
    using B unfolding f g FeAdd.simps bounded_within fe_val_def fe.case radix_sum_def A
    by (simp add: within_def)
  show "bounded (e + e') (od + od') (FeSub f g) \<and> fe_val (FeSub f g) = fe_val f - fe_val g"
    using B unfolding f g FeSub.simps bounded_within fe_val_def fe.case radix_sum_def A
    by (simp add: within_def)
qed

lemma FeNeg_val:
  assumes "bounded e od f" "e + e < 2 ^ 31" "od + od < 2 ^ 31"
  shows "bounded e od (FeNeg f) \<and> fe_val (FeNeg f) = - fe_val f"
proof -
  obtain x0 x1 x2 x3 x4 x5 x6 x7 x8 x9 where f: "f = Fe x0 x1 x2 x3 x4 x5 x6 x7 x8 x9" by (cases f)
  note B = assms(1) [unfolded f bounded_within]
  have N:
    "sint (- x0) = - sint x0" "sint (- x1) = - sint x1" "sint (- x2) = - sint x2" "sint (- x3) = - sint x3" "sint (- x4) = - sint x4"
    "sint (- x5) = - sint x5" "sint (- x6) = - sint x6" "sint (- x7) = - sint x7" "sint (- x8) = - sint x8" "sint (- x9) = - sint x9"
    using B assms(2,3) sint_op_neg [of e] sint_op_neg [of od] by simp_all
  show ?thesis
    using B unfolding f FeNeg.simps bounded_within fe_val_def fe.case radix_sum_def N
    by (simp add: within_def)
qed

lemma tight_ops:
  assumes "tight f" "tight g"
  shows "loose (FeAdd f g) \<and> fe_val (FeAdd f g) = fe_val f + fe_val g"
    "loose (FeSub f g) \<and> fe_val (FeSub f g) = fe_val f - fe_val g"
    "tight (FeNeg f) \<and> fe_val (FeNeg f) = - fe_val f"
  using FeAdd_val [OF assms] FeNeg_val [OF assms(1)] by (auto elim: bounded_mono)

lemma FeCMove_val: "FeCMove f g 0 = f" "FeCMove f g 1 = g"
proof -
  obtain x0 x1 x2 x3 x4 x5 x6 x7 x8 x9 where f: "f = Fe x0 x1 x2 x3 x4 x5 x6 x7 x8 x9" by (cases f)
  obtain y0 y1 y2 y3 y4 y5 y6 y7 y8 y9 where g: "g = Fe y0 y1 y2 y3 y4 y5 y6 y7 y8 y9" by (cases g)
  have "cmove 0 x y = x" "cmove 1 x y = y" for x y by (simp_all add: cmove_def flip: xor.assoc)
  then show "FeCMove f g 0 = f" "FeCMove f g 1 = g" by (simp_all add: f g)
qed

section \<open>Exponentiation\<close>

definition is_pow :: "fe \<Rightarrow> nat \<Rightarrow> fe \<Rightarrow> bool" where
  "is_pow z a f \<longleftrightarrow> loose f \<and> represents f (fe_val z ^ a)"

definition tight_pow :: "fe \<Rightarrow> nat \<Rightarrow> fe \<Rightarrow> bool" where
  "tight_pow z a f \<longleftrightarrow> tight f \<and> represents f (fe_val z ^ a)"

lemma tight_pow_is_pow: "tight_pow z a f \<Longrightarrow> is_pow z a f"
  by (simp add: tight_pow_def is_pow_def)

lemma pow_self: "loose z \<Longrightarrow> is_pow z 1 z"
  by (simp add: is_pow_def)

lemma represents_mult:
  "represents r (fe_val f * fe_val g) \<Longrightarrow> represents f v \<Longrightarrow> represents g w \<Longrightarrow> represents r (v * w)"
  unfolding represents_def by (metis mod_mult_cong)

lemma tight_mul: "is_pow z a f \<Longrightarrow> is_pow z b g \<Longrightarrow> tight_pow z (a + b) (FeMul f g)"
  using FeMul_val [of f g] represents_mult [of "FeMul f g" f g]
  by (auto simp: is_pow_def tight_pow_def power_add)

lemma pow_mul: "is_pow z a f \<Longrightarrow> is_pow z b g \<Longrightarrow> is_pow z (a + b) (FeMul f g)"
  by (rule tight_pow_is_pow [OF tight_mul])

lemma pow_square: "is_pow z a f \<Longrightarrow> is_pow z (a * 2) (FeSquare f)"
  using FeSquare_val(1) [of f] represents_mult [of "FeSquare f" f f]
  by (auto simp: is_pow_def power_mult power2_eq_square)

lemma pow_squares: "is_pow z a f \<Longrightarrow> 1 \<le> n \<Longrightarrow> is_pow z (a * 2 ^ n) (FeSquares n f)"
proof (induction n)
  case (Suc n)
  show ?case
  proof (cases n)
    case 0
    with Suc show ?thesis by (simp add: FeSquares_def pow_square)
  next
    case (Suc m)
    with Suc.IH Suc.prems have "is_pow z (a * 2 ^ n) (FeSquares n f)" by simp
    from pow_square [OF this] Suc show ?thesis by (simp add: FeSquares_def ac_simps)
  qed
qed simp

text \<open>An addition chain is followed step by step: \<open>pow_let\<close> gives every intermediate result its exponent.\<close>

lemma pow_let: "is_pow z a e \<Longrightarrow> (\<And>t. is_pow z a t \<Longrightarrow> tight_pow z n (F t)) \<Longrightarrow> tight_pow z n (Let e F)"
  by (simp add: Let_def)

lemma pow_eq: "tight_pow z a f \<Longrightarrow> a = n \<Longrightarrow> tight_pow z n f"
  by simp

lemma FeInvert_pow:
  assumes "loose z"
  shows "tight_pow z (2 ^ 255 - 21) (FeInvert z)"
  unfolding FeInvert_def
  by (rule pow_let, (rule pow_self [OF assms] pow_mul pow_square pow_squares | assumption | simp)+)+
    (rule pow_eq, rule tight_mul, (rule pow_mul pow_squares | assumption | simp)+)

lemma fePow22523_pow:
  assumes "loose z"
  shows "tight_pow z (2 ^ 252 - 3) (fePow22523 z)"
  unfolding fePow22523_def
  by (rule pow_let, (rule pow_self [OF assms] pow_mul pow_square pow_squares | assumption | simp)+)+
    (rule pow_eq, rule tight_mul, (rule pow_self [OF assms] pow_mul pow_squares | assumption | simp)+)

section \<open>Elements that stand for a number\<close>

text \<open>The rules by which a client of the field follows a computation: bounds and the number modulo the prime.\<close>

definition denotes :: "int \<Rightarrow> int \<Rightarrow> fe \<Rightarrow> int \<Rightarrow> bool" where
  "denotes e od f v \<longleftrightarrow> bounded e od f \<and> represents f v"

abbreviation loosely :: "fe \<Rightarrow> int \<Rightarrow> bool" where
  "loosely \<equiv> denotes 110729625 55364812"

abbreviation tightly :: "fe \<Rightarrow> int \<Rightarrow> bool" where
  "tightly \<equiv> denotes 33889976 16944988"

lemma denotes_mono: "denotes e od f v \<Longrightarrow> e \<le> e' \<Longrightarrow> od \<le> od' \<Longrightarrow> denotes e' od' f v"
  by (auto simp: denotes_def elim: bounded_mono)

lemma denotes_cong: "denotes e od f v \<Longrightarrow> v mod prime25519 = w mod prime25519 \<Longrightarrow> denotes e od f w"
  by (simp add: denotes_def represents_def)

lemma tightly_loosely [simp]: "tightly f v \<Longrightarrow> loosely f v"
  by (erule denotes_mono) simp_all

lemma denotes_mul: "loosely f a \<Longrightarrow> loosely g b \<Longrightarrow> tightly (FeMul f g) (a * b)"
  using FeMul_val [of f g] represents_mult [of "FeMul f g" f g a b] by (simp add: denotes_def)

lemma denotes_square: "loosely f a \<Longrightarrow> tightly (FeSquare f) (a\<^sup>2)"
  using FeSquare_val(1) [of f] unfolding denotes_def represents_def power2_eq_square by (metis mod_mult_eq)

lemma denotes_square2: "loosely f a \<Longrightarrow> tightly (FeSquare2 f) (2 * a\<^sup>2)"
  using FeSquare_val(2) [of f] unfolding denotes_def represents_def power2_eq_square by (metis mod_mult_eq)

lemma denotes_add:
  assumes "denotes e od f a" "denotes e' od' g b" "e + e' < 2 ^ 31" "od + od' < 2 ^ 31"
  shows "denotes (e + e') (od + od') (FeAdd f g) (a + b) \<and> denotes (e + e') (od + od') (FeSub f g) (a - b)"
  using FeAdd_val [of e od f e' od' g] assms mod_add_cong [of "fe_val f" prime25519 a "fe_val g" b]
    mod_diff_cong [of "fe_val f" prime25519 a "fe_val g" b]
  by (simp add: denotes_def represents_def)

lemma denotes_neg: "denotes e od f a \<Longrightarrow> e + e < 2 ^ 31 \<Longrightarrow> od + od < 2 ^ 31 \<Longrightarrow> denotes e od (FeNeg f) (- a)"
  using FeNeg_val [of e od f] mod_minus_eq [of "fe_val f" prime25519] mod_minus_eq [of a prime25519]
  by (simp add: denotes_def represents_def)

lemma denotes_pow:
  assumes "tight_pow z n f" "represents z a"
  shows "tightly f (a ^ n)"
  using assms power_mod [of "fe_val z" prime25519 n] power_mod [of a prime25519 n]
  by (simp add: tight_pow_def denotes_def represents_def)

lemma denotes_invert: "loosely z a \<Longrightarrow> tightly (FeInvert z) (a ^ (2 ^ 255 - 21))"
  by (rule denotes_pow [OF FeInvert_pow]) (simp_all add: denotes_def)

lemma denotes_const:
  "denotes 0 0 FeZero 0" "denotes 1 0 FeOne 1"
  by (simp_all add: denotes_def bounded_def represents_def FeZero_def FeOne_def fe_val_def radix_sum_def)

section \<open>Properties\<close>

text \<open>C18: Field arithmetic is arithmetic modulo \<open>2^255 - 19\<close>. For arguments within the loose bounds
  (\<open>1.65 * 2^26\<close> and \<open>1.65 * 2^25\<close>) no 32-bit or 64-bit operation of \<open>FeMul\<close>, \<open>FeSquare\<close> and
  \<open>FeSquare2\<close> loses anything: the results are the products modulo the prime, and tight
  (\<open>1.01 * 2^25\<close> and \<open>1.01 * 2^24\<close>). Sums, differences and negatives of tight elements are exact and
  loose, so a product may follow any one of them.\<close>

theorem fe_arithmetic:
  assumes "loose f" "loose g" "tight a" "tight b"
  shows "(tight (FeMul f g) \<and> fe_val (FeMul f g) mod prime25519 = fe_val f * fe_val g mod prime25519) \<and>
    (tight (FeSquare f) \<and> fe_val (FeSquare f) mod prime25519 = (fe_val f)\<^sup>2 mod prime25519) \<and>
    (tight (FeSquare2 f) \<and> fe_val (FeSquare2 f) mod prime25519 = 2 * (fe_val f)\<^sup>2 mod prime25519) \<and>
    (loose (FeAdd a b) \<and> fe_val (FeAdd a b) = fe_val a + fe_val b) \<and>
    (loose (FeSub a b) \<and> fe_val (FeSub a b) = fe_val a - fe_val b) \<and>
    (tight (FeNeg a) \<and> fe_val (FeNeg a) = - fe_val a)"
  using FeMul_val [OF assms(1,2)] FeSquare_val [OF assms(1)] tight_ops [OF assms(3,4)]
  by (simp add: represents_def power2_eq_square)

theorem fe_arithmetic_witness:
  "fe_val (FeMul (Fe (- 7) 1 0 0 0 0 0 0 0 5) (Fe 2 0 3 0 0 0 0 0 0 0)) mod prime25519 =
     fe_val (Fe (- 7) 1 0 0 0 0 0 0 0 5) * fe_val (Fe 2 0 3 0 0 0 0 0 0 0) mod prime25519"
  by (rule fe_arithmetic [THEN conjunct1, THEN conjunct2, of _ _ FeOne FeOne]; code_simp)

text \<open>\<open>FeInvert\<close> raises a loose element to the power \<open>p - 2\<close> and \<open>fePow22523\<close> to the power
  \<open>(p - 5) div 8\<close>, for \<open>p = 2^255 - 19\<close>: the addition chains of 254 and 252 squarings are right, every
  intermediate product keeps its bounds, and the product of an element with its inverse is the element to the
  power \<open>p - 1\<close>, which is 1 where Fermat's theorem applies.\<close>

lemma fe_powers:
  assumes "loose z"
  shows "(tight (FeInvert z) \<and> fe_val (FeInvert z) mod prime25519 = fe_val z ^ (2 ^ 255 - 21) mod prime25519) \<and>
    (tight (fePow22523 z) \<and> fe_val (fePow22523 z) mod prime25519 = fe_val z ^ (2 ^ 252 - 3) mod prime25519) \<and>
    fe_val (FeMul z (FeInvert z)) mod prime25519 = fe_val z ^ (2 ^ 255 - 20) mod prime25519"
proof (intro conjI)
  from pow_eq [OF tight_mul [OF pow_self [OF assms] tight_pow_is_pow [OF FeInvert_pow [OF assms]]], of "2 ^ 255 - 20"]
  have "tight_pow z (2 ^ 255 - 20) (FeMul z (FeInvert z))" by simp
  then show "fe_val (FeMul z (FeInvert z)) mod prime25519 = fe_val z ^ (2 ^ 255 - 20) mod prime25519"
    by (simp only: tight_pow_def represents_def)
qed (use FeInvert_pow [OF assms] fePow22523_pow [OF assms] in \<open>simp_all only: tight_pow_def represents_def\<close>)

lemma fe_powers_example:
  "fe_val (FeMul (FeNeg FeOne) (FeInvert (FeNeg FeOne))) mod prime25519 = 1"
proof -
  have t: "loose (FeNeg FeOne)" and "fe_val (FeNeg FeOne) = - 1" by code_simp+
  moreover have "even (2 ^ 255 - 20 :: nat)" by simp
  ultimately have "fe_val (FeNeg FeOne) ^ (2 ^ 255 - 20) = 1" by (metis neg_one_even_power)
  with fe_powers [OF t] have "fe_val (FeMul (FeNeg FeOne) (FeInvert (FeNeg FeOne))) mod prime25519 = 1 mod prime25519"
    by (simp only:)
  then show ?thesis by (simp add: prime25519_def)
qed

end
