(* ===== verification/FieldCodec.thy ===== *)
theory FieldCodec
  imports Field25519
begin

text \<open>
  The conversions between field elements and their 32 bytes in \<open>internal/edwards25519/edwards25519.go\<close>:
  \<open>FeFromBytes\<close> reads a little-endian number and ignores its top bit; \<open>FeToBytes\<close> reduces an element to its
  canonical representative below \<open>2^255 - 19\<close> (in place: its argument is changed) and writes that out.
  \<open>FeIsNegative\<close> and \<open>FeIsNonZero\<close> look at the bytes. Byte slices have the fixed length 32 of the source's
  arrays.
\<close>

section \<open>From bytes\<close>

definition load3 :: "bytes \<Rightarrow> acc" where
  "load3 xs = (ucast (xs ! 0) OR push_bit 8 (ucast (xs ! 1))) OR push_bit 16 (ucast (xs ! 2))"

definition load4 :: "bytes \<Rightarrow> acc" where
  "load4 xs = ((ucast (xs ! 0) OR push_bit 8 (ucast (xs ! 1))) OR push_bit 16 (ucast (xs ! 2))) OR
     push_bit 24 (ucast (xs ! 3))"

definition FeFromBytes :: "bytes \<Rightarrow> fe" where
  "FeFromBytes src =
    (let h0 = load4 src;
         h1 = push_bit 6 (load3 (drop 4 src));
         h2 = push_bit 5 (load3 (drop 7 src));
         h3 = push_bit 3 (load3 (drop 10 src));
         h4 = push_bit 2 (load3 (drop 13 src));
         h5 = load4 (drop 16 src);
         h6 = push_bit 7 (load3 (drop 20 src));
         h7 = push_bit 5 (load3 (drop 23 src));
         h8 = push_bit 4 (load3 (drop 26 src));
         h9 = push_bit 2 (load3 (drop 29 src) AND 8388607)
     in FeCombine h0 h1 h2 h3 h4 h5 h6 h7 h8 h9)"

section \<open>To bytes\<close>

definition sar :: "nat \<Rightarrow> limb \<Rightarrow> limb" where
  "sar n x = signed_drop_bit n x"

definition limb_bytes :: "limb \<Rightarrow> limb \<Rightarrow> limb \<Rightarrow> limb \<Rightarrow> limb \<Rightarrow> limb \<Rightarrow> limb \<Rightarrow> limb \<Rightarrow> limb \<Rightarrow> limb \<Rightarrow> bytes" where
  "limb_bytes h0 h1 h2 h3 h4 h5 h6 h7 h8 h9 = map ucast [
     sar 0 h0, sar 8 h0, sar 16 h0, sar 24 h0 OR push_bit 2 h1,
     sar 6 h1, sar 14 h1, sar 22 h1 OR push_bit 3 h2, sar 5 h2,
     sar 13 h2, sar 21 h2 OR push_bit 5 h3, sar 3 h3, sar 11 h3,
     sar 19 h3 OR push_bit 6 h4, sar 2 h4, sar 10 h4, sar 18 h4,
     sar 0 h5, sar 8 h5, sar 16 h5, sar 24 h5 OR push_bit 1 h6,
     sar 7 h6, sar 15 h6, sar 23 h6 OR push_bit 3 h7, sar 5 h7,
     sar 13 h7, sar 21 h7 OR push_bit 4 h8, sar 4 h8, sar 12 h8,
     sar 20 h8 OR push_bit 6 h9, sar 2 h9, sar 10 h9, sar 18 h9]"

definition FeToBytes :: "fe \<Rightarrow> bytes \<times> fe" where
  "FeToBytes h = (case h of Fe h0 h1 h2 h3 h4 h5 h6 h7 h8 h9 \<Rightarrow>
    (let q = sar 25 (19 * h9 + push_bit 24 1);
         q = sar 26 (h0 + q);
         q = sar 25 (h1 + q);
         q = sar 26 (h2 + q);
         q = sar 25 (h3 + q);
         q = sar 26 (h4 + q);
         q = sar 25 (h5 + q);
         q = sar 26 (h6 + q);
         q = sar 25 (h7 + q);
         q = sar 26 (h8 + q);
         q = sar 25 (h9 + q);
         h0 = h0 + 19 * q;
         c0 = sar 26 h0; h1 = h1 + c0; h0 = h0 - push_bit 26 c0;
         c1 = sar 25 h1; h2 = h2 + c1; h1 = h1 - push_bit 25 c1;
         c2 = sar 26 h2; h3 = h3 + c2; h2 = h2 - push_bit 26 c2;
         c3 = sar 25 h3; h4 = h4 + c3; h3 = h3 - push_bit 25 c3;
         c4 = sar 26 h4; h5 = h5 + c4; h4 = h4 - push_bit 26 c4;
         c5 = sar 25 h5; h6 = h6 + c5; h5 = h5 - push_bit 25 c5;
         c6 = sar 26 h6; h7 = h7 + c6; h6 = h6 - push_bit 26 c6;
         c7 = sar 25 h7; h8 = h8 + c7; h7 = h7 - push_bit 25 c7;
         c8 = sar 26 h8; h9 = h9 + c8; h8 = h8 - push_bit 26 c8;
         c9 = sar 25 h9; h9 = h9 - push_bit 25 c9
     in (limb_bytes h0 h1 h2 h3 h4 h5 h6 h7 h8 h9, Fe h0 h1 h2 h3 h4 h5 h6 h7 h8 h9)))"

definition FeIsNegative :: "fe \<Rightarrow> byte \<times> fe" where
  "FeIsNegative f = (case FeToBytes f of (s, f') \<Rightarrow> ((s ! 0) AND 1, f'))"

definition FeIsNonZero :: "fe \<Rightarrow> limb \<times> fe" where
  "FeIsNonZero f = (case FeToBytes f of (s, f') \<Rightarrow>
    (let x = foldl (OR) 0 s;
         x = x OR drop_bit 4 x;
         x = x OR drop_bit 2 x;
         x = x OR drop_bit 1 x
     in (ucast (x AND 1), f')))"

section \<open>Little-endian numbers\<close>

fun le_val :: "bytes \<Rightarrow> int" where
  "le_val [] = 0"
| "le_val (b # bs) = uint b + 256 * le_val bs"

lemma le_val_bounds: "0 \<le> le_val bs \<and> le_val bs < 256 ^ length bs"
proof (induction bs)
  case (Cons b bs)
  moreover have "uint b < 256" "0 \<le> uint b" using uint_lt2p [of b] by simp_all
  ultimately show ?case unfolding le_val.simps length_Cons power_Suc by (intro conjI) linarith+
qed simp

lemma word_or_plus: "a AND b = 0 \<Longrightarrow> a OR b = a + (b :: 'a :: len word)"
  by (metis disjunctive_add_eq_or)

lemma or_push:
  assumes "0 \<le> x" "x < 2 ^ n"
  shows "word_of_int x OR push_bit n w = word_of_int x + push_bit n (w :: 'a :: len word)"
proof (rule word_or_plus, rule bit_word_eqI)
  fix i
  assume "i < LENGTH('a)"
  have "bit x i \<Longrightarrow> i < n"
    using assms by (metis bit_take_bit_iff take_bit_int_eq_self)
  then show "bit (word_of_int x AND push_bit n w) i = bit (0 :: 'a word) i"
    by (auto simp: bit_simps)
qed

lemma byte_range: "0 \<le> uint (v :: byte)" "uint (v :: byte) < 256"
  using uint_lt2p [of v] by simp_all

lemma load3_int:
  assumes "length xs \<ge> 3"
  shows "load3 xs = word_of_int (le_val (take 3 xs))"
proof -
  obtain a b c ys where xs: "xs = a # b # c # ys"
    using assms by (auto simp: Suc_le_length_iff numeral_eq_Suc)
  have "ucast a OR push_bit 8 w = ucast a + push_bit 8 w" for w :: acc
    using or_push [of "uint a" 8 w] byte_range [of a] by simp
  moreover have "(ucast a + push_bit 8 (ucast b)) OR push_bit 16 w = ucast a + push_bit 8 (ucast b) + push_bit 16 w" for w :: acc
    using or_push [of "uint a + 256 * uint b" 16 w] byte_range [of a] byte_range [of b] by (simp add: push_bit_eq_mult mult.commute)
  ultimately show ?thesis using xs by (simp add: load3_def push_bit_eq_mult algebra_simps)
qed

lemma load4_int:
  assumes "length xs \<ge> 4"
  shows "load4 xs = word_of_int (le_val (take 4 xs))"
proof -
  obtain a b c d ys where xs: "xs = a # b # c # d # ys"
    using assms by (auto simp: Suc_le_length_iff numeral_eq_Suc)
  have l: "load4 xs = load3 [a, b, c] OR push_bit 24 (ucast d)"
    using xs by (simp add: load4_def load3_def)
  have "0 \<le> le_val [a, b, c]" "le_val [a, b, c] < 2 ^ 24" using le_val_bounds [of "[a, b, c]"] by simp_all
  from or_push [OF this, of "ucast d :: acc"] load3_int [of "[a, b, c]"] l
  show ?thesis using xs by (simp add: push_bit_eq_mult algebra_simps)
qed

lemma le_val_split: "n \<le> length xs \<Longrightarrow> le_val xs = le_val (take n xs) + 256 ^ n * le_val (drop n xs)"
proof (induction n arbitrary: xs)
  case (Suc n)
  then obtain y ys where "xs = y # ys" "n \<le> length ys" by (cases xs) auto
  with Suc.IH [of ys] show ?case by (simp add: algebra_simps)
qed simp

text \<open>A byte string of 32 bytes by the pieces that \<open>FeFromBytes\<close> loads.\<close>

lemma le_val_pieces:
  assumes "length src = 32"
  shows "le_val src = le_val (take 4 src) + 2 ^ 32 * le_val (take 3 (drop 4 src)) + 2 ^ 56 * le_val (take 3 (drop 7 src)) + 2 ^ 80 * le_val (take 3 (drop 10 src)) + 2 ^ 104 * le_val (take 3 (drop 13 src)) + 2 ^ 128 * le_val (take 4 (drop 16 src)) + 2 ^ 160 * le_val (take 3 (drop 20 src)) + 2 ^ 184 * le_val (take 3 (drop 23 src)) + 2 ^ 208 * le_val (take 3 (drop 26 src)) + 2 ^ 232 * le_val (take 3 (drop 29 src))"
proof -
  have piece: "le_val (drop i src) = le_val (take n (drop i src)) + 256 ^ n * le_val (drop (i + n) src)"
    if "i + n \<le> 32" for i n
    using le_val_split [of n "drop i src"] assms that by (simp add: add.commute)
  have p0: "le_val src = le_val (take 4 src) + 2 ^ 32 * le_val (drop 4 src)" using piece [of 0 4] assms by simp
  have p1: "le_val (drop 4 src) = le_val (take 3 (drop 4 src)) + 2 ^ 24 * le_val (drop 7 src)" using piece [of 4 3] assms by simp
  have p2: "le_val (drop 7 src) = le_val (take 3 (drop 7 src)) + 2 ^ 24 * le_val (drop 10 src)" using piece [of 7 3] assms by simp
  have p3: "le_val (drop 10 src) = le_val (take 3 (drop 10 src)) + 2 ^ 24 * le_val (drop 13 src)" using piece [of 10 3] assms by simp
  have p4: "le_val (drop 13 src) = le_val (take 3 (drop 13 src)) + 2 ^ 24 * le_val (drop 16 src)" using piece [of 13 3] assms by simp
  have p5: "le_val (drop 16 src) = le_val (take 4 (drop 16 src)) + 2 ^ 32 * le_val (drop 20 src)" using piece [of 16 4] assms by simp
  have p6: "le_val (drop 20 src) = le_val (take 3 (drop 20 src)) + 2 ^ 24 * le_val (drop 23 src)" using piece [of 20 3] assms by simp
  have p7: "le_val (drop 23 src) = le_val (take 3 (drop 23 src)) + 2 ^ 24 * le_val (drop 26 src)" using piece [of 23 3] assms by simp
  have p8: "le_val (drop 26 src) = le_val (take 3 (drop 26 src)) + 2 ^ 24 * le_val (drop 29 src)" using piece [of 26 3] assms by simp
  have p9: "le_val (drop 29 src) = le_val (take 3 (drop 29 src))" using piece [of 29 3] assms by simp
  show ?thesis unfolding p0 p1 p2 p3 p4 p5 p6 p7 p8 p9 by (simp add: algebra_simps)
qed

lemma push_bit_of_int: "push_bit n (word_of_int x :: acc) = word_of_int (2 ^ n * x)"
  by (simp add: push_bit_eq_mult mult.commute)

lemma and_mask23: "word_of_int x AND 8388607 = (word_of_int (x mod 2 ^ 23) :: acc)"
proof -
  have "word_of_int x AND mask 23 = (take_bit 23 (word_of_int x) :: acc)" by (simp add: take_bit_eq_mask)
  moreover have "(mask 23 :: acc) = 8388607" by (simp add: mask_eq_exp_minus_1)
  moreover have "take_bit 23 (word_of_int x :: acc) = word_of_int (take_bit 23 x)" by (simp add: take_bit_of_int)
  ultimately show ?thesis by (simp add: take_bit_eq_mod)
qed

lemma mix_mod:
  assumes "0 \<le> a" "a < m" "0 < (n :: int)"
  shows "(a + m * r) mod (m * n) = a + m * (r mod n)"
proof -
  have "m * (r mod n) \<le> m * (n - 1)" using assms by (intro mult_left_mono) (simp_all add: zle_diff1_eq)
  then have "a + m * (r mod n) < m * n" using assms(2) by (simp add: algebra_simps)
  moreover have "0 \<le> a + m * (r mod n)" using assms by simp
  moreover have "a + m * r = (a + m * (r mod n)) + (m * n) * (r div n)"
    by (metis add.assoc distrib_left mod_mult_div_eq mult.assoc)
  ultimately show ?thesis by (metis mod_mult_self2 mod_pos_pos_trivial)
qed

lemma shifted_within: "0 \<le> m \<Longrightarrow> m < 2 ^ 23 \<Longrightarrow> within 9223370937343148032 (2 ^ 2 * m)"
  by (simp add: within_def)

lemma FeFromBytes_val:
  assumes "length src = 32"
  shows "tight (FeFromBytes src) \<and> represents (FeFromBytes src) (le_val src mod 2 ^ 255)"
proof -
  have load: "load3 (drop i src) = word_of_int (le_val (take 3 (drop i src)))" if "i + 3 \<le> 32" for i
    using load3_int [of "drop i src"] assms that by simp
  have load': "load4 (drop i src) = word_of_int (le_val (take 4 (drop i src)))" if "i + 4 \<le> 32" for i
    using load4_int [of "drop i src"] assms that by simp
  have rng: "0 \<le> le_val (take n (drop i src)) \<and> le_val (take n (drop i src)) < 256 ^ n" if "i + n \<le> 32" for i n
    using le_val_bounds [of "take n (drop i src)"] assms that by simp
  have R:
    "0 \<le> le_val (take 4 src) \<and> le_val (take 4 src) < 2 ^ 32"
    "0 \<le> le_val (take 3 (drop 4 src)) \<and> le_val (take 3 (drop 4 src)) < 2 ^ 24"
    "0 \<le> le_val (take 3 (drop 7 src)) \<and> le_val (take 3 (drop 7 src)) < 2 ^ 24"
    "0 \<le> le_val (take 3 (drop 10 src)) \<and> le_val (take 3 (drop 10 src)) < 2 ^ 24"
    "0 \<le> le_val (take 3 (drop 13 src)) \<and> le_val (take 3 (drop 13 src)) < 2 ^ 24"
    "0 \<le> le_val (take 4 (drop 16 src)) \<and> le_val (take 4 (drop 16 src)) < 2 ^ 32"
    "0 \<le> le_val (take 3 (drop 20 src)) \<and> le_val (take 3 (drop 20 src)) < 2 ^ 24"
    "0 \<le> le_val (take 3 (drop 23 src)) \<and> le_val (take 3 (drop 23 src)) < 2 ^ 24"
    "0 \<le> le_val (take 3 (drop 26 src)) \<and> le_val (take 3 (drop 26 src)) < 2 ^ 24"
    "0 \<le> le_val (take 3 (drop 29 src)) \<and> le_val (take 3 (drop 29 src)) < 2 ^ 24"
    using rng [of 0 4] rng [of 4 3] rng [of 7 3] rng [of 10 3] rng [of 13 3] rng [of 16 4] rng [of 20 3] rng [of 23 3]
      rng [of 26 3] rng [of 29 3] by simp_all
  let ?V = "le_val src mod 2 ^ 255"
  have V: "?V = radix_sum (le_val (take 4 src))
        (2 ^ 6 * le_val (take 3 (drop 4 src)))
        (2 ^ 5 * le_val (take 3 (drop 7 src)))
        (2 ^ 3 * le_val (take 3 (drop 10 src)))
        (2 ^ 2 * le_val (take 3 (drop 13 src)))
        (le_val (take 4 (drop 16 src)))
        (2 ^ 7 * le_val (take 3 (drop 20 src)))
        (2 ^ 5 * le_val (take 3 (drop 23 src)))
        (2 ^ 4 * le_val (take 3 (drop 26 src)))
        (2 ^ 2 * (le_val (take 3 (drop 29 src)) mod 2 ^ 23))"
  proof -
    let ?L = "le_val src - 2 ^ 232 * le_val (take 3 (drop 29 src))"
    have l: "0 \<le> ?L \<and> ?L < 2 ^ 232" using R unfolding le_val_pieces [OF assms] by simp
    then have "(?L + 2 ^ 232 * le_val (take 3 (drop 29 src))) mod (2 ^ 232 * 2 ^ 23) =
        ?L + 2 ^ 232 * (le_val (take 3 (drop 29 src)) mod 2 ^ 23)" by (intro mix_mod) simp_all
    then have "?V = ?L + 2 ^ 232 * (le_val (take 3 (drop 29 src)) mod 2 ^ 23)" by simp
    then show ?thesis using le_val_pieces [OF assms] by (simp add: radix_sum_def)
  qed
  have B: "within 9223370937343148032 (le_val (take 4 src))"
    "within 9223370937343148032 (2 ^ 6 * le_val (take 3 (drop 4 src)))"
    "within 9223370937343148032 (2 ^ 5 * le_val (take 3 (drop 7 src)))"
    "within 9223370937343148032 (2 ^ 3 * le_val (take 3 (drop 10 src)))"
    "within 9223370937343148032 (2 ^ 2 * le_val (take 3 (drop 13 src)))"
    "within 9223370937343148032 (le_val (take 4 (drop 16 src)))"
    "within 9223370937343148032 (2 ^ 7 * le_val (take 3 (drop 20 src)))"
    "within 9223370937343148032 (2 ^ 5 * le_val (take 3 (drop 23 src)))"
    "within 9223370937343148032 (2 ^ 4 * le_val (take 3 (drop 26 src)))"
    using R by (simp_all add: within_def)
  have B9: "within 9223370937343148032 (2 ^ 2 * (le_val (take 3 (drop 29 src)) mod 2 ^ 23))" by (rule shifted_within) simp_all
  have "FeFromBytes src = FeCombine (word_of_int (le_val (take 4 src))) (word_of_int (2 ^ 6 * le_val (take 3 (drop 4 src)))) (word_of_int (2 ^ 5 * le_val (take 3 (drop 7 src)))) (word_of_int (2 ^ 3 * le_val (take 3 (drop 10 src)))) (word_of_int (2 ^ 2 * le_val (take 3 (drop 13 src)))) (word_of_int (le_val (take 4 (drop 16 src)))) (word_of_int (2 ^ 7 * le_val (take 3 (drop 20 src)))) (word_of_int (2 ^ 5 * le_val (take 3 (drop 23 src)))) (word_of_int (2 ^ 4 * le_val (take 3 (drop 26 src)))) (word_of_int (2 ^ 2 * (le_val (take 3 (drop 29 src)) mod 2 ^ 23)))"
    unfolding FeFromBytes_def Let_def using load [of 4] load [of 7] load [of 10] load [of 13] load [of 20] load [of 23]
      load [of 26] load [of 29] load' [of 0] load' [of 16] by (simp only: push_bit_of_int and_mask23) simp
  with combines_represents [OF FeCombine_combines [OF B B9], of ?V 0] V show ?thesis by simp
qed

section \<open>Canonical bytes\<close>

lemma sar_int: "within (2 ^ 31 - 1) x \<Longrightarrow> sar n (word_of_int x) = word_of_int (x div 2 ^ n)"
proof -
  assume "within (2 ^ 31 - 1) x"
  then have "sint (sar n (word_of_int x)) = x div 2 ^ n"
    unfolding sar_def sint_signed_drop_bit_eq drop_bit_eq_div using sint_id32 [of x] by (simp add: within_def)
  from arg_cong [OF this, of "word_of_int :: int \<Rightarrow> limb"] show ?thesis by simp
qed

lemma within_div: "within a x \<Longrightarrow> a \<le> m * 2 ^ n \<Longrightarrow> within m (x div 2 ^ n)"
proof -
  assume a: "within a x" "a \<le> m * 2 ^ n"
  then have "- (m * 2 ^ n) \<le> x" "x \<le> m * 2 ^ n" by (simp_all add: within_def)
  from zdiv_mono1 [OF this(1), of "2 ^ n"] zdiv_mono1 [OF this(2), of "2 ^ n"] show ?thesis
    by (simp add: within_def flip: mult_minus_left)
qed

lemma div_less_power: "r < m * b \<Longrightarrow> 0 < b \<Longrightarrow> r div b < m" for r m b :: int
proof (rule ccontr)
  assume "r < m * b" "0 < b" "\<not> r div b < m"
  then have "m * b \<le> r div b * b" by (simp add: mult_right_mono)
  also have "\<dots> \<le> r" using \<open>0 < b\<close> by (simp add: minus_mod_eq_div_mult [symmetric])
  finally show False using \<open>r < m * b\<close> by simp
qed

lemma nest_div: "0 < m \<Longrightarrow> 0 < n \<Longrightarrow> (x + s div m) div n = (s + m * x) div (m * n)" for m n :: int
  by (simp add: zdiv_zmult2_eq add.commute)

lemma pieces:
  "r = r mod 2 ^ a + 2 ^ a * ((r div 2 ^ a) mod 256) + 2 ^ (a + 8) * ((r div 2 ^ (a + 8)) mod 256) +
     2 ^ (a + 16) * (r div 2 ^ (a + 16))" for r :: int
proof -
  have d: "r div 2 ^ a div 256 = r div 2 ^ (a + 8)" "r div 2 ^ (a + 8) div 256 = r div 2 ^ (a + 16)"
    by (simp_all add: zdiv_zmult2_eq [symmetric] power_add mult.commute)
  have "r = r mod 2 ^ a + 2 ^ a * (r div 2 ^ a)"
    "r div 2 ^ a = (r div 2 ^ a) mod 256 + 256 * (r div 2 ^ (a + 8))"
    "r div 2 ^ (a + 8) = (r div 2 ^ (a + 8)) mod 256 + 256 * (r div 2 ^ (a + 16))"
    unfolding d [symmetric] by simp_all
  then have "r = r mod 2 ^ a + 2 ^ a * ((r div 2 ^ a) mod 256 + 256 * ((r div 2 ^ (a + 8)) mod 256 + 256 * (r div 2 ^ (a + 16))))"
    by metis
  then show ?thesis by (simp add: power_add algebra_simps)
qed

lemma byte_sar: "0 \<le> r \<Longrightarrow> r < 2 ^ 26 \<Longrightarrow> uint (ucast (sar n (word_of_int r)) :: byte) = (r div 2 ^ n) mod 256"
  by (simp add: sar_int within_def unsigned_ucast_eq uint_word_of_int take_bit_eq_mod mod_mod_cancel)

lemma byte_mix:
  assumes "0 \<le> r" "r < 2 ^ 26" "r div 2 ^ n < 2 ^ k" "k \<le> 8"
  shows "uint (ucast (sar n (word_of_int r) OR push_bit k (word_of_int s)) :: byte) = r div 2 ^ n + 2 ^ k * (s mod 2 ^ (8 - k))"
proof -
  have d: "0 \<le> r div 2 ^ n" using assms(1) by (simp add: pos_imp_zdiv_nonneg_iff)
  have "sar n (word_of_int r) OR push_bit k (word_of_int s) = word_of_int (r div 2 ^ n + 2 ^ k * s)"
    using or_push [OF d assms(3), of "word_of_int s :: limb"] assms(1,2)
    by (simp add: sar_int within_def push_bit_eq_mult mult.commute)
  then have "uint (ucast (sar n (word_of_int r) OR push_bit k (word_of_int s)) :: byte) = (r div 2 ^ n + 2 ^ k * s) mod 256"
    by (simp add: unsigned_ucast_eq uint_word_of_int take_bit_eq_mod mod_mod_cancel del: of_int_add of_int_mult)
  moreover have "(2 :: int) ^ k * 2 ^ (8 - k) = 256" using assms(4) by (simp flip: power_add)
  ultimately show ?thesis using mix_mod [OF d assms(3), of "2 ^ (8 - k)" s] by simp
qed

lemma limb_bytes_val:
  assumes "0 \<le> r0 \<and> r0 < 2 ^ 26" "0 \<le> r1 \<and> r1 < 2 ^ 25" "0 \<le> r2 \<and> r2 < 2 ^ 26" "0 \<le> r3 \<and> r3 < 2 ^ 25" "0 \<le> r4 \<and> r4 < 2 ^ 26" "0 \<le> r5 \<and> r5 < 2 ^ 25" "0 \<le> r6 \<and> r6 < 2 ^ 26" "0 \<le> r7 \<and> r7 < 2 ^ 25" "0 \<le> r8 \<and> r8 < 2 ^ 26" "0 \<le> r9 \<and> r9 < 2 ^ 25"
  shows "length (limb_bytes (word_of_int r0) (word_of_int r1) (word_of_int r2) (word_of_int r3) (word_of_int r4) (word_of_int r5) (word_of_int r6) (word_of_int r7) (word_of_int r8) (word_of_int r9)) = 32 \<and>
    le_val (limb_bytes (word_of_int r0) (word_of_int r1) (word_of_int r2) (word_of_int r3) (word_of_int r4) (word_of_int r5) (word_of_int r6) (word_of_int r7) (word_of_int r8) (word_of_int r9)) = radix_sum r0 r1 r2 r3 r4 r5 r6 r7 r8 r9"
proof -
  have r: "0 \<le> r0" "r0 < 2 ^ 26" "0 \<le> r1" "r1 < 2 ^ 26" "0 \<le> r2" "r2 < 2 ^ 26" "0 \<le> r3" "r3 < 2 ^ 26" "0 \<le> r4" "r4 < 2 ^ 26" "0 \<le> r5" "r5 < 2 ^ 26" "0 \<le> r6" "r6 < 2 ^ 26" "0 \<le> r7" "r7 < 2 ^ 26" "0 \<le> r8" "r8 < 2 ^ 26" "0 \<le> r9" "r9 < 2 ^ 26"
    using assms by simp_all
  define a0 b0 c0 d0 where v0: "a0 = r0 mod 2 ^ 8" "b0 = (r0 div 2 ^ 8) mod 256" "c0 = (r0 div 2 ^ 16) mod 256" "d0 = r0 div 2 ^ 24"
  have e0: "r0 = a0 + 2 ^ 8 * b0 + 2 ^ 16 * c0 + 2 ^ 24 * d0" using pieces [of r0 8] by (simp add: v0)
  have t0: "r0 div 2 ^ 24 < 2 ^ 2" using assms(1) by (intro div_less_power) simp_all
  define a1 b1 c1 d1 where v1: "a1 = r1 mod 2 ^ 6" "b1 = (r1 div 2 ^ 6) mod 256" "c1 = (r1 div 2 ^ 14) mod 256" "d1 = r1 div 2 ^ 22"
  have e1: "r1 = a1 + 2 ^ 6 * b1 + 2 ^ 14 * c1 + 2 ^ 22 * d1" using pieces [of r1 6] by (simp add: v1)
  have t1: "r1 div 2 ^ 22 < 2 ^ 3" using assms(2) by (intro div_less_power) simp_all
  define a2 b2 c2 d2 where v2: "a2 = r2 mod 2 ^ 5" "b2 = (r2 div 2 ^ 5) mod 256" "c2 = (r2 div 2 ^ 13) mod 256" "d2 = r2 div 2 ^ 21"
  have e2: "r2 = a2 + 2 ^ 5 * b2 + 2 ^ 13 * c2 + 2 ^ 21 * d2" using pieces [of r2 5] by (simp add: v2)
  have t2: "r2 div 2 ^ 21 < 2 ^ 5" using assms(3) by (intro div_less_power) simp_all
  define a3 b3 c3 d3 where v3: "a3 = r3 mod 2 ^ 3" "b3 = (r3 div 2 ^ 3) mod 256" "c3 = (r3 div 2 ^ 11) mod 256" "d3 = r3 div 2 ^ 19"
  have e3: "r3 = a3 + 2 ^ 3 * b3 + 2 ^ 11 * c3 + 2 ^ 19 * d3" using pieces [of r3 3] by (simp add: v3)
  have t3: "r3 div 2 ^ 19 < 2 ^ 6" using assms(4) by (intro div_less_power) simp_all
  define a4 b4 c4 d4 where v4: "a4 = r4 mod 2 ^ 2" "b4 = (r4 div 2 ^ 2) mod 256" "c4 = (r4 div 2 ^ 10) mod 256" "d4 = r4 div 2 ^ 18"
  have e4: "r4 = a4 + 2 ^ 2 * b4 + 2 ^ 10 * c4 + 2 ^ 18 * d4" using pieces [of r4 2] by (simp add: v4)
  have t4: "d4 mod 256 = d4"
    using assms(5) div_less_power [of r4 256 "2 ^ 18"] by (simp add: v4 pos_imp_zdiv_nonneg_iff)
  define a5 b5 c5 d5 where v5: "a5 = r5 mod 2 ^ 8" "b5 = (r5 div 2 ^ 8) mod 256" "c5 = (r5 div 2 ^ 16) mod 256" "d5 = r5 div 2 ^ 24"
  have e5: "r5 = a5 + 2 ^ 8 * b5 + 2 ^ 16 * c5 + 2 ^ 24 * d5" using pieces [of r5 8] by (simp add: v5)
  have t5: "r5 div 2 ^ 24 < 2 ^ 1" using assms(6) by (intro div_less_power) simp_all
  define a6 b6 c6 d6 where v6: "a6 = r6 mod 2 ^ 7" "b6 = (r6 div 2 ^ 7) mod 256" "c6 = (r6 div 2 ^ 15) mod 256" "d6 = r6 div 2 ^ 23"
  have e6: "r6 = a6 + 2 ^ 7 * b6 + 2 ^ 15 * c6 + 2 ^ 23 * d6" using pieces [of r6 7] by (simp add: v6)
  have t6: "r6 div 2 ^ 23 < 2 ^ 3" using assms(7) by (intro div_less_power) simp_all
  define a7 b7 c7 d7 where v7: "a7 = r7 mod 2 ^ 5" "b7 = (r7 div 2 ^ 5) mod 256" "c7 = (r7 div 2 ^ 13) mod 256" "d7 = r7 div 2 ^ 21"
  have e7: "r7 = a7 + 2 ^ 5 * b7 + 2 ^ 13 * c7 + 2 ^ 21 * d7" using pieces [of r7 5] by (simp add: v7)
  have t7: "r7 div 2 ^ 21 < 2 ^ 4" using assms(8) by (intro div_less_power) simp_all
  define a8 b8 c8 d8 where v8: "a8 = r8 mod 2 ^ 4" "b8 = (r8 div 2 ^ 4) mod 256" "c8 = (r8 div 2 ^ 12) mod 256" "d8 = r8 div 2 ^ 20"
  have e8: "r8 = a8 + 2 ^ 4 * b8 + 2 ^ 12 * c8 + 2 ^ 20 * d8" using pieces [of r8 4] by (simp add: v8)
  have t8: "r8 div 2 ^ 20 < 2 ^ 6" using assms(9) by (intro div_less_power) simp_all
  define a9 b9 c9 d9 where v9: "a9 = r9 mod 2 ^ 2" "b9 = (r9 div 2 ^ 2) mod 256" "c9 = (r9 div 2 ^ 10) mod 256" "d9 = r9 div 2 ^ 18"
  have e9: "r9 = a9 + 2 ^ 2 * b9 + 2 ^ 10 * c9 + 2 ^ 18 * d9" using pieces [of r9 2] by (simp add: v9)
  have t9: "d9 mod 256 = d9"
    using assms(10) div_less_power [of r9 256 "2 ^ 18"] by (simp add: v9 pos_imp_zdiv_nonneg_iff)
  have B0a: "uint (ucast (sar 0 (word_of_int r0)) :: byte) = a0" using byte_sar [OF r(1,2), of 0] by (simp add: v0)
  have B0b: "uint (ucast (sar 8 (word_of_int r0)) :: byte) = b0" unfolding v0 by (rule byte_sar [OF r(1,2)])
  have B0c: "uint (ucast (sar 16 (word_of_int r0)) :: byte) = c0" unfolding v0 by (rule byte_sar [OF r(1,2)])
  have B0d: "uint (ucast (sar 24 (word_of_int r0) OR push_bit 2 (word_of_int r1)) :: byte) = d0 + 2 ^ 2 * a1"
    using byte_mix [OF r(1,2) t0, of r1] unfolding v0 v1 by simp
  have B1b: "uint (ucast (sar 6 (word_of_int r1)) :: byte) = b1" unfolding v1 by (rule byte_sar [OF r(3,4)])
  have B1c: "uint (ucast (sar 14 (word_of_int r1)) :: byte) = c1" unfolding v1 by (rule byte_sar [OF r(3,4)])
  have B1d: "uint (ucast (sar 22 (word_of_int r1) OR push_bit 3 (word_of_int r2)) :: byte) = d1 + 2 ^ 3 * a2"
    using byte_mix [OF r(3,4) t1, of r2] unfolding v1 v2 by simp
  have B2b: "uint (ucast (sar 5 (word_of_int r2)) :: byte) = b2" unfolding v2 by (rule byte_sar [OF r(5,6)])
  have B2c: "uint (ucast (sar 13 (word_of_int r2)) :: byte) = c2" unfolding v2 by (rule byte_sar [OF r(5,6)])
  have B2d: "uint (ucast (sar 21 (word_of_int r2) OR push_bit 5 (word_of_int r3)) :: byte) = d2 + 2 ^ 5 * a3"
    using byte_mix [OF r(5,6) t2, of r3] unfolding v2 v3 by simp
  have B3b: "uint (ucast (sar 3 (word_of_int r3)) :: byte) = b3" unfolding v3 by (rule byte_sar [OF r(7,8)])
  have B3c: "uint (ucast (sar 11 (word_of_int r3)) :: byte) = c3" unfolding v3 by (rule byte_sar [OF r(7,8)])
  have B3d: "uint (ucast (sar 19 (word_of_int r3) OR push_bit 6 (word_of_int r4)) :: byte) = d3 + 2 ^ 6 * a4"
    using byte_mix [OF r(7,8) t3, of r4] unfolding v3 v4 by simp
  have B4b: "uint (ucast (sar 2 (word_of_int r4)) :: byte) = b4" unfolding v4 by (rule byte_sar [OF r(9,10)])
  have B4c: "uint (ucast (sar 10 (word_of_int r4)) :: byte) = c4" unfolding v4 by (rule byte_sar [OF r(9,10)])
  have B4d: "uint (ucast (sar 18 (word_of_int r4)) :: byte) = d4" using byte_sar [OF r(9,10), of 18] t4 by (simp only: v4)
  have B5a: "uint (ucast (sar 0 (word_of_int r5)) :: byte) = a5" using byte_sar [OF r(11,12), of 0] by (simp add: v5)
  have B5b: "uint (ucast (sar 8 (word_of_int r5)) :: byte) = b5" unfolding v5 by (rule byte_sar [OF r(11,12)])
  have B5c: "uint (ucast (sar 16 (word_of_int r5)) :: byte) = c5" unfolding v5 by (rule byte_sar [OF r(11,12)])
  have B5d: "uint (ucast (sar 24 (word_of_int r5) OR push_bit 1 (word_of_int r6)) :: byte) = d5 + 2 ^ 1 * a6"
    using byte_mix [OF r(11,12) t5, of r6] unfolding v5 v6 by simp
  have B6b: "uint (ucast (sar 7 (word_of_int r6)) :: byte) = b6" unfolding v6 by (rule byte_sar [OF r(13,14)])
  have B6c: "uint (ucast (sar 15 (word_of_int r6)) :: byte) = c6" unfolding v6 by (rule byte_sar [OF r(13,14)])
  have B6d: "uint (ucast (sar 23 (word_of_int r6) OR push_bit 3 (word_of_int r7)) :: byte) = d6 + 2 ^ 3 * a7"
    using byte_mix [OF r(13,14) t6, of r7] unfolding v6 v7 by simp
  have B7b: "uint (ucast (sar 5 (word_of_int r7)) :: byte) = b7" unfolding v7 by (rule byte_sar [OF r(15,16)])
  have B7c: "uint (ucast (sar 13 (word_of_int r7)) :: byte) = c7" unfolding v7 by (rule byte_sar [OF r(15,16)])
  have B7d: "uint (ucast (sar 21 (word_of_int r7) OR push_bit 4 (word_of_int r8)) :: byte) = d7 + 2 ^ 4 * a8"
    using byte_mix [OF r(15,16) t7, of r8] unfolding v7 v8 by simp
  have B8b: "uint (ucast (sar 4 (word_of_int r8)) :: byte) = b8" unfolding v8 by (rule byte_sar [OF r(17,18)])
  have B8c: "uint (ucast (sar 12 (word_of_int r8)) :: byte) = c8" unfolding v8 by (rule byte_sar [OF r(17,18)])
  have B8d: "uint (ucast (sar 20 (word_of_int r8) OR push_bit 6 (word_of_int r9)) :: byte) = d8 + 2 ^ 6 * a9"
    using byte_mix [OF r(17,18) t8, of r9] unfolding v8 v9 by simp
  have B9b: "uint (ucast (sar 2 (word_of_int r9)) :: byte) = b9" unfolding v9 by (rule byte_sar [OF r(19,20)])
  have B9c: "uint (ucast (sar 10 (word_of_int r9)) :: byte) = c9" unfolding v9 by (rule byte_sar [OF r(19,20)])
  have B9d: "uint (ucast (sar 18 (word_of_int r9)) :: byte) = d9" using byte_sar [OF r(19,20), of 18] t9 by (simp only: v9)
  have "le_val (limb_bytes (word_of_int r0) (word_of_int r1) (word_of_int r2) (word_of_int r3) (word_of_int r4) (word_of_int r5) (word_of_int r6) (word_of_int r7) (word_of_int r8) (word_of_int r9)) =
    a0 + 256 * (b0 + 256 * (c0 + 256 * ((d0 + 2 ^ 2 * a1) + 256 * (b1 + 256 * (c1 + 256 * ((d1 + 2 ^ 3 * a2) + 256 * (b2 + 256 * (c2 + 256 * ((d2 + 2 ^ 5 * a3) + 256 * (b3 + 256 * (c3 + 256 * ((d3 + 2 ^ 6 * a4) + 256 * (b4 + 256 * (c4 + 256 * (d4 + 256 * (a5 + 256 * (b5 + 256 * (c5 + 256 * ((d5 + 2 ^ 1 * a6) + 256 * (b6 + 256 * (c6 + 256 * ((d6 + 2 ^ 3 * a7) + 256 * (b7 + 256 * (c7 + 256 * ((d7 + 2 ^ 4 * a8) + 256 * (b8 + 256 * (c8 + 256 * ((d8 + 2 ^ 6 * a9) + 256 * (b9 + 256 * (c9 + 256 * (d9 + 256 * (0))))))))))))))))))))))))))))))))"
    unfolding limb_bytes_def list.map le_val.simps B0a B0b B0c B0d B1b B1c B1d B2b B2c B2d B3b B3c B3d B4b B4c B4d B5a B5b B5c B5d B6b B6c B6d B7b B7c B7d B8b B8c B8d B9b B9c B9d ..
  also have "\<dots> = radix_sum r0 r1 r2 r3 r4 r5 r6 r7 r8 r9"
    unfolding radix_sum_def e0 e1 e2 e3 e4 e5 e6 e7 e8 e9 by (simp add: algebra_simps)
  finally show ?thesis by (simp add: limb_bytes_def)
qed

text \<open>The quotient by the prime, as the comment of the source derives it.\<close>

text \<open>Both chains of \<open>FeToBytes\<close>, the quotient and the carries, take one step for each limb \<open>x\<close>: the sum \<open>R\<close> of
  the lower limbs is shifted out and \<open>x\<close> comes in.\<close>

lemma chain_step:
  assumes "within 64 (R div 2 ^ m)" "within 110729625 x" "25 \<le> n"
  shows "sar n (word_of_int x + word_of_int (R div 2 ^ m)) = word_of_int ((R + 2 ^ m * x) div 2 ^ (m + n))"
    and "within 64 ((R + 2 ^ m * x) div 2 ^ (m + n))"
    and "word_of_int x + word_of_int (R div 2 ^ m) - push_bit n (word_of_int ((R + 2 ^ m * x) div 2 ^ (m + n))) =
      (word_of_int ((x + R div 2 ^ m) mod 2 ^ n) :: limb)"
proof -
  have d: "(x + R div 2 ^ m) div 2 ^ n = (R + 2 ^ m * x) div 2 ^ (m + n)"
    using nest_div [of "2 ^ m" "2 ^ n" x R] by (simp add: power_add)
  have w: "within 110729689 (x + R div 2 ^ m)" using within_sum [OF assms(2,1)] by simp
  then show "sar n (word_of_int x + word_of_int (R div 2 ^ m)) = word_of_int ((R + 2 ^ m * x) div 2 ^ (m + n))"
    using sar_int [of "x + R div 2 ^ m" n] by (simp add: d within_def)
  have "2 ^ 25 \<le> (2 ^ n :: int)" using assms(3) by (intro power_increasing) simp_all
  then show "within 64 ((R + 2 ^ m * x) div 2 ^ (m + n))"
    unfolding d [symmetric] by (intro within_div [OF w]) simp
  show "word_of_int x + word_of_int (R div 2 ^ m) - push_bit n (word_of_int ((R + 2 ^ m * x) div 2 ^ (m + n))) =
      (word_of_int ((x + R div 2 ^ m) mod 2 ^ n) :: limb)"
    unfolding d [symmetric] push_bit_eq_mult minus_div_mult_eq_mod [symmetric] by simp
qed

lemma mod_step: "R mod 2 ^ m + 2 ^ m * ((x + R div 2 ^ m) mod 2 ^ n) = (R + 2 ^ m * x) mod 2 ^ (m + n)" for R x :: int
proof -
  have "(R + 2 ^ m * x) div 2 ^ m = x + R div 2 ^ m" by simp
  then show ?thesis
    using mod_mult2_eq' [of "R + 2 ^ m * x" "2 ^ m" "2 ^ n"] by (simp add: power_add)
qed

lemma quotient25519:
  fixes x9 L q0 q :: int
  assumes "within (2 ^ 232) L" "within 64 q0" "2 ^ 25 * q0 \<le> 19 * x9 + 2 ^ 24" "19 * x9 + 2 ^ 24 < 2 ^ 25 * q0 + 2 ^ 25"
    "q = (2 ^ 230 * x9 + L + q0) div 2 ^ 255"
  shows "0 \<le> 2 ^ 230 * x9 + L - prime25519 * q" "2 ^ 230 * x9 + L - prime25519 * q < prime25519"
proof -
  define r where "r = (2 ^ 230 * x9 + L + q0) mod 2 ^ 255"
  have r: "2 ^ 230 * x9 + L + q0 = 2 ^ 255 * q + r" "0 \<le> r" "r < 2 ^ 255"
    unfolding assms(5) r_def by simp_all
  note A = assms(1-4) [unfolded within_def] r [simplified]
  show "0 \<le> 2 ^ 230 * x9 + L - prime25519 * q" "2 ^ 230 * x9 + L - prime25519 * q < prime25519"
    using A by (simp_all add: prime25519_def)
qed

lemma quotient_mod:
  fixes H q :: int
  assumes "0 \<le> H - prime25519 * q" "H - prime25519 * q < prime25519"
  shows "(H + 19 * q) mod 2 ^ 255 = H mod prime25519"
proof -
  have "H mod prime25519 = (H - prime25519 * q + prime25519 * q) mod prime25519" by simp
  also have "\<dots> = H - prime25519 * q" unfolding mod_mult_self2 by (rule mod_pos_pos_trivial [OF assms])
  also have "\<dots> = (H - prime25519 * q) mod 2 ^ 255" using assms by (simp add: prime25519_def)
  also have "\<dots> = (H - prime25519 * q + 2 ^ 255 * q) mod 2 ^ 255" unfolding mod_mult_self2 ..
  finally show ?thesis by (simp add: prime25519_def algebra_simps)
qed

lemma FeToBytes_chain:
  fixes x0 x1 x2 x3 x4 x5 x6 x7 x8 x9 :: int
  assumes x: "within 110729625 x0" "within 55364812 x1" "within 110729625 x2" "within 55364812 x3" "within 110729625 x4" "within 55364812 x5" "within 110729625 x6" "within 55364812 x7" "within 110729625 x8" "within 55364812 x9"
  defines "H \<equiv> radix_sum x0 x1 x2 x3 x4 x5 x6 x7 x8 x9"
  shows "\<exists>s h'. FeToBytes (Fe (word_of_int x0) (word_of_int x1) (word_of_int x2) (word_of_int x3) (word_of_int x4) (word_of_int x5) (word_of_int x6) (word_of_int x7) (word_of_int x8) (word_of_int x9)) = (s, h') \<and> length s = 32 \<and> le_val s = H mod prime25519"
proof -
  note b = x(1) within_mono [OF x(2), of 110729625, simplified] x(3) within_mono [OF x(4), of 110729625, simplified] x(5) within_mono [OF x(6), of 110729625, simplified] x(7) within_mono [OF x(8), of 110729625, simplified] x(9) within_mono [OF x(10), of 110729625, simplified]
  have n: "25 \<le> (26 :: nat)" "25 \<le> (25 :: nat)" by simp_all
  define q0 where "q0 = (19 * x9 + 2 ^ 24) div 2 ^ 25"
  have bq: "within 64 (q0 div 2 ^ 0)"
    using within_div [of 1068708644 "19 * x9 + 2 ^ 24" 64 25] x(10) by (simp add: q0_def within_def)
  have W: "sar 25 (19 * word_of_int x9 + push_bit 24 1) = word_of_int (q0 div 2 ^ 0)"
    using sar_int [of "19 * x9 + 2 ^ 24" 25] x(10) by (simp add: q0_def within_def push_bit_eq_mult)
  note Q0 = chain_step [OF bq b(1) n(1)]
  note Q1 = chain_step [OF Q0(2) b(2) n(2)]
  note Q2 = chain_step [OF Q1(2) b(3) n(1)]
  note Q3 = chain_step [OF Q2(2) b(4) n(2)]
  note Q4 = chain_step [OF Q3(2) b(5) n(1)]
  note Q5 = chain_step [OF Q4(2) b(6) n(2)]
  note Q6 = chain_step [OF Q5(2) b(7) n(1)]
  note Q7 = chain_step [OF Q6(2) b(8) n(2)]
  note Q8 = chain_step [OF Q7(2) b(9) n(1)]
  note Q9 = chain_step [OF Q8(2) b(10) n(2)]
  define q where "q = (q0 + 2 ^ (0) * x0 + 2 ^ (0 + 26) * x1 + 2 ^ (0 + 26 + 25) * x2 + 2 ^ (0 + 26 + 25 + 26) * x3 + 2 ^ (0 + 26 + 25 + 26 + 25) * x4 + 2 ^ (0 + 26 + 25 + 26 + 25 + 26) * x5 + 2 ^ (0 + 26 + 25 + 26 + 25 + 26 + 25) * x6 + 2 ^ (0 + 26 + 25 + 26 + 25 + 26 + 25 + 26) * x7 + 2 ^ (0 + 26 + 25 + 26 + 25 + 26 + 25 + 26 + 25) * x8 + 2 ^ (0 + 26 + 25 + 26 + 25 + 26 + 25 + 26 + 25 + 26) * x9) div 2 ^ (0 + 26 + 25 + 26 + 25 + 26 + 25 + 26 + 25 + 26 + 25)"
  have q: "q = (2 ^ 230 * x9 + (x0 + 2 ^ 26 * x1 + 2 ^ 51 * x2 + 2 ^ 77 * x3 + 2 ^ 102 * x4 + 2 ^ 128 * x5 + 2 ^ 153 * x6 + 2 ^ 179 * x7 + 2 ^ 204 * x8) + q0) div 2 ^ 255"
    by (simp add: q_def ac_simps)
  note bc = Q9(2) [folded q_def]
  have by0: "within 64 ((x0 + 19 * q) div 2 ^ 26)" and C0: "sar 26 (word_of_int (x0 + 19 * q)) = word_of_int ((x0 + 19 * q) div 2 ^ 26)"
    using within_div [of 110730841 "x0 + 19 * q" 64 26] sar_int [of "x0 + 19 * q" 26] x(1) bc by (simp_all add: within_def)
  have V0: "word_of_int x0 + 19 * word_of_int q = (word_of_int (x0 + 19 * q) :: limb)" by simp
  have R0: "word_of_int (x0 + 19 * q) - push_bit 26 (word_of_int ((x0 + 19 * q) div 2 ^ 26)) = (word_of_int ((x0 + 19 * q) mod 2 ^ 26) :: limb)"
    unfolding push_bit_eq_mult minus_div_mult_eq_mod [symmetric] by simp
  note C1 = chain_step [OF by0 b(2) n(2)]
  note C2 = chain_step [OF C1(2) b(3) n(1)]
  note C3 = chain_step [OF C2(2) b(4) n(2)]
  note C4 = chain_step [OF C3(2) b(5) n(1)]
  note C5 = chain_step [OF C4(2) b(6) n(2)]
  note C6 = chain_step [OF C5(2) b(7) n(1)]
  note C7 = chain_step [OF C6(2) b(8) n(2)]
  note C8 = chain_step [OF C7(2) b(9) n(1)]
  note C9 = chain_step [OF C8(2) b(10) n(2)]
  define r0 where "r0 = (x0 + 19 * q) mod 2 ^ 26"
  define r1 where "r1 = (x1 + (x0 + 19 * q) div 2 ^ (26)) mod 2 ^ 25"
  define r2 where "r2 = (x2 + (x0 + 19 * q + 2 ^ (26) * x1) div 2 ^ (26 + 25)) mod 2 ^ 26"
  define r3 where "r3 = (x3 + (x0 + 19 * q + 2 ^ (26) * x1 + 2 ^ (26 + 25) * x2) div 2 ^ (26 + 25 + 26)) mod 2 ^ 25"
  define r4 where "r4 = (x4 + (x0 + 19 * q + 2 ^ (26) * x1 + 2 ^ (26 + 25) * x2 + 2 ^ (26 + 25 + 26) * x3) div 2 ^ (26 + 25 + 26 + 25)) mod 2 ^ 26"
  define r5 where "r5 = (x5 + (x0 + 19 * q + 2 ^ (26) * x1 + 2 ^ (26 + 25) * x2 + 2 ^ (26 + 25 + 26) * x3 + 2 ^ (26 + 25 + 26 + 25) * x4) div 2 ^ (26 + 25 + 26 + 25 + 26)) mod 2 ^ 25"
  define r6 where "r6 = (x6 + (x0 + 19 * q + 2 ^ (26) * x1 + 2 ^ (26 + 25) * x2 + 2 ^ (26 + 25 + 26) * x3 + 2 ^ (26 + 25 + 26 + 25) * x4 + 2 ^ (26 + 25 + 26 + 25 + 26) * x5) div 2 ^ (26 + 25 + 26 + 25 + 26 + 25)) mod 2 ^ 26"
  define r7 where "r7 = (x7 + (x0 + 19 * q + 2 ^ (26) * x1 + 2 ^ (26 + 25) * x2 + 2 ^ (26 + 25 + 26) * x3 + 2 ^ (26 + 25 + 26 + 25) * x4 + 2 ^ (26 + 25 + 26 + 25 + 26) * x5 + 2 ^ (26 + 25 + 26 + 25 + 26 + 25) * x6) div 2 ^ (26 + 25 + 26 + 25 + 26 + 25 + 26)) mod 2 ^ 25"
  define r8 where "r8 = (x8 + (x0 + 19 * q + 2 ^ (26) * x1 + 2 ^ (26 + 25) * x2 + 2 ^ (26 + 25 + 26) * x3 + 2 ^ (26 + 25 + 26 + 25) * x4 + 2 ^ (26 + 25 + 26 + 25 + 26) * x5 + 2 ^ (26 + 25 + 26 + 25 + 26 + 25) * x6 + 2 ^ (26 + 25 + 26 + 25 + 26 + 25 + 26) * x7) div 2 ^ (26 + 25 + 26 + 25 + 26 + 25 + 26 + 25)) mod 2 ^ 26"
  define r9 where "r9 = (x9 + (x0 + 19 * q + 2 ^ (26) * x1 + 2 ^ (26 + 25) * x2 + 2 ^ (26 + 25 + 26) * x3 + 2 ^ (26 + 25 + 26 + 25) * x4 + 2 ^ (26 + 25 + 26 + 25 + 26) * x5 + 2 ^ (26 + 25 + 26 + 25 + 26 + 25) * x6 + 2 ^ (26 + 25 + 26 + 25 + 26 + 25 + 26) * x7 + 2 ^ (26 + 25 + 26 + 25 + 26 + 25 + 26 + 25) * x8) div 2 ^ (26 + 25 + 26 + 25 + 26 + 25 + 26 + 25 + 26)) mod 2 ^ 25"
  have F: "FeToBytes (Fe (word_of_int x0) (word_of_int x1) (word_of_int x2) (word_of_int x3) (word_of_int x4) (word_of_int x5) (word_of_int x6) (word_of_int x7) (word_of_int x8) (word_of_int x9)) =
      (limb_bytes (word_of_int r0) (word_of_int r1) (word_of_int r2) (word_of_int r3) (word_of_int r4) (word_of_int r5) (word_of_int r6) (word_of_int r7) (word_of_int r8) (word_of_int r9),
       Fe (word_of_int r0) (word_of_int r1) (word_of_int r2) (word_of_int r3) (word_of_int r4) (word_of_int r5) (word_of_int r6) (word_of_int r7) (word_of_int r8) (word_of_int r9))"
    unfolding FeToBytes_def fe.case Let_def W Q0(1) Q1(1) Q2(1) Q3(1) Q4(1) Q5(1) Q6(1) Q7(1) Q8(1) Q9(1) q_def [symmetric] V0 C0 R0
      C1(1,3) C2(1,3) C3(1,3) C4(1,3) C5(1,3) C6(1,3) C7(1,3) C8(1,3) C9(1,3) r0_def r1_def r2_def r3_def r4_def r5_def r6_def r7_def r8_def r9_def ..
  have B: "0 \<le> r0 \<and> r0 < 2 ^ 26" "0 \<le> r1 \<and> r1 < 2 ^ 25" "0 \<le> r2 \<and> r2 < 2 ^ 26" "0 \<le> r3 \<and> r3 < 2 ^ 25" "0 \<le> r4 \<and> r4 < 2 ^ 26" "0 \<le> r5 \<and> r5 < 2 ^ 25" "0 \<le> r6 \<and> r6 < 2 ^ 26" "0 \<le> r7 \<and> r7 < 2 ^ 25" "0 \<le> r8 \<and> r8 < 2 ^ 26" "0 \<le> r9 \<and> r9 < 2 ^ 25"
    unfolding r0_def r1_def r2_def r3_def r4_def r5_def r6_def r7_def r8_def r9_def by (simp_all only: pos_mod_bound pos_mod_sign zero_less_power zero_less_numeral simp_thms)
  have "radix_sum r0 r1 r2 r3 r4 r5 r6 r7 r8 r9 = (x0 + 19 * q + 2 ^ (26) * x1 + 2 ^ (26 + 25) * x2 + 2 ^ (26 + 25 + 26) * x3 + 2 ^ (26 + 25 + 26 + 25) * x4 + 2 ^ (26 + 25 + 26 + 25 + 26) * x5 + 2 ^ (26 + 25 + 26 + 25 + 26 + 25) * x6 + 2 ^ (26 + 25 + 26 + 25 + 26 + 25 + 26) * x7 + 2 ^ (26 + 25 + 26 + 25 + 26 + 25 + 26 + 25) * x8 + 2 ^ (26 + 25 + 26 + 25 + 26 + 25 + 26 + 25 + 26) * x9) mod 2 ^ (26 + 25 + 26 + 25 + 26 + 25 + 26 + 25 + 26 + 25)"
    unfolding radix_sum_def r0_def r1_def r2_def r3_def r4_def r5_def r6_def r7_def r8_def r9_def mod_step [symmetric] by simp
  also have "\<dots> = (H + 19 * q) mod 2 ^ 255" by (simp add: H_def radix_sum_def ac_simps)
  also have "\<dots> = H mod prime25519"
  proof (rule quotient_mod)
    have p25: "0 < (2 ^ 25 :: int)" by simp
    have "19 * x9 + 2 ^ 24 = 2 ^ 25 * q0 + (19 * x9 + 2 ^ 24) mod 2 ^ 25" by (simp add: q0_def)
    then have "2 ^ 25 * q0 \<le> 19 * x9 + 2 ^ 24" "19 * x9 + 2 ^ 24 < 2 ^ 25 * q0 + 2 ^ 25"
      using pos_mod_sign [OF p25, of "19 * x9 + 2 ^ 24"] pos_mod_bound [OF p25, of "19 * x9 + 2 ^ 24"] by linarith+
    moreover have "within (2 ^ 232) (x0 + 2 ^ 26 * x1 + 2 ^ 51 * x2 + 2 ^ 77 * x3 + 2 ^ 102 * x4 + 2 ^ 128 * x5 + 2 ^ 153 * x6 + 2 ^ 179 * x7 + 2 ^ 204 * x8)"
      using x by (simp add: within_def)
    ultimately show "0 \<le> H - prime25519 * q" "H - prime25519 * q < prime25519"
      using quotient25519 [OF _ _ _ _ q] bq unfolding H_def radix_sum_def by (simp_all add: ac_simps)
  qed
  finally show ?thesis using F limb_bytes_val [OF B] by simp
qed

text \<open>\<open>FeToBytes\<close> admits the bounds \<open>1.65 * 2^26, 1.65 * 2^25\<close>, three times those that its comment asks for, which
  \<open>UnsafeBrokenScalarBaseMult\<close> needs: it asks \<open>FeIsNonZero\<close> of a sum of three products.\<close>

lemma FeToBytes_val:
  assumes "loose h"
  obtains s h' where "FeToBytes h = (s, h')" "length s = 32" "le_val s = fe_val h mod prime25519"
proof -
  obtain x0 x1 x2 x3 x4 x5 x6 x7 x8 x9 where h: "h = Fe x0 x1 x2 x3 x4 x5 x6 x7 x8 x9" by (cases h)
  note B = assms [unfolded h bounded_within]
  have w: "word_of_int (sint x) = x" for x :: limb by simp
  have "\<exists>s h'. FeToBytes h = (s, h') \<and> length s = 32 \<and> le_val s = fe_val h mod prime25519"
    using FeToBytes_chain [of "sint x0" "sint x1" "sint x2" "sint x3" "sint x4" "sint x5" "sint x6" "sint x7" "sint x8" "sint x9"]
      B unfolding w h fe_val_def fe.case by (elim conjE)
  then show ?thesis using that by blast
qed

lemma FeToBytes_denotes:
  assumes "loosely f v"
  shows "length (fst (FeToBytes f)) = 32 \<and> le_val (fst (FeToBytes f)) = v mod prime25519"
proof -
  have "loose f" "represents f v" using assms by (simp_all add: denotes_def)
  then show ?thesis using FeToBytes_val [of f] by (metis fst_conv represents_def)
qed

lemma le_val_eq_0: "le_val bs = 0 \<longleftrightarrow> (\<forall>b \<in> set bs. b = 0)"
proof (induction bs)
  case (Cons b bs)
  moreover have "0 \<le> le_val bs" "0 \<le> uint b" using le_val_bounds [of bs] by simp_all
  ultimately show ?case by (simp add: add_nonneg_eq_0_iff uint_0_iff)
qed simp

lemma foldl_or_eq_0: "foldl (OR) a bs = 0 \<longleftrightarrow> a = 0 \<and> (\<forall>b \<in> set bs. b = (0 :: byte))"
  by (induction bs arbitrary: a) (auto simp: or_eq_0_iff)

lemma smear:
  fixes x :: byte
  shows "(let x = x OR drop_bit 4 x; x = x OR drop_bit 2 x; x = x OR drop_bit 1 x in x AND 1) = of_bool (x \<noteq> 0)"
proof -
  have "x \<noteq> 0 \<longleftrightarrow> (\<exists>n < 8. bit x n)" by (auto simp: bit_eq_iff bit_simps dest: bit_imp_le_length intro: bit_word_eqI)
  also have "\<dots> \<longleftrightarrow> bit x 0 \<or> bit x 1 \<or> bit x 2 \<or> bit x 3 \<or> bit x 4 \<or> bit x 5 \<or> bit x 6 \<or> bit x 7"
    by (auto simp: numeral_eq_Suc less_Suc_eq)
  finally show ?thesis by (auto simp: Let_def and_one_eq mod_2_eq_odd bit_simps simp flip: bit_0)
qed

lemma FeIsNonZero_val: "loose f \<Longrightarrow> fst (FeIsNonZero f) = of_bool (fe_val f mod prime25519 \<noteq> 0)"
proof -
  assume "loose f"
  then obtain s f' where s: "FeToBytes f = (s, f')" "length s = 32" "le_val s = fe_val f mod prime25519"
    by (rule FeToBytes_val)
  have "foldl (OR) 0 s = 0 \<longleftrightarrow> fe_val f mod prime25519 = 0"
    using le_val_eq_0 [of s] foldl_or_eq_0 [of 0 s] s(3) by simp
  with smear [of "foldl (OR) 0 s"] s(1) show ?thesis by (auto simp: FeIsNonZero_def Let_def)
qed

lemma FeIsNegative_val: "loose f \<Longrightarrow> fst (FeIsNegative f) = of_bool (odd (fe_val f mod prime25519))"
proof -
  assume "loose f"
  then obtain s f' where s: "FeToBytes f = (s, f')" "length s = 32" "le_val s = fe_val f mod prime25519"
    by (rule FeToBytes_val)
  obtain b bs where "s = b # bs" using s(2) by (cases s) auto
  moreover have "odd (uint b) \<longleftrightarrow> odd b" unfolding bit_0 [symmetric] bit_unsigned_iff by simp
  ultimately show ?thesis using s(1,3) by (simp add: FeIsNegative_def and_one_eq mod_2_eq_odd flip: s(3))
qed

lemma digit_inj:
  fixes a b u v :: int
  assumes "a + 256 * u = b + 256 * v" "0 \<le> a" "a < 256" "0 \<le> b" "b < 256"
  shows "a = b \<and> u = v"
proof -
  have "a = (a + 256 * u) mod 256" using assms(2,3) by simp
  also have "\<dots> = b" unfolding assms(1) using assms(4,5) by simp
  finally show ?thesis using assms(1) by simp
qed

lemma le_val_inj: "length a = length b \<Longrightarrow> le_val a = le_val b \<Longrightarrow> a = b"
proof (induction a b rule: list_induct2)
  case (Cons x xs y ys)
  have "uint x = uint y \<and> le_val xs = le_val ys"
    using Cons(3) byte_range [of x] byte_range [of y] by (intro digit_inj) simp_all
  with Cons(2) show ?case by (simp add: word_uint_eq_iff)
qed simp

section \<open>Properties\<close>

text \<open>C19: Field elements and their bytes. \<open>FeToBytes\<close> of a loose element (three times the bounds that its comment
  asks for) is the 32-byte little-endian form of the canonical representative, the number below \<open>2^255 - 19\<close> that the
  element is congruent to. \<open>FeFromBytes\<close> gives a tight element for the number without its top bit; reading a
  canonical string and writing it again gives the string back, and writing an element and reading it again keeps its
  value. \<open>FeIsNegative\<close> is the parity of the canonical representative and \<open>FeIsNonZero\<close> tells whether it is 0.\<close>

theorem field_bytes:
  assumes "loose h" "length s = 32"
  shows "length (fst (FeToBytes h)) = 32 \<and> le_val (fst (FeToBytes h)) = fe_val h mod prime25519 \<and>
    fe_val (FeFromBytes (fst (FeToBytes h))) mod prime25519 = fe_val h mod prime25519 \<and>
    tight (FeFromBytes s) \<and> fe_val (FeFromBytes s) mod prime25519 = le_val s mod 2 ^ 255 mod prime25519 \<and>
    (le_val s < prime25519 \<longrightarrow> fst (FeToBytes (FeFromBytes s)) = s) \<and>
    fst (FeIsNegative h) = of_bool (odd (fe_val h mod prime25519)) \<and>
    fst (FeIsNonZero h) = of_bool (fe_val h mod prime25519 \<noteq> 0)"
proof -
  have top: "x mod 2 ^ 255 = x" if "0 \<le> x" "x < prime25519" for x
    using that by (simp add: prime25519_def)
  obtain t h' where t: "FeToBytes h = (t, h')" "length t = 32" "le_val t = fe_val h mod prime25519"
    using assms(1) by (rule FeToBytes_val)
  have "fe_val (FeFromBytes t) mod prime25519 = fe_val h mod prime25519"
    using FeFromBytes_val [OF t(2)] t(3) top [of "le_val t"] by (simp add: represents_def prime25519_def)
  moreover obtain u f' where u: "FeToBytes (FeFromBytes s) = (u, f')" "length u = 32"
      "le_val u = fe_val (FeFromBytes s) mod prime25519"
    using FeToBytes_val [of "FeFromBytes s"] FeFromBytes_val [OF assms(2)] by auto
  moreover have "u = s" if "le_val s < prime25519"
    using that u(2,3) assms(2) FeFromBytes_val [OF assms(2)] top [of "le_val s"] le_val_bounds [of s]
    by (intro le_val_inj) (simp_all add: represents_def)
  ultimately show ?thesis
    using t FeFromBytes_val [OF assms(2)] FeIsNegative_val [OF assms(1)] FeIsNonZero_val [OF assms(1)]
    by (simp add: represents_def)
qed

theorem field_bytes_witness:
  "le_val (fst (FeToBytes (FeNeg FeOne))) = prime25519 - 1 \<and> fst (FeIsNonZero (FeNeg FeOne)) = 1 \<and>
     fst (FeToBytes (FeFromBytes (9 # replicate 31 0))) = 9 # replicate 31 0"
proof -
  have "loose (FeNeg FeOne)" "fe_val (FeNeg FeOne) = - 1" "le_val (9 # replicate 31 0) = 9" by code_simp+
  moreover have "(- 1) mod prime25519 = prime25519 - 1" by (simp add: prime25519_def)
  ultimately show ?thesis using field_bytes [of "FeNeg FeOne" "9 # replicate 31 0"] by (simp add: prime25519_def)
qed

end
