(* ===== verification/EdGroup.thy ===== *)
theory EdGroup
  imports FieldCodec
begin

text \<open>
  The group of \<open>internal/edwards25519/edwards25519.go\<close>: the representations of points on the curve
  \<open>-x^2 + y^2 = 1 + d x^2 y^2\<close>, the conversions between them, doubling, the four additions, the selection of a table
  entry in constant time and the multiplication of the base point by a scalar. The table \<open>base\<close> of \<open>const.go\<close> is an
  argument of the selection; the theory \<open>Elligator\<close> passes the table of the source.

  A Go method with a result parameter is a function that returns the result; where the result is also read
  (\<open>r.Y\<close> in \<open>geAdd\<close>), the intermediate values have names of their own.
\<close>

section \<open>Representations\<close>

record ProjectiveGroupElement =
  pX :: fe
  pY :: fe
  pZ :: fe

record ExtendedGroupElement =
  eX :: fe
  eY :: fe
  eZ :: fe
  eT :: fe

record CompletedGroupElement =
  cX :: fe
  cY :: fe
  cZ :: fe
  cT :: fe

record PreComputedGroupElement =
  yPlusX :: fe
  yMinusX :: fe
  xy2d :: fe

record CachedGroupElement =
  kPlusX :: fe
  kMinusX :: fe
  kZ :: fe
  kT2d :: fe

definition ed_d :: fe where
  "ed_d = Fe (- 10913610) 13857413 (- 15372611) 6949391 114729 (- 8787816) (- 6275908) (- 3247719) (- 18696448) (- 12055116)"

definition ed_d2 :: fe where
  "ed_d2 = Fe (- 21827239) (- 5839606) (- 30745221) 13898782 229458 15978800 (- 12551817) (- 6495438) 29715968 9444199"

definition SqrtM1 :: fe where
  "SqrtM1 = Fe (- 32595792) (- 7943725) 9377950 3500415 12389472 (- 272473) (- 25146209) (- 2005654) 326686 11406482"

section \<open>Conversions\<close>

definition Projective_Zero :: ProjectiveGroupElement where
  "Projective_Zero = \<lparr>pX = FeZero, pY = FeOne, pZ = FeOne\<rparr>"

definition Extended_Zero :: ExtendedGroupElement where
  "Extended_Zero = \<lparr>eX = FeZero, eY = FeOne, eZ = FeOne, eT = FeZero\<rparr>"

definition PreComputed_Zero :: PreComputedGroupElement where
  "PreComputed_Zero = \<lparr>yPlusX = FeOne, yMinusX = FeOne, xy2d = FeZero\<rparr>"

definition Extended_ToProjective :: "ExtendedGroupElement \<Rightarrow> ProjectiveGroupElement" where
  "Extended_ToProjective p = \<lparr>pX = eX p, pY = eY p, pZ = eZ p\<rparr>"

definition Extended_ToCached :: "ExtendedGroupElement \<Rightarrow> CachedGroupElement" where
  "Extended_ToCached p =
    \<lparr>kPlusX = FeAdd (eY p) (eX p), kMinusX = FeSub (eY p) (eX p), kZ = eZ p, kT2d = FeMul (eT p) ed_d2\<rparr>"

definition Completed_ToProjective :: "CompletedGroupElement \<Rightarrow> ProjectiveGroupElement" where
  "Completed_ToProjective p = \<lparr>pX = FeMul (cX p) (cT p), pY = FeMul (cY p) (cZ p), pZ = FeMul (cZ p) (cT p)\<rparr>"

definition Completed_ToExtended :: "CompletedGroupElement \<Rightarrow> ExtendedGroupElement" where
  "Completed_ToExtended p =
    \<lparr>eX = FeMul (cX p) (cT p), eY = FeMul (cY p) (cZ p), eZ = FeMul (cZ p) (cT p), eT = FeMul (cX p) (cY p)\<rparr>"

section \<open>Doubling and addition\<close>

definition Projective_Double :: "ProjectiveGroupElement \<Rightarrow> CompletedGroupElement" where
  "Projective_Double p =
    (let xx = FeSquare (pX p);
         yy = FeSquare (pY p);
         zz2 = FeSquare2 (pZ p);
         y = FeAdd (pX p) (pY p);
         t0 = FeSquare y;
         y = FeAdd yy xx;
         z = FeSub yy xx;
         x = FeSub t0 y;
         t = FeSub zz2 z
     in \<lparr>cX = x, cY = y, cZ = z, cT = t\<rparr>)"

definition Extended_Double :: "ExtendedGroupElement \<Rightarrow> CompletedGroupElement" where
  "Extended_Double p = Projective_Double (Extended_ToProjective p)"

definition geAdd :: "ExtendedGroupElement \<Rightarrow> CachedGroupElement \<Rightarrow> CompletedGroupElement" where
  "geAdd p q =
    (let x = FeAdd (eY p) (eX p);
         y = FeSub (eY p) (eX p);
         z = FeMul x (kPlusX q);
         y = FeMul y (kMinusX q);
         t = FeMul (kT2d q) (eT p);
         x = FeMul (eZ p) (kZ q);
         t0 = FeAdd x x
     in \<lparr>cX = FeSub z y, cY = FeAdd z y, cZ = FeAdd t0 t, cT = FeSub t0 t\<rparr>)"

definition geSub :: "ExtendedGroupElement \<Rightarrow> CachedGroupElement \<Rightarrow> CompletedGroupElement" where
  "geSub p q =
    (let x = FeAdd (eY p) (eX p);
         y = FeSub (eY p) (eX p);
         z = FeMul x (kMinusX q);
         y = FeMul y (kPlusX q);
         t = FeMul (kT2d q) (eT p);
         x = FeMul (eZ p) (kZ q);
         t0 = FeAdd x x
     in \<lparr>cX = FeSub z y, cY = FeAdd z y, cZ = FeSub t0 t, cT = FeAdd t0 t\<rparr>)"

definition geMixedAdd :: "ExtendedGroupElement \<Rightarrow> PreComputedGroupElement \<Rightarrow> CompletedGroupElement" where
  "geMixedAdd p q =
    (let x = FeAdd (eY p) (eX p);
         y = FeSub (eY p) (eX p);
         z = FeMul x (yPlusX q);
         y = FeMul y (yMinusX q);
         t = FeMul (xy2d q) (eT p);
         t0 = FeAdd (eZ p) (eZ p)
     in \<lparr>cX = FeSub z y, cY = FeAdd z y, cZ = FeAdd t0 t, cT = FeSub t0 t\<rparr>)"

definition geMixedSub :: "ExtendedGroupElement \<Rightarrow> PreComputedGroupElement \<Rightarrow> CompletedGroupElement" where
  "geMixedSub p q =
    (let x = FeAdd (eY p) (eX p);
         y = FeSub (eY p) (eX p);
         z = FeMul x (yMinusX q);
         y = FeMul y (yPlusX q);
         t = FeMul (xy2d q) (eT p);
         t0 = FeAdd (eZ p) (eZ p)
     in \<lparr>cX = FeSub z y, cY = FeAdd z y, cZ = FeSub t0 t, cT = FeAdd t0 t\<rparr>)"

section \<open>Selection of a table entry\<close>

definition ge_equal :: "limb \<Rightarrow> limb \<Rightarrow> limb" where
  "ge_equal b c = (let x = b XOR c; x = x - 1 in drop_bit 31 x)"

definition ge_negative :: "limb \<Rightarrow> limb" where
  "ge_negative b = sar 31 b AND 1"

definition PreComputedGroupElementCMove ::
    "PreComputedGroupElement \<Rightarrow> PreComputedGroupElement \<Rightarrow> limb \<Rightarrow> PreComputedGroupElement" where
  "PreComputedGroupElementCMove t u b =
    \<lparr>yPlusX = FeCMove (yPlusX t) (yPlusX u) b, yMinusX = FeCMove (yMinusX t) (yMinusX u) b,
     xy2d = FeCMove (xy2d t) (xy2d u) b\<rparr>"

definition selectPoint :: "PreComputedGroupElement list list \<Rightarrow> nat \<Rightarrow> limb \<Rightarrow> PreComputedGroupElement" where
  "selectPoint base pos b =
    (let bNegative = ge_negative b;
         bAbs = b - push_bit 1 (- bNegative AND b);
         t = foldl (\<lambda>t i. PreComputedGroupElementCMove t (base ! pos ! i) (ge_equal bAbs (of_nat i + 1)))
               PreComputed_Zero [0..<8];
         minusT = \<lparr>yPlusX = yMinusX t, yMinusX = yPlusX t, xy2d = FeNeg (xy2d t)\<rparr>
     in PreComputedGroupElementCMove t minusT bNegative)"

section \<open>Multiplication of the base point\<close>

text \<open>The 64 signed digits of the scalar to the base 16, in \<open>int8\<close>; the last digit takes the carry as it is.\<close>

definition nibbles :: "bytes \<Rightarrow> byte list" where
  "nibbles a = concat (map (\<lambda>v. [v AND 15, drop_bit 4 v AND 15]) a)"

fun recode :: "byte \<Rightarrow> byte list \<Rightarrow> byte list" where
  "recode carry [] = []"
| "recode carry [e] = [e + carry]"
| "recode carry (e # es) =
    (let e = e + carry;
         carry = signed_drop_bit 4 (e + 8)
     in (e - push_bit 4 carry) # recode carry es)"

definition GeScalarMultBase :: "PreComputedGroupElement list list \<Rightarrow> bytes \<Rightarrow> ExtendedGroupElement" where
  "GeScalarMultBase base a =
    (let e = recode 0 (nibbles a);
         add = (\<lambda>h i. Completed_ToExtended (geMixedAdd h (selectPoint base (i div 2) (scast (e ! i)))));
         h = foldl add Extended_Zero (filter odd [0..<64]);
         r = Extended_Double h;
         s = Completed_ToProjective r;
         r = Projective_Double s;
         s = Completed_ToProjective r;
         r = Projective_Double s;
         s = Completed_ToProjective r;
         r = Projective_Double s;
         h = Completed_ToExtended r
     in foldl add h (filter even [0..<64]))"

section \<open>Points of the curve\<close>

definition congruent :: "int \<Rightarrow> int \<Rightarrow> bool" where
  "congruent a b \<longleftrightarrow> a mod prime25519 = b mod prime25519"

definition invertible :: "int \<Rightarrow> bool" where
  "invertible z \<longleftrightarrow> (\<exists>u. congruent (z * u) 1)"

abbreviation curve_d :: int where
  "curve_d \<equiv> fe_val ed_d"

definition on_curve :: "int \<times> int \<Rightarrow> bool" where
  "on_curve P = (case P of (x, y) \<Rightarrow> congruent (y\<^sup>2 - x\<^sup>2) (1 + curve_d * x\<^sup>2 * y\<^sup>2))"

text \<open>The complete addition law: the denominators are invertible and the quotients are the sum.\<close>

definition edwards_sum :: "int \<times> int \<Rightarrow> int \<times> int \<Rightarrow> int \<times> int \<Rightarrow> bool" where
  "edwards_sum P Q R = (case (P, Q, R) of ((x1, y1), (x2, y2), (x3, y3)) \<Rightarrow>
    (let \<delta> = curve_d * x1 * x2 * y1 * y2
     in invertible (1 + \<delta>) \<and> invertible (1 - \<delta>) \<and>
        congruent (x3 * (1 + \<delta>)) (x1 * y2 + y1 * x2) \<and> congruent (y3 * (1 - \<delta>)) (y1 * y2 + x1 * x2)))"

definition projective :: "ProjectiveGroupElement \<Rightarrow> int \<times> int \<Rightarrow> bool" where
  "projective p P \<longleftrightarrow> (\<exists>z. invertible z \<and> tightly (pX p) (fst P * z) \<and> tightly (pY p) (snd P * z) \<and> tightly (pZ p) z)"

definition extended :: "ExtendedGroupElement \<Rightarrow> int \<times> int \<Rightarrow> bool" where
  "extended p P \<longleftrightarrow> (\<exists>z. invertible z \<and> tightly (eX p) (fst P * z) \<and> tightly (eY p) (snd P * z) \<and> tightly (eZ p) z \<and>
     tightly (eT p) (fst P * snd P * z))"

definition completed :: "CompletedGroupElement \<Rightarrow> int \<times> int \<Rightarrow> bool" where
  "completed r P \<longleftrightarrow> (\<exists>z t. invertible z \<and> invertible t \<and> loosely (cX r) (fst P * z) \<and> loosely (cZ r) z \<and>
     loosely (cY r) (snd P * t) \<and> loosely (cT r) t)"

definition precomputed :: "PreComputedGroupElement \<Rightarrow> int \<times> int \<Rightarrow> bool" where
  "precomputed q P \<longleftrightarrow> tightly (yPlusX q) (snd P + fst P) \<and> tightly (yMinusX q) (snd P - fst P) \<and>
     tightly (xy2d q) (2 * curve_d * fst P * snd P)"

definition cached :: "CachedGroupElement \<Rightarrow> int \<times> int \<Rightarrow> bool" where
  "cached q P \<longleftrightarrow> (\<exists>z. invertible z \<and> loosely (kPlusX q) ((snd P + fst P) * z) \<and> loosely (kMinusX q) ((snd P - fst P) * z) \<and>
     tightly (kZ q) z \<and> tightly (kT2d q) (2 * curve_d * fst P * snd P * z))"

lemma congruent_mult: "congruent a b \<Longrightarrow> congruent c d \<Longrightarrow> congruent (a * c) (b * d)"
  unfolding congruent_def by (rule mod_mult_cong)

lemma congruent_refl [simp]: "congruent a a"
  by (simp add: congruent_def)

lemma congruent_sym: "congruent a b \<Longrightarrow> congruent b a"
  by (simp add: congruent_def)

lemma congruent_scale: "congruent a b \<Longrightarrow> v = c * a \<Longrightarrow> w = c * b \<Longrightarrow> congruent v w"
  using congruent_mult [of c c a b] by simp

lemma denotes_congruent: "denotes e od f v \<Longrightarrow> congruent v w \<Longrightarrow> denotes e od f w"
  unfolding congruent_def by (rule denotes_cong)

lemma denotes_eq: "denotes e od f v \<Longrightarrow> v = w \<Longrightarrow> denotes e od f w"
  by simp

lemma invertible_mult [intro]: "invertible a \<Longrightarrow> invertible b \<Longrightarrow> invertible (a * b)"
proof -
  assume "invertible a" "invertible b"
  then obtain u v where "congruent (a * u) 1" "congruent (b * v) 1" unfolding invertible_def by blast
  from congruent_mult [OF this] show ?thesis unfolding invertible_def by (intro exI [of _ "u * v"]) (simp add: ac_simps)
qed

lemma invertible_2 [simp]: "invertible 2"
  unfolding invertible_def congruent_def by (intro exI [of _ "2 ^ 254 - 9"]) (simp add: prime25519_def)

lemma invertible_1 [simp]: "invertible 1"
  unfolding invertible_def by (intro exI [of _ 1]) simp

lemma invertible_cong: "invertible a \<Longrightarrow> congruent a b \<Longrightarrow> invertible b"
  unfolding invertible_def congruent_def by (metis mod_mult_left_eq)

lemma curve_constants:
  "congruent (121666 * curve_d) (- 121665)" "tightly ed_d2 (2 * curve_d)"
  "congruent (fe_val SqrtM1 * fe_val SqrtM1) (- 1)" "tight SqrtM1"
  unfolding congruent_def denotes_def represents_def by code_simp+

text \<open>Sums of two and of three products are still loose.\<close>

lemma loosely_sums:
  assumes "tightly f a" "tightly g b" "tightly h c"
  shows "loosely (FeAdd f g) (a + b)" "loosely (FeSub f g) (a - b)"
    "loosely (FeAdd (FeAdd f g) h) (a + b + c)" "loosely (FeSub (FeAdd f g) h) (a + b - c)"
    "loosely (FeSub h (FeAdd f g)) (c - (a + b))" "loosely (FeSub h (FeSub f g)) (c - (a - b))"
proof -
  from denotes_add [OF assms(1,2)] have
    A: "denotes (33889976 + 33889976) (16944988 + 16944988) (FeAdd f g) (a + b)" and
    S: "denotes (33889976 + 33889976) (16944988 + 16944988) (FeSub f g) (a - b)" by simp_all
  from A show "loosely (FeAdd f g) (a + b)" by (rule denotes_mono) simp_all
  from S show "loosely (FeSub f g) (a - b)" by (rule denotes_mono) simp_all
  have "denotes (33889976 + 33889976 + 33889976) (16944988 + 16944988 + 16944988) (FeAdd (FeAdd f g) h) (a + b + c)"
    "denotes (33889976 + 33889976 + 33889976) (16944988 + 16944988 + 16944988) (FeSub (FeAdd f g) h) (a + b - c)"
    "denotes (33889976 + (33889976 + 33889976)) (16944988 + (16944988 + 16944988)) (FeSub h (FeAdd f g)) (c - (a + b))"
    "denotes (33889976 + (33889976 + 33889976)) (16944988 + (16944988 + 16944988)) (FeSub h (FeSub f g)) (c - (a - b))"
    using denotes_add [OF A assms(3)] denotes_add [OF assms(3) A] denotes_add [OF assms(3) S] by simp_all
  then show "loosely (FeAdd (FeAdd f g) h) (a + b + c)" "loosely (FeSub (FeAdd f g) h) (a + b - c)"
    "loosely (FeSub h (FeAdd f g)) (c - (a + b))" "loosely (FeSub h (FeSub f g)) (c - (a - b))"
    by (auto elim: denotes_mono)
qed

section \<open>The formulas\<close>

lemma Completed_conversions:
  assumes "completed r P"
  shows "extended (Completed_ToExtended r) P \<and> projective (Completed_ToProjective r) P"
proof -
  from assms obtain z t where i: "invertible z" "invertible t"
    and X: "loosely (cX r) (fst P * z)" and Z: "loosely (cZ r) z" and Y: "loosely (cY r) (snd P * t)" and T: "loosely (cT r) t"
    unfolding completed_def by blast
  have "tightly (FeMul (cX r) (cT r)) (fst P * (z * t))" "tightly (FeMul (cY r) (cZ r)) (snd P * (z * t))"
    "tightly (FeMul (cZ r) (cT r)) (z * t)" "tightly (FeMul (cX r) (cY r)) (fst P * snd P * (z * t))"
    by (rule denotes_eq [OF denotes_mul [OF X T]], simp) (rule denotes_eq [OF denotes_mul [OF Y Z]], simp,
      rule denotes_mul [OF Z T], rule denotes_eq [OF denotes_mul [OF X Y]], simp)
  then show ?thesis
    using i by (auto simp: extended_def projective_def Completed_ToExtended_def Completed_ToProjective_def)
qed

lemma Extended_ToProjective: "extended p P \<Longrightarrow> projective (Extended_ToProjective p) P"
  by (auto simp: extended_def projective_def Extended_ToProjective_def)

text \<open>What the four additions have in common: two products, and denominators for the same factor \<open>z\<close>.\<close>

lemma completed_sum:
  assumes "tightly f ((y1 + x1) * (y2 + x2) * z)" "tightly g ((y1 - x1) * (y2 - x2) * z)" "invertible z"
    and "loosely cz (2 * z * (1 + curve_d * x1 * x2 * y1 * y2))" "loosely ct (2 * z * (1 - curve_d * x1 * x2 * y1 * y2))"
    and "edwards_sum (x1, y1) (x2, y2) R"
  shows "completed \<lparr>cX = FeSub f g, cY = FeAdd f g, cZ = cz, cT = ct\<rparr> R"
proof -
  obtain x3 y3 where R: "R = (x3, y3)" by (cases R)
  let ?\<delta> = "curve_d * x1 * x2 * y1 * y2"
  from assms(6) have i: "invertible (1 + ?\<delta>)" "invertible (1 - ?\<delta>)"
    and x3: "congruent (x1 * y2 + y1 * x2) (x3 * (1 + ?\<delta>))" and y3: "congruent (y1 * y2 + x1 * x2) (y3 * (1 - ?\<delta>))"
    by (simp_all add: edwards_sum_def R Let_def congruent_sym)
  have "loosely (FeSub f g) (x3 * (2 * z * (1 + ?\<delta>)))"
    by (rule denotes_congruent [OF loosely_sums(2) [OF assms(1,2,2)]], rule congruent_scale [OF x3, of _ "2 * z"])
      (simp_all add: algebra_simps)
  moreover have "loosely (FeAdd f g) (y3 * (2 * z * (1 - ?\<delta>)))"
    by (rule denotes_congruent [OF loosely_sums(1) [OF assms(1,2,2)]], rule congruent_scale [OF y3, of _ "2 * z"])
      (simp_all add: algebra_simps)
  moreover have "invertible (2 * z * (1 + ?\<delta>))" "invertible (2 * z * (1 - ?\<delta>))"
    by (intro invertible_mult invertible_2 i assms(3))+
  ultimately show ?thesis
    using assms(4,5) unfolding completed_def R by auto
qed

lemma extended_sums:
  assumes "tightly (eX p) (x * z)" "tightly (eY p) (y * z)"
  shows "loosely (FeAdd (eY p) (eX p)) ((y + x) * z)" "loosely (FeSub (eY p) (eX p)) ((y - x) * z)"
  using loosely_sums(1,2) [OF assms(2,1,1)] by (simp_all add: algebra_simps)

definition edwards_neg :: "int \<times> int \<Rightarrow> int \<times> int" where
  "edwards_neg P = (- fst P, snd P)"

lemma completed_products:
  assumes p: "tightly (eX p) (x1 * z1)" "tightly (eY p) (y1 * z1)" "tightly (eT p) (x1 * y1 * z1)"
    and q: "loosely k1 ((y2 + x2) * z2)" "loosely k2 ((y2 - x2) * z2)" "tightly k3 (2 * curve_d * x2 * y2 * z2)"
    and z: "invertible z1" "invertible z2" "tightly zz (z1 * z2)"
  defines "a \<equiv> FeAdd (eY p) (eX p)" and "b \<equiv> FeSub (eY p) (eX p)" and "t \<equiv> FeMul k3 (eT p)" and "t0 \<equiv> FeAdd zz zz"
  shows "edwards_sum (x1, y1) (x2, y2) R \<Longrightarrow>
      completed \<lparr>cX = FeSub (FeMul a k1) (FeMul b k2), cY = FeAdd (FeMul a k1) (FeMul b k2), cZ = FeAdd t0 t, cT = FeSub t0 t\<rparr> R"
    and "edwards_sum (x1, y1) (- x2, y2) R \<Longrightarrow>
      completed \<lparr>cX = FeSub (FeMul a k2) (FeMul b k1), cY = FeAdd (FeMul a k2) (FeMul b k1), cZ = FeSub t0 t, cT = FeAdd t0 t\<rparr> R"
proof -
  have t: "tightly t (2 * (z1 * z2) * (curve_d * x1 * x2 * y1 * y2))"
    unfolding t_def by (rule denotes_eq [OF denotes_mul [OF tightly_loosely [OF q(3)] tightly_loosely [OF p(3)]]]) simp
  note a = extended_sums(1) [OF p(1,2), folded a_def] and b = extended_sums(2) [OF p(1,2), folded b_def]
  have i: "invertible (z1 * z2)" using z(1,2) by (rule invertible_mult)
  note mul = denotes_eq [OF denotes_mul] and plus = denotes_eq [OF loosely_sums(3) [OF z(3) z(3) t], folded t0_def]
    and minus = denotes_eq [OF loosely_sums(4) [OF z(3) z(3) t], folded t0_def]
  show "completed \<lparr>cX = FeSub (FeMul a k1) (FeMul b k2), cY = FeAdd (FeMul a k1) (FeMul b k2), cZ = FeAdd t0 t, cT = FeSub t0 t\<rparr> R"
    if "edwards_sum (x1, y1) (x2, y2) R"
  proof (rule completed_sum [OF _ _ i _ _ that])
    show "tightly (FeMul a k1) ((y1 + x1) * (y2 + x2) * (z1 * z2))" by (rule mul [OF a q(1)]) simp
    show "tightly (FeMul b k2) ((y1 - x1) * (y2 - x2) * (z1 * z2))" by (rule mul [OF b q(2)]) simp
    show "loosely (FeAdd t0 t) (2 * (z1 * z2) * (1 + curve_d * x1 * x2 * y1 * y2))" by (rule plus) (simp add: algebra_simps)
    show "loosely (FeSub t0 t) (2 * (z1 * z2) * (1 - curve_d * x1 * x2 * y1 * y2))" by (rule minus) (simp add: algebra_simps)
  qed
  show "completed \<lparr>cX = FeSub (FeMul a k2) (FeMul b k1), cY = FeAdd (FeMul a k2) (FeMul b k1), cZ = FeSub t0 t, cT = FeAdd t0 t\<rparr> R"
    if "edwards_sum (x1, y1) (- x2, y2) R"
  proof (rule completed_sum [OF _ _ i _ _ that])
    show "tightly (FeMul a k2) ((y1 + x1) * (y2 + - x2) * (z1 * z2))" by (rule mul [OF a q(2)]) simp
    show "tightly (FeMul b k1) ((y1 - x1) * (y2 - - x2) * (z1 * z2))" by (rule mul [OF b q(1)]) simp
    show "loosely (FeSub t0 t) (2 * (z1 * z2) * (1 + curve_d * x1 * - x2 * y1 * y2))" by (rule minus) (simp add: algebra_simps)
    show "loosely (FeAdd t0 t) (2 * (z1 * z2) * (1 - curve_d * x1 * - x2 * y1 * y2))" by (rule plus) (simp add: algebra_simps)
  qed
qed

lemma geAdd_sum:
  assumes "extended p P" "cached q Q"
  shows "edwards_sum P Q R \<Longrightarrow> completed (geAdd p q) R" "edwards_sum P (edwards_neg Q) R \<Longrightarrow> completed (geSub p q) R"
proof -
  from assms(1) obtain z where p: "invertible z" "tightly (eX p) (fst P * z)" "tightly (eY p) (snd P * z)" "tightly (eZ p) z"
      "tightly (eT p) (fst P * snd P * z)" unfolding extended_def by blast
  from assms(2) obtain w where q: "invertible w" "loosely (kPlusX q) ((snd Q + fst Q) * w)"
      "loosely (kMinusX q) ((snd Q - fst Q) * w)" "tightly (kZ q) w" "tightly (kT2d q) (2 * curve_d * fst Q * snd Q * w)"
    unfolding cached_def by blast
  note C = completed_products [OF p(2,3,5) q(2,3,5) p(1) q(1) denotes_mul [OF p(4) [THEN tightly_loosely] q(4) [THEN tightly_loosely]]]
  show "completed (geAdd p q) R" if "edwards_sum P Q R"
    using C(1) that unfolding geAdd_def Let_def by simp
  show "completed (geSub p q) R" if "edwards_sum P (edwards_neg Q) R"
    using C(2) that unfolding geSub_def Let_def edwards_neg_def by simp
qed

lemma geMixedAdd_sum:
  assumes "extended p P" "precomputed q Q"
  shows "edwards_sum P Q R \<Longrightarrow> completed (geMixedAdd p q) R"
    "edwards_sum P (edwards_neg Q) R \<Longrightarrow> completed (geMixedSub p q) R"
proof -
  from assms(1) obtain z where p: "invertible z" "tightly (eX p) (fst P * z)" "tightly (eY p) (snd P * z)" "tightly (eZ p) (z * 1)"
      "tightly (eT p) (fst P * snd P * z)" unfolding extended_def by auto
  from assms(2) have q: "loosely (yPlusX q) ((snd Q + fst Q) * 1)" "loosely (yMinusX q) ((snd Q - fst Q) * 1)"
      "tightly (xy2d q) (2 * curve_d * fst Q * snd Q * 1)"
    by (simp_all add: precomputed_def)
  note C = completed_products [OF p(2,3,5) q p(1) invertible_1 p(4)]
  show "completed (geMixedAdd p q) R" if "edwards_sum P Q R"
    using C(1) that unfolding geMixedAdd_def Let_def by simp
  show "completed (geMixedSub p q) R" if "edwards_sum P (edwards_neg Q) R"
    using C(2) that unfolding geMixedSub_def Let_def edwards_neg_def by simp
qed

lemma Extended_ToCached: "extended p P \<Longrightarrow> cached (Extended_ToCached p) P"
proof -
  assume "extended p P"
  then obtain z where p: "invertible z" "tightly (eX p) (fst P * z)" "tightly (eY p) (snd P * z)" "tightly (eZ p) z"
      "tightly (eT p) (fst P * snd P * z)" unfolding extended_def by blast
  have "tightly (FeMul (eT p) ed_d2) (2 * curve_d * fst P * snd P * z)"
    by (rule denotes_eq [OF denotes_mul [OF tightly_loosely [OF p(5)] tightly_loosely [OF curve_constants(2)]]]) simp
  then show ?thesis
    using p extended_sums [OF p(2,3)] unfolding cached_def Extended_ToCached_def by auto
qed

lemma Projective_Double_sum:
  assumes "projective p P" "on_curve P" "edwards_sum P P R"
  shows "completed (Projective_Double p) R"
proof -
  obtain x y where [simp]: "P = (x, y)" by (cases P)
  obtain x3 y3 where R: "R = (x3, y3)" by (cases R)
  let ?\<delta> = "curve_d * x * x * y * y"
  from assms(1) obtain z where z: "invertible z" and p: "tightly (pX p) (x * z)" "tightly (pY p) (y * z)" "tightly (pZ p) z"
    unfolding projective_def by auto
  have c: "congruent (y * y - x * x) (1 + ?\<delta>)" using assms(2) by (simp add: on_curve_def power2_eq_square ac_simps)
  then have c': "congruent (2 - (y * y - x * x)) (1 - ?\<delta>)"
    unfolding congruent_def by (metis (no_types, opaque_lifting) add_diff_cancel_left' diff_diff_eq mod_diff_right_eq one_add_one)
  from assms(3) have i: "invertible (1 + ?\<delta>)" "invertible (1 - ?\<delta>)"
    and x3: "congruent (x * y + y * x) (x3 * (1 + ?\<delta>))" and y3: "congruent (y * y + x * x) (y3 * (1 - ?\<delta>))"
    by (simp_all add: edwards_sum_def R Let_def congruent_sym)
  have xx: "tightly (FeSquare (pX p)) (x * z * (x * z))" and yy: "tightly (FeSquare (pY p)) (y * z * (y * z))"
    and zz: "tightly (FeSquare2 (pZ p)) (2 * (z * z))"
    using denotes_square [OF tightly_loosely [OF p(1)]] denotes_square [OF tightly_loosely [OF p(2)]]
      denotes_square2 [OF tightly_loosely [OF p(3)]] by (simp_all add: power2_eq_square)
  have xy: "tightly (FeSquare (FeAdd (pX p) (pY p))) ((x * z + y * z) * (x * z + y * z))"
    using denotes_square [OF loosely_sums(1) [OF p(1,2,2)]] by (simp add: power2_eq_square)
  have "loosely (FeSub (FeSquare (FeAdd (pX p) (pY p))) (FeAdd (FeSquare (pY p)) (FeSquare (pX p)))) (x3 * (z * z * (1 + ?\<delta>)))"
    by (rule denotes_congruent [OF loosely_sums(5) [OF yy xx xy]], rule congruent_scale [OF x3, of _ "z * z"])
      (simp_all add: algebra_simps)
  moreover have "loosely (FeAdd (FeSquare (pY p)) (FeSquare (pX p))) (y3 * (z * z * (1 - ?\<delta>)))"
    by (rule denotes_congruent [OF loosely_sums(1) [OF yy xx xx]], rule congruent_scale [OF y3, of _ "z * z"])
      (simp_all add: algebra_simps)
  moreover have "loosely (FeSub (FeSquare (pY p)) (FeSquare (pX p))) (z * z * (1 + ?\<delta>))"
    by (rule denotes_congruent [OF loosely_sums(2) [OF yy xx xx]], rule congruent_scale [OF c, of _ "z * z"])
      (simp_all add: algebra_simps)
  moreover have "loosely (FeSub (FeSquare2 (pZ p)) (FeSub (FeSquare (pY p)) (FeSquare (pX p)))) (z * z * (1 - ?\<delta>))"
    by (rule denotes_congruent [OF loosely_sums(6) [OF yy xx zz]], rule congruent_scale [OF c', of _ "z * z"])
      (simp_all add: algebra_simps)
  moreover have "invertible (z * z * (1 + ?\<delta>))" "invertible (z * z * (1 - ?\<delta>))"
    by (intro invertible_mult i z)+
  ultimately show ?thesis unfolding completed_def Projective_Double_def Let_def R by auto
qed

section \<open>Selection\<close>

lemma list_all_range:
  "list_all P [a..b] \<Longrightarrow> a \<le> i \<Longrightarrow> i \<le> b \<Longrightarrow> P i" "list_all Q [0..<n] \<Longrightarrow> k < n \<Longrightarrow> Q k"
  by (simp_all add: list_all_iff)

lemma ge_equal_val: "k < 9 \<Longrightarrow> j < 8 \<Longrightarrow> ge_equal (of_nat k) (of_nat j + 1) = of_bool (k = j + 1)"
proof -
  have "list_all (\<lambda>j. list_all (\<lambda>k. ge_equal (of_nat k) (of_nat j + 1) = of_bool (k = j + 1)) [0..<9]) [0..<8]"
    by code_simp
  then show "k < 9 \<Longrightarrow> j < 8 \<Longrightarrow> ge_equal (of_nat k) (of_nat j + 1) = of_bool (k = j + 1)"
    using list_all_range(2) by blast
qed

lemma ge_negative_val:
  assumes "- 8 \<le> i" "i \<le> 8"
  shows "ge_negative (word_of_int i) = of_bool (i < 0) \<and>
     word_of_int i - push_bit 1 (- of_bool (i < 0) AND word_of_int i) = (of_nat (nat \<bar>i\<bar>) :: limb)"
proof -
  have "list_all (\<lambda>i. ge_negative (word_of_int i) = of_bool (i < 0) \<and>
     word_of_int i - push_bit 1 (- of_bool (i < 0) AND word_of_int i) = (of_nat (nat \<bar>i\<bar>) :: limb)) [- 8..8]"
    by code_simp
  from list_all_range(1) [OF this assms] show ?thesis .
qed

lemma CMove_val: "PreComputedGroupElementCMove t u (of_bool c) = (if c then u else t)"
  by (simp add: PreComputedGroupElementCMove_def FeCMove_val)

lemma select_fold:
  assumes "k < 9"
  shows "foldl (\<lambda>t i. PreComputedGroupElementCMove t (row ! i) (ge_equal (of_nat k) (of_nat i + 1))) t [0..<8] =
    (if k = 0 then t else row ! (k - 1))"
proof -
  have "n \<le> 8 \<Longrightarrow> foldl (\<lambda>t i. PreComputedGroupElementCMove t (row ! i) (ge_equal (of_nat k) (of_nat i + 1))) t [0..<n] =
    (if k = 0 \<or> n < k then t else row ! (k - 1))" for n
  proof (induction n)
    case (Suc n)
    then show ?case using ge_equal_val [OF assms, of n] by (auto simp: CMove_val)
  qed auto
  from this [of 8] assms show ?thesis by simp
qed

text \<open>Integers that name points: the multiples of one point of the curve.\<close>

definition multiples :: "(int \<Rightarrow> int \<times> int) \<Rightarrow> bool" where
  "multiples pt \<longleftrightarrow> pt 0 = (0, 1) \<and> (\<forall>n. on_curve (pt n) \<and> pt (- n) = edwards_neg (pt n)) \<and>
     (\<forall>m n. edwards_sum (pt m) (pt n) (pt (m + n)))"

definition table_of :: "(int \<Rightarrow> int \<times> int) \<Rightarrow> PreComputedGroupElement list list \<Rightarrow> bool" where
  "table_of pt base \<longleftrightarrow> (\<forall>i < 32. \<forall>j < 8. precomputed (base ! i ! j) (pt ((int j + 1) * 256 ^ i)))"

lemma selectPoint_val:
  assumes "multiples pt" "table_of pt base" "pos < 32" "- 8 \<le> sint b" "sint b \<le> 8"
  shows "precomputed (selectPoint base pos b) (pt (sint b * 256 ^ pos))"
proof -
  define i where "i = sint b"
  have b: "b = word_of_int i" by (simp add: i_def)
  define k where "k = nat \<bar>i\<bar>"
  define u where "u = (if k = 0 then PreComputed_Zero else base ! pos ! (k - 1))"
  have k: "k < 9" "- 8 \<le> i" "i \<le> 8" using assms(4,5) by (auto simp: k_def i_def)
  have sel: "selectPoint base pos b =
      (if i < 0 then \<lparr>yPlusX = yMinusX u, yMinusX = yPlusX u, xy2d = FeNeg (xy2d u)\<rparr> else u)"
    using select_fold [OF k(1), of "base ! pos" PreComputed_Zero]
    by (simp only: selectPoint_def Let_def b ge_negative_val [OF k(2,3)] k_def [symmetric] u_def [symmetric] CMove_val)
  have u: "precomputed u (pt (int k * 256 ^ pos))"
  proof (cases "k = 0")
    case True
    then show ?thesis
      using denotes_const assms(1) by (auto simp: u_def precomputed_def PreComputed_Zero_def multiples_def elim: denotes_mono)
  next
    case False
    then have "int (k - 1) + 1 = int k" "k - 1 < 8" using k(1) by simp_all
    moreover from this(2) have "precomputed (base ! pos ! (k - 1)) (pt ((int (k - 1) + 1) * 256 ^ pos))"
      using assms(2,3) by (simp add: table_of_def)
    ultimately show ?thesis using False by (simp add: u_def)
  qed
  show ?thesis
  proof (cases "i < 0")
    case True
    then have "i * 256 ^ pos = - (int k * 256 ^ pos)" by (simp add: k_def)
    then have "pt (i * 256 ^ pos) = edwards_neg (pt (int k * 256 ^ pos))" using assms(1) by (simp add: multiples_def)
    then show ?thesis
      using u True denotes_neg [of 33889976 16944988 "xy2d u"] by (simp add: sel precomputed_def edwards_neg_def flip: i_def)
  qed (use u in \<open>simp add: sel k_def flip: i_def\<close>)
qed

section \<open>Digits\<close>

fun digits_val :: "int list \<Rightarrow> int" where
  "digits_val [] = 0"
| "digits_val (e # es) = e + 16 * digits_val es"

lemma recode_step:
  fixes e carry :: byte
  assumes "uint e < 16" "carry = 0 \<or> carry = 1"
  defines "d \<equiv> signed_drop_bit 4 (e + carry + 8)"
  shows "(d = 0 \<or> d = 1) \<and> sint (e + carry - push_bit 4 d) + 16 * uint d = uint e + uint carry \<and>
    - 8 \<le> sint (e + carry - push_bit 4 d) \<and> sint (e + carry - push_bit 4 d) < 8 \<and> sint (e + carry) = uint e + uint carry"
proof -
  have "list_all (\<lambda>e. list_all (\<lambda>c. (let d = signed_drop_bit 4 (word_of_int e + word_of_int c + 8) :: byte; x = word_of_int e + word_of_int c in
    (d = 0 \<or> d = 1) \<and> sint (x - push_bit 4 d) + 16 * uint d = e + c \<and> - 8 \<le> sint (x - push_bit 4 d) \<and>
    sint (x - push_bit 4 d) < 8 \<and> sint x = e + c)) [0..1]) [0..15]"
    by code_simp
  from list_all_range(1) [OF list_all_range(1) [OF this, of "uint e"], of "uint carry"] assms(1,2) show ?thesis
    by (auto simp: Let_def d_def)
qed

lemma recode_val:
  assumes "\<forall>e \<in> set es. uint e < 16" "carry = 0 \<or> carry = 1" "es \<noteq> []" "uint (last es) < 8"
  shows "length (recode carry es) = length es \<and> digits_val (map sint (recode carry es)) = digits_val (map uint es) + uint carry \<and>
    (\<forall>d \<in> set (recode carry es). - 8 \<le> sint d \<and> sint d \<le> 8)"
  using assms
proof (induction carry es rule: recode.induct)
  case (2 carry e)
  then show ?case using recode_step [of e carry] by auto
next
  case (3 carry e e' es)
  then show ?case using recode_step [of e carry] by (auto simp: Let_def)
qed simp

lemma nibble_low: "uint (x AND 15) = uint x mod 16" for x :: byte
  using take_bit_eq_mask [of 4 "uint x"] by (simp add: unsigned_and_eq take_bit_eq_mod mask_eq_exp_minus_1)

lemma nibble_high: "uint (drop_bit 4 v AND 15) = uint v div 16" for v :: byte
proof -
  have "uint v div 16 < 16" by (rule div_less_power) (use byte_range [of v] in simp_all)
  moreover have "0 \<le> uint v div 16" by (simp add: pos_imp_zdiv_nonneg_iff)
  ultimately show ?thesis by (simp add: nibble_low drop_bit_eq_div uint_div)
qed

lemma nibbles_val:
  "digits_val (map uint (nibbles a)) = le_val a \<and> length (nibbles a) = 2 * length a \<and> (\<forall>e \<in> set (nibbles a). uint e < 16)"
proof (induction a)
  case (Cons v a)
  with nibble_low [of v] nibble_high [of v] show ?case using byte_range [of v] by (simp add: nibbles_def)
qed (simp add: nibbles_def)

section \<open>Scalar multiplication\<close>

lemma digits_sum: "digits_val es = (\<Sum>i<length es. es ! i * 16 ^ i)"
proof (induction es)
  case (Cons e es)
  then show ?case by (simp only: digits_val.simps list.size add_0 add_Suc_right sum.lessThan_Suc_shift)
      (simp add: sum_distrib_left ac_simps)
qed simp

lemma scalar_digits:
  assumes "length a = 32" "uint (a ! 31) \<le> 127"
  defines "e \<equiv> recode 0 (nibbles a)"
  shows "length e = 64 \<and> (\<Sum>i<64. sint (e ! i) * 16 ^ i) = le_val a \<and> (\<forall>i<64. - 8 \<le> sint (e ! i) \<and> sint (e ! i) \<le> 8)"
proof -
  have "a = take 31 a @ [a ! 31]" using assms(1) take_Suc_conv_app_nth [of 31 a] by simp
  then have "nibbles a = nibbles (take 31 a) @ [a ! 31 AND 15, drop_bit 4 (a ! 31) AND 15]"
    by (metis (no_types, lifting) concat.simps concat_append list.simps(8,9) map_append nibbles_def append_Nil2)
  then have "last (nibbles a) = drop_bit 4 (a ! 31) AND 15" by simp
  then have "uint (last (nibbles a)) < 8" using nibble_high [of "a ! 31"] assms(2) by simp
  moreover have "nibbles a \<noteq> []" using nibbles_val [of a] assms(1) by auto
  ultimately have "length e = 64 \<and> digits_val (map sint e) = le_val a \<and> (\<forall>d \<in> set e. - 8 \<le> sint d \<and> sint d \<le> 8)"
    using recode_val [of "nibbles a" 0] nibbles_val [of a] assms(1) by (simp add: e_def)
  then show ?thesis using digits_sum [of "map sint e"] by auto
qed

text \<open>The two loops, over the odd and over the even digits.\<close>

lemma digit_loop:
  assumes m: "multiples pt" and tab: "table_of pt base" and e: "\<forall>i<64. - 8 \<le> sint (e ! i) \<and> sint (e ! i) \<le> 8"
  shows "extended h (pt n) \<Longrightarrow> \<forall>i \<in> set is. i < 64 \<Longrightarrow>
    extended (foldl (\<lambda>h i. Completed_ToExtended (geMixedAdd h (selectPoint base (i div 2) (scast (e ! i :: byte))))) h is)
      (pt (n + (\<Sum>i\<leftarrow>is. sint (e ! i) * 256 ^ (i div 2))))"
proof (induction "is" arbitrary: h n)
  case (Cons i "is")
  have s: "sint (scast x :: limb) = sint x" for x :: byte by (rule sint_up_scast) (simp add: is_up)
  have "precomputed (selectPoint base (i div 2) (scast (e ! i))) (pt (sint (e ! i) * 256 ^ (i div 2)))"
    using selectPoint_val [OF m tab, of "i div 2" "scast (e ! i)"] e Cons(3) by (simp add: s less_mult_imp_div_less)
  moreover have "edwards_sum (pt n) (pt k) (pt (n + k))" for k using m by (simp add: multiples_def)
  ultimately have "completed (geMixedAdd h (selectPoint base (i div 2) (scast (e ! i)))) (pt (n + sint (e ! i) * 256 ^ (i div 2)))"
    using geMixedAdd_sum(1) [OF Cons(2)] by blast
  from Cons(1) [OF conjunct1 [OF Completed_conversions [OF this]]] Cons(3) show ?case by (simp add: add.assoc)
qed simp

lemma double_val:
  assumes "multiples pt" "projective p (pt n)"
  shows "completed (Projective_Double p) (pt (2 * n))"
proof -
  have "on_curve (pt n)" "edwards_sum (pt n) (pt n) (pt (n + n))" using assms(1) by (simp_all only: multiples_def)
  from Projective_Double_sum [OF assms(2) this] show ?thesis by simp
qed

lemma sum_list_odd_even: "(\<Sum>i\<leftarrow>xs. g i) = (\<Sum>i\<leftarrow>filter odd xs. g i) + (\<Sum>i\<leftarrow>filter even xs. g i)" for g :: "nat \<Rightarrow> int"
  by (induction xs) simp_all

lemma digit_weights:
  fixes f :: "nat \<Rightarrow> int"
  shows "16 * (\<Sum>i\<leftarrow>filter odd xs. f i * 256 ^ (i div 2)) + (\<Sum>i\<leftarrow>filter even xs. f i * 256 ^ (i div 2)) = (\<Sum>i\<leftarrow>xs. f i * 16 ^ i)"
proof -
  have "256 ^ (i div 2) = (16 ^ i :: int)" if "even i" for i :: nat
  proof -
    have "256 ^ (i div 2) = (16 ^ 2 :: int) ^ (i div 2)" by simp
    also have "\<dots> = (16 ^ i :: int)" using that unfolding power_mult [symmetric] by simp
    finally show ?thesis .
  qed
  moreover have "16 * 256 ^ (i div 2) = (16 ^ i :: int)" if "odd i" for i :: nat
  proof -
    have "16 * 256 ^ (i div 2) = 16 * (16 ^ 2 :: int) ^ (i div 2)" by simp
    also have "\<dots> = (16 ^ Suc (2 * (i div 2)) :: int)" unfolding power_mult [symmetric] by simp
    also have "Suc (2 * (i div 2)) = i" using that by simp
    finally show ?thesis .
  qed
  ultimately show ?thesis by (induction xs) (simp_all add: algebra_simps)
qed

lemma GeScalarMultBase_val:
  assumes m: "multiples pt" and tab: "table_of pt base" and a: "length a = 32" "uint (a ! 31) \<le> 127"
  shows "extended (GeScalarMultBase base a) (pt (le_val a))"
proof -
  define e where "e = recode 0 (nibbles a)"
  note d = scalar_digits [OF a, folded e_def]
  define add where "add = (\<lambda>h i. Completed_ToExtended (geMixedAdd h (selectPoint base (i div 2) (scast (e ! i :: byte)))))"
  define xs where "xs = [0..<64 :: nat]"
  have xs: "\<forall>i \<in> set (filter P xs). i < 64" for P by (simp add: xs_def)
  note loop = digit_loop [OF m tab, of e, folded add_def]
  have "extended Extended_Zero (0, 1)"
    unfolding extended_def Extended_Zero_def by (rule exI [of _ 1]) (use denotes_const in \<open>auto elim: denotes_mono\<close>)
  then have "extended Extended_Zero (pt 0)" using m by (simp add: multiples_def)
  define n where "n = (\<Sum>i\<leftarrow>filter odd xs. sint (e ! i) * 256 ^ (i div 2))"
  define h where "h = foldl add Extended_Zero (filter odd xs)"
  have "extended h (pt n)"
    using loop [OF _ \<open>extended Extended_Zero (pt 0)\<close>, of "filter odd xs"] d xs unfolding h_def n_def by simp
  then have h: "projective (Extended_ToProjective h) (pt n)" by (rule Extended_ToProjective)
  note dbl = double_val [OF m] and conv = Completed_conversions [THEN conjunct2]
  from dbl [OF conv [OF dbl [OF conv [OF dbl [OF conv [OF dbl [OF h]]]]]]]
  have "extended (Completed_ToExtended (Projective_Double (Completed_ToProjective (Projective_Double (Completed_ToProjective
      (Projective_Double (Completed_ToProjective (Extended_Double h)))))))) (pt (16 * n))"
    using Completed_conversions by (fastforce simp: Extended_Double_def)
  from loop [OF _ this, of "filter even xs"] d xs
  have "extended (GeScalarMultBase base a) (pt (16 * n + (\<Sum>i\<leftarrow>filter even xs. sint (e ! i) * 256 ^ (i div 2))))"
    unfolding GeScalarMultBase_def Let_def e_def [symmetric] add_def [symmetric] h_def xs_def [symmetric] by simp
  also have "16 * n + (\<Sum>i\<leftarrow>filter even xs. sint (e ! i) * 256 ^ (i div 2)) = le_val a"
    unfolding n_def digit_weights xs_def using d by (simp only: interv_sum_list_conv_sum_set_nat set_upt atLeast0LessThan)
  finally show ?thesis .
qed

section \<open>Properties\<close>

text \<open>The group formulas. On representations of points \<open>P\<close> and \<open>Q\<close> of the curve, \<open>geAdd\<close> and \<open>geMixedAdd\<close> give the
  sum \<open>P + Q\<close> of the Edwards addition law, \<open>geSub\<close> and \<open>geMixedSub\<close> the difference, doubling gives \<open>P + P\<close>, and the
  conversions keep the point; every field operation on the way stays within its bounds, so no limb overflows.\<close>

lemma group_formulas:
  assumes "extended p P" "cached k Q" "precomputed q Q" "completed r P" "on_curve P"
  shows "(edwards_sum P Q R \<longrightarrow> extended (Completed_ToExtended (geAdd p k)) R \<and> extended (Completed_ToExtended (geMixedAdd p q)) R) \<and>
    (edwards_sum P (edwards_neg Q) R \<longrightarrow> extended (Completed_ToExtended (geSub p k)) R \<and> extended (Completed_ToExtended (geMixedSub p q)) R) \<and>
    (edwards_sum P P R \<longrightarrow> extended (Completed_ToExtended (Extended_Double p)) R \<and> projective (Completed_ToProjective (Extended_Double p)) R) \<and>
    cached (Extended_ToCached p) P \<and> projective (Extended_ToProjective p) P \<and>
    extended (Completed_ToExtended r) P \<and> projective (Completed_ToProjective r) P"
proof -
  have "completed (Extended_Double p) R" if "edwards_sum P P R"
    unfolding Extended_Double_def by (rule Projective_Double_sum [OF Extended_ToProjective [OF assms(1)] assms(5) that])
  then show ?thesis
    using geAdd_sum [OF assms(1,2)] geMixedAdd_sum [OF assms(1,3)] Completed_conversions Extended_ToCached [OF assms(1)]
      Extended_ToProjective [OF assms(1)] assms(4) by blast
qed

definition order2 :: "int \<Rightarrow> int \<times> int" where
  "order2 n = (0, if even n then 1 else - 1)"

definition minus_one :: PreComputedGroupElement where
  "minus_one = \<lparr>yPlusX = FeNeg FeOne, yMinusX = FeNeg FeOne, xy2d = FeZero\<rparr>"

definition order2_table :: "PreComputedGroupElement list list" where
  "order2_table = map (\<lambda>i. map (\<lambda>j. if odd ((j + 1) * 256 ^ i) then minus_one else PreComputed_Zero) [0..<8]) [0..<32]"

lemma order2_multiples: "multiples order2"
  by (auto simp: multiples_def order2_def on_curve_def edwards_neg_def edwards_sum_def)

lemma order2_table: "table_of order2 order2_table"
proof -
  have "tightly (FeNeg FeOne) (- 1)" "tightly FeOne 1" "tightly FeZero 0"
    using denotes_neg [OF denotes_const(2)] denotes_const by (auto elim: denotes_mono)
  then show ?thesis
    by (auto simp: table_of_def precomputed_def order2_def order2_table_def minus_one_def PreComputed_Zero_def)
qed

lemma group_formulas_example:
  "extended (Completed_ToExtended (geMixedAdd Extended_Zero minus_one)) (0, - 1)"
proof -
  have "tightly (FeNeg FeOne) (- 1)" and c: "tightly FeOne 1" "tightly FeZero 0" "tightly (FeMul FeZero ed_d2) 0"
    using denotes_neg [OF denotes_const(2)] denotes_const
      denotes_mul [OF denotes_mono [OF denotes_const(1)] tightly_loosely [OF curve_constants(2)]] by (auto elim: denotes_mono)
  then have q: "precomputed minus_one (0, - 1)" by (simp add: precomputed_def minus_one_def)
  have z: "extended Extended_Zero (0, 1)" unfolding extended_def Extended_Zero_def using c by (intro exI [of _ 1]) simp
  have n: "extended \<lparr>eX = FeZero, eY = FeNeg FeOne, eZ = FeOne, eT = FeZero\<rparr> (0, - 1)"
    unfolding extended_def using c \<open>tightly (FeNeg FeOne) (- 1)\<close> by (intro exI [of _ 1]) simp
  have r: "completed \<lparr>cX = FeZero, cY = FeOne, cZ = FeOne, cT = FeOne\<rparr> (0, 1)"
    unfolding completed_def using c by (intro exI [of _ 1]) simp
  have "on_curve (0, 1)" "edwards_sum (0, 1) (0, - 1) (0, - 1)" by (simp_all add: on_curve_def edwards_sum_def)
  with group_formulas [OF z Extended_ToCached [OF n] q r] show ?thesis by blast
qed

text \<open>C17: \<open>GeScalarMultBase\<close> multiplies the base point by the scalar. For a table whose row \<open>i\<close> holds the multiples
  \<open>256^i\<close>, \<open>2 * 256^i\<close>, ... \<open>8 * 256^i\<close> of a point and a scalar below \<open>2^255\<close>, the result is the point named by the number
  that the 32 bytes encode: the signed digits recoded in \<open>int8\<close> are between -8 and 8 and sum up to the scalar, the
  selection without branches finds the multiple or its negative, and the two loops with four doublings between them
  add up the digits.\<close>

theorem scalar_mult_base:
  assumes "multiples pt" "table_of pt base" "length a = 32" "uint (a ! 31) \<le> 127"
  shows "extended (GeScalarMultBase base a) (pt (le_val a))"
  using assms by (rule GeScalarMultBase_val)

theorem scalar_mult_base_witness: "extended (GeScalarMultBase order2_table (3 # replicate 31 0)) (0, - 1)"
proof -
  have "le_val (3 # replicate 31 0) = 3" by code_simp
  then show ?thesis
    using scalar_mult_base [OF order2_multiples order2_table, of "3 # replicate 31 0"] by (simp add: order2_def)
qed

end
