(* ===== verification/Elligator.thy ===== *)
theory Elligator
  imports EdTable External
begin

text \<open>
  Elligator 2, \<open>internal/extra25519/extra25519.go\<close>: the two power chains, the comparison of byte strings, the map from a
  representative to a public key that both handshakes apply to what they receive (\<open>ntor.Representative.ToPublic\<close>), and
  the generation of a public key with its representative (\<open>ntor.NewKeypair\<close>). The aliasing calls of the source
  (\<open>FeInvert(&rr2, &rr2)\<close>) read their arguments before they write the result, so they are functions of the old value.
  \<open>UnsafeBrokenScalarBaseMult\<close> is split where the source has its blank lines; the table of the base point is an argument,
  which \<open>repo_crypto\<close> fills with the table of the source.
\<close>

section \<open>Constants\<close>

definition ed_A :: fe where
  "ed_A = Fe 486662 0 0 0 0 0 0 0 0 0"

definition sqrtMinusAPlus2 :: fe where
  "sqrtMinusAPlus2 = Fe (- 12222970) (- 8312128) (- 11511410) 9067497 (- 15300785) (- 241793) 25456130 14121551 (- 12187136) 3972024"

definition sqrtMinusHalf :: fe where
  "sqrtMinusHalf = Fe (- 17256545) 3971863 28865457 (- 1750208) 27359696 (- 16640980) 12573105 1002827 (- 163343) 11073975"

definition halfQMinus1Bytes :: bytes where
  "halfQMinus1Bytes = 0xf6 # replicate 30 0xff @ [0x3f]"

section \<open>Powers\<close>

definition q58 :: "fe \<Rightarrow> fe" where
  "q58 z =
    (let t1 = FeSquare z; t1 = FeMul t1 z; t1 = FeSquare t1; t2 = FeSquare t1; t2 = FeSquare t2;
         t2 = FeMul t2 t1; t1 = FeMul t2 z;
         t2 = FeSquares 5 t1; t1 = FeMul t2 t1; t2 = FeSquares 10 t1; t2 = FeMul t2 t1;
         t3 = FeSquares 20 t2; t2 = FeMul t3 t2; t2 = FeSquares 10 t2; t1 = FeMul t2 t1;
         t2 = FeSquares 50 t1; t2 = FeMul t2 t1; t3 = FeSquares 100 t2; t2 = FeMul t3 t2;
         t2 = FeSquares 50 t2; t1 = FeMul t2 t1; t1 = FeSquare t1; t1 = FeSquare t1
     in FeMul t1 z)"

definition chi :: "fe \<Rightarrow> fe" where
  "chi z =
    (let t0 = FeSquare z; t1 = FeMul t0 z; t0 = FeSquare t1; t2 = FeSquare t0; t2 = FeSquare t2;
         t2 = FeMul t2 t0; t1 = FeMul t2 z;
         t2 = FeSquares 5 t1; t1 = FeMul t2 t1; t2 = FeSquares 10 t1; t2 = FeMul t2 t1;
         t3 = FeSquares 20 t2; t2 = FeMul t3 t2; t2 = FeSquares 10 t2; t1 = FeMul t2 t1;
         t2 = FeSquares 50 t1; t2 = FeMul t2 t1; t3 = FeSquares 100 t2; t2 = FeMul t3 t2;
         t2 = FeSquares 50 t2; t1 = FeMul t2 t1; t1 = FeSquares 4 t1
     in FeMul t1 t0)"

lemma q58_pow:
  assumes "loose z"
  shows "tight_pow z (2 ^ 252 - 3) (q58 z)"
  unfolding q58_def
  by (rule pow_let, (rule pow_self [OF assms] pow_mul pow_square pow_squares | assumption | simp)+)+
    (rule pow_eq, rule tight_mul, (rule pow_self [OF assms] pow_mul pow_square pow_squares | assumption | simp)+)

lemma chi_pow:
  assumes "loose z"
  shows "tight_pow z (2 ^ 254 - 10) (chi z)"
  unfolding chi_def
  by (rule pow_let, (rule pow_self [OF assms] pow_mul pow_square pow_squares | assumption | simp)+)+
    (rule pow_eq, rule tight_mul, (rule pow_self [OF assms] pow_mul pow_square pow_squares | assumption | simp)+)

section \<open>Comparison in constant time\<close>

text \<open>One round of the loop, from the most significant byte down; \<open>gt\<close> is the variable \<open>greater\<close>.\<close>

definition le_round :: "limb \<times> limb \<Rightarrow> byte \<times> byte \<Rightarrow> limb \<times> limb" where
  "le_round st xy = (case (st, xy) of ((equalSoFar, gt), (a, b)) \<Rightarrow>
    (let x = ucast a; y = ucast b;
         gt = (NOT equalSoFar AND gt) OR (equalSoFar AND sar 31 (x - y));
         equalSoFar = equalSoFar AND sar 31 ((x XOR y) - 1)
     in (equalSoFar, gt)))"

definition feBytesLE :: "bytes \<Rightarrow> bytes \<Rightarrow> limb" where
  "feBytesLE a b = (case foldl le_round (- 1, 0) (rev (zip a b)) of
     (equalSoFar, gt) \<Rightarrow> NOT equalSoFar AND 1 AND gt)"

definition all_ones :: "bool \<Rightarrow> limb" where
  "all_ones c = (if c then - 1 else 0)"

lemma sar31: "within (2 ^ 31 - 1) x \<Longrightarrow> sar 31 (word_of_int x) = all_ones (x < 0)"
proof -
  assume x: "within (2 ^ 31 - 1) x"
  then have "x div 2 ^ 31 = (if x < 0 then - 1 else 0)" by (auto simp: within_def intro: int_div_neg_eq)
  with sar_int [OF x, of 31] show ?thesis by (simp add: all_ones_def)
qed

lemma byte_diff:
  fixes a b :: byte
  shows "sar 31 (ucast a - ucast b) = all_ones (uint a < uint b)"
    "sar 31 ((ucast a XOR ucast b) - 1) = all_ones (a = b)"
proof -
  have "(ucast a - ucast b :: limb) = word_of_int (uint a - uint b)" by simp
  then show "sar 31 (ucast a - ucast b) = all_ones (uint a < uint b)"
    using sar31 [of "uint a - uint b"] byte_range [of a] byte_range [of b] by (simp add: within_def)
  have "(ucast a XOR ucast b :: limb) - 1 = word_of_int (uint (a XOR b) - 1)"
    unfolding unsigned_xor_eq [symmetric] by simp
  moreover have "uint (a XOR b) = 0 \<longleftrightarrow> a = b" unfolding uint_0_iff by (metis xor.right_neutral xor_self_eq xor.assoc)
  moreover have "uint (a XOR b) < 1 \<longleftrightarrow> uint (a XOR b) = 0" using uint_ge_0 [of "a XOR b"] by linarith
  ultimately show "sar 31 ((ucast a XOR ucast b) - 1) = all_ones (a = b)"
    using sar31 [of "uint (a XOR b) - 1"] byte_range [of "a XOR b"] by (auto simp: within_def)
qed

lemma digit_less:
  fixes a b u v :: int
  assumes "0 \<le> a" "a < 256" "0 \<le> b" "b < 256"
  shows "a + 256 * u < b + 256 * v \<longleftrightarrow> u < v \<or> u = v \<and> a < b"
  using assms by linarith

lemma le_rounds:
  "length a = length b \<Longrightarrow>
     foldl le_round (- 1, 0) (rev (zip a b)) = (all_ones (a = b), all_ones (le_val a < le_val b))"
proof (induction a b rule: list_induct2)
  case (Cons x xs y ys)
  have "le_val (x # xs) < le_val (y # ys) \<longleftrightarrow> le_val xs < le_val ys \<or> xs = ys \<and> uint x < uint y"
    using digit_less [of "uint x" "uint y"] byte_range [of x] byte_range [of y] le_val_inj [OF Cons(1)] by auto
  with Cons show ?case by (auto simp: le_round_def byte_diff all_ones_def)
qed (simp add: all_ones_def)

lemma feBytesLE_less: "length a = length b \<Longrightarrow> feBytesLE a b = of_bool (le_val a < le_val b)"
  by (auto simp: feBytesLE_def le_rounds all_ones_def)

section \<open>From a representative to a public key\<close>

fun fe_incr0 :: "fe \<Rightarrow> fe" where
  "fe_incr0 (Fe h0 h1 h2 h3 h4 h5 h6 h7 h8 h9) = Fe (h0 + 1) h1 h2 h3 h4 h5 h6 h7 h8 h9"

definition UnsafeBrokenRepresentativeToPublicKey :: "bytes \<Rightarrow> bytes" where
  "UnsafeBrokenRepresentativeToPublicKey representative =
    (let rr2 = FeFromBytes representative;
         rr2 = FeSquare2 rr2;
         rr2 = fe_incr0 rr2;
         rr2 = FeInvert rr2;
         v = FeMul ed_A rr2;
         v = FeNeg v;
         v2 = FeSquare v;
         v3 = FeMul v v2;
         e = FeAdd v3 v;
         v2 = FeMul v2 ed_A;
         e = FeAdd v2 e;
         e = chi e;
         eBytes = fst (FeToBytes e);
         eIsMinus1 = ucast (eBytes ! 1) AND 1;
         negV = FeNeg v;
         v = FeCMove v negV eIsMinus1;
         v2 = FeZero;
         v2 = FeCMove v2 ed_A eIsMinus1;
         v = FeSub v v2
     in fst (FeToBytes v))"


lemma denotes_A: "denotes 486662 0 ed_A 486662"
  by (simp add: denotes_def bounded_def represents_def ed_A_def fe_val_def radix_sum_def)

lemma denotes_incr0:
  assumes "tightly f a"
  shows "loosely (fe_incr0 f) (a + 1)"
proof -
  have "fe_incr0 f = FeAdd f FeOne" by (cases f) (simp add: FeOne_def)
  then show ?thesis
    using denotes_add [OF assms denotes_const(2)] by (auto elim: denotes_mono)
qed

lemma second_byte:
  assumes "length s = 32"
  shows "ucast (s ! 1) AND 1 = (of_bool (odd (le_val s div 256)) :: limb)"
proof -
  obtain b c bs where s: "s = b # c # bs" using assms by (cases s; cases "tl s") auto
  have "le_val s div 256 = uint c + 256 * le_val bs"
    using byte_range [of b] unfolding s le_val.simps by (intro int_div_pos_eq) simp_all
  moreover have "odd (uint c) \<longleftrightarrow> odd (ucast c :: limb)" unfolding bit_0 [symmetric] bit_unsigned_iff by simp
  ultimately show ?thesis by (simp add: s and_one_eq mod_2_eq_odd)
qed

lemma denotes_chi: "loosely z a \<Longrightarrow> tightly (chi z) (a ^ (2 ^ 254 - 10))"
  by (rule denotes_pow [OF chi_pow]) (simp_all add: denotes_def)

lemma representative_map:
  assumes "length repr = 32" and r: "r = le_val repr mod 2 ^ 255"
    and w: "w = - (486662 * (2 * r\<^sup>2 + 1) ^ (2 ^ 255 - 21))"
    and e: "e = (486662 * w\<^sup>2 + (w ^ 3 + w)) ^ (2 ^ 254 - 10) mod prime25519"
    and pk: "pk = UnsafeBrokenRepresentativeToPublicKey repr"
  shows "length pk = 32 \<and> le_val pk = (if odd (e div 256) then - w - 486662 else w) mod prime25519"
proof -
  let ?rr = "FeFromBytes repr"
  have "tightly ?rr r" using FeFromBytes_val [OF assms(1)] by (simp add: denotes_def r)
  then have "tightly (FeInvert (fe_incr0 (FeSquare2 ?rr))) ((2 * r\<^sup>2 + 1) ^ (2 ^ 255 - 21))"
    by (intro denotes_invert denotes_incr0 denotes_square2 tightly_loosely)
  define v where "v = FeNeg (FeMul ed_A (FeInvert (fe_incr0 (FeSquare2 ?rr))))"
  define E where "E = chi (FeAdd (FeMul (FeSquare v) ed_A) (FeAdd (FeMul v (FeSquare v)) v))"
  have A: "loosely ed_A 486662" using denotes_A by (rule denotes_mono) simp_all
  have v: "tightly v w" unfolding v_def w
    by (intro denotes_neg denotes_mul A tightly_loosely) (use \<open>tightly (FeInvert _) _\<close> in simp_all)
  have "tightly (FeMul v (FeSquare v)) (w ^ 3)"
    using denotes_mul [OF tightly_loosely [OF v] tightly_loosely [OF denotes_square [OF tightly_loosely [OF v]]]]
    by (simp add: power2_eq_square power3_eq_cube mult.assoc)
  from denotes_add [OF this v] have sum: "denotes (33889976 + 33889976) (16944988 + 16944988) (FeAdd (FeMul v (FeSquare v)) v) (w ^ 3 + w)"
    by simp
  have "tightly (FeMul (FeSquare v) ed_A) (w\<^sup>2 * 486662)"
    by (intro denotes_mul denotes_square A tightly_loosely v)
  from this sum have "denotes (33889976 + (33889976 + 33889976)) (16944988 + (16944988 + 16944988))
      (FeAdd (FeMul (FeSquare v) ed_A) (FeAdd (FeMul v (FeSquare v)) v)) (w\<^sup>2 * 486662 + (w ^ 3 + w))"
    by (rule denotes_add [THEN conjunct1]) simp_all
  then have "loosely (FeAdd (FeMul (FeSquare v) ed_A) (FeAdd (FeMul v (FeSquare v)) v)) (486662 * w\<^sup>2 + (w ^ 3 + w))"
    unfolding mult.commute [of _ 486662] by (rule denotes_mono) simp_all
  then have "tightly E ((486662 * w\<^sup>2 + (w ^ 3 + w)) ^ (2 ^ 254 - 10))"
    unfolding E_def by (rule denotes_chi)
  from FeToBytes_denotes [OF tightly_loosely [OF this]] have eb: "length (fst (FeToBytes E)) = 32" "le_val (fst (FeToBytes E)) = e"
    by (simp_all add: e)
  define c where "c = odd (e div 256)"
  have "ucast (fst (FeToBytes E) ! 1) AND 1 = (of_bool c :: limb)"
    using second_byte [OF eb(1)] by (simp add: eb(2) c_def)
  then have pk': "pk = fst (FeToBytes (FeSub (if c then FeNeg v else v) (if c then ed_A else FeZero)))"
    by (simp add: pk UnsafeBrokenRepresentativeToPublicKey_def Let_def FeCMove_val flip: v_def E_def)
  have "tightly (if c then FeNeg v else v) (if c then - w else w)"
    using v denotes_neg [OF v] by simp
  moreover have "denotes 486662 0 (if c then ed_A else FeZero) (if c then 486662 else 0)"
    using denotes_A denotes_const(1) by (auto elim: denotes_mono)
  ultimately have "denotes (33889976 + 486662) (16944988 + 0) (FeSub (if c then FeNeg v else v) (if c then ed_A else FeZero))
     ((if c then - w else w) - (if c then 486662 else 0))"
    by (rule denotes_add [THEN conjunct2]) simp_all
  then have "loosely (FeSub (if c then FeNeg v else v) (if c then ed_A else FeZero))
     ((if c then - w else w) - (if c then 486662 else 0))" by (rule denotes_mono) simp_all
  from FeToBytes_denotes [OF this] show ?thesis by (auto simp: pk' c_def)
qed


section \<open>From a private key to a public key and a representative\<close>

definition mask_private :: "bytes \<Rightarrow> bytes" where
  "mask_private privateKey =
    (let m = privateKey;
         m = m[0 := m ! 0 AND 248];
         m = m[31 := m ! 31 AND 127];
         m = m[31 := m ! 31 OR 64]
     in m)"

text \<open>The u-coordinate of the point and the v-coordinate that decides between the roots.\<close>

definition montgomery :: "ExtendedGroupElement \<Rightarrow> fe \<times> fe" where
  "montgomery A =
    (let inv1 = FeSub (eZ A) (eY A);
         inv1 = FeMul inv1 (eX A);
         inv1 = FeInvert inv1;
         u = FeMul inv1 (eX A);
         t0 = FeAdd (eY A) (eZ A);
         u = FeMul u t0;
         v = FeMul t0 inv1;
         v = FeMul v (eZ A);
         v = FeMul v sqrtMinusAPlus2
     in (u, v))"

text \<open>The powers of \<open>b = u + A\<close>, \<open>c = (b^7 u)^((p-5)/8)\<close> and \<open>chi = -c^4 u^2 b^14\<close>.\<close>

definition elligator_powers :: "fe \<Rightarrow> fe \<times> fe \<times> fe \<times> fe \<times> fe \<times> fe" where
  "elligator_powers u =
    (let b = FeAdd u ed_A;
         b3 = FeSquare b;
         b3 = FeMul b3 b;
         c = FeSquare b3;
         b7 = FeMul c b;
         b8 = FeMul b7 b;
         c = FeMul b7 u;
         c = q58 c;
         chi = FeSquare c;
         chi = FeSquare chi;
         t0 = FeSquare u;
         chi = FeMul chi t0;
         t0 = FeSquare b7;
         chi = FeMul chi t0;
         chi = FeNeg chi
     in (b, c, b3, b7, b8, chi))"

text \<open>The two square roots, \<open>r1 = sqrt(-u/(2*(u+A)))\<close> and \<open>r = sqrt(-(u+A)/(2u))\<close>; the result is \<open>r1\<close> when \<open>v\<close> is in
  the lower half.\<close>

definition elligator_roots :: "fe \<Rightarrow> fe \<Rightarrow> fe \<Rightarrow> fe \<Rightarrow> fe \<Rightarrow> fe \<times> fe" where
  "elligator_roots u b c b3 b8 =
    (let r1 = FeMul c u;
         r1 = FeMul r1 b3;
         r1 = FeMul r1 sqrtMinusHalf;
         t0 = FeSquare r1;
         t0 = FeMul t0 b;
         t0 = FeAdd t0 t0;
         t0 = FeAdd t0 u;
         maybeSqrtM1 = FeCMove FeOne SqrtM1 (fst (FeIsNonZero t0));
         r1 = FeMul r1 maybeSqrtM1;
         t0 = FeSquare c;
         t0 = FeMul t0 c;
         t0 = FeSquare t0;
         r = FeMul t0 c;
         t0 = FeSquare u;
         t0 = FeMul t0 u;
         r = FeMul r t0;
         t0 = FeSquare b8;
         t0 = FeMul t0 b8;
         t0 = FeMul t0 b;
         r = FeMul r t0;
         r = FeMul r sqrtMinusHalf;
         t0 = FeSquare r;
         t0 = FeMul t0 u;
         t0 = FeAdd t0 t0;
         t0 = FeAdd t0 b;
         maybeSqrtM1 = FeCMove FeOne SqrtM1 (fst (FeIsNonZero t0));
         r = FeMul r maybeSqrtM1
     in (r1, r))"

definition UnsafeBrokenScalarBaseMult :: "PreComputedGroupElement list list \<Rightarrow> bytes \<Rightarrow> (bytes \<times> bytes) option" where
  "UnsafeBrokenScalarBaseMult tab privateKey =
    (let A = GeScalarMultBase tab (mask_private privateKey);
         (u, v) = montgomery A;
         (b, c, b3, b7, b8, chi) = elligator_powers u;
         chiBytes = fst (FeToBytes chi)
     in if chiBytes ! 1 = 0xff then None
        else (let (r1, r) = elligator_roots u b c b3 b8;
                  vBytes = fst (FeToBytes v);
                  vInSquareRootImage = feBytesLE vBytes halfQMinus1Bytes;
                  r = FeCMove r r1 vInSquareRootImage
              in Some (fst (FeToBytes u), fst (FeToBytes r))))"

text \<open>The primitives with the repository's own Elligator in place: the argument supplies what other packages implement.\<close>

definition repo_crypto :: "crypto \<Rightarrow> crypto" where
  "repo_crypto c = c\<lparr>elligator_base_mult := UnsafeBrokenScalarBaseMult base,
     repr_to_public := UnsafeBrokenRepresentativeToPublicKey\<rparr>"

text \<open>\<open>sqrtMinusHalf\<close> is not a square root of \<open>-1/2\<close>: it is one of \<open>-sqrt(-1)/2\<close>.\<close>

lemma elligator_constants:
  "tight sqrtMinusAPlus2" "tight sqrtMinusHalf" "congruent (2 * (fe_val sqrtMinusHalf)\<^sup>2) (- fe_val SqrtM1)"
  "\<not> congruent (2 * (fe_val sqrtMinusHalf)\<^sup>2) (- 1)"
  "congruent ((fe_val sqrtMinusAPlus2)\<^sup>2) (- 486664)" "le_val halfQMinus1Bytes = (prime25519 - 1) div 2" "length halfQMinus1Bytes = 32"
  unfolding congruent_def power2_eq_square by code_simp+

lemma mask_private:
  assumes "length k = 32"
  shows "length (mask_private k) = 32" "uint (mask_private k ! 31) \<le> 127"
proof -
  have "uint (b AND 127 OR 64) \<le> 127" for b :: byte
  proof -
    have "b AND 127 = take_bit 7 b" by (simp add: take_bit_eq_mask mask_eq_exp_minus_1)
    then have "take_bit 7 (b AND 127 OR 64) = b AND 127 OR 64" by (simp add: take_bit_or)
    then have "uint (b AND 127 OR 64) = take_bit 7 (uint (b AND 127 OR 64))" by (metis unsigned_take_bit_eq)
    also have "\<dots> < 2 ^ 7" by (rule take_bit_int_less_exp)
    finally show ?thesis by simp
  qed
  then show "length (mask_private k) = 32" "uint (mask_private k ! 31) \<le> 127"
    using assms by (simp_all add: mask_private_def Let_def)
qed

text \<open>Products and squares of loose elements are tight, which is all that the roots need.\<close>

lemma tight_products: "loose f \<Longrightarrow> loose g \<Longrightarrow> tight (FeMul f g)" "loose f \<Longrightarrow> tight (FeSquare f)"
  using FeMul_val FeSquare_val(1) by blast+

lemma tight_choice:
  assumes "loose t"
  shows "tight (FeCMove FeOne SqrtM1 (fst (FeIsNonZero t)))"
proof -
  have "tight FeOne" by code_simp
  then show ?thesis using FeIsNonZero_val [OF assms] curve_constants(4) by (simp add: FeCMove_val)
qed

lemma loose_sum3:
  assumes "tight f" "bounded 34376638 16944988 g"
  shows "loose (FeAdd (FeAdd f f) g)"
proof -
  have "bounded (33889976 + 33889976) (16944988 + 16944988) (FeAdd f f)" using FeAdd_val(1) [OF assms(1,1)] by simp
  from FeAdd_val(1) [OF this assms(2)] have "bounded (33889976 + 33889976 + 34376638) (16944988 + 16944988 + 16944988) (FeAdd (FeAdd f f) g)"
    by simp
  then show ?thesis by (rule bounded_mono) simp_all
qed

lemma elligator_roots_tight:
  assumes "tight u" "bounded 34376638 16944988 b" "tight c" "tight b3" "tight b8"
  shows "tight (fst (elligator_roots u b c b3 b8))" "tight (snd (elligator_roots u b c b3 b8))"
proof -
  have b: "loose b" and u: "bounded 34376638 16944988 u" using assms(1,2) by (auto elim: bounded_mono)
  note R = tight_products tight_loose tight_choice loose_sum3 assms b u elligator_constants(2)
  show "tight (fst (elligator_roots u b c b3 b8))" "tight (snd (elligator_roots u b c b3 b8))"
    unfolding elligator_roots_def Let_def fst_conv snd_conv by (intro R)+
qed

lemma montgomery_val:
  assumes "extended A (x, y)"
  obtains z where "invertible z" "tight (snd (montgomery A))"
    "tightly (fst (montgomery A)) (((1 - y) * x * z\<^sup>2) ^ (2 ^ 255 - 21) * ((1 + y) * x * z\<^sup>2))"
proof -
  from assms obtain z where i: "invertible z" and X: "tightly (eX A) (x * z)" and Y: "tightly (eY A) (y * z)" and Z: "tightly (eZ A) z"
    unfolding extended_def by auto
  define inv1 where "inv1 = FeInvert (FeMul (FeSub (eZ A) (eY A)) (eX A))"
  define t0 where "t0 = FeAdd (eY A) (eZ A)"
  have inv1: "tightly inv1 (((1 - y) * x * z\<^sup>2) ^ (2 ^ 255 - 21))" unfolding inv1_def
    by (rule denotes_invert, rule tightly_loosely, rule denotes_eq [OF denotes_mul [OF loosely_sums(2) [OF Z Y Y] tightly_loosely [OF X]]])
      (simp add: power2_eq_square algebra_simps)
  have t0: "loosely t0 ((1 + y) * z)" unfolding t0_def
    by (rule denotes_eq [OF loosely_sums(1) [OF Y Z Z]]) (simp add: algebra_simps)
  have m: "montgomery A = (FeMul (FeMul inv1 (eX A)) t0, FeMul (FeMul (FeMul t0 inv1) (eZ A)) sqrtMinusAPlus2)"
    by (simp add: montgomery_def Let_def inv1_def t0_def)
  have "loose (eZ A)" "loose inv1" "loose t0"
    using tightly_loosely [OF Z] tightly_loosely [OF inv1] t0 by (simp_all add: denotes_def)
  then have "tight (snd (montgomery A))" by (simp add: m tight_products(1) elligator_constants(1))
  moreover have "tightly (fst (montgomery A)) (((1 - y) * x * z\<^sup>2) ^ (2 ^ 255 - 21) * ((1 + y) * x * z\<^sup>2))" unfolding m fst_conv
    by (rule denotes_eq [OF denotes_mul [OF tightly_loosely [OF denotes_mul [OF tightly_loosely [OF inv1] tightly_loosely [OF X]]] t0]])
      (simp add: power2_eq_square)
  ultimately show ?thesis using i that by blast
qed

lemma elligator_powers_tight:
  assumes "tight u"
  obtains b c b3 b7 b8 chi where "elligator_powers u = (b, c, b3, b7, b8, chi)" "bounded 34376638 16944988 b" "tight c" "tight b3"
    "tight b8" "tight chi" "represents u 0 \<longrightarrow> represents chi 0"
proof -
  obtain b c b3 b7 b8 chi where e: "elligator_powers u = (b, c, b3, b7, b8, chi)" by (cases "elligator_powers u")
  then have d: "b = FeAdd u ed_A" "b3 = FeMul (FeSquare b) b" "b7 = FeMul (FeSquare b3) b" "b8 = FeMul b7 b" "c = q58 (FeMul b7 u)"
      "chi = FeNeg (FeMul (FeMul (FeSquare (FeSquare c)) (FeSquare u)) (FeSquare b7))"
    by (auto simp: elligator_powers_def Let_def)
  have b: "bounded 34376638 16944988 b" and "loose b"
    using FeAdd_val(1) [OF assms, of 486662 0 ed_A] denotes_A by (auto simp: d(1) denotes_def elim: bounded_mono)
  then have t: "tight b3" "tight b7" "tight b8" unfolding d(2-4) by (simp_all add: tight_products)
  then have "tight c" using q58_pow [of "FeMul b7 u"] assms by (simp add: d(5) tight_pow_def tight_products(1))
  then have p: "loosely (FeSquare (FeSquare c)) (fe_val (FeSquare (FeSquare c)))" "loosely (FeSquare b7) (fe_val (FeSquare b7))"
    using t(2) by (simp_all add: denotes_def tight_products(2))
  have chi: "tightly chi (- (fe_val (FeSquare (FeSquare c)) * a\<^sup>2 * fe_val (FeSquare b7)))" if "loosely u a" for a
    unfolding d(6) by (intro denotes_neg denotes_mul tightly_loosely [OF denotes_mul] p tightly_loosely [OF denotes_square] that) simp_all
  have "represents u 0 \<longrightarrow> represents chi 0" using chi [of 0] assms by (simp add: denotes_def)
  moreover have "tight chi" using chi [of "fe_val u"] assms by (simp add: denotes_def)
  ultimately show ?thesis using that e b t \<open>tight c\<close> by blast
qed

lemma UnsafeBrokenScalarBaseMult_val:
  assumes "extended (GeScalarMultBase tab (mask_private k)) (x, y)"
  shows "UnsafeBrokenScalarBaseMult tab k = Some (pk, repr) \<Longrightarrow>
      length pk = 32 \<and> length repr = 32 \<and> le_val pk < prime25519 \<and> le_val repr < prime25519 \<and>
      (\<exists>z. invertible z \<and> congruent (le_val pk) (((1 - y) * x * z\<^sup>2) ^ (2 ^ 255 - 21) * ((1 + y) * x * z\<^sup>2)))"
    and "x = 0 \<Longrightarrow> UnsafeBrokenScalarBaseMult tab k \<noteq> None"
proof -
  define A where "A = GeScalarMultBase tab (mask_private k)"
  define u where "u = fst (montgomery A)"
  define v where "v = snd (montgomery A)"
  from assms obtain z where z: "invertible z" "tight v" "tightly u (((1 - y) * x * z\<^sup>2) ^ (2 ^ 255 - 21) * ((1 + y) * x * z\<^sup>2))"
    unfolding u_def v_def A_def by (rule montgomery_val)
  then have "tight u" by (simp add: denotes_def)
  then obtain b c b3 b7 b8 chi where e: "elligator_powers u = (b, c, b3, b7, b8, chi)" "bounded 34376638 16944988 b" "tight c"
    "tight b3" "tight b8" "tight chi" "represents u 0 \<longrightarrow> represents chi 0"
    by (rule elligator_powers_tight)
  note roots = elligator_roots_tight [OF \<open>tight u\<close> e(2-5)]
  define r where "r = FeCMove (snd (elligator_roots u b c b3 b8)) (fst (elligator_roots u b c b3 b8))
      (feBytesLE (fst (FeToBytes v)) halfQMinus1Bytes)"
  have len: "length (fst (FeToBytes v)) = length halfQMinus1Bytes"
    using FeToBytes_val [of v] elligator_constants(7) z(2) by (metis fst_conv tight_loose)
  have "tight r" unfolding r_def feBytesLE_less [OF len] using roots by (simp add: FeCMove_val)
  have U: "UnsafeBrokenScalarBaseMult tab k =
      (if fst (FeToBytes chi) ! 1 = 0xff then None else Some (fst (FeToBytes u), fst (FeToBytes r)))"
    by (simp add: UnsafeBrokenScalarBaseMult_def Let_def case_prod_beta e(1) r_def flip: A_def u_def v_def)
  show "length pk = 32 \<and> length repr = 32 \<and> le_val pk < prime25519 \<and> le_val repr < prime25519 \<and>
      (\<exists>z. invertible z \<and> congruent (le_val pk) (((1 - y) * x * z\<^sup>2) ^ (2 ^ 255 - 21) * ((1 + y) * x * z\<^sup>2)))"
    if "UnsafeBrokenScalarBaseMult tab k = Some (pk, repr)"
  proof -
    have res: "pk = fst (FeToBytes u)" "repr = fst (FeToBytes r)" using that unfolding U by (auto split: if_splits)
    have p: "m mod prime25519 < prime25519" for m by (simp add: prime25519_def)
    have "length repr = 32 \<and> le_val repr = fe_val r mod prime25519"
      unfolding res using FeToBytes_denotes [of r "fe_val r"] \<open>tight r\<close> by (simp add: denotes_def)
    moreover note FeToBytes_denotes [OF tightly_loosely [OF z(3)], folded res]
    ultimately show ?thesis using z(1) p unfolding congruent_def by auto
  qed
  show "UnsafeBrokenScalarBaseMult tab k \<noteq> None" if "x = 0"
  proof -
    have "represents chi 0" using z(3) e(7) that by (simp add: denotes_def)
    then have "le_val (fst (FeToBytes chi)) = 0" "length (fst (FeToBytes chi)) = 32"
      using FeToBytes_denotes [of chi 0] e(6) by (simp_all add: denotes_def)
    then have "fst (FeToBytes chi) ! 1 = 0" using le_val_eq_0 by simp
    then show ?thesis by (simp add: U)
  qed
qed

section \<open>Properties\<close>

text \<open>C20: The Elligator map. For every 32-byte representative \<open>UnsafeBrokenRepresentativeToPublicKey\<close> gives 32 bytes:
  with \<open>r\<close> the number of the representative without its top bit, \<open>w = -A / (2r^2 + 1)\<close> (the quotient as the power
  \<open>p - 2\<close>) and \<open>e = (w^3 + A w^2 + w)^((p - 1)/2)\<close>, the bytes are the canonical form of \<open>w\<close> where \<open>e\<close> is 1 or 0 and of
  \<open>-w - A\<close> where \<open>e\<close> is -1, for which the code looks at one bit of the second byte of \<open>e\<close>.\<close>

theorem elligator_map:
  assumes "length repr = 32" and "r = le_val repr mod 2 ^ 255"
    and "w = - (486662 * (2 * r\<^sup>2 + 1) ^ (2 ^ 255 - 21))"
    and "e = (486662 * w\<^sup>2 + (w ^ 3 + w)) ^ (2 ^ 254 - 10) mod prime25519"
  shows "length (UnsafeBrokenRepresentativeToPublicKey repr) = 32 \<and>
    le_val (UnsafeBrokenRepresentativeToPublicKey repr) = (if odd (e div 256) then - w - 486662 else w) mod prime25519 \<and>
    (e \<in> {0, 1} \<longrightarrow> le_val (UnsafeBrokenRepresentativeToPublicKey repr) = w mod prime25519) \<and>
    (e = prime25519 - 1 \<longrightarrow> le_val (UnsafeBrokenRepresentativeToPublicKey repr) = (- w - 486662) mod prime25519)"
proof -
  note m = representative_map [OF assms refl]
  have "odd ((prime25519 - 1) div 256)" "even ((0 :: int) div 256)" "even ((1 :: int) div 256)" by (simp_all add: prime25519_def)
  with m show ?thesis by (intro conjI impI) auto
qed

theorem elligator_map_witness:
  "le_val (UnsafeBrokenRepresentativeToPublicKey (replicate 32 0)) \<in> {0, prime25519 - 486662}"
proof -
  have "le_val (replicate 32 0) = 0" by code_simp
  then have r: "(0 :: int) = le_val (replicate 32 0) mod 2 ^ 255" by simp
  have w: "- 486662 = - (486662 * (2 * (0 :: int)\<^sup>2 + 1) ^ (2 ^ 255 - 21))" by simp
  have p: "0 mod prime25519 = 0" "- 486662 mod prime25519 = prime25519 - 486662" by (simp_all add: prime25519_def)
  define e :: int where "e = (486662 * (- 486662)\<^sup>2 + ((- 486662) ^ 3 + - 486662)) ^ (2 ^ 254 - 10) mod prime25519"
  from elligator_map [OF _ r w e_def, THEN conjunct2, THEN conjunct1]
  have "le_val (UnsafeBrokenRepresentativeToPublicKey (replicate 32 0)) \<in> {0 mod prime25519, - 486662 mod prime25519}"
    by (cases "odd (e div 256)") simp_all
  then show ?thesis unfolding p .
qed



end
