(* ===== verification/Socks5.thy ===== *)
theory Socks5
  imports Prelude
begin

text \<open>
  The SOCKS 5 server between Tor and the proxy, \<open>common/socks5\<close>: the parser of the per-connection arguments
  (\<open>args.go\<close>), user name and password authentication (\<open>rfc1929.go\<close>), method negotiation, the CONNECT request and
  the replies (\<open>socks5.go\<close>). A Go string is a list of bytes. \<open>pt.Args\<close> belongs to another package: its empty
  value and its \<open>Add\<close> are the parameters \<open>emp\<close> and \<open>add\<close>.

  The connection is what \<open>conn.Read\<close> returns, one element for each call (running out of elements is the end of the
  stream), and what each \<open>conn.Write\<close> returns. \<open>bufio.Reader\<close> keeps what it has read ahead in \<open>rbuf\<close>; \<open>bufio.Writer\<close>
  collects in \<open>wbuf\<close>, which never fills its 4096 bytes here, and keeps the first error of a write.
\<close>

section \<open>Arguments\<close>

datatype param_error =
    UnexpectedEquals nat
  | UnexpectedSemicolon nat
  | UnexpectedBackslash nat
  | UnterminatedEscape
  | NoValue

abbreviation backslash :: byte where "backslash \<equiv> 0x5c"
abbreviation equals :: byte where "equals \<equiv> 0x3d"
abbreviation semicolon :: byte where "semicolon \<equiv> 0x3b"

text \<open>The loop over the bytes: \<open>n\<close> is the length of the whole string, \<open>idx\<close> the index of the next byte.\<close>

fun parse_loop :: "('a \<Rightarrow> bytes \<Rightarrow> bytes \<Rightarrow> 'a) \<Rightarrow> nat \<Rightarrow> nat \<Rightarrow> 'a \<Rightarrow> bytes \<Rightarrow> bytes \<Rightarrow> bool \<Rightarrow> bytes \<Rightarrow> (param_error, 'a) outcome" where
  "parse_loop add n idx args key acc prevIsEscape [] =
    (if prevIsEscape then Err UnterminatedEscape
     else if key = [] then Err NoValue
     else Ok (add args key acc))"
| "parse_loop add n idx args key acc prevIsEscape (ch # rest) =
    (if ch = backslash then
       (if \<not> prevIsEscape then parse_loop add n (idx + 1) args key acc True rest
        else parse_loop add n (idx + 1) args key (acc @ [ch]) False rest)
     else if ch = equals then
       (if \<not> prevIsEscape \<and> key = [] then
          (if acc = [] then Err (UnexpectedEquals idx)
           else parse_loop add n (idx + 1) args acc [] prevIsEscape rest)
        else parse_loop add n (idx + 1) args key (acc @ [ch]) False rest)
     else if ch = semicolon then
       (if \<not> prevIsEscape then
          (if key = [] \<or> idx = n - 1 then Err (UnexpectedSemicolon idx)
           else parse_loop add n (idx + 1) (add args key acc) [] [] prevIsEscape rest)
        else parse_loop add n (idx + 1) args key (acc @ [ch]) False rest)
     else if prevIsEscape then Err (UnexpectedBackslash (idx - 1))
     else parse_loop add n (idx + 1) args key (acc @ [ch]) False rest)"

definition parseClientParameters :: "'a \<Rightarrow> ('a \<Rightarrow> bytes \<Rightarrow> bytes \<Rightarrow> 'a) \<Rightarrow> bytes \<Rightarrow> (param_error, 'a) outcome" where
  "parseClientParameters emp add argStr =
    (if length argStr = 0 then Ok emp
     else parse_loop add (length argStr) 0 emp [] [] False argStr)"

section \<open>The buffered connection\<close>

datatype io_error = EOF | ErrUnexpectedEOF | NetError nat

datatype socks_error =
    IoError io_error
  | FieldError byte byte                \<comment> \<open>value, expected\<close>
  | TrailingData nat
  | ZeroUsername | ZeroPassword | ZeroDomain
  | BadParameters param_error
  | NoAcceptableMethods | UnsupportedMethod byte
  | UnsupportedAddress byte

record 'a request =
  Target :: bytes
  Args :: "'a option"                   \<comment> \<open>\<open>None\<close>: the nil map\<close>
  rbuf :: bytes
  reads :: "(io_error + bytes) list"
  wbuf :: bytes
  werr :: "io_error option"
  writes :: "io_error option list"      \<comment> \<open>results of \<open>conn.Write\<close>; no more elements: success\<close>
  sent :: bytes

type_synonym ('a, 'b) call = "'a request \<Rightarrow> (socks_error, 'b) outcome \<times> 'a request"

text \<open>Sequencing: the first error is returned; \<open>on_fail\<close> runs a handler before it is.\<close>

definition sbind :: "('a, 'b) call \<Rightarrow> ('b \<Rightarrow> ('a, 'c) call) \<Rightarrow> ('a, 'c) call" where
  "sbind m f req = (case m req of (Ok x, r) \<Rightarrow> f x r | (Err e, r) \<Rightarrow> (Err e, r) | (Panic, r) \<Rightarrow> (Panic, r))"

definition sret :: "'b \<Rightarrow> ('a, 'b) call" where
  "sret x req = (Ok x, req)"

definition sfail :: "socks_error \<Rightarrow> ('a, 'b) call" where
  "sfail e req = (Err e, req)"

definition on_fail :: "('a, 'b) call \<Rightarrow> ('a request \<Rightarrow> 'a request) \<Rightarrow> ('a, 'b) call" where
  "on_fail m h req = (case m req of (Err e, r) \<Rightarrow> (Err e, h r) | (x, r) \<Rightarrow> (x, r))"

text \<open>\<open>bufio.Reader\<close>: a read of an empty buffer takes the next result of \<open>conn.Read\<close>; one without bytes is repeated.\<close>

fun fill :: "(io_error + bytes) list \<Rightarrow> (io_error, bytes) outcome \<times> (io_error + bytes) list" where
  "fill [] = (Err EOF, [])"
| "fill (Inl e # rs) = (Err e, rs)"
| "fill (Inr b # rs) = (if b = [] then fill rs else (Ok b, rs))"

definition readByte :: "('a, byte) call" where
  "readByte req =
    (if rbuf req = [] then
       (case fill (reads req) of
          (Ok b, rs) \<Rightarrow> (Ok (hd b), req\<lparr>rbuf := tl b, reads := rs\<rparr>)
        | (Err e, rs) \<Rightarrow> (Err (IoError e), req\<lparr>reads := rs\<rparr>)
        | (Panic, rs) \<Rightarrow> (Panic, req))
     else (Ok (hd (rbuf req)), req\<lparr>rbuf := tl (rbuf req)\<rparr>))"

definition readByteVerify :: "byte \<Rightarrow> ('a, unit) call" where
  "readByteVerify expected = sbind readByte (\<lambda>val.
    if val \<noteq> expected then sfail (FieldError val expected) else sret ())"

text \<open>\<open>io.ReadFull\<close>: \<open>got\<close> is what has been read so far. The end of the stream is unexpected after the first byte.\<close>

fun read_full :: "nat \<Rightarrow> bytes \<Rightarrow> bytes \<Rightarrow> (io_error + bytes) list \<Rightarrow> (io_error, bytes) outcome \<times> bytes \<times> (io_error + bytes) list" where
  "read_full n got buf [] =
    (if n \<le> length buf then (Ok (got @ take n buf), drop n buf, [])
     else (Err (if got @ buf = [] then EOF else ErrUnexpectedEOF), [], []))"
| "read_full n got buf (r # rs) =
    (if n \<le> length buf then (Ok (got @ take n buf), drop n buf, r # rs)
     else (case r of
        Inl e \<Rightarrow> (Err (if e = EOF \<and> got @ buf \<noteq> [] then ErrUnexpectedEOF else e), [], rs)
      | Inr b \<Rightarrow> read_full (n - length buf) (got @ buf) b rs))"

definition readBytes :: "nat \<Rightarrow> ('a, bytes) call" where
  "readBytes n req =
    (case read_full n [] (rbuf req) (reads req) of
       (Ok b, buf, rs) \<Rightarrow> (Ok b, req\<lparr>rbuf := buf, reads := rs\<rparr>)
     | (Err e, buf, rs) \<Rightarrow> (Err (IoError e), req\<lparr>rbuf := buf, reads := rs\<rparr>)
     | (Panic, buf, rs) \<Rightarrow> (Panic, req))"

definition rw_Write :: "bytes \<Rightarrow> ('a, unit) call" where
  "rw_Write b req =
    (case werr req of
       Some e \<Rightarrow> (Err (IoError e), req)
     | None \<Rightarrow> (Ok (), req\<lparr>wbuf := wbuf req @ b\<rparr>))"

definition rw_Flush :: "('a, unit) call" where
  "rw_Flush req =
    (case werr req of
       Some e \<Rightarrow> (Err (IoError e), req)
     | None \<Rightarrow>
        (if wbuf req = [] then (Ok (), req)
         else case writes req of
            Some e # ws \<Rightarrow> (Err (IoError e), req\<lparr>werr := Some e, writes := ws\<rparr>)
          | ws \<Rightarrow> (Ok (), req\<lparr>sent := sent req @ wbuf req, wbuf := [], writes := tl ws\<rparr>)))"

definition flushBuffers :: "('a, unit) call" where
  "flushBuffers = sbind rw_Flush (\<lambda>_ req.
    if length (rbuf req) > 0 then (Err (TrailingData (length (rbuf req))), req) else (Ok (), req))"

section \<open>Negotiation and authentication\<close>

abbreviation version :: byte where "version \<equiv> 5"
abbreviation rsv :: byte where "rsv \<equiv> 0"
abbreviation cmdConnect :: byte where "cmdConnect \<equiv> 1"
abbreviation atypIPv4 :: byte where "atypIPv4 \<equiv> 1"
abbreviation atypDomainName :: byte where "atypDomainName \<equiv> 3"
abbreviation atypIPv6 :: byte where "atypIPv6 \<equiv> 4"
abbreviation authNoneRequired :: byte where "authNoneRequired \<equiv> 0"
abbreviation authUsernamePassword :: byte where "authUsernamePassword \<equiv> 2"
abbreviation authNoAcceptableMethods :: byte where "authNoAcceptableMethods \<equiv> 0xff"
abbreviation authRFC1929Ver :: byte where "authRFC1929Ver \<equiv> 1"
abbreviation authRFC1929Success :: byte where "authRFC1929Success \<equiv> 0"
abbreviation authRFC1929Fail :: byte where "authRFC1929Fail \<equiv> 1"

datatype ReplyCode =
    ReplySucceeded | ReplyGeneralFailure | ReplyConnectionNotAllowed | ReplyNetworkUnreachable
  | ReplyHostUnreachable | ReplyConnectionRefused | ReplyTTLExpired | ReplyCommandNotSupported
  | ReplyAddressNotSupported

fun reply_byte :: "ReplyCode \<Rightarrow> byte" where
  "reply_byte ReplySucceeded = 0"
| "reply_byte ReplyGeneralFailure = 1"
| "reply_byte ReplyConnectionNotAllowed = 2"
| "reply_byte ReplyNetworkUnreachable = 3"
| "reply_byte ReplyHostUnreachable = 4"
| "reply_byte ReplyConnectionRefused = 5"
| "reply_byte ReplyTTLExpired = 6"
| "reply_byte ReplyCommandNotSupported = 7"
| "reply_byte ReplyAddressNotSupported = 8"

definition Reply :: "ReplyCode \<Rightarrow> ('a, unit) call" where
  "Reply code = sbind (rw_Write [version, reply_byte code, rsv, atypIPv4, 0, 0, 0, 0, 0, 0]) (\<lambda>_. flushBuffers)"

definition negotiateAuth :: "('a, byte) call" where
  "negotiateAuth =
    sbind (readByteVerify version) (\<lambda>_.
    sbind readByte (\<lambda>nmethods.
    sbind (readBytes (unat nmethods)) (\<lambda>methods.
    let method = (if authUsernamePassword \<in> set methods then authUsernamePassword
                  else if authNoneRequired \<in> set methods then authNoneRequired
                  else authNoAcceptableMethods)
    in sbind (rw_Write [version, method]) (\<lambda>_.
       sbind flushBuffers (\<lambda>_. sret method)))))"

text \<open>\<open>sendErrResp\<close> swallows its own errors. Every early return of \<open>authRFC1929\<close> calls it.\<close>

definition sendErrResp :: "'a request \<Rightarrow> 'a request" where
  "sendErrResp req = snd (flushBuffers (snd (rw_Write [authRFC1929Ver, authRFC1929Fail] req)))"

definition read_userpass :: "('a, bytes \<times> bytes) call" where
  "read_userpass =
    sbind (on_fail (readByteVerify authRFC1929Ver) sendErrResp) (\<lambda>_.
    sbind (on_fail readByte sendErrResp) (\<lambda>ulen.
    sbind (if ulen < 1 then on_fail (sfail ZeroUsername) sendErrResp else sret ()) (\<lambda>_.
    sbind (on_fail (readBytes (unat ulen)) sendErrResp) (\<lambda>uname.
    sbind (on_fail readByte sendErrResp) (\<lambda>plen.
    sbind (if plen < 1 then on_fail (sfail ZeroPassword) sendErrResp else sret ()) (\<lambda>_.
    sbind (on_fail (readBytes (unat plen)) sendErrResp) (\<lambda>passwd.
    sret (uname, passwd))))))))"

text \<open>Tor sends a password of one NUL byte when the user name holds all arguments.\<close>

definition arg_string :: "bytes \<Rightarrow> bytes \<Rightarrow> bytes" where
  "arg_string uname passwd = uname @ (if \<not> (length passwd = 1 \<and> passwd ! 0 = 0) then passwd else [])"

definition authRFC1929 :: "'a \<Rightarrow> ('a \<Rightarrow> bytes \<Rightarrow> bytes \<Rightarrow> 'a) \<Rightarrow> ('a, unit) call" where
  "authRFC1929 emp add =
    sbind read_userpass (\<lambda>(uname, passwd) req.
      case parseClientParameters emp add (arg_string uname passwd) of
        Ok args \<Rightarrow> rw_Write [authRFC1929Ver, authRFC1929Success] (req\<lparr>Args := Some args\<rparr>)
      | Err e \<Rightarrow> on_fail (sfail (BadParameters e)) sendErrResp (req\<lparr>Args := None\<rparr>)
      | Panic \<Rightarrow> (Panic, req))"

definition authenticate :: "'a \<Rightarrow> ('a \<Rightarrow> bytes \<Rightarrow> bytes \<Rightarrow> 'a) \<Rightarrow> byte \<Rightarrow> ('a, unit) call" where
  "authenticate emp add method =
    (if method = authNoneRequired then flushBuffers
     else if method = authUsernamePassword then sbind (authRFC1929 emp add) (\<lambda>_. flushBuffers)
     else if method = authNoAcceptableMethods then sfail NoAcceptableMethods
     else sfail (UnsupportedMethod method))"

section \<open>Addresses\<close>

text \<open>Decimal and hexadecimal numbers without leading zeros, as \<open>fmt\<close> and \<open>net\<close> print them.\<close>

fun dec_string :: "nat \<Rightarrow> bytes" where
  "dec_string n = (if n < 10 then [of_nat (48 + n)] else dec_string (n div 10) @ [of_nat (48 + n mod 10)])"

declare dec_string.simps [simp del]

definition hex_digit :: "nat \<Rightarrow> byte" where
  "hex_digit d = of_nat (if d < 10 then 48 + d else 87 + d)"

fun hex_string :: "nat \<Rightarrow> bytes" where
  "hex_string n = (if n < 16 then [hex_digit n] else hex_string (n div 16) @ [hex_digit (n mod 16)])"

declare hex_string.simps [simp del]

definition ipv4_String :: "bytes \<Rightarrow> bytes" where
  "ipv4_String a = dec_string (unat (a ! 0)) @ [0x2e] @ dec_string (unat (a ! 1)) @ [0x2e] @
     dec_string (unat (a ! 2)) @ [0x2e] @ dec_string (unat (a ! 3))"

text \<open>\<open>net.IP.String\<close> for 16 bytes: an IPv4-mapped address in dotted form, otherwise eight groups with the first longest
  run of at least two zero groups written \<open>::\<close>.\<close>

definition groups :: "bytes \<Rightarrow> nat list" where
  "groups a = map (\<lambda>i. nat_of_be [a ! (2 * i), a ! (2 * i + 1)]) [0..<8]"

definition zero_run :: "nat list \<Rightarrow> nat" where
  "zero_run g = length (takeWhile (\<lambda>x. x = 0) g)"

text \<open>The loop over the start positions; a run that is taken is skipped, which no longer matters because the runs that
  start inside it are shorter.\<close>

definition longest_run :: "nat list \<Rightarrow> nat \<times> nat" where
  "longest_run g = foldl (\<lambda>(e0, len) i. let r = zero_run (drop i g) in if r > len then (i, r) else (e0, len)) (0, 0) [0..<8]"

definition join_groups :: "nat list \<Rightarrow> bytes" where
  "join_groups g = (case g of [] \<Rightarrow> [] | x # xs \<Rightarrow> hex_string x @ concat (map (\<lambda>y. 0x3a # hex_string y) xs))"

definition ipv6_String :: "bytes \<Rightarrow> bytes" where
  "ipv6_String a =
    (if take 12 a = replicate 10 0 @ [0xff, 0xff] then ipv4_String (drop 12 a)
     else (let g = groups a; (e0, len) = longest_run g
           in if len < 2 then join_groups g
              else join_groups (take e0 g) @ [0x3a, 0x3a] @ join_groups (drop (e0 + len) g)))"

section \<open>The request\<close>

abbreviation reply_failure :: "ReplyCode \<Rightarrow> 'a request \<Rightarrow> 'a request" where
  "reply_failure code \<equiv> (\<lambda>req. snd (Reply code req))"

definition read_host :: "byte \<Rightarrow> ('a, bytes) call" where
  "read_host atyp =
    (if atyp = atypIPv4 then
       sbind (on_fail (readBytes 4) (reply_failure ReplyGeneralFailure)) (\<lambda>addr. sret (ipv4_String addr))
     else if atyp = atypDomainName then
       sbind (on_fail readByte (reply_failure ReplyGeneralFailure)) (\<lambda>alen.
       sbind (if alen = 0 then on_fail (sfail ZeroDomain) (reply_failure ReplyGeneralFailure) else sret ()) (\<lambda>_.
       on_fail (readBytes (unat alen)) (reply_failure ReplyGeneralFailure)))
     else if atyp = atypIPv6 then
       sbind (on_fail (readBytes 16) (reply_failure ReplyGeneralFailure)) (\<lambda>rawAddr.
       sret ([0x5b] @ ipv6_String rawAddr @ [0x5d]))
     else on_fail (sfail (UnsupportedAddress atyp)) (reply_failure ReplyAddressNotSupported))"

definition read_request :: "('a, bytes \<times> bytes) call" where
  "read_request =
    sbind (on_fail (readByteVerify version) (reply_failure ReplyGeneralFailure)) (\<lambda>_.
    sbind (on_fail (readByteVerify cmdConnect) (reply_failure ReplyCommandNotSupported)) (\<lambda>_.
    sbind (on_fail (readByteVerify rsv) (reply_failure ReplyGeneralFailure)) (\<lambda>_.
    sbind (on_fail readByte (reply_failure ReplyGeneralFailure)) (\<lambda>atyp.
    sbind (read_host atyp) (\<lambda>host.
    sbind (on_fail (readBytes 2) (reply_failure ReplyGeneralFailure)) (\<lambda>rawPort.
    sret (host, rawPort)))))))"

definition readCommand :: "('a, unit) call" where
  "readCommand = sbind read_request (\<lambda>(host, rawPort) req.
     let port = nat_of_be rawPort
     in flushBuffers (req\<lparr>Target := host @ [0x3a] @ dec_string port\<rparr>))"

text \<open>\<open>Handshake\<close>: \<open>arm\<close> and \<open>disarm\<close> are the results of the two calls of \<open>SetDeadline\<close>. The deferred function assigns
  the error of the second to a local variable after the results were fixed.\<close>

definition new_request :: "(io_error + bytes) list \<Rightarrow> io_error option list \<Rightarrow> 'a request" where
  "new_request rs ws = \<lparr>Target = [], Args = None, rbuf = [], reads = rs, wbuf = [], werr = None, writes = ws, sent = []\<rparr>"

definition socks_Handshake ::
    "'a \<Rightarrow> ('a \<Rightarrow> bytes \<Rightarrow> bytes \<Rightarrow> 'a) \<Rightarrow> io_error option \<Rightarrow> io_error option \<Rightarrow> 'a request \<Rightarrow>
     (socks_error, 'a request) outcome \<times> 'a request" where
  "socks_Handshake emp add arm disarm conn =
    (case arm of
       Some e \<Rightarrow> (Err (IoError e), conn)
     | None \<Rightarrow>
        sbind negotiateAuth (\<lambda>method.
        sbind (authenticate emp add method) (\<lambda>_.
        sbind readCommand (\<lambda>_ req. (Ok req, req)))) conn)"

section \<open>Replies to errors of the dial\<close>

datatype errno = EADDRNOTAVAIL | ETIMEDOUT | ENETUNREACH | EHOSTUNREACH | ECONNREFUSED | ECONNRESET | OtherErrno nat

datatype dial_error =
    OpErrno errno     \<comment> \<open>a \<open>net.OpError\<close> around a \<open>syscall.Errno\<close>\<close>
  | OpOther           \<comment> \<open>a \<open>net.OpError\<close> around something else\<close>
  | OtherError

fun ErrorToReplyCode :: "dial_error \<Rightarrow> ReplyCode" where
  "ErrorToReplyCode OtherError = ReplyGeneralFailure"
| "ErrorToReplyCode OpOther = ReplyGeneralFailure"
| "ErrorToReplyCode (OpErrno e) =
    (case e of
       EADDRNOTAVAIL \<Rightarrow> ReplyAddressNotSupported
     | ETIMEDOUT \<Rightarrow> ReplyTTLExpired
     | ENETUNREACH \<Rightarrow> ReplyNetworkUnreachable
     | EHOSTUNREACH \<Rightarrow> ReplyHostUnreachable
     | ECONNREFUSED \<Rightarrow> ReplyConnectionRefused
     | ECONNRESET \<Rightarrow> ReplyConnectionRefused
     | OtherErrno _ \<Rightarrow> ReplyGeneralFailure)"

section \<open>The grammar of the arguments\<close>

definition special :: "byte \<Rightarrow> bool" where
  "special c \<longleftrightarrow> c = backslash \<or> c = equals \<or> c = semicolon"

text \<open>\<open>key_text s k v kvs\<close>: the text \<open>s\<close> spells the rest \<open>k\<close> of a key, its value \<open>v\<close> and the pairs \<open>kvs\<close>;
  \<open>val_text s v kvs\<close> is the same in the middle of a value, where \<open>=\<close> needs no escape.\<close>

inductive key_text :: "bytes \<Rightarrow> bytes \<Rightarrow> bytes \<Rightarrow> (bytes \<times> bytes) list \<Rightarrow> bool"
  and val_text :: "bytes \<Rightarrow> bytes \<Rightarrow> (bytes \<times> bytes) list \<Rightarrow> bool" where
  key_end: "val_text s v kvs \<Longrightarrow> key_text (equals # s) [] v kvs"
| key_plain: "\<not> special c \<Longrightarrow> key_text s k v kvs \<Longrightarrow> key_text (c # s) (c # k) v kvs"
| key_escaped: "special c \<Longrightarrow> key_text s k v kvs \<Longrightarrow> key_text (backslash # c # s) (c # k) v kvs"
| val_end: "val_text [] [] []"
| val_next: "key_text s k v kvs \<Longrightarrow> k \<noteq> [] \<Longrightarrow> val_text (semicolon # s) [] ((k, v) # kvs)"
| val_plain: "\<not> special c \<or> c = equals \<Longrightarrow> val_text s v kvs \<Longrightarrow> val_text (c # s) (c # v) kvs"
| val_escaped: "special c \<Longrightarrow> val_text s v kvs \<Longrightarrow> val_text (backslash # c # s) (c # v) kvs"

inductive_simps key_text_simps:
  "key_text [] k v kvs" "key_text (c # s) k v kvs"

inductive_simps val_text_simps:
  "val_text [] v kvs" "val_text (c # s) v kvs"

definition add_all :: "('a \<Rightarrow> bytes \<Rightarrow> bytes \<Rightarrow> 'a) \<Rightarrow> 'a \<Rightarrow> (bytes \<times> bytes) list \<Rightarrow> 'a" where
  "add_all add args kvs = foldl (\<lambda>a (k, v). add a k v) args kvs"

lemma add_all_simps [simp]:
  "add_all add args [] = args" "add_all add args ((k, v) # kvs) = add_all add (add args k v) kvs"
  by (simp_all add: add_all_def)

text \<open>What is still to be read, the pending backslash included.\<close>

definition unread :: "bool \<Rightarrow> bytes \<Rightarrow> bytes" where
  "unread prevIsEscape rest = (if prevIsEscape then [backslash] else []) @ rest"

lemma parse_loop_grammar:
  assumes "idx + length rest = n"
  shows "parse_loop add n idx args key acc prevIsEscape rest = Ok a \<longleftrightarrow>
    (if key = [] then \<exists>k v kvs. key_text (unread prevIsEscape rest) k v kvs \<and> acc @ k \<noteq> [] \<and> a = add_all add args ((acc @ k, v) # kvs)
     else \<exists>v kvs. val_text (unread prevIsEscape rest) v kvs \<and> a = add_all add args ((key, acc @ v) # kvs))"
  using assms
proof (induction rest arbitrary: idx args key acc prevIsEscape)
  case Nil
  then show ?case
    by (auto simp: unread_def key_text_simps val_text_simps special_def)
next
  case (Cons c rest)
  have IH: "parse_loop add n (Suc idx) args key acc prevIsEscape rest = Ok a \<longleftrightarrow>
    (if key = [] then \<exists>k v kvs. key_text (unread prevIsEscape rest) k v kvs \<and> acc @ k \<noteq> [] \<and> a = add_all add args ((acc @ k, v) # kvs)
     else \<exists>v kvs. val_text (unread prevIsEscape rest) v kvs \<and> a = add_all add args ((key, acc @ v) # kvs))"
    for args key acc prevIsEscape using Cons by simp
  have last: "idx = n - Suc 0 \<longleftrightarrow> rest = []" using Cons(2) by auto
  consider "prevIsEscape" "special c" | "prevIsEscape" "\<not> special c" | "\<not> prevIsEscape" "c = backslash"
    | "\<not> prevIsEscape" "c = equals" | "\<not> prevIsEscape" "c = semicolon" | "\<not> prevIsEscape" "\<not> special c"
    unfolding special_def by blast
  then show ?case
  proof cases
    case 1
    then show ?thesis by (auto simp: IH unread_def key_text_simps val_text_simps special_def)
  next
    case 2
    then show ?thesis by (auto simp: unread_def key_text_simps val_text_simps special_def)
  next
    case 3
    then show ?thesis by (simp add: IH unread_def)
  next
    case 4
    then show ?thesis by (auto simp: IH unread_def key_text_simps val_text_simps special_def)
  next
    case 5
    have "val_text (c # rest) v kvs \<longleftrightarrow> v = [] \<and> (\<exists>k w kvs'. kvs = (k, w) # kvs' \<and> key_text rest k w kvs' \<and> k \<noteq> [])" for v kvs
      using 5 by (auto simp: val_text_simps special_def)
    moreover have "\<not> key_text (c # rest) k v kvs" for k v kvs using 5 by (auto simp: key_text_simps special_def)
    moreover have "\<not> key_text [] k v kvs" for k v kvs by (simp add: key_text_simps)
    ultimately show ?thesis using 5 by (cases "rest = []") (simp_all add: IH last unread_def, metis add_all_simps(2))
  next
    case 6
    then show ?thesis by (auto simp: IH unread_def key_text_simps val_text_simps special_def)
  qed
qed

text \<open>The spelling of \<open>goptlib\<close> and of Tor: every special character of keys and values is escaped.\<close>

definition escape :: "bytes \<Rightarrow> bytes" where
  "escape s = concat (map (\<lambda>c. if special c then [backslash, c] else [c]) s)"

fun encode_args :: "(bytes \<times> bytes) list \<Rightarrow> bytes" where
  "encode_args [] = []"
| "encode_args [(k, v)] = escape k @ [equals] @ escape v"
| "encode_args ((k, v) # kvs) = escape k @ [equals] @ escape v @ [semicolon] @ encode_args kvs"

lemma val_text_escape: "val_text s v kvs \<Longrightarrow> val_text (escape u @ s) (u @ v) kvs"
  by (induction u) (auto simp: escape_def intro: key_text_val_text.intros)

lemma key_text_escape: "val_text s v kvs \<Longrightarrow> key_text (escape k @ [equals] @ s) k v kvs"
  by (induction k) (auto simp: escape_def intro: key_text_val_text.intros)

lemma encode_args_text:
  "\<forall>(k, v) \<in> set ((k, v) # kvs). k \<noteq> [] \<Longrightarrow> key_text (encode_args ((k, v) # kvs)) k v kvs"
proof (induction kvs arbitrary: k v)
  case Nil
  show ?case using key_text_escape [OF val_text_escape [OF val_end, of v], of k] by simp
next
  case (Cons kv kvs)
  obtain k' v' where kv: "kv = (k', v')" by (cases kv)
  with Cons have "key_text (encode_args ((k', v') # kvs)) k' v' kvs" "k' \<noteq> []" by auto
  from key_text_escape [OF val_text_escape [OF val_next [OF this], of v], of k] show ?case by (simp add: kv)
qed

lemma parse_grammar:
  "parseClientParameters emp add s = Ok a \<longleftrightarrow>
     (s = [] \<and> a = emp) \<or> (\<exists>k v kvs. key_text s k v kvs \<and> k \<noteq> [] \<and> a = add_all add emp ((k, v) # kvs))"
  using parse_loop_grammar [of 0 s "length s" add emp "[]" "[]" False a]
  by (auto simp: parseClientParameters_def unread_def key_text_simps)

lemma parse_encode:
  assumes "\<forall>(k, v) \<in> set kvs. k \<noteq> []"
  shows "parseClientParameters emp add (encode_args kvs) = Ok (add_all add emp kvs)"
proof (cases kvs)
  case (Cons kv kvs')
  obtain k v where "kv = (k, v)" by (cases kv)
  with Cons assms encode_args_text [of k v kvs'] show ?thesis
    unfolding parse_grammar by (intro disjI2 exI [of _ k] exI [of _ v] exI [of _ kvs']) auto
qed (simp add: parseClientParameters_def)

section \<open>Reading a message\<close>

text \<open>\<open>stream req s later\<close>: the bytes \<open>s\<close> come next, some of them read ahead, in pieces that end where \<open>s\<close> ends; after
  them \<open>conn.Read\<close> returns \<open>later\<close>.\<close>

definition stream :: "'a request \<Rightarrow> bytes \<Rightarrow> (io_error + bytes) list \<Rightarrow> bool" where
  "stream req s later \<longleftrightarrow> (\<exists>chunks. reads req = map Inr chunks @ later \<and> [] \<notin> set chunks \<and> rbuf req @ concat chunks = s)"

lemma stream_Nil: "stream req [] later \<longleftrightarrow> rbuf req = [] \<and> reads req = later"
  unfolding stream_def by (auto intro: exI [of _ "[]"]) (metis append_Nil concat_eq_Nil_conv list.set_sel(1) list.map_disc_iff)+

lemma readByte_stream:
  assumes "stream req (b # s) later"
  obtains rb rs where "readByte req = (Ok b, req\<lparr>rbuf := rb, reads := rs\<rparr>)" "stream (req\<lparr>rbuf := rb, reads := rs\<rparr>) s later"
proof -
  from assms obtain cs where cs: "reads req = map Inr cs @ later" "[] \<notin> set cs" "rbuf req @ concat cs = b # s"
    unfolding stream_def by blast
  show ?thesis
  proof (cases "rbuf req")
    case Nil
    with cs obtain c ds where "cs = (b # c) # ds" "c @ concat ds = s" by (cases cs; cases "hd cs") auto
    with Nil cs show ?thesis
      by (intro that [where rb = c and rs = "map Inr ds @ later"]) (auto simp: readByte_def stream_def)
  next
    case (Cons b' t)
    with cs show ?thesis
      by (intro that [where rb = t and rs = "reads req"]) (auto simp: readByte_def stream_def)
  qed
qed

lemma read_full_stream:
  assumes "n = length b"
  shows "[] \<notin> set cs \<Longrightarrow> buf @ concat cs = b @ s \<Longrightarrow>
    \<exists>rb ds. read_full n got buf (map Inr cs @ later) = (Ok (got @ b), rb, map Inr ds @ later) \<and> [] \<notin> set ds \<and> rb @ concat ds = s"
  using assms
proof (induction cs arbitrary: n b buf got)
  case Nil
  then show ?case by (cases later) (auto intro!: exI [of _ "[]"])
next
  case (Cons c cs)
  show ?case
  proof (cases "n \<le> length buf")
    case True
    have "take n (buf @ concat (c # cs)) = b" "drop n (buf @ concat (c # cs)) = s" unfolding Cons(3) Cons(4) by simp_all
    with True have "take n buf = b" "drop n buf @ concat (c # cs) = s" by simp_all
    with True Cons(2) show ?thesis by (intro exI [of _ "drop n buf"] exI [of _ "c # cs"]) simp
  next
    case False
    have "take (length buf) (b @ s) = buf" "drop (length buf) (b @ s) = c @ concat cs" unfolding Cons(3) [symmetric] by simp_all
    with False Cons(4) have "take (length buf) b = buf" "c @ concat cs = drop (length buf) b @ s" by simp_all
    then have "buf @ drop (length buf) b = b" "c @ concat cs = drop (length buf) b @ s" by (metis append_take_drop_id)+
    with Cons(1) [of c "drop (length buf) b" "n - length buf" "got @ buf"] Cons(2,4) False show ?thesis by auto
  qed
qed

lemma readBytes_stream:
  assumes "stream req (b @ s) later" "n = length b"
  obtains rb rs where "readBytes n req = (Ok b, req\<lparr>rbuf := rb, reads := rs\<rparr>)" "stream (req\<lparr>rbuf := rb, reads := rs\<rparr>) s later"
proof -
  from assms(1) obtain cs where cs: "reads req = map Inr cs @ later" "[] \<notin> set cs" "rbuf req @ concat cs = b @ s"
    unfolding stream_def by blast
  from read_full_stream [OF assms(2) cs(2,3), of "[]" later] show ?thesis
    by (elim exE conjE) (rule that, auto simp: readBytes_def cs(1) stream_def)
qed

text \<open>\<open>consumes m s x\<close>: the call \<open>m\<close> takes the bytes \<open>s\<close> off the stream, however they are cut, returns \<open>x\<close> and changes
  nothing else.\<close>

definition same_rest :: "'a request \<Rightarrow> 'a request \<Rightarrow> bool" where
  "same_rest a b \<longleftrightarrow> Target b = Target a \<and> Args b = Args a \<and> wbuf b = wbuf a \<and> werr b = werr a \<and>
     writes b = writes a \<and> sent b = sent a"

definition consumes :: "('a, 'b) call \<Rightarrow> bytes \<Rightarrow> 'b \<Rightarrow> bool" where
  "consumes m s x \<longleftrightarrow> (\<forall>req t later. stream req (s @ t) later \<longrightarrow>
     (\<exists>req'. m req = (Ok x, req') \<and> same_rest req req' \<and> stream req' t later))"

lemma same_rest_trans: "same_rest a b \<Longrightarrow> same_rest b c \<Longrightarrow> same_rest a c"
  by (simp add: same_rest_def)

lemma same_rest_update [simp]: "same_rest a (a\<lparr>rbuf := rb, reads := rs\<rparr>)" "same_rest a a"
  by (simp_all add: same_rest_def)

lemma consumes_readByte: "consumes readByte [b] b"
  unfolding consumes_def by (metis append_Cons append_Nil readByte_stream same_rest_update(1))

lemma consumes_readBytes: "length b = n \<Longrightarrow> consumes (readBytes n) b b"
  unfolding consumes_def by (metis readBytes_stream same_rest_update(1))

lemma consumes_sret: "consumes (sret x) [] x"
  by (simp add: consumes_def sret_def)

lemma consumes_sbind: "consumes m s x \<Longrightarrow> consumes (f x) t y \<Longrightarrow> st = s @ t \<Longrightarrow> consumes (sbind m f) st y"
  unfolding consumes_def sbind_def by (fastforce intro: same_rest_trans)

lemma consumes_on_fail:
  assumes "consumes m s x"
  shows "consumes (on_fail m h) s x"
  unfolding consumes_def
proof (intro allI impI)
  fix req :: "'a request" and t later
  assume "stream req (s @ t) later"
  with assms obtain req' where "m req = (Ok x, req')" "same_rest req req'" "stream req' t later" unfolding consumes_def by blast
  then show "\<exists>req'. on_fail m h req = (Ok x, req') \<and> same_rest req req' \<and> stream req' t later" by (simp add: on_fail_def)
qed

lemma consumes_readByteVerify: "consumes (readByteVerify b) [b] ()"
  unfolding readByteVerify_def by (rule consumes_sbind [OF consumes_readByte, of _ _ "[]"]) (simp_all add: consumes_sret)

lemma sbind_stream:
  assumes "consumes m s x" "stream req (s @ t) later"
  obtains req' where "sbind m f req = f x req'" "same_rest req req'" "stream req' t later"
  using assms unfolding consumes_def sbind_def by fastforce

lemma sbind_stream_all:
  assumes "consumes m s x" "stream req s later"
  obtains r where "\<And>f. sbind m f req = f x r" "same_rest req r" "stream r [] later"
proof -
  from assms obtain r where "m req = (Ok x, r)" "same_rest req r" "stream r [] later"
    unfolding consumes_def by (metis append_Nil2)
  then show ?thesis by (intro that [of r]) (simp_all add: sbind_def)
qed

text \<open>A connection that has nothing to write and takes every write.\<close>

definition quiet :: "'a request \<Rightarrow> bool" where
  "quiet req \<longleftrightarrow> wbuf req = [] \<and> werr req = None \<and> writes req = []"

lemma quiet_same: "same_rest a b \<Longrightarrow> quiet b = quiet a"
  by (simp add: quiet_def same_rest_def)

lemma write_flush:
  assumes "quiet req" "rbuf req = []"
  shows "sbind (rw_Write b) (\<lambda>_. sbind flushBuffers f) req = f () (req\<lparr>sent := sent req @ b\<rparr>)"
  using assms by (cases req) (simp add: quiet_def sbind_def rw_Write_def flushBuffers_def rw_Flush_def)

section \<open>An honest client\<close>

definition best_method :: "bytes \<Rightarrow> byte" where
  "best_method methods = (if authUsernamePassword \<in> set methods then authUsernamePassword
     else if authNoneRequired \<in> set methods then authNoneRequired else authNoAcceptableMethods)"

text \<open>What the client sends: the methods, the two fields that carry the arguments, and the destination.\<close>

definition hello_message :: "bytes \<Rightarrow> bytes" where
  "hello_message methods = [version, of_nat (length methods)] @ methods"

definition auth_message :: "bytes \<Rightarrow> bytes \<Rightarrow> bytes" where
  "auth_message uname passwd = [authRFC1929Ver, of_nat (length uname)] @ uname @ [of_nat (length passwd)] @ passwd"

datatype destination = IPv4 bytes | Domain bytes | IPv6 bytes

fun dest_ok :: "destination \<Rightarrow> bool" where
  "dest_ok (IPv4 a) = (length a = 4)"
| "dest_ok (Domain a) = (a \<noteq> [] \<and> length a < 256)"
| "dest_ok (IPv6 a) = (length a = 16)"

fun dest_bytes :: "destination \<Rightarrow> bytes" where
  "dest_bytes (IPv4 a) = atypIPv4 # a"
| "dest_bytes (Domain a) = [atypDomainName, of_nat (length a)] @ a"
| "dest_bytes (IPv6 a) = atypIPv6 # a"

fun dest_host :: "destination \<Rightarrow> bytes" where
  "dest_host (IPv4 a) = ipv4_String a"
| "dest_host (Domain a) = a"
| "dest_host (IPv6 a) = [0x5b] @ ipv6_String a @ [0x5d]"

definition request_message :: "destination \<Rightarrow> u16 \<Rightarrow> bytes" where
  "request_message d port = [version, cmdConnect, rsv] @ dest_bytes d @ put_u16 port"

lemma unat_length: "n < 256 \<Longrightarrow> unat (of_nat n :: byte) = n"
  by simp

lemma length_byte_zero: "n < 256 \<Longrightarrow> (of_nat n :: byte) = 0 \<longleftrightarrow> n = 0"
  by (simp only: word_unat_eq_iff unat_length unat_0)

lemma negotiate_accepts:
  assumes "stream req (hello_message ms) later" "length ms < 256" "quiet req"
  obtains req' where "negotiateAuth req = (Ok (best_method ms), req')" "stream req' [] later" "quiet req'"
    "Target req' = Target req" "Args req' = Args req" "sent req' = sent req @ [version, best_method ms]"
proof -
  have *: "stream req ([version] @ ([of_nat (length ms)] @ (ms @ []))) later" using assms(1) by (simp add: hello_message_def)
  obtain r1 where r1: "negotiateAuth req = sbind readByte (\<lambda>nmethods. sbind (readBytes (unat nmethods)) (\<lambda>methods.
      sbind (rw_Write [version, best_method methods]) (\<lambda>_. sbind flushBuffers (\<lambda>_. sret (best_method methods))))) r1"
      "same_rest req r1" "stream r1 ([of_nat (length ms)] @ (ms @ [])) later"
    unfolding negotiateAuth_def Let_def best_method_def [symmetric] by (rule sbind_stream [OF consumes_readByteVerify *])
  obtain r2 where r2: "negotiateAuth req = sbind (readBytes (unat (of_nat (length ms) :: byte))) (\<lambda>methods.
      sbind (rw_Write [version, best_method methods]) (\<lambda>_. sbind flushBuffers (\<lambda>_. sret (best_method methods)))) r2"
      "same_rest r1 r2" "stream r2 (ms @ []) later"
    unfolding r1(1) by (rule sbind_stream [OF consumes_readByte r1(3)])
  obtain r3 where r3: "negotiateAuth req = sbind (rw_Write [version, best_method ms]) (\<lambda>_. sbind flushBuffers (\<lambda>_. sret (best_method ms))) r3"
      "same_rest r2 r3" "stream r3 [] later"
    unfolding r2(1) unat_length [OF assms(2)] by (rule sbind_stream [OF consumes_readBytes [OF refl] r2(3)])
  note same = same_rest_trans [OF same_rest_trans [OF r1(2) r2(2)] r3(2)]
  then have "quiet r3" using assms(3) quiet_same by blast
  with r3 same show ?thesis
    by (intro that [of "r3\<lparr>sent := sent r3 @ [version, best_method ms]\<rparr>"])
      (simp_all add: write_flush stream_Nil sret_def same_rest_def quiet_def)
qed

lemma consumes_then:
  "consumes (f b) t y \<Longrightarrow> consumes (sbind (on_fail readByte h) f) (b # t) y"
  "consumes (f' ()) t y \<Longrightarrow> consumes (sbind (on_fail (readByteVerify b) h) f') (b # t) y"
  "length bs = n \<Longrightarrow> consumes (g bs) t y \<Longrightarrow> consumes (sbind (on_fail (readBytes n) h) g) (bs @ t) y"
  "consumes (k x) t y \<Longrightarrow> consumes (sbind (sret x) k) t y"
  using consumes_sbind [OF consumes_on_fail [OF consumes_readByte], of f b t y "b # t" h]
    consumes_sbind [OF consumes_on_fail [OF consumes_readByteVerify], of f' t y "b # t" b h]
    consumes_sbind [OF consumes_on_fail [OF consumes_readBytes], of bs n g t y "bs @ t" h]
    consumes_sbind [OF consumes_sret, of k x t y t]
  by simp_all

lemma consumes_userpass:
  assumes "0 < length u" "length u < 256" "0 < length p" "length p < 256"
  shows "consumes read_userpass (auth_message u p) (u, p)"
proof -
  have z: "(of_nat (length u) :: byte) < 1 \<longleftrightarrow> False" "(of_nat (length p) :: byte) < 1 \<longleftrightarrow> False"
    using assms by (simp_all add: word_less_nat_alt)
  have "auth_message u p = authRFC1929Ver # of_nat (length u) # u @ of_nat (length p) # p @ []" by (simp add: auth_message_def)
  then show ?thesis unfolding read_userpass_def
    by (simp only: z if_False unat_length assms) (intro consumes_then, simp only: z if_False unat_length assms,
      intro consumes_then refl, simp only: z if_False unat_length assms, intro consumes_then refl consumes_sret)
qed

text \<open>The address, from its type on, with a continuation.\<close>

lemma consumes_host:
  assumes "dest_ok d" "consumes (f (dest_host d)) t y"
  shows "consumes (sbind (on_fail readByte h) (\<lambda>atyp. sbind (read_host atyp) f)) (dest_bytes d @ t) y"
proof -
  have "consumes (read_host (hd (dest_bytes d))) (tl (dest_bytes d)) (dest_host d)"
  proof (cases d)
    case (Domain a)
    with assms(1) have "consumes (on_fail (readBytes (length a)) (reply_failure ReplyGeneralFailure)) a a"
      by (intro consumes_on_fail consumes_readBytes) simp
    with Domain assms(1) show ?thesis
      by (auto simp: read_host_def length_byte_zero intro!: consumes_then)
  next
    case (IPv4 a)
    with assms(1) consumes_then(3) [of a 4 "\<lambda>addr. sret (ipv4_String addr)" "[]", OF _ consumes_sret] show ?thesis
      by (simp add: read_host_def)
  next
    case (IPv6 a)
    with assms(1) consumes_then(3) [of a 16 "\<lambda>addr. sret ([0x5b] @ ipv6_String addr @ [0x5d])" "[]", OF _ consumes_sret] show ?thesis
      by (simp add: read_host_def)
  qed
  then have "consumes (sbind (read_host (hd (dest_bytes d))) f) (tl (dest_bytes d) @ t) y"
    by (rule consumes_sbind [where f = f, OF _ assms(2) refl])
  from consumes_then(1) [of "\<lambda>atyp. sbind (read_host atyp) f", OF this, of h] show ?thesis by (cases d) simp_all
qed

lemma consumes_request:
  assumes "dest_ok d"
  shows "consumes read_request (request_message d port) (dest_host d, put_u16 port)"
proof -
  have "request_message d port = version # cmdConnect # rsv # dest_bytes d @ put_u16 port @ []"
    by (simp add: request_message_def)
  then show ?thesis unfolding read_request_def
    by (simp only:) (intro consumes_then(2) consumes_host [OF assms] consumes_then(3) consumes_sret, simp)
qed

lemma auth_accepts:
  assumes "stream req (auth_message u p) later" "0 < length u" "length u < 256" "0 < length p" "length p < 256" "quiet req"
    and "parseClientParameters emp add (arg_string u p) = Ok args"
  obtains req' where "authenticate emp add authUsernamePassword req = (Ok (), req')" "stream req' [] later" "quiet req'"
    "Target req' = Target req" "Args req' = Some args" "sent req' = sent req @ [authRFC1929Ver, authRFC1929Success]"
proof -
  from sbind_stream_all [OF consumes_userpass [OF assms(2-5)] assms(1)]
  obtain r where r0: "\<And>f :: bytes \<times> bytes \<Rightarrow> ('a, unit) call. sbind read_userpass f req = f (u, p) r"
    and r: "same_rest req r" "stream r [] later" by blast
  have a: "authRFC1929 emp add req = rw_Write [authRFC1929Ver, authRFC1929Success] (r\<lparr>Args := Some args\<rparr>)"
    by (simp add: authRFC1929_def r0 assms(7))
  have "quiet r" "rbuf r = []" "reads r = later" using r assms(6) quiet_same [OF r(1)] by (simp_all add: stream_Nil)
  then show ?thesis using r a
    by (intro that [of "r\<lparr>Args := Some args, sent := sent r @ [authRFC1929Ver, authRFC1929Success]\<rparr>"]; cases r)
      (simp_all add: authenticate_def sbind_def rw_Write_def quiet_def flushBuffers_def rw_Flush_def stream_Nil same_rest_def)
qed

lemma command_accepts:
  assumes "stream req (request_message d port) later" "dest_ok d" "quiet req"
  obtains req' where "readCommand req = (Ok (), req')" "stream req' [] later" "quiet req'"
    "Target req' = dest_host d @ [0x3a] @ dec_string (unat port)" "Args req' = Args req" "sent req' = sent req"
proof -
  from sbind_stream_all [OF consumes_request [OF assms(2)] assms(1)]
  obtain r where r0: "\<And>f :: bytes \<times> bytes \<Rightarrow> ('a, unit) call. sbind read_request f req = f (dest_host d, put_u16 port) r"
    and r: "same_rest req r" "stream r [] later" by blast
  have c: "readCommand req = flushBuffers (r\<lparr>Target := dest_host d @ [0x3a] @ dec_string (nat_of_be (put_u16 port))\<rparr>)"
    by (simp add: readCommand_def r0)
  have "nat_of_be (put_u16 port) = unat port" using unsigned_less [where ?'a = nat, of port] by (simp add: put_u16_def)
  with r c assms(3) show ?thesis
    by (intro that [of "r\<lparr>Target := dest_host d @ [0x3a] @ dec_string (unat port)\<rparr>"])
      (simp_all add: sbind_def quiet_def flushBuffers_def rw_Flush_def stream_Nil same_rest_def)
qed

lemma stream_pieces: "[] \<notin> set cs \<Longrightarrow> rbuf req = [] \<Longrightarrow> reads req = map Inr cs @ later \<Longrightarrow> stream req (concat cs) later"
  by (auto simp: stream_def)

lemma stream_next: "stream req [] (map Inr cs @ later) \<Longrightarrow> [] \<notin> set cs \<Longrightarrow> stream req (concat cs) later"
  by (rule stream_pieces) (simp_all add: stream_Nil)

section \<open>Failures are answered\<close>

text \<open>A call that only reads, and a call whose failure \<open>e\<close> has put bytes \<open>b\<close> with \<open>A e b\<close> on the wire.\<close>

definition only_reads :: "('a, 'b) call \<Rightarrow> bool" where
  "only_reads m \<longleftrightarrow> (\<forall>req. same_rest req (snd (m req)) \<and> fst (m req) \<noteq> Panic)"

definition answers :: "(socks_error \<Rightarrow> bytes \<Rightarrow> bool) \<Rightarrow> ('a, 'b) call \<Rightarrow> bool" where
  "answers A m \<longleftrightarrow> (\<forall>req. quiet req \<longrightarrow> (case m req of
     (Ok x, r) \<Rightarrow> quiet r \<and> sent r = sent req
   | (Err e, r) \<Rightarrow> \<exists>b. A e b \<and> sent r = sent req @ b
   | (Panic, r) \<Rightarrow> False))"

lemma fill_not_panic: "fst (fill rs) \<noteq> Panic"
  by (induction rs rule: fill.induct) auto

lemma read_full_not_panic: "fst (read_full n got buf rs) \<noteq> Panic"
  by (induction n got buf rs rule: read_full.induct) (auto split: sum.splits)

lemma only_reads_calls [simp]: "only_reads readByte" "only_reads (readBytes n)" "only_reads (sret x)" "only_reads (sfail e)"
  using fill_not_panic read_full_not_panic
  by (auto simp: only_reads_def readByte_def readBytes_def sret_def sfail_def same_rest_def split: prod.splits outcome.splits)
    (metis fst_conv)+

lemma only_reads_verify [simp]: "only_reads (readByteVerify x)"
proof -
  have "only_reads (sbind m f)" if "only_reads m" "\<And>x. only_reads (f x)" for m :: "('a, byte) call" and f :: "byte \<Rightarrow> ('a, unit) call"
    using that unfolding only_reads_def sbind_def
    by (auto split: prod.splits outcome.splits simp: same_rest_def) (metis fst_conv snd_conv)+
  then show ?thesis by (simp add: readByteVerify_def)
qed

lemma answers_sbind:
  assumes "answers A m" "\<And>x. answers A (f x)"
  shows "answers A (sbind m f)"
  unfolding answers_def
proof (intro allI impI)
  fix req :: "'a request"
  assume q: "quiet req"
  obtain x r where m: "m req = (x, r)" by (cases "m req")
  show "case sbind m f req of (Ok x, r) \<Rightarrow> quiet r \<and> sent r = sent req | (Err e, r) \<Rightarrow> \<exists>b. A e b \<and> sent r = sent req @ b | (Panic, r) \<Rightarrow> False"
  proof (cases x)
    case (Ok v)
    with m q assms(1) have "quiet r" "sent r = sent req" unfolding answers_def by fastforce+
    with assms(2) [of v, unfolded answers_def, rule_format, of r] m Ok show ?thesis
      by (simp add: sbind_def split: prod.splits outcome.splits)
  qed (use m q assms(1) in \<open>unfold answers_def sbind_def, fastforce+\<close>)
qed

lemma answers_sret: "answers A (sret x)"
  by (simp add: answers_def sret_def)

lemma answers_on_fail:
  assumes "only_reads m" "\<And>req. quiet req \<Longrightarrow> sent (h req) = sent req @ b" "\<And>req e r. m req = (Err e, r) \<Longrightarrow> A e b"
  shows "answers A (on_fail m h)"
  unfolding answers_def
proof (intro allI impI)
  fix req :: "'a request"
  assume q: "quiet req"
  obtain x r where m: "m req = (x, r)" by (cases "m req")
  have s: "same_rest req r" "x \<noteq> Panic" using assms(1) m unfolding only_reads_def by (metis fst_conv snd_conv)+
  then have "quiet r" "sent r = sent req" using q quiet_same [OF s(1)] by (simp_all add: same_rest_def)
  with m s(2) assms(2) [of r] show
    "case on_fail m h req of (Ok x, r) \<Rightarrow> quiet r \<and> sent r = sent req | (Err e, r) \<Rightarrow> \<exists>b. A e b \<and> sent r = sent req @ b | (Panic, r) \<Rightarrow> False"
    by (cases x) (auto simp: on_fail_def intro: assms(3))
qed

lemma write_flush_sent: "quiet req \<Longrightarrow> sent (snd (sbind (rw_Write b) (\<lambda>_. flushBuffers) req)) = sent req @ b"
  by (simp add: quiet_def sbind_def rw_Write_def flushBuffers_def rw_Flush_def)

lemma sent_Reply: "quiet req \<Longrightarrow> sent (snd (Reply code req)) = sent req @ [version, reply_byte code, rsv, atypIPv4, 0, 0, 0, 0, 0, 0]"
  unfolding Reply_def by (rule write_flush_sent)

lemma sent_sendErrResp: "quiet req \<Longrightarrow> sent (sendErrResp req) = sent req @ [authRFC1929Ver, authRFC1929Fail]"
  by (simp add: sendErrResp_def quiet_def sbind_def rw_Write_def flushBuffers_def rw_Flush_def)

definition request_answer :: "socks_error \<Rightarrow> bytes \<Rightarrow> bool" where
  "request_answer e b \<longleftrightarrow> (\<exists>n. e = TrailingData n \<and> b = []) \<or>
    (\<exists>code. code \<noteq> ReplySucceeded \<and> b = [version, reply_byte code, rsv, atypIPv4, 0, 0, 0, 0, 0, 0] \<and>
       (\<forall>v. e = FieldError v cmdConnect \<longrightarrow> code = ReplyCommandNotSupported) \<and>
       (\<forall>v. e = UnsupportedAddress v \<longrightarrow> code = ReplyAddressNotSupported))"

lemma verify_errors: "readByteVerify x req = (Err e, r) \<Longrightarrow> (\<exists>v. e = FieldError v x) \<or> (\<exists>i. e = IoError i)"
  by (auto simp: readByteVerify_def sbind_def readByte_def sfail_def sret_def split: prod.splits outcome.splits if_splits)

lemma read_errors: "readByte req = (Err e, r) \<Longrightarrow> \<exists>i. e = IoError i" "readBytes n req = (Err e, r) \<Longrightarrow> \<exists>i. e = IoError i"
  by (auto simp: readByte_def readBytes_def split: prod.splits outcome.splits if_splits)

lemma answers_reply:
  assumes "only_reads m" "code \<noteq> ReplySucceeded"
    "\<And>req e r. m req = (Err e, r) \<Longrightarrow> (\<forall>v. e = FieldError v cmdConnect \<longrightarrow> code = ReplyCommandNotSupported) \<and>
       (\<forall>v. e = UnsupportedAddress v \<longrightarrow> code = ReplyAddressNotSupported)"
  shows "answers request_answer (on_fail m (reply_failure code))"
  by (rule answers_on_fail [OF assms(1) sent_Reply]) (use assms(2,3) in \<open>auto simp: request_answer_def\<close>)

lemma answers_host: "answers request_answer (read_host atyp)"
  unfolding read_host_def
  by (auto intro!: answers_sbind answers_sret answers_reply split: if_splits dest: read_errors simp: sfail_def)

lemma answers_request: "answers request_answer read_request"
  unfolding read_request_def
  by (intro answers_sbind answers_sret answers_host answers_reply; (simp; fail)?) (auto dest: read_errors verify_errors)

lemma readCommand_answers:
  assumes "quiet req" "readCommand req = (Err e, r)"
  shows "\<exists>b. request_answer e b \<and> sent r = sent req @ b"
proof -
  obtain x q where x: "read_request req = (x, q)" by (cases "read_request req")
  then show ?thesis
  proof (cases x)
    case (Ok hp)
    obtain host rawPort where "hp = (host, rawPort)" by (cases hp)
    moreover have "quiet q" "sent q = sent req" using answers_request assms(1) x Ok unfolding answers_def by fastforce+
    ultimately have "e = TrailingData (length (rbuf q)) \<and> sent r = sent req" using assms(2) x Ok
      by (auto simp: readCommand_def sbind_def flushBuffers_def rw_Flush_def quiet_def Let_def split: if_splits)
    then show ?thesis by (intro exI [of _ "[]"]) (simp add: request_answer_def)
  qed (use answers_request assms x in \<open>unfold answers_def readCommand_def sbind_def, fastforce+\<close>)
qed

lemma answers_auth_reply:
  assumes "only_reads m"
  shows "answers (\<lambda>e b. b = [authRFC1929Ver, authRFC1929Fail]) (on_fail m sendErrResp)"
  by (rule answers_on_fail [OF assms sent_sendErrResp]) simp_all

lemma answers_userpass: "answers (\<lambda>e b. b = [authRFC1929Ver, authRFC1929Fail]) read_userpass"
  unfolding read_userpass_def
  by (intro answers_sbind answers_sret answers_auth_reply only_reads_calls only_reads_verify) (auto intro: answers_sret answers_auth_reply)

lemma auth_answers:
  assumes "quiet req" "authRFC1929 emp add req = (Err e, r)"
  shows "sent r = sent req @ [authRFC1929Ver, authRFC1929Fail]"
proof -
  obtain x q where x: "read_userpass req = (x, q)" by (cases "read_userpass req")
  then show ?thesis
  proof (cases x)
    case (Ok up)
    obtain u p where "up = (u, p)" by (cases up)
    moreover have "quiet q" "sent q = sent req" using answers_userpass assms(1) x Ok unfolding answers_def by fastforce+
    moreover have "quiet (q\<lparr>Args := None\<rparr>) = quiet q" by (simp add: quiet_def)
    ultimately show ?thesis using assms(2) x Ok sent_sendErrResp [of "q\<lparr>Args := None\<rparr>"]
      by (auto simp: authRFC1929_def sbind_def rw_Write_def on_fail_def sfail_def quiet_def split: outcome.splits)
  qed (use answers_userpass assms x in \<open>unfold answers_def authRFC1929_def sbind_def, fastforce+\<close>)
qed

lemma pipelined_hello:
  assumes "length ms < 256" "extra \<noteq> []" "reads req = Inr (hello_message ms @ extra) # later" "rbuf req = []" "quiet req"
  shows "fst (negotiateAuth req) = Err (TrailingData (length extra))"
proof -
  have "read_full (length ms) [] (ms @ extra) later = (Ok ms, extra, later)" by (cases later) simp_all
  with assms show ?thesis
    by (simp add: negotiateAuth_def sbind_def readByteVerify_def readByte_def sret_def hello_message_def unat_length readBytes_def
      Let_def rw_Write_def flushBuffers_def rw_Flush_def quiet_def)
qed

section \<open>Properties\<close>

text \<open>C22: \<open>parseClientParameters\<close> accepts exactly the strings of the grammar (keys that are not empty, backslash escapes for
  \<open>=\<close>, \<open>;\<close> and the backslash, \<open>=\<close> free in values, pairs separated by \<open>;\<close>) and adds the pairs in their order; the pairs that a
  client encodes by escaping every special character come back as they were.\<close>

theorem socks_args_grammar:
  "(parseClientParameters emp add s = Ok a \<longleftrightarrow>
      (s = [] \<and> a = emp) \<or> (\<exists>k v kvs. key_text s k v kvs \<and> k \<noteq> [] \<and> a = add_all add emp ((k, v) # kvs))) \<and>
   ((\<forall>(k, v) \<in> set kvs. k \<noteq> []) \<longrightarrow> parseClientParameters emp add (encode_args kvs) = Ok (add_all add emp kvs))"
  using parse_grammar [of emp add s a] parse_encode [of kvs emp add] by blast

text \<open>The arguments as an association list, in the order of the calls of \<open>Add\<close>.\<close>

definition demo_add :: "(bytes \<times> bytes) list \<Rightarrow> bytes \<Rightarrow> bytes \<Rightarrow> (bytes \<times> bytes) list" where
  "demo_add args k v = args @ [(k, v)]"

theorem socks_args_grammar_witness:
  "encode_args [([0x61], [0x3b]), ([0x62, 0x3d], [])] = [0x61, 0x3d, 0x5c, 0x3b, 0x3b, 0x62, 0x5c, 0x3d, 0x3d] \<and>
   parseClientParameters [] demo_add [0x61, 0x3d, 0x5c, 0x3b, 0x3b, 0x62, 0x5c, 0x3d, 0x3d] = Ok [([0x61], [0x3b]), ([0x62, 0x3d], [])]"
proof -
  have e: "encode_args [([0x61], [0x3b]), ([0x62, 0x3d], [])] = [0x61, 0x3d, 0x5c, 0x3b, 0x3b, 0x62, 0x5c, 0x3d, 0x3d]" by code_simp
  from socks_args_grammar [THEN conjunct2, of "[([0x61], [0x3b]), ([0x62, 0x3d], [])]" "[]" demo_add] show ?thesis
    unfolding e by (simp add: demo_add_def)
qed

text \<open>C21: An honest client is served. It offers methods, sends its arguments in the user name and the password when the
  server asks for them, and its CONNECT request, each message cut by the network in any way, and the next one only after
  the answer. Then \<open>Handshake\<close> succeeds with the parsed arguments and the printed destination, and it has sent the
  selection and the acknowledgement; without the user name method it goes straight to the request. The error of disarming
  the deadline does not matter.\<close>

theorem socks_accepts:
  fixes emp :: 'a
  assumes "concat c1 = hello_message ms" "length ms < 256" "concat c2 = auth_message u p" "u \<noteq> []" "length u < 256"
    "p \<noteq> []" "length p < 256" "parseClientParameters emp add (arg_string u p) = Ok args"
    "concat c3 = request_message d port" "dest_ok d" "[] \<notin> set (c1 @ c2 @ c3)"
  shows "(authUsernamePassword \<in> set ms \<longrightarrow>
      (\<exists>req. socks_Handshake emp add None disarm (new_request (map Inr (c1 @ c2 @ c3) @ later) []) = (Ok req, req) \<and>
        Target req = dest_host d @ [0x3a] @ dec_string (unat port) \<and> Args req = Some args \<and>
        sent req = [version, authUsernamePassword, authRFC1929Ver, authRFC1929Success] \<and> rbuf req = [] \<and> reads req = later)) \<and>
    (authUsernamePassword \<notin> set ms \<and> authNoneRequired \<in> set ms \<longrightarrow>
      (\<exists>req. socks_Handshake emp add None disarm (new_request (map Inr (c1 @ c3) @ later) []) = (Ok req, req) \<and>
        Target req = dest_host d @ [0x3a] @ dec_string (unat port) \<and> Args req = None \<and>
        sent req = [version, authNoneRequired] \<and> rbuf req = [] \<and> reads req = later))"
proof -
  have q: "quiet (new_request rs [] :: 'a request)" "rbuf (new_request rs [] :: 'a request) = []" "sent (new_request rs [] :: 'a request) = []" "Args (new_request rs [] :: 'a request) = None"
    "reads (new_request rs [] :: 'a request) = rs" for rs :: "(io_error + bytes) list" by (simp_all add: quiet_def new_request_def)
  have ne: "[] \<notin> set c1" "[] \<notin> set c2" "[] \<notin> set c3" using assms(11) by auto
  have start: "stream (new_request (map Inr c1 @ rs) [] :: 'a request) (hello_message ms) rs" for rs :: "(io_error + bytes) list"
    unfolding assms(1) [symmetric] by (rule stream_pieces) (simp_all add: ne q)
  note run = socks_Handshake_def sbind_def
  have auth: ?thesis if m: "authUsernamePassword \<in> set ms"
  proof -
    have b: "best_method ms = authUsernamePassword" using m by (simp add: best_method_def)
    let ?R = "new_request (map Inr c1 @ map Inr c2 @ map Inr c3 @ later) [] :: 'a request"
    obtain r1 where r1: "negotiateAuth ?R = (Ok (best_method ms), r1)" "stream r1 [] (map Inr c2 @ map Inr c3 @ later)" "quiet r1"
        "sent r1 = sent ?R @ [version, best_method ms]"
      by (rule negotiate_accepts [OF start assms(2) q(1)]) (rule that)
    have u: "0 < length u" "0 < length p" using assms(4,6) by simp_all
    obtain r2 where r2: "authenticate emp add authUsernamePassword r1 = (Ok (), r2)"
        "stream r2 [] (map Inr c3 @ later)" "quiet r2" "Args r2 = Some args" "sent r2 = sent r1 @ [authRFC1929Ver, authRFC1929Success]"
      by (rule auth_accepts [OF stream_next [OF r1(2) ne(2), unfolded assms(3)] u(1) assms(5) u(2) assms(7) r1(3) assms(8)]) (rule that)
    obtain r3 where r3: "readCommand r2 = (Ok (), r3)" "stream r3 [] later"
        "Target r3 = dest_host d @ [0x3a] @ dec_string (unat port)" "Args r3 = Args r2" "sent r3 = sent r2"
      by (rule command_accepts [OF stream_next [OF r2(2) ne(3), unfolded assms(9)] assms(10) r2(3)]) (rule that)
    from r1 r2 r3 m show ?thesis by (simp add: run stream_Nil b q)
  qed
  have none: ?thesis if m: "authUsernamePassword \<notin> set ms" "authNoneRequired \<in> set ms"
  proof -
    have b: "best_method ms = authNoneRequired" using m by (simp add: best_method_def)
    let ?R = "new_request (map Inr c1 @ map Inr c3 @ later) [] :: 'a request"
    obtain r1 where r1: "negotiateAuth ?R = (Ok (best_method ms), r1)" "stream r1 [] (map Inr c3 @ later)" "quiet r1"
        "Args r1 = Args ?R" "sent r1 = sent ?R @ [version, best_method ms]"
      by (rule negotiate_accepts [OF start assms(2) q(1)]) (rule that)
    from r1(2,3) have r2: "authenticate emp add authNoneRequired r1 = (Ok (), r1)"
      by (simp add: authenticate_def flushBuffers_def sbind_def rw_Flush_def quiet_def stream_Nil)
    obtain r3 where r3: "readCommand r1 = (Ok (), r3)" "stream r3 [] later"
        "Target r3 = dest_host d @ [0x3a] @ dec_string (unat port)" "Args r3 = Args r1" "sent r3 = sent r1"
      by (rule command_accepts [OF stream_next [OF r1(2) ne(3), unfolded assms(9)] assms(10) r1(3)]) (rule that)
    from r1 r2 r3 m show ?thesis by (simp add: run stream_Nil b q)
  qed
  show ?thesis using auth none by blast
qed


definition demo_request :: "bytes list \<Rightarrow> (bytes \<times> bytes) list request" where
  "demo_request cs = new_request (map Inr cs) []"

theorem socks_accepts_witness:
  "\<exists>req. socks_Handshake [] demo_add None (Some EOF) (demo_request [[5], [1, 2], [1, 3, 0x61], [0x3d, 0x62, 1, 0], [5, 1, 0, 3, 1, 0x78, 0], [80]]) = (Ok req, req) \<and>
     Target req = [0x78, 0x3a, 0x38, 0x30] \<and> Args req = Some [([0x61], [0x62])]"
proof -
  have "parseClientParameters [] demo_add (arg_string [0x61, 0x3d, 0x62] [0]) = Ok [([0x61], [0x62])]" "dec_string (unat (80 :: u16)) = [0x38, 0x30]"
    "put_u16 80 = [0, 80]" by code_simp+
  with socks_accepts [of "[[5], [1, 2]]" "[2]" "[[1, 3, 0x61], [0x3d, 0x62, 1, 0]]" "[0x61, 0x3d, 0x62]" "[0]" "[]" demo_add
      "[([0x61], [0x62])]" "[[5, 1, 0, 3, 1, 0x78, 0], [80]]" "Domain [0x78]" 80 "Some EOF" "[]"]
  show ?thesis
    by (auto simp: hello_message_def auth_message_def request_message_def demo_request_def)
qed


end
