(* ===== verification/Obfs4.thy ===== *)
theory Obfs4
  imports Packet
begin

text \<open>
  The data phase of the obfs4 transport, \<open>transports/obfs4/obfs4.go\<close> and \<open>packet.go\<close>: packets of up to 1427 bytes,
  the padding of bursts, \<open>Write\<close> with its three modes of inter-arrival time obfuscation, and the packet handler behind
  \<open>Read\<close>. Its framing and its handshake are copies of the code that \<open>Framing\<close> and \<open>Handshake\<close> model, so the encoder, the
  decoder and the read loop are shared. \<open>obfs4Conn\<close> has the fields of \<open>DefConn\<close> that the read loop needs; the counters
  and the state machine of that record stay unused here. Samples of the length distribution are a list, as many as
  the call draws; delays are not represented.
\<close>

datatype iat_mode = iatNone | iatEnabled | iatParanoid

record obfs4Conn = defConn +
  iatDist :: "bytes option"
  iatMode :: iat_mode

definition obfs4_maxPacketPayloadLength :: nat where
  [simp]: "obfs4_maxPacketPayloadLength = MaximumFramePayloadLength - PacketOverhead"

definition obfs4_headerLength :: nat where
  [simp]: "obfs4_headerLength = FrameOverhead + PacketOverhead"

definition obfs4_packetTypePrngSeed :: byte where [simp]: "obfs4_packetTypePrngSeed = 1"

section \<open>Receiving\<close>

text \<open>The inner \<open>err\<close> of the second \<open>SeedFromBytes\<close> shadows the outer one.\<close>

definition obfs4_handle :: "crypto \<Rightarrow> obfs4Conn handler" where
  "obfs4_handle c conn pktType payload rest =
    (if pktType = PacketTypePayload then
       (if length payload > 0
        then Some (conn\<lparr>ReceiveDecodedBuffer := ReceiveDecodedBuffer conn @ payload\<rparr>, None)
        else Some (conn, None))
     else if pktType = obfs4_packetTypePrngSeed then
       (if length payload = SeedPacketPayloadLength \<and> \<not> IsServer conn then
          (case SeedFromBytes payload of
             Ok seed \<Rightarrow>
               (let conn1 = conn\<lparr>LenDist := seed\<rparr>
                in (case iatDist conn of
                      None \<Rightarrow> Some (conn1, None)
                    | Some _ \<Rightarrow>
                       (case SeedFromBytes (sha256 c seed) of
                          Ok iatSeed \<Rightarrow> Some (conn1\<lparr>iatDist := Some iatSeed\<rparr>, None)
                        | Err er \<Rightarrow> Some (conn1, None) | Panic \<Rightarrow> None)))
           | Err er \<Rightarrow> Some (conn, Some (SeedError er)) | Panic \<Rightarrow> None)
        else Some (conn, None))
     else Some (conn, None))"

definition obfs4_readPackets :: "crypto \<Rightarrow> (int \<Rightarrow> int) \<Rightarrow> obfs4Conn \<Rightarrow> bytes \<Rightarrow> nat option \<Rightarrow>
    (unit, packet_error option) outcome \<times> obfs4Conn" where
  "obfs4_readPackets c intn = read_packets c intn (obfs4_handle c)"

definition obfs4_Read :: "crypto \<Rightarrow> (int \<Rightarrow> int) \<Rightarrow> nat \<Rightarrow> obfs4Conn \<Rightarrow> (bytes \<times> nat option) list \<Rightarrow>
    ((unit, bytes \<times> packet_error option) outcome \<times> obfs4Conn \<times> (bytes \<times> nat option) list) option" where
  "obfs4_Read c intn = MyRead (obfs4_readPackets c intn)"

interpretation obfs4: packet_handler "obfs4_handle c" "\<lambda>_ _ _ _. True" for c
proof
  fix s :: obfs4Conn and t p r
  show "\<exists>s'. obfs4_handle c s t p r = Some (s', None) \<and> IsServer s' = IsServer s \<and>
      ReceiveDecodedBuffer s' = ReceiveDecodedBuffer s @ (if t = PacketTypePayload then p else [])"
    by (auto simp: obfs4_handle_def SeedFromBytes_def Let_def split: option.splits)
  show "keeps_link (obfs4_handle c)"
    by (auto simp: keeps_link_def obfs4_handle_def SeedFromBytes_def Let_def split: if_splits option.splits)
qed

section \<open>Sending\<close>

definition obfs4_makePacket :: "crypto \<Rightarrow> encoder \<Rightarrow> byte \<Rightarrow> bytes \<Rightarrow> u16 \<Rightarrow> (packet_error, bytes) outcome \<times> encoder" where
  "obfs4_makePacket c e pktType data padLen =
    (if length data + unat padLen > obfs4_maxPacketPayloadLength then (Panic, e)
     else (case Encode c e MaximumSegmentLength (packet_bytes pktType data (replicate (unat padLen) 0)) of
         (Ok frame, e') \<Rightarrow> (Ok frame, e')
       | (Err er, e') \<Rightarrow> (Err (FramingError er), e') | (Panic, e') \<Rightarrow> (Panic, e')))"

text \<open>A packet written to a buffer.\<close>

definition append_packet :: "crypto \<Rightarrow> encoder \<Rightarrow> bytes \<Rightarrow> byte \<Rightarrow> bytes \<Rightarrow> u16 \<Rightarrow> (packet_error, bytes) outcome \<times> encoder" where
  "append_packet c e burst pktType data padLen =
    (case obfs4_makePacket c e pktType data padLen of
       (Ok frame, e') \<Rightarrow> (Ok (burst @ frame), e') | (Err er, e') \<Rightarrow> (Err er, e') | (Panic, e') \<Rightarrow> (Panic, e'))"

definition pad_length :: "nat \<Rightarrow> nat \<Rightarrow> nat" where
  "pad_length len toPadTo =
    (let tailLen = len mod MaximumSegmentLength
     in if toPadTo \<ge> tailLen then toPadTo - tailLen else (MaximumSegmentLength - tailLen) + toPadTo)"

definition padBurst :: "crypto \<Rightarrow> encoder \<Rightarrow> bytes \<Rightarrow> nat \<Rightarrow> (packet_error, bytes) outcome \<times> encoder" where
  "padBurst c e burst toPadTo =
    (let padLen = pad_length (length burst) toPadTo
     in if padLen > obfs4_headerLength
        then append_packet c e burst PacketTypePayload [] (of_nat (padLen - obfs4_headerLength))
        else if padLen > 0
        then (case append_packet c e burst PacketTypePayload [] (of_nat obfs4_maxPacketPayloadLength) of
                (Ok burst', e') \<Rightarrow> append_packet c e' burst' PacketTypePayload [] (of_nat padLen)
              | (Err er, e') \<Rightarrow> (Err er, e') | (Panic, e') \<Rightarrow> (Panic, e'))
        else (Ok burst, e))"

text \<open>The three parts of \<open>Write\<close>: chopping, and the two loops that write with delays. \<open>wr\<close> are the results of the
  network writes (no more elements: success); the result lists what was written.\<close>

function chop_frames :: "crypto \<Rightarrow> encoder \<Rightarrow> bytes \<Rightarrow> bytes \<Rightarrow> (packet_error, bytes) outcome \<times> encoder" where
  "chop_frames c e frameBuf b =
    (if b = [] then (Ok frameBuf, e)
     else (case append_packet c e frameBuf PacketTypePayload (take obfs4_maxPacketPayloadLength b) 0 of
         (Ok frameBuf', e') \<Rightarrow> chop_frames c e' frameBuf' (drop obfs4_maxPacketPayloadLength b)
       | (Err er, e') \<Rightarrow> (Err er, e') | (Panic, e') \<Rightarrow> (Panic, e')))"
  by pat_completeness auto
termination
  by (relation "measure (\<lambda>(c, e, fb, b). length b)") simp_all

declare chop_frames.simps [simp del]

type_synonym write_result = "(packet_error, unit) outcome \<times> encoder \<times> bytes list"

function write_enabled :: "encoder \<Rightarrow> nat option list \<Rightarrow> bytes \<Rightarrow> write_result" where
  "write_enabled e wr frameBuf =
    (if frameBuf = [] then (Ok (), e, [])
     else (case wr of
         Some er # ws \<Rightarrow> (Err (NetError er), e, [])
       | ws \<Rightarrow> (case write_enabled e (tl ws) (drop MaximumSegmentLength frameBuf) of
                  (r, e', out) \<Rightarrow> (r, e', take MaximumSegmentLength frameBuf # out))))"
  by pat_completeness auto
termination
  by (relation "measure (\<lambda>(e, wr, fb). length fb)") simp_all

declare write_enabled.simps [simp del]

fun write_paranoid :: "crypto \<Rightarrow> encoder \<Rightarrow> nat option list \<Rightarrow> bytes \<Rightarrow> nat list \<Rightarrow> write_result option" where
  "write_paranoid c e wr frameBuf [] = (if frameBuf = [] then Some (Ok (), e, []) else None)"
| "write_paranoid c e wr frameBuf (targetLen # samples) =
    (if frameBuf = [] then Some (Ok (), e, [])
     else (let wr_frame = (\<lambda>e frameBuf.
             if targetLen = 0 then Some (Panic, e, [])
             else (case wr of
                 Some er # ws \<Rightarrow> Some (Err (NetError er), e, [])
               | ws \<Rightarrow> map_option (\<lambda>(r, e', out). (r, e', take targetLen frameBuf # out))
                   (write_paranoid c e (tl ws) (drop targetLen frameBuf) samples)))
           in if length frameBuf < targetLen
              then (case padBurst c e frameBuf targetLen of
                  (Ok frameBuf', e') \<Rightarrow>
                    (if length frameBuf' \<noteq> targetLen then write_paranoid c e' wr frameBuf' samples
                     else wr_frame e' frameBuf')
                | (Err er, e') \<Rightarrow> Some (Err er, e', []) | (Panic, e') \<Rightarrow> Some (Panic, e', []))
              else wr_frame e frameBuf))"

text \<open>\<open>None\<close>: more samples are needed than the list holds.\<close>

definition obfs4_Write :: "crypto \<Rightarrow> nat option list \<Rightarrow> nat list \<Rightarrow> encoder \<Rightarrow> iat_mode \<Rightarrow> bytes \<Rightarrow>
    ((packet_error, nat) outcome \<times> encoder \<times> bytes list) option" where
  "obfs4_Write c wr samples e mode b =
    (case chop_frames c e [] b of
       (Err er, e1) \<Rightarrow> Some (Err er, e1, []) | (Panic, e1) \<Rightarrow> Some (Panic, e1, [])
     | (Ok frameBuf, e1) \<Rightarrow>
        (let result = (\<lambda>(r, e', out). (case r of Ok _ \<Rightarrow> Ok (length b) | Err er \<Rightarrow> Err er | Panic \<Rightarrow> Panic, e', out));
             padded = (case samples of [] \<Rightarrow> None | s # _ \<Rightarrow> Some (padBurst c e1 frameBuf s))
         in (case mode of
               iatParanoid \<Rightarrow> map_option result (write_paranoid c e1 wr frameBuf samples)
             | iatEnabled \<Rightarrow>
                 (case padded of None \<Rightarrow> None
                  | Some (Ok fb, e2) \<Rightarrow> Some (result (write_enabled e2 wr fb))
                  | Some (Err er, e2) \<Rightarrow> Some (Err er, e2, []) | Some (Panic, e2) \<Rightarrow> Some (Panic, e2, []))
             | iatNone \<Rightarrow>
                 (case padded of None \<Rightarrow> None
                  | Some (Ok fb, e2) \<Rightarrow>
                     Some (case wr of Some er # _ \<Rightarrow> (Err (NetError er), e2, []) | _ \<Rightarrow> (Ok (length b), e2, [fb]))
                  | Some (Err er, e2) \<Rightarrow> Some (Err er, e2, []) | Some (Panic, e2) \<Rightarrow> Some (Panic, e2, [])))))"

section \<open>What goes on the wire\<close>

abbreviation wire_packets :: "(byte \<times> bytes \<times> bytes) list \<Rightarrow> bytes list" where
  "wire_packets cells \<equiv> map (\<lambda>(t, d, r). packet_bytes t d r) cells"

text \<open>\<open>emits c e cells w e'\<close>: the encoder turns the packets \<open>cells\<close>, all short enough, into the bytes \<open>w\<close>.\<close>

definition emits :: "crypto \<Rightarrow> encoder \<Rightarrow> (byte \<times> bytes \<times> bytes) list \<Rightarrow> bytes \<Rightarrow> encoder \<Rightarrow> bool" where
  "emits c e cells w e' \<longleftrightarrow> frames.sends c MaximumSegmentLength e (wire_packets cells) w e' \<and>
     (\<forall>(t, d, r) \<in> set cells. length d < 2 ^ 16)"

lemma sends_append:
  "frames.sends c cap e ps w e1 \<Longrightarrow> frames.sends c cap e1 qs v e2 \<Longrightarrow> frames.sends c cap e (ps @ qs) (w @ v) e2"
  by (induction rule: frames.sends.induct) (auto intro: frames.sends.intros)

lemma emits_Nil [simp]: "emits c e [] [] e"
  by (simp add: emits_def frames.sends.none)

lemma emits_append: "emits c e ps w e1 \<Longrightarrow> emits c e1 qs v e2 \<Longrightarrow> emits c e (ps @ qs) (w @ v) e2"
  by (auto simp: emits_def intro: sends_append)

lemma payloads_app [simp]: "payloads (ps @ qs) = payloads ps @ payloads qs"
  by (simp add: payloads_def)

lemma append_packet_emits:
  assumes "append_packet c e fb t d pad = (Ok fb', e')"
  shows "\<exists>w. fb' = fb @ w \<and> emits c e [(t, d, replicate (unat pad) 0)] w e' \<and> length d + unat pad \<le> 1427"
proof -
  from assms obtain w where w: "fb' = fb @ w" "obfs4_makePacket c e t d pad = (Ok w, e')"
    by (auto simp: append_packet_def split: prod.splits outcome.splits)
  then have "Encode c e MaximumSegmentLength (packet_bytes t d (replicate (unat pad) 0)) = (Ok w, e')" "length d + unat pad \<le> 1427"
    by (auto simp: obfs4_makePacket_def split: prod.splits outcome.splits if_splits)
  with w(1) frames.sends.frame [OF this(1) frames.sends.none] show ?thesis by (auto simp: emits_def)
qed

lemma chop_emits: "chop_frames c e fb b = (Ok fb', e') \<Longrightarrow> \<exists>cells w. fb' = fb @ w \<and> emits c e cells w e' \<and> payloads cells = b"
proof (induction c e fb b rule: chop_frames.induct)
  case (1 c e fb b)
  show ?case
  proof (cases "b = []")
    case True
    with 1(2) show ?thesis by (auto simp: chop_frames.simps intro!: exI [of _ "[]"])
  next
    case False
    with 1(2) obtain fb1 e1 where A: "append_packet c e fb PacketTypePayload (take obfs4_maxPacketPayloadLength b) 0 = (Ok fb1, e1)"
      and R: "chop_frames c e1 fb1 (drop obfs4_maxPacketPayloadLength b) = (Ok fb', e')"
      by (subst (asm) (2) chop_frames.simps) (auto split: prod.splits outcome.splits)
    from append_packet_emits [OF A] obtain w where w: "fb1 = fb @ w"
      "emits c e [(PacketTypePayload, take obfs4_maxPacketPayloadLength b, [])] w e1" by auto
    from 1(1) [OF False A [symmetric] _ R] obtain cells v where v: "fb' = fb1 @ v" "emits c e1 cells v e'"
      "payloads cells = drop obfs4_maxPacketPayloadLength b" by auto
    from emits_append [OF w(2) v(2)] v w(1) show ?thesis
      by (intro exI [of _ "(PacketTypePayload, take obfs4_maxPacketPayloadLength b, []) # cells"] exI [of _ "w @ v"]) simp
  qed
qed

lemma padBurst_emits:
  assumes "padBurst c e fb n = (Ok fb', e')"
  shows "\<exists>cells w. fb' = fb @ w \<and> emits c e cells w e' \<and> payloads cells = []"
proof -
  let ?p = "pad_length (length fb) n"
  consider "?p > obfs4_headerLength" | "0 < ?p" "?p \<le> obfs4_headerLength" | "?p = 0" by linarith
  then show ?thesis
  proof cases
    case 1
    with assms append_packet_emits show ?thesis by (fastforce simp: padBurst_def Let_def)
  next
    case 2
    with assms obtain fb1 e1 where A: "append_packet c e fb PacketTypePayload [] (of_nat obfs4_maxPacketPayloadLength) = (Ok fb1, e1)"
      and B: "append_packet c e1 fb1 PacketTypePayload [] (of_nat ?p) = (Ok fb', e')"
      by (auto simp: padBurst_def Let_def split: prod.splits outcome.splits)
    from append_packet_emits [OF A] append_packet_emits [OF B] obtain w v k l where
      "fb1 = fb @ w" "emits c e [(PacketTypePayload, [], k)] w e1" "fb' = fb1 @ v" "emits c e1 [(PacketTypePayload, [], l)] v e'" by blast
    from emits_append [OF this(2,4)] this(1,3) show ?thesis
      by (intro exI [of _ "[(PacketTypePayload, [], k), (PacketTypePayload, [], l)]"] exI [of _ "w @ v"]) simp
  next
    case 3
    with assms show ?thesis by (auto simp: padBurst_def Let_def intro!: exI [of _ "[]"])
  qed
qed

lemma write_enabled_out: "write_enabled e wr fb = (Ok u, e', out) \<Longrightarrow> concat out = fb \<and> e' = e"
proof (induction e wr fb arbitrary: out rule: write_enabled.induct)
  case (1 e wr fb)
  show ?case
  proof (cases "fb = []")
    case True
    with "1.prems" show ?thesis by (simp add: write_enabled.simps)
  next
    case False
    with "1.prems" obtain out' where "wr = [] \<or> hd wr = None" "write_enabled e (tl wr) (drop MaximumSegmentLength fb) = (Ok u, e', out')"
      "out = take MaximumSegmentLength fb # out'"
      by (subst (asm) write_enabled.simps) (auto split: list.splits option.splits prod.splits)
    moreover from this(1,2) "1.IH" [OF False] have "concat out' = drop MaximumSegmentLength fb \<and> e' = e"
      by (cases wr; cases "hd wr") auto
    ultimately show ?thesis by simp
  qed
qed

lemma write_paranoid_emits:
  "write_paranoid c e wr fb samples = Some (Ok u, e', out) \<Longrightarrow>
     \<exists>cells w. concat out = fb @ w \<and> emits c e cells w e' \<and> payloads cells = []"
proof (induction samples arbitrary: e wr fb out)
  case Nil
  then show ?case by (auto split: if_splits intro!: exI [of _ "[]"])
next
  case (Cons t samples)
  have written: "\<exists>cells w. concat out = fb1 @ w \<and> emits c e1 cells w e' \<and> payloads cells = []"
    if W: "(if t = 0 then Some (Panic, e1, []) else (case wr of Some er # ws \<Rightarrow> Some (Err (NetError er), e1, [])
        | ws \<Rightarrow> map_option (\<lambda>(r, e', out). (r, e', take t fb1 # out)) (write_paranoid c e1 (tl ws) (drop t fb1) samples))) =
        Some (Ok u, e', out)" for e1 fb1
  proof -
    from W obtain out' where "write_paranoid c e1 (tl wr) (drop t fb1) samples = Some (Ok u, e', out')" "out = take t fb1 # out'"
      by (auto split: if_splits list.splits option.splits)
    from Cons.IH [OF this(1)] this(2) show ?thesis by (metis append_assoc append_take_drop_id concat.simps(2))
  qed
  show ?case
  proof (cases "fb = []")
    case True
    with Cons.prems show ?thesis by (auto intro!: exI [of _ "[]"])
  next
    case fb: False
    show ?thesis
    proof (cases "length fb < t")
      case False
      with Cons.prems fb show ?thesis by (intro written) (simp add: Let_def)
    next
      case True
      with Cons.prems fb obtain fb1 e1 where P: "padBurst c e fb t = (Ok fb1, e1)"
        by (auto simp: Let_def split: prod.splits outcome.splits)
      from padBurst_emits [OF this] obtain ps w where w: "fb1 = fb @ w" "emits c e ps w e1" "payloads ps = []" by blast
      have "\<exists>cells v. concat out = fb1 @ v \<and> emits c e1 cells v e' \<and> payloads cells = []"
      proof (cases "length fb1 = t")
        case len: True
        with Cons.prems fb True P show ?thesis by (intro written) (simp add: Let_def)
      next
        case len: False
        with Cons.prems fb True P show ?thesis by (intro Cons.IH) (simp add: Let_def)
      qed
      then obtain qs v where "concat out = fb1 @ v" "emits c e1 qs v e'" "payloads qs = []" by blast
      with emits_append [OF w(2) this(2)] w(1,3) show ?thesis by (intro exI [of _ "ps @ qs"] exI [of _ "w @ v"]) simp
    qed
  qed
qed

lemma obfs4_Write_emits:
  assumes "obfs4_Write c wr samples e mode b = Some (Ok n, e', out)"
  shows "n = length b \<and> (\<exists>cells. emits c e cells (concat out) e' \<and> payloads cells = b)"
proof -
  from assms obtain fb e1 where C: "chop_frames c e [] b = (Ok fb, e1)"
    by (auto simp: obfs4_Write_def split: prod.splits outcome.splits)
  from chop_emits [OF this] obtain cs where cs: "emits c e cs fb e1" "payloads cs = b" by auto
  have fin: ?thesis if "n = length b" "concat out = fb @ w" "emits c e1 ps w e'" "payloads ps = []" for ps w
    using emits_append [OF cs(1) that(3)] cs(2) that by auto
  have pad: ?thesis if "padBurst c e1 fb s = (Ok fb2, e')" "concat out = fb2" "n = length b" for s fb2
    using padBurst_emits [OF that(1)] that(2,3) fin by blast
  show ?thesis
  proof (cases mode)
    case iatNone
    with assms C obtain s fb2 where "padBurst c e1 fb s = (Ok fb2, e')" "out = [fb2]" "n = length b"
      by (auto simp: obfs4_Write_def Let_def split: list.splits prod.splits outcome.splits option.splits)
    then show ?thesis using pad by simp
  next
    case iatEnabled
    with assms C obtain s fb2 e2 u where "padBurst c e1 fb s = (Ok fb2, e2)" "write_enabled e2 wr fb2 = (Ok u, e', out)" "n = length b"
      by (auto simp: obfs4_Write_def Let_def split: list.splits prod.splits outcome.splits)
    then show ?thesis using pad write_enabled_out by blast
  next
    case iatParanoid
    with assms C obtain r where W: "write_paranoid c e1 wr fb samples = Some (r, e', out)"
      and r: "(case r of Ok _ \<Rightarrow> Ok (length b) | Err er \<Rightarrow> Err er | Panic \<Rightarrow> Panic) = Ok n"
      by (auto simp: obfs4_Write_def Let_def)
    from r obtain u where "r = Ok u" "n = length b" by (cases r) auto
    with write_paranoid_emits [of c e1 wr fb samples u e' out] W fin show ?thesis by blast
  qed
qed

section \<open>Lengths and success\<close>

lemma append_packet_length:
  "link_crypto_ok c \<Longrightarrow> append_packet c e fb t d pad = (Ok fb', e') \<Longrightarrow> length fb' = length fb + 21 + length d + unat pad"
  using Encode_length [of c e MaximumSegmentLength "packet_bytes t d (replicate (unat pad) 0)"]
  by (auto simp: append_packet_def obfs4_makePacket_def split: prod.splits outcome.splits if_splits)

lemma pad_length_bounds: "n \<le> 1448 \<Longrightarrow> pad_length len n \<le> 1448"
  using mod_less_divisor [of 1448 len] by (auto simp: pad_length_def Let_def)

lemma pad_length_mod: "(len + pad_length len n) mod 1448 = n mod 1448"
proof -
  define t where "t = len mod 1448"
  have t: "1448 * (len div 1448) + t = len" "t < 1448" by (simp_all add: t_def)
  have p: "pad_length len n = (if n \<ge> t then n - t else 1448 - t + n)" by (simp add: pad_length_def Let_def t_def)
  show ?thesis
  proof (cases "n \<ge> t")
    case True
    then have "len + pad_length len n = 1448 * (len div 1448) + n" using t p by simp
    then show ?thesis by simp
  next
    case False
    then have "len + pad_length len n = n + 1448 * (len div 1448 + 1)" using t p by simp
    then show ?thesis by (simp only: mod_mult_self2)
  qed
qed

lemma padBurst_length:
  assumes "link_crypto_ok c" "padBurst c e fb n = (Ok fb', e')" "n \<le> 1448"
  shows "length fb' = length fb + (let p = pad_length (length fb) n in if p > 21 then p else if p > 0 then 1448 + 21 + p else 0)"
proof -
  let ?p = "pad_length (length fb) n"
  have p: "?p \<le> 1448" using assms(3) by (rule pad_length_bounds)
  have u: "unat (of_nat k :: u16) = k" if "k \<le> 1448" for k using that by (simp only: unat_of_nat) simp
  show ?thesis
  proof (cases "?p > 21")
    case True
    with assms(2) have "append_packet c e fb PacketTypePayload [] (of_nat (?p - 21)) = (Ok fb', e')" by (simp add: padBurst_def Let_def)
    from append_packet_length [OF assms(1) this] u [of "?p - 21"] p True show ?thesis by (simp add: Let_def)
  next
    case small: False
    show ?thesis
    proof (cases "?p > 0")
      case True
      with small assms(2) obtain fb1 e1 where A: "append_packet c e fb PacketTypePayload [] (of_nat 1427) = (Ok fb1, e1)"
        and B: "append_packet c e1 fb1 PacketTypePayload [] (of_nat ?p) = (Ok fb', e')"
        by (auto simp: padBurst_def Let_def split: prod.splits outcome.splits)
      from append_packet_length [OF assms(1) A] append_packet_length [OF assms(1) B] u [of 1427] u [of ?p] p True small
      show ?thesis by (simp add: Let_def)
    qed (use assms(2) in \<open>simp add: padBurst_def Let_def\<close>)
  qed
qed

text \<open>\<open>room e k\<close>: the nonce counter lets the encoder make \<open>k\<close> more frames.\<close>

definition room :: "encoder \<Rightarrow> nat \<Rightarrow> bool" where
  "room e k \<longleftrightarrow> k = 0 \<or> 0 < unat (counter (e_nonce e)) \<and> unat (counter (e_nonce e)) + k \<le> 2 ^ 64"

lemma room_mono: "room e k \<Longrightarrow> j \<le> k \<Longrightarrow> room e j"
  by (auto simp: room_def)

lemma append_packet_ok:
  assumes "link_crypto_ok c" "room e (Suc k)" "length d + unat pad \<le> 1427"
  shows "\<exists>fb' e'. append_packet c e fb t d pad = (Ok fb', e') \<and> room e' k"
proof -
  let ?p = "packet_bytes t d (replicate (unat pad) 0)"
  have nz: "counter (e_nonce e) \<noteq> 0" and k: "unat (counter (e_nonce e)) + Suc k \<le> 2 ^ 64"
    using assms(2) by (auto simp: room_def)
  obtain f e1 where E: "Encode c e MaximumSegmentLength ?p = (Ok f, e1)"
    using Encode_Ok_iff [OF assms(1), of e MaximumSegmentLength ?p] assms(3) nz by auto
  have "unat (counter (e_nonce e) + 1) = unat (counter (e_nonce e)) + 1" if "k \<noteq> 0"
    using k that by (simp add: unat_word_ariths(1))
  then have "room e1 k" using Encode_state [OF E] k by (auto simp: room_def)
  with E assms(3) show ?thesis by (simp add: append_packet_def obfs4_makePacket_def)
qed

lemma chop_ok:
  "link_crypto_ok c \<Longrightarrow> room e (length b + k) \<Longrightarrow> \<exists>fb' e'. chop_frames c e fb b = (Ok fb', e') \<and> room e' k"
proof (induction c e fb b rule: chop_frames.induct)
  case (1 c e fb b)
  show ?case
  proof (cases "b = []")
    case True
    with "1.prems" show ?thesis by (simp add: chop_frames.simps)
  next
    case False
    let ?rest = "drop obfs4_maxPacketPayloadLength b"
    have "Suc (length ?rest + k) \<le> length b + k" using False by (cases b) auto
    then have "room e (Suc (length ?rest + k))" using "1.prems"(2) by (rule room_mono [rotated])
    from append_packet_ok [OF "1.prems"(1) this, of "take obfs4_maxPacketPayloadLength b" 0 fb PacketTypePayload]
    obtain fb1 e1 where A: "append_packet c e fb PacketTypePayload (take obfs4_maxPacketPayloadLength b) 0 = (Ok fb1, e1)"
      and "room e1 (length ?rest + k)" by auto
    then have "\<exists>fb' e'. chop_frames c e1 fb1 ?rest = (Ok fb', e') \<and> room e' k"
      using "1.IH" [OF False A [symmetric] refl "1.prems"(1)] by simp
    with A False show ?thesis by (simp add: chop_frames.simps [of c e fb b])
  qed
qed

lemma padBurst_ok:
  assumes "link_crypto_ok c" "room e 2" "n \<le> 1448"
  shows "\<exists>fb' e'. padBurst c e fb n = (Ok fb', e')"
proof -
  let ?p = "pad_length (length fb) n"
  have p: "?p \<le> 1448" using assms(3) by (rule pad_length_bounds)
  have u: "unat (of_nat k :: u16) = k" if "k \<le> 1448" for k using that by (simp only: unat_of_nat) simp
  have A: "\<exists>fb' e'. append_packet c e fb PacketTypePayload [] (of_nat k) = (Ok fb', e') \<and> room e' 1" if "k \<le> 1427" for k
    using append_packet_ok [OF assms(1), of e 1 "[]" "of_nat k"] assms(2) u [of k] that by (simp add: numeral_2_eq_2)
  consider "?p > 21" | "0 < ?p" "?p \<le> 21" | "?p = 0" by linarith
  then show ?thesis
  proof cases
    case 1
    then have "?p - 21 \<le> 1427" using p by simp
    with A [OF this] 1 show ?thesis by (auto simp: padBurst_def Let_def)
  next
    case 2
    from A [of 1427] obtain fb1 e1 where "append_packet c e fb PacketTypePayload [] 1427 = (Ok fb1, e1)" "room e1 1" by auto
    moreover from append_packet_ok [OF assms(1), of e1 0 "[]" "of_nat ?p" fb1 PacketTypePayload] this(2) u [of ?p] 2
    have "\<exists>fb' e'. append_packet c e1 fb1 PacketTypePayload [] (of_nat ?p) = (Ok fb', e')" by auto
    ultimately show ?thesis using 2 by (auto simp: padBurst_def Let_def)
  qed (simp add: padBurst_def)
qed

lemma write_enabled_ok: "\<exists>out. write_enabled e [] fb = (Ok (), e, out)"
proof (induction e "[] :: nat option list" fb rule: write_enabled.induct)
  case (1 e fb)
  then show ?case by (subst write_enabled.simps) (cases "fb = []", auto)
qed

lemma obfs4_Write_ok:
  assumes "link_crypto_ok c" "room e (length b + 2)" "s \<le> 1448" "mode \<noteq> iatParanoid"
  shows "\<exists>n e' out. obfs4_Write c [] (s # samples) e mode b = Some (Ok n, e', out)"
proof -
  obtain fb e1 where C: "chop_frames c e [] b = (Ok fb, e1)" and "room e1 2" using chop_ok [OF assms(1,2)] by blast
  with padBurst_ok [OF assms(1) _ assms(3)] obtain fb2 e2 where "padBurst c e1 fb s = (Ok fb2, e2)" by blast
  with C assms(4) write_enabled_ok [of e2 fb2] show ?thesis by (cases mode) (auto simp: obfs4_Write_def)
qed

text \<open>In the paranoid mode a sampled length of 0 is read from the buffer as nothing, which the code takes for a bug of its
  own; the length distribution starts at 0.\<close>

lemma paranoid_zero_panics:
  assumes "chop_frames c e [] b = (Ok fb, e1)" "fb \<noteq> []"
  shows "obfs4_Write c wr (0 # samples) e iatParanoid b = Some (Panic, e1, [])"
  using assms by (simp add: obfs4_Write_def)

section \<open>Properties\<close>

text \<open>C23: Delivery of an obfs4 stream. Whatever the mode, when \<open>Write\<close> succeeds it reports the whole of \<open>b\<close>, and the peer's
  \<open>readPackets\<close> calls on what went over the network, cut into any non-empty pieces, end without an error and with exactly
  \<open>b\<close> added to the decoded data, both ends in step. Without inter-arrival times, and with the standard ones, \<open>Write\<close> does
  succeed when the network accepts the data and the nonce counter has room for the frames.\<close>

theorem obfs4_delivers:
  assumes "link_ok c e dec" "intn_ok intn" "Decoder conn = Some dec" "ReceiveBuffer conn = []"
  shows "(obfs4_Write c wr samples e mode b = Some (Ok n, e', out) \<and> concat chunks = concat out \<and> [] \<notin> set chunks \<longrightarrow>
      n = length b \<and> (\<exists>conn' dec'. read_all (obfs4_readPackets c intn) conn chunks = (Ok None, conn') \<and>
        Decoder conn' = Some dec' \<and> link_ok c e' dec' \<and> ReceiveBuffer conn' = [] \<and>
        ReceiveDecodedBuffer conn' = ReceiveDecodedBuffer conn @ b)) \<and>
    (mode \<noteq> iatParanoid \<and> wr = [] \<and> samples \<noteq> [] \<and> hd samples \<le> MaximumSegmentLength \<and>
      room e (length b + 2) \<longrightarrow> (\<exists>n e' out. obfs4_Write c wr samples e mode b = Some (Ok n, e', out)))"
proof -
  have "n = length b \<and> (\<exists>conn' dec'. read_all (obfs4_readPackets c intn) conn chunks = (Ok None, conn') \<and>
        Decoder conn' = Some dec' \<and> link_ok c e' dec' \<and> ReceiveBuffer conn' = [] \<and>
        ReceiveDecodedBuffer conn' = ReceiveDecodedBuffer conn @ b)"
    if W: "obfs4_Write c wr samples e mode b = Some (Ok n, e', out)" and ch: "concat chunks = concat out" "[] \<notin> set chunks"
  proof -
    obtain cells where cells: "emits c e cells (concat out) e'" "payloads cells = b" and n: "n = length b"
      using obfs4_Write_emits [OF W] by blast
    then have "frames.sends c MaximumSegmentLength e (wire_packets cells) (concat out) e'"
      "\<forall>(t, d, r) \<in> set cells. length d < 2 ^ 16 \<and> True" by (auto simp: emits_def)
    from obfs4.stream_delivery [OF assms(1,2) this assms(3,4) ch, of c] cells(2) n show ?thesis
      by (auto simp: obfs4_readPackets_def)
  qed
  moreover have "link_crypto_ok c" using assms(1) by (simp add: link_ok_def)
  ultimately show ?thesis using obfs4_Write_ok [of c e b "hd samples" mode "tl samples"] by auto
qed

definition demo_obfs4 :: "decoder \<Rightarrow> obfs4Conn" where
  "demo_obfs4 d = \<lparr>IsServer = False, LenDist = [], nRealSegSent = 0, nRealSegRcv = 0, ConnState = NewState,
     ReceiveBuffer = [], ReceiveDecodedBuffer = [], Encoder = None, Decoder = Some d, iatDist = None, iatMode = iatNone\<rparr>"

theorem obfs4_delivers_witness:
  "\<exists>e d n e' out conn' d'. NewEncoder (replicate 72 3) = Ok e \<and> NewDecoder (replicate 72 3) = Ok d \<and>
     obfs4_Write demo_crypto [] [700] e iatEnabled [1, 2, 3] = Some (Ok n, e', out) \<and> n = 3 \<and>
     read_all (obfs4_readPackets demo_crypto (\<lambda>_. 0)) (demo_obfs4 d) (map (\<lambda>b. [b]) (concat out)) = (Ok None, conn') \<and>
     Decoder conn' = Some d' \<and> link_ok demo_crypto e' d' \<and> ReceiveDecodedBuffer conn' = [1, 2, 3]"
proof -
  obtain e d where ed: "NewEncoder (replicate 72 3) = Ok e" "NewDecoder (replicate 72 3) = Ok d"
    "linked e d" "counter (e_nonce e) = 1" using NewEncoder_NewDecoder [of "replicate 72 3"] by auto
  then have l: "link_ok demo_crypto e d" using demo_crypto_link_ok by (simp add: link_ok_def)
  have i: "intn_ok (\<lambda>_. 0)" by (simp add: intn_ok_def)
  have D: "Decoder (demo_obfs4 d) = Some d" "ReceiveBuffer (demo_obfs4 d) = []" "ReceiveDecodedBuffer (demo_obfs4 d) = []"
    by (simp_all add: demo_obfs4_def)
  note del = obfs4_delivers [where wr = "[]" and samples = "[700]" and mode = iatEnabled and b = "[1, 2, 3]", OF l i D(1,2)]
  have "room e (length [1 :: byte, 2, 3] + 2)" using ed(4) by (simp add: room_def)
  then obtain n e' out where W: "obfs4_Write demo_crypto [] [700] e iatEnabled [1, 2, 3] = Some (Ok n, e', out)"
    using del [THEN conjunct2] by auto
  have ch: "concat (map (\<lambda>b. [b]) (concat out)) = concat out" "[] \<notin> set (map (\<lambda>b. [b]) (concat out))" by auto
  from del [THEN conjunct1, rule_format, OF conjI [OF W conjI [OF ch]]] D(3) ed W show ?thesis by fastforce
qed

text \<open>The length of a padded burst. \<open>padBurst\<close> only appends, and the burst then ends in a segment of the sampled length,
  except when that length is between 1 and 21 bytes away: the two padding packets then make the last segment the 21 bytes
  of a frame and packet header longer than sampled.\<close>

lemma obfs4_burst_length:
  assumes "link_crypto_ok c" "padBurst c e burst toPadTo = (Ok burst', e')" "toPadTo \<le> MaximumSegmentLength"
  shows "take (length burst) burst' = burst \<and> length burst' < length burst + 2 * MaximumSegmentLength \<and>
    length burst' mod MaximumSegmentLength =
     (if 0 < pad_length (length burst) toPadTo \<and> pad_length (length burst) toPadTo \<le> obfs4_headerLength
      then (toPadTo + obfs4_headerLength) mod MaximumSegmentLength else toPadTo mod MaximumSegmentLength)"
proof -
  let ?p = "pad_length (length burst) toPadTo"
  from padBurst_emits [OF assms(2)] have "take (length burst) burst' = burst" by auto
  moreover have len: "length burst' = length burst + (if ?p > 21 then ?p else if ?p > 0 then 1448 + 21 + ?p else 0)"
    using padBurst_length [OF assms(1,2)] assms(3) by (simp add: Let_def)
  moreover have "length burst' < length burst + 2 * 1448" using len pad_length_bounds [of toPadTo "length burst"] assms(3) by auto
  moreover have "length burst' mod 1448 = (if 0 < ?p \<and> ?p \<le> 21 then (toPadTo + 21) mod 1448 else toPadTo mod 1448)"
  proof (cases "0 < ?p \<and> ?p \<le> 21")
    case True
    with len have "length burst' = (length burst + ?p + 21) + 1448" by simp
    then have "length burst' mod 1448 = (length burst + ?p + 21) mod 1448" by (simp only: mod_add_self2)
    also have "\<dots> = (toPadTo + 21) mod 1448" by (rule mod_add_cong [OF pad_length_mod refl])
    finally show ?thesis using True by simp
  next
    case False
    with len have "length burst' = length burst + ?p" by auto
    with False pad_length_mod show ?thesis by auto
  qed
  ultimately show ?thesis by simp
qed

lemma obfs4_burst_length_example:
  "\<exists>e burst' e'. NewEncoder (replicate 72 3) = Ok e \<and> padBurst demo_crypto e [7, 7, 7] 13 = (Ok burst', e') \<and>
     length burst' mod MaximumSegmentLength = 34"
proof -
  obtain e where e: "NewEncoder (replicate 72 3) = Ok e" "counter (e_nonce e) = 1"
    using NewEncoder_NewDecoder [of "replicate 72 3"] by auto
  obtain burst' e' where "padBurst demo_crypto e [7, 7, 7] 13 = (Ok burst', e')"
    using padBurst_ok [OF demo_crypto_link_ok, of e 13 "[7, 7, 7]"] e(2) by (auto simp: room_def)
  with obfs4_burst_length [OF demo_crypto_link_ok this] e(1) show ?thesis by (simp add: pad_length_def)
qed

end
