(* ===== verification/UniformDH.thy ===== *)
theory UniformDH
  imports Rand
begin

text \<open>
  \<open>common/uniformdh/uniformdh.go\<close>: the UniformDH key exchange of obfs3 and ScrambleSuit over the 1536-bit group of
  RFC 3526. \<open>big.Int\<close> is \<open>nat\<close>, its \<open>Exp\<close> with a modulus is square and multiply. The theorem is the agreement of the two
  ends, whichever of \<open>X\<close> and \<open>p - X\<close> each of them publishes.
\<close>

section \<open>Numbers\<close>

text \<open>\<open>big.Int.Exp(x, y, m)\<close> for \<open>m > 0\<close>; \<open>SetBytes\<close> is \<open>nat_of_be\<close>, \<open>Bytes\<close> has no leading zeros.\<close>

function big_Exp :: "nat \<Rightarrow> nat \<Rightarrow> nat \<Rightarrow> nat" where
  "big_Exp x y m =
    (if y = 0 then 1 mod m
     else let h = big_Exp (x * x mod m) (y div 2) m in if even y then h else x * h mod m)"
  by auto
termination by (relation "measure (\<lambda>(x, y, m). y)") auto

declare big_Exp.simps [simp del]

function big_Bytes :: "nat \<Rightarrow> bytes" where
  "big_Bytes n = (if n = 0 then [] else big_Bytes (n div 256) @ [of_nat n])"
  by auto
termination by (relation "measure id") auto

declare big_Bytes.simps [simp del]

lemma big_Exp_power: "big_Exp x y m = x ^ y mod m"
proof (induction x y m rule: big_Exp.induct)
  case (1 x y m)
  show ?case
  proof (cases "y = 0")
    case False
    have sq: "(x * x mod m) ^ (y div 2) mod m = (x * x) ^ (y div 2) mod m" by (rule power_mod)
    have "x ^ y = (if even y then (x * x) ^ (y div 2) else x * (x * x) ^ (y div 2))"
      by (auto simp: power_mult power2_eq_square elim!: oddE)
    with False 1 sq show ?thesis by (subst big_Exp.simps) (simp add: Let_def mod_mult_right_eq)
  qed (simp add: big_Exp.simps)
qed

lemma nat_of_be_big_Bytes [simp]: "nat_of_be (big_Bytes n) = n"
  by (induction n rule: big_Bytes.induct) (subst big_Bytes.simps, auto)

lemma length_big_Bytes: "n < 256 ^ k \<Longrightarrow> length (big_Bytes n) \<le> k"
proof (induction n arbitrary: k rule: big_Bytes.induct)
  case (1 n)
  show ?case
  proof (cases "n = 0")
    case False
    with 1(2) obtain j where k: "k = Suc j" by (cases k) auto
    with 1(2) have "n div 256 < 256 ^ j" by (simp add: less_mult_imp_div_less mult.commute)
    from 1(1) [OF False this] False k show ?thesis by (subst big_Bytes.simps) simp
  qed (simp add: big_Bytes.simps)
qed

lemma nat_of_be_zeros [simp]: "nat_of_be (replicate k 0 @ bs) = nat_of_be bs"
proof (induction bs rule: rev_induct)
  case Nil
  show ?case
  proof (induction k)
    case (Suc k)
    then show ?case by (simp add: replicate_append_same [symmetric])
  qed simp
next
  case (snoc b bs)
  then show ?case by (simp flip: append_assoc)
qed

section \<open>Keys\<close>

definition udh_Size :: nat where [simp]: "udh_Size = 1536 div 8"

definition modpGroup :: nat where
  "modpGroup = 0xFFFFFFFFFFFFFFFFC90FDAA22168C234C4C6628B80DC1CD129024E088A67CC74020BBEA63B139B22514A08798E3404DDEF9519B3CD3A431B302B0A6DF25F14374FE1356D6D51C245E485B576625E7EC6F44C42E9A637ED6B0BFF5CB6F406B7EDEE386BFB5A899FA5AE9F24117C4B1FE649286651ECE45B3DC2007CB8A163BF0598DA48361C55D39A69163FA8FD24CF5F83655D23DCA3AD961C62F356208552BB9ED529077096966D670C354E4ABC9804F1746C08CA237327FFFFFFFFFFFFFFFF"

definition gen :: nat where "gen = 2"

datatype udh_error = NotInitialized | PubKeyLength nat | PrivKeySize nat | SrcTooLong int | UdhRand nat

text \<open>A zero value has no bytes and a nil number.\<close>

record udh_PublicKey =
  udh_bytes :: bytes
  udh_publicKey :: "nat option"

record udh_PrivateKey =
  udh_pub :: udh_PublicKey
  udh_privateKey :: nat

definition udh_Bytes :: "udh_PublicKey \<Rightarrow> (udh_error, bytes) outcome" where
  "udh_Bytes pub = (if length (udh_bytes pub) \<noteq> udh_Size then Err NotInitialized
     else Ok (go_copy (replicate udh_Size 0) (udh_bytes pub)))"

definition udh_SetBytes :: "bytes \<Rightarrow> (udh_error, udh_PublicKey) outcome" where
  "udh_SetBytes pubBytes = (if length pubBytes \<noteq> udh_Size then Err (PubKeyLength (length pubBytes))
     else let b = go_copy (replicate udh_Size 0) pubBytes in Ok \<lparr>udh_bytes = b, udh_publicKey = Some (nat_of_be b)\<rparr>)"

definition prependZeroBytes :: "nat \<Rightarrow> bytes \<Rightarrow> (udh_error, bytes) outcome" where
  "prependZeroBytes dst src = (if dst < length src then Err (SrcTooLong (int dst - int (length src)))
     else Ok (replicate (dst - length src) 0 @ src))"

definition generateKey :: "bytes \<Rightarrow> (udh_error, udh_PrivateKey) outcome" where
  "generateKey privBytes =
    (if length privBytes \<noteq> udh_Size then Err (PrivKeySize (length privBytes))
     else let privBn = nat_of_be privBytes; wasEven = even privBn; privBn = privBn - privBn mod 2;
              pubBn = big_Exp gen privBn modpGroup; pubAlt = modpGroup - pubBn
          in and_then (prependZeroBytes udh_Size (big_Bytes (if wasEven then pubBn else pubAlt)))
               (\<lambda>pubBytes. Ok \<lparr>udh_pub = \<lparr>udh_bytes = pubBytes, udh_publicKey = Some pubBn\<rparr>, udh_privateKey = privBn\<rparr>))"

definition GenerateKey :: "nat entropy \<Rightarrow> (udh_error, udh_PrivateKey) outcome" where
  "GenerateKey random = (case random udh_Size of Err e \<Rightarrow> Err (UdhRand e) | Panic \<Rightarrow> Panic | Ok b \<Rightarrow> generateKey b)"

definition udh_Handshake :: "udh_PrivateKey \<Rightarrow> udh_PublicKey \<Rightarrow> (udh_error, bytes) outcome" where
  "udh_Handshake privateKey publicKey =
    (case udh_publicKey publicKey of None \<Rightarrow> Panic
     | Some k \<Rightarrow> prependZeroBytes udh_Size (big_Bytes (big_Exp k (udh_privateKey privateKey) modpGroup)))"

section \<open>Agreement\<close>

lemma modp_bounds: "2 < modpGroup" "modpGroup < 256 ^ 192"
  by (simp_all add: modpGroup_def)

lemma prepend_Ok:
  "n < 256 ^ k \<Longrightarrow> \<exists>b. prependZeroBytes k (big_Bytes n) = Ok b \<and> length b = k \<and> nat_of_be b = n"
  using length_big_Bytes [of n k] by (simp add: prependZeroBytes_def not_less)

lemma even_power_neg: "even y \<Longrightarrow> (m - x) ^ y mod m = x ^ y mod m" if "x \<le> m" for m x y :: nat
proof -
  assume "even y"
  then obtain k where y: "y = 2 * k" by blast
  have "int ((m - x) ^ 2) mod int m = int (x ^ 2) mod int m"
  proof -
    have "int ((m - x) ^ 2) - int (x ^ 2) = int m * (int m - 2 * int x)"
      unfolding of_nat_power of_nat_diff [OF that] by (simp add: power2_eq_square algebra_simps)
    then show ?thesis by (simp only: mod_eq_dvd_iff) simp
  qed
  then have "(m - x) ^ 2 mod m = x ^ 2 mod m" by (simp only: of_nat_mod [symmetric] of_nat_eq_iff)
  then show ?thesis unfolding y power_mult by (metis power_mod)
qed

text \<open>Everything that is sent is the generator to the power of the private key, or its negative.\<close>

lemma generateKey_facts:
  assumes "length raw = udh_Size"
  shows "\<exists>k x. generateKey raw = Ok k \<and> length (udh_bytes (udh_pub k)) = udh_Size \<and> udh_privateKey k = x \<and> even x \<and>
    (nat_of_be (udh_bytes (udh_pub k)) = gen ^ x mod modpGroup \<or>
     nat_of_be (udh_bytes (udh_pub k)) = modpGroup - gen ^ x mod modpGroup)"
proof -
  define x where "x = nat_of_be raw - nat_of_be raw mod 2"
  let ?X = "big_Exp gen x modpGroup"
  have X: "?X < modpGroup" using modp_bounds by (simp add: big_Exp_power)
  then have "(if even (nat_of_be raw) then ?X else modpGroup - ?X) < 256 ^ 192"
    using modp_bounds by (simp add: less_imp_diff_less)
  from prepend_Ok [OF this] obtain b where b: "prependZeroBytes 192 (big_Bytes (if even (nat_of_be raw) then ?X else modpGroup - ?X)) = Ok b"
    "length b = 192" "nat_of_be b = (if even (nat_of_be raw) then ?X else modpGroup - ?X)" by blast
  have "even x" by (simp add: x_def)
  moreover have "generateKey raw = Ok \<lparr>udh_pub = \<lparr>udh_bytes = b, udh_publicKey = Some ?X\<rparr>, udh_privateKey = x\<rparr>"
    using assms b(1) unfolding generateKey_def Let_def x_def [symmetric] by simp
  ultimately show ?thesis using b(2,3) by (simp add: big_Exp_power)
qed

lemma shared_power:
  assumes "even x" "even y" "a = gen ^ x mod modpGroup \<or> a = modpGroup - gen ^ x mod modpGroup"
  shows "big_Exp a y modpGroup = gen ^ (x * y) mod modpGroup"
proof -
  have "gen ^ x mod modpGroup \<le> modpGroup" using modp_bounds by (simp add: less_imp_le)
  from even_power_neg [OF this assms(2)] assms(3) have "a ^ y mod modpGroup = (gen ^ x mod modpGroup) ^ y mod modpGroup" by auto
  also have "\<dots> = gen ^ (x * y) mod modpGroup" by (simp add: power_mod power_mult)
  finally show ?thesis by (simp add: big_Exp_power)
qed

lemma uniformdh_keys:
  assumes "length rawA = udh_Size" "length rawB = udh_Size"
  shows "\<exists>ka kb bytesA bytesB pubA pubB secret.
    generateKey rawA = Ok ka \<and> udh_Bytes (udh_pub ka) = Ok bytesA \<and> udh_SetBytes bytesA = Ok pubA \<and>
    generateKey rawB = Ok kb \<and> udh_Bytes (udh_pub kb) = Ok bytesB \<and> udh_SetBytes bytesB = Ok pubB \<and>
    udh_Handshake ka pubB = Ok secret \<and> udh_Handshake kb pubA = Ok secret \<and> length secret = udh_Size"
proof -
  let ?p = "modpGroup"
  obtain ka x where A: "generateKey rawA = Ok ka" "length (udh_bytes (udh_pub ka)) = 192" "udh_privateKey ka = x" "even x"
    "nat_of_be (udh_bytes (udh_pub ka)) = gen ^ x mod ?p \<or> nat_of_be (udh_bytes (udh_pub ka)) = ?p - gen ^ x mod ?p"
    using generateKey_facts [OF assms(1)] by auto
  obtain kb y where B: "generateKey rawB = Ok kb" "length (udh_bytes (udh_pub kb)) = 192" "udh_privateKey kb = y" "even y"
    "nat_of_be (udh_bytes (udh_pub kb)) = gen ^ y mod ?p \<or> nat_of_be (udh_bytes (udh_pub kb)) = ?p - gen ^ y mod ?p"
    using generateKey_facts [OF assms(2)] by auto
  have "gen ^ (x * y) mod ?p < 256 ^ 192" using modp_bounds by (meson less_trans mod_less_divisor zero_less_numeral)
  from prepend_Ok [OF this] obtain s where s: "prependZeroBytes 192 (big_Bytes (gen ^ (x * y) mod ?p)) = Ok s" "length s = 192"
    by blast
  from s A B shared_power [OF A(4) B(4) A(5)] shared_power [OF B(4) A(4) B(5)] show ?thesis
    by (simp add: udh_Bytes_def udh_SetBytes_def udh_Handshake_def Let_def mult.commute)
qed

text \<open>C34: UniformDH agrees and never fails. From any 192 bytes of entropy each end gets a key pair, whose public key has 192
  bytes that the peer accepts; and the two ends, each from its private key and the bytes of the other, compute the same
  192-byte secret, whether the other end published \<open>X\<close> or \<open>p - X\<close>.\<close>

theorem uniformdh_agreement:
  assumes "length rawA = udh_Size" "length rawB = udh_Size"
  shows "\<exists>ka kb bytesA bytesB pubA pubB secret.
    generateKey rawA = Ok ka \<and> udh_Bytes (udh_pub ka) = Ok bytesA \<and> udh_SetBytes bytesA = Ok pubA \<and>
    generateKey rawB = Ok kb \<and> udh_Bytes (udh_pub kb) = Ok bytesB \<and> udh_SetBytes bytesB = Ok pubB \<and>
    udh_Handshake ka pubB = Ok secret \<and> udh_Handshake kb pubA = Ok secret \<and> length secret = udh_Size"
  by (rule uniformdh_keys [OF assms])

theorem uniformdh_agreement_witness:
  "\<exists>ka kb bytesA bytesB pubA pubB secret.
     generateKey (replicate 192 3) = Ok ka \<and> udh_Bytes (udh_pub ka) = Ok bytesA \<and> udh_SetBytes bytesA = Ok pubA \<and>
     generateKey (replicate 192 4) = Ok kb \<and> udh_Bytes (udh_pub kb) = Ok bytesB \<and> udh_SetBytes bytesB = Ok pubB \<and>
     udh_Handshake ka pubB = Ok secret \<and> udh_Handshake kb pubA = Ok secret \<and> length secret = udh_Size"
  by (rule uniformdh_agreement) simp_all

end
