(* ===== verification/Obfs3.thy ===== *)
theory Obfs3
  imports UniformDH Session
begin

text \<open>
  \<open>transports/obfs3/obfs3.go\<close>: the UniformDH handshake, the key derivation, the search for the peer's magic value, \<open>Read\<close>
  and \<open>Write\<close>. The key stream of AES in counter mode is a parameter \<open>ctr\<close> (key, initial counter, position). The network is
  the list of what arrives; a \<open>Read\<close> with a smaller buffer leaves the rest.
\<close>

section \<open>Reading from the network\<close>

text \<open>Network errors are numbers, \<open>io.EOF\<close> is one of them.\<close>

definition io_EOF :: nat where "io_EOF = 0"

datatype obfs3_error = O3Net nat | O3UnexpectedEOF | O3Rand nat | O3Udh udh_error | O3KeySize nat | O3Msg string

definition net_read :: "nat \<Rightarrow> net_reads \<Rightarrow> ((obfs3_error, bytes) outcome \<times> net_reads) option" where
  "net_read n reads =
    (case reads of [] \<Rightarrow> None
     | Ok chunk # rs \<Rightarrow> Some (if length chunk \<le> n then (Ok chunk, rs) else (Ok (take n chunk), Ok (drop n chunk) # rs))
     | Err e # rs \<Rightarrow> Some (Err (O3Net e), rs)
     | Panic # rs \<Rightarrow> Some (Panic, rs))"

fun ReadFull :: "nat \<Rightarrow> bytes \<Rightarrow> net_reads \<Rightarrow> ((obfs3_error, bytes) outcome \<times> net_reads) option" where
  "ReadFull n got [] = (if n \<le> length got then Some (Ok got, []) else None)"
| "ReadFull n got (r # rs) =
    (if n \<le> length got then Some (Ok got, r # rs)
     else (case r of
         Ok chunk \<Rightarrow>
           (let m = n - length got
            in if length chunk \<le> m then ReadFull n (got @ chunk) rs
               else Some (Ok (got @ take m chunk), Ok (drop m chunk) # rs))
       | Err e \<Rightarrow> Some (Err (if e = io_EOF \<and> got \<noteq> [] then O3UnexpectedEOF else O3Net e), rs)
       | Panic \<Rightarrow> Some (Panic, rs)))"

section \<open>Streams\<close>

type_synonym keystream = "bytes \<Rightarrow> bytes \<Rightarrow> nat \<Rightarrow> byte"

record stream =
  ks_key :: bytes
  ks_counter :: bytes
  ks_pos :: nat

definition XORKeyStream :: "keystream \<Rightarrow> stream \<Rightarrow> bytes \<Rightarrow> bytes \<times> stream" where
  "XORKeyStream ctr st src =
    (map (\<lambda>i. src ! i XOR ctr (ks_key st) (ks_counter st) (ks_pos st + i)) [0..<length src],
     st\<lparr>ks_pos := ks_pos st + length src\<rparr>)"

text \<open>\<open>aes.NewCipher\<close> and \<open>cipher.NewCTR\<close>, which panics on an initial counter of the wrong length.\<close>

definition new_stream :: "bytes \<Rightarrow> bytes \<Rightarrow> (obfs3_error, stream) outcome" where
  "new_stream key iv =
    (if length key \<notin> {16, 24, 32} then Err (O3KeySize (length key))
     else if length iv \<noteq> 16 then Panic
     else Ok \<lparr>ks_key = key, ks_counter = iv, ks_pos = 0\<rparr>)"

section \<open>Connections\<close>

definition initiatorKdfString :: bytes where "initiatorKdfString = bytes_of_string ''Initiator obfuscated data''"
definition responderKdfString :: bytes where "responderKdfString = bytes_of_string ''Responder obfuscated data''"
definition initiatorMagicString :: bytes where "initiatorMagicString = bytes_of_string ''Initiator magic''"
definition responderMagicString :: bytes where "responderMagicString = bytes_of_string ''Responder magic''"
definition obfs3_maxPadding :: nat where [simp]: "obfs3_maxPadding = 8194"
definition obfs3_keyLen :: nat where [simp]: "obfs3_keyLen = 16"
definition sha256_Size :: nat where [simp]: "sha256_Size = 32"

text \<open>\<open>rx.R\<close> is \<open>rxBuf\<close> while that is not nil, and the network afterwards.\<close>

record obfs3Conn =
  isInitiator :: bool
  rxMagic :: "bytes option"
  txMagic :: "bytes option"
  rxBuf :: "bytes option"
  o3_rx :: "stream option"
  o3_tx :: "stream option"
  o3_closed :: bool

definition obfs3_kdf :: "crypto \<Rightarrow> bytes \<Rightarrow> obfs3Conn \<Rightarrow> (obfs3_error, obfs3Conn) outcome" where
  "obfs3_kdf c sharedSecret conn =
    (let initSecret = hmac256 c sharedSecret initiatorKdfString; initMagic = hmac256 c sharedSecret initiatorMagicString;
         respSecret = hmac256 c sharedSecret responderKdfString; respMagic = hmac256 c sharedSecret responderMagicString
     in if length initSecret < obfs3_keyLen \<or> length respSecret < obfs3_keyLen then Panic
        else and_then (new_stream (take obfs3_keyLen initSecret) (drop obfs3_keyLen initSecret)) (\<lambda>initStream.
          and_then (new_stream (take obfs3_keyLen respSecret) (drop obfs3_keyLen respSecret)) (\<lambda>respStream.
            Ok (if isInitiator conn
              then conn\<lparr>o3_tx := Some initStream, o3_rx := Some respStream, txMagic := Some initMagic, rxMagic := Some respMagic\<rparr>
              else conn\<lparr>o3_tx := Some respStream, o3_rx := Some initStream, txMagic := Some respMagic, rxMagic := Some initMagic\<rparr>))))"

definition lift_udh :: "(udh_error, 'a) outcome \<Rightarrow> (obfs3_error, 'a) outcome" where
  "lift_udh r = (case r of Ok x \<Rightarrow> Ok x | Err e \<Rightarrow> Err (O3Udh e) | Panic \<Rightarrow> Panic)"

text \<open>What is sent first: the public key and padding. \<open>rk\<close> and \<open>rp\<close> are the entropy for the key and for the padding.\<close>

definition obfs3_hello :: "(int \<Rightarrow> int) \<Rightarrow> nat entropy \<Rightarrow> nat entropy \<Rightarrow> (obfs3_error, udh_PrivateKey \<times> bytes) outcome" where
  "obfs3_hello intn rk rp =
    and_then (lift_udh (GenerateKey rk)) (\<lambda>privateKey.
    and_then (IntRange intn 0 (int obfs3_maxPadding div 2)) (\<lambda>padLen.
    and_then (lift_udh (udh_Bytes (udh_pub privateKey))) (\<lambda>publicKey.
      (case csrand_Bytes rp (nat padLen) of Err e \<Rightarrow> Err (O3Rand e) | Panic \<Rightarrow> Panic
       | Ok pad \<Rightarrow> Ok (privateKey, publicKey @ pad)))))"

definition obfs3_handshake :: "crypto \<Rightarrow> (int \<Rightarrow> int) \<Rightarrow> nat entropy \<Rightarrow> nat entropy \<Rightarrow> nat option \<Rightarrow> net_reads \<Rightarrow> obfs3Conn \<Rightarrow>
    bytes \<times> ((obfs3_error, obfs3Conn) outcome \<times> net_reads) option" where
  "obfs3_handshake c intn rk rp wr reads conn =
    (case obfs3_hello intn rk rp of
       Err e \<Rightarrow> ([], Some (Err e, reads)) | Panic \<Rightarrow> ([], Some (Panic, reads))
     | Ok (privateKey, blob) \<Rightarrow>
        (case wr of Some e \<Rightarrow> ([], Some (Err (O3Net e), reads))
         | None \<Rightarrow>
            (blob, map_option (\<lambda>(r, rs).
               (and_then r (\<lambda>rawPeerPublicKey.
                and_then (lift_udh (udh_SetBytes rawPeerPublicKey)) (\<lambda>peerPublicKey.
                and_then (lift_udh (udh_Handshake privateKey peerPublicKey)) (\<lambda>sharedSecret.
                  obfs3_kdf c sharedSecret conn))), rs)) (ReadFull udh_Size [] reads))))"

definition new_obfs3 :: "bool \<Rightarrow> obfs3Conn" where
  "new_obfs3 initiator = \<lparr>isInitiator = initiator, rxMagic = None, txMagic = None, rxBuf = Some [], o3_rx = None, o3_tx = None,
     o3_closed = False\<rparr>"

text \<open>\<open>newObfs3ClientConn\<close> and \<open>newObfs3ServerConn\<close>; \<open>dl1\<close> and \<open>dl2\<close> are the errors of the two \<open>SetDeadline\<close> calls.\<close>

definition newObfs3Conn :: "bool \<Rightarrow> crypto \<Rightarrow> (int \<Rightarrow> int) \<Rightarrow> nat entropy \<Rightarrow> nat entropy \<Rightarrow> nat option \<Rightarrow> nat option \<Rightarrow> nat option \<Rightarrow>
    net_reads \<Rightarrow> bytes \<times> ((obfs3_error, obfs3Conn) outcome \<times> net_reads) option" where
  "newObfs3Conn initiator c intn rk rp dl1 dl2 wr reads =
    (case dl1 of Some e \<Rightarrow> ([], Some (Err (O3Net e), reads))
     | None \<Rightarrow>
        (case obfs3_handshake c intn rk rp wr reads (new_obfs3 initiator) of
           (out, Some (Ok conn, rs)) \<Rightarrow> (out, Some (case dl2 of Some e \<Rightarrow> Err (O3Net e) | None \<Rightarrow> Ok conn, rs))
         | r \<Rightarrow> r))"

definition newObfs3ClientConn :: "crypto \<Rightarrow> (int \<Rightarrow> int) \<Rightarrow> nat entropy \<Rightarrow> nat entropy \<Rightarrow> nat option \<Rightarrow> nat option \<Rightarrow> nat option \<Rightarrow>
    net_reads \<Rightarrow> bytes \<times> ((obfs3_error, obfs3Conn) outcome \<times> net_reads) option" where
  "newObfs3ClientConn = newObfs3Conn True"

definition newObfs3ServerConn :: "crypto \<Rightarrow> (int \<Rightarrow> int) \<Rightarrow> nat entropy \<Rightarrow> nat entropy \<Rightarrow> nat option \<Rightarrow> nat option \<Rightarrow> nat option \<Rightarrow>
    net_reads \<Rightarrow> bytes \<times> ((obfs3_error, obfs3Conn) outcome \<times> net_reads) option" where
  "newObfs3ServerConn = newObfs3Conn False"

text \<open>\<open>Dial\<close>: the last component tells whether the dialled connection was closed again.\<close>

definition obfs3_Dial :: "crypto \<Rightarrow> (int \<Rightarrow> int) \<Rightarrow> nat entropy \<Rightarrow> nat entropy \<Rightarrow> nat option \<Rightarrow> nat option \<Rightarrow> nat option \<Rightarrow>
    (nat, net_reads) outcome \<Rightarrow> ((obfs3_error, obfs3Conn) outcome \<times> bool) option" where
  "obfs3_Dial c intn rk rp dl1 dl2 wr dial =
    (case dial of
       Err e \<Rightarrow> Some (Err (O3Net e), False) | Panic \<Rightarrow> Some (Panic, False)
     | Ok reads \<Rightarrow> map_option (\<lambda>(r, _). (r, case r of Err _ \<Rightarrow> True | _ \<Rightarrow> False))
         (snd (newObfs3ClientConn c intn rk rp dl1 dl2 wr reads)))"

section \<open>Data\<close>

definition load :: "net_reads \<Rightarrow> nat" where
  "load reads = sum_list (map (\<lambda>r. case r of Ok b \<Rightarrow> Suc (length b) | _ \<Rightarrow> 1) reads)"

lemma net_read_load: "net_read n rs = Some (Ok d, rs') \<Longrightarrow> 0 < n \<Longrightarrow> load rs' < load rs"
  by (auto simp: net_read_def load_def split: list.splits outcome.splits if_splits)

function findPeerMagic :: "bytes \<Rightarrow> bytes \<Rightarrow> net_reads \<Rightarrow> ((obfs3_error, unit) outcome \<times> bytes \<times> net_reads) option" where
  "findPeerMagic magic buf reads =
    (case net_read (obfs3_maxPadding + sha256_Size) reads of
       None \<Rightarrow> None
     | Some (Err e, rs) \<Rightarrow> Some (Err e, buf, rs)
     | Some (Panic, rs) \<Rightarrow> Some (Panic, buf, rs)
     | Some (Ok d, rs) \<Rightarrow>
        (let buf' = buf @ d
         in (case bytes_Index buf' magic of
               None \<Rightarrow> if length buf' \<ge> obfs3_maxPadding + sha256_Size
                       then Some (Err (O3Msg ''failed to find peer magic value''), buf', rs)
                       else findPeerMagic magic buf' rs
             | Some pos \<Rightarrow> if pos > obfs3_maxPadding
                       then Some (Err (O3Msg ''peer sent too much pre-magic-padding''), buf', rs)
                       else Some (Ok (), drop (pos + length magic) buf', rs))))"
  by auto
termination by (relation "measure (\<lambda>(m, b, rs). load rs)") (auto dest: net_read_load)

declare findPeerMagic.simps [simp del]

text \<open>The end of \<open>Read\<close>: the cipher stream, from the buffer of the handshake or from the network.\<close>

definition stream_read :: "keystream \<Rightarrow> nat \<Rightarrow> net_reads \<Rightarrow> obfs3Conn \<Rightarrow> ((obfs3_error, bytes) outcome \<times> net_reads \<times> obfs3Conn) option" where
  "stream_read ctr n reads conn =
    (case o3_rx conn of None \<Rightarrow> Some (Panic, reads, conn)
     | Some st \<Rightarrow>
        (case rxBuf conn of
           Some b \<Rightarrow>
             (case buf_read b n of
                (Ok d, b') \<Rightarrow> (let (p, st') = XORKeyStream ctr st d
                              in Some (Ok p, reads, conn\<lparr>rxBuf := Some b', o3_rx := Some st'\<rparr>))
              | (Err e, b') \<Rightarrow> Some (Err (O3Net io_EOF), reads, conn\<lparr>rxBuf := Some b'\<rparr>)
              | (Panic, b') \<Rightarrow> Some (Panic, reads, conn))
         | None \<Rightarrow>
             (case net_read n reads of
                None \<Rightarrow> None
              | Some (Ok d, rs) \<Rightarrow> (let (p, st') = XORKeyStream ctr st d in Some (Ok p, rs, conn\<lparr>o3_rx := Some st'\<rparr>))
              | Some (Err e, rs) \<Rightarrow> Some (Err e, rs, conn)
              | Some (Panic, rs) \<Rightarrow> Some (Panic, rs, conn))))"

definition obfs3_Read :: "keystream \<Rightarrow> nat \<Rightarrow> net_reads \<Rightarrow> obfs3Conn \<Rightarrow> ((obfs3_error, bytes) outcome \<times> net_reads \<times> obfs3Conn) option" where
  "obfs3_Read ctr n reads conn =
    (let tail = (\<lambda>rs conn. stream_read ctr n rs (if rxBuf conn = Some [] then conn\<lparr>rxBuf := None\<rparr> else conn))
     in (case rxMagic conn of
           None \<Rightarrow> tail reads conn
         | Some magic \<Rightarrow>
            (case rxBuf conn of
               None \<Rightarrow> Some (Panic, reads, conn)
             | Some buf \<Rightarrow>
                (case findPeerMagic magic buf reads of
                   None \<Rightarrow> None
                 | Some (Ok _, buf', rs) \<Rightarrow> tail rs (conn\<lparr>rxBuf := Some buf', rxMagic := None\<rparr>)
                 | Some (Err e, buf', rs) \<Rightarrow> Some (Err e, rs, conn\<lparr>rxBuf := Some buf', o3_closed := True\<rparr>)
                 | Some (Panic, buf', rs) \<Rightarrow> Some (Panic, rs, conn\<lparr>rxBuf := Some buf'\<rparr>)))))"

text \<open>\<open>Write\<close>: the bytes written, and how many of \<open>b\<close>. \<open>wr1\<close> and \<open>wr2\<close> are the errors of the two writes.\<close>

definition stream_write :: "keystream \<Rightarrow> nat option \<Rightarrow> bytes \<Rightarrow> obfs3Conn \<Rightarrow> bytes \<times> (obfs3_error, nat) outcome \<times> obfs3Conn" where
  "stream_write ctr wr b conn =
    (case o3_tx conn of None \<Rightarrow> ([], Panic, conn)
     | Some st \<Rightarrow>
        (let (p, st') = XORKeyStream ctr st b; conn' = conn\<lparr>o3_tx := Some st'\<rparr>
         in case wr of Some e \<Rightarrow> ([], Err (O3Net e), conn') | None \<Rightarrow> (p, Ok (length b), conn')))"

definition obfs3_Write :: "keystream \<Rightarrow> (int \<Rightarrow> int) \<Rightarrow> nat entropy \<Rightarrow> nat option \<Rightarrow> nat option \<Rightarrow> bytes \<Rightarrow> obfs3Conn \<Rightarrow>
    bytes \<times> (obfs3_error, nat) outcome \<times> obfs3Conn" where
  "obfs3_Write ctr intn rp wr1 wr2 b conn =
    (case txMagic conn of
       None \<Rightarrow> stream_write ctr wr2 b conn
     | Some magic \<Rightarrow>
        (case IntRange intn 0 (int obfs3_maxPadding div 2) of
           Err e \<Rightarrow> ([], Err e, conn) | Panic \<Rightarrow> ([], Panic, conn)
         | Ok padLen \<Rightarrow>
            (case csrand_Bytes rp (nat padLen) of
               Err e \<Rightarrow> ([], Err (O3Rand e), conn\<lparr>o3_closed := True\<rparr>) | Panic \<Rightarrow> ([], Panic, conn)
             | Ok pad \<Rightarrow>
                (case wr1 of
                   Some e \<Rightarrow> ([], Err (O3Net e), conn\<lparr>o3_closed := True\<rparr>)
                 | None \<Rightarrow>
                    (let (out, r, conn') = stream_write ctr wr2 b (conn\<lparr>txMagic := None\<rparr>)
                     in (pad @ magic @ out, r, conn'))))))"

text \<open>A sequence of writes, and a sequence of reads with buffers of the given sizes.\<close>

fun obfs3_writes :: "keystream \<Rightarrow> (int \<Rightarrow> int) \<Rightarrow> nat entropy \<Rightarrow> bytes list \<Rightarrow> obfs3Conn \<Rightarrow>
    bytes \<times> (obfs3_error, nat) outcome \<times> obfs3Conn" where
  "obfs3_writes ctr intn rp [] conn = ([], Ok 0, conn)"
| "obfs3_writes ctr intn rp (w # ws) conn =
    (case obfs3_Write ctr intn rp None None w conn of
       (out, Ok n, conn1) \<Rightarrow>
         (case obfs3_writes ctr intn rp ws conn1 of (out', r, conn2) \<Rightarrow> (out @ out', and_then r (\<lambda>m. Ok (n + m)), conn2))
     | r \<Rightarrow> r)"

fun obfs3_reads :: "keystream \<Rightarrow> nat list \<Rightarrow> net_reads \<Rightarrow> obfs3Conn \<Rightarrow> ((obfs3_error, bytes) outcome \<times> net_reads \<times> obfs3Conn) option" where
  "obfs3_reads ctr [] reads conn = Some (Ok [], reads, conn)"
| "obfs3_reads ctr (n # ns) reads conn =
    (case obfs3_Read ctr n reads conn of
       Some (Ok d, rs, conn1) \<Rightarrow> map_option (\<lambda>(r, x). (and_then r (\<lambda>d'. Ok (d @ d')), x)) (obfs3_reads ctr ns rs conn1)
     | r \<Rightarrow> r)"

section \<open>Streams and pieces\<close>

lemma length_XOR [simp]: "length (fst (XORKeyStream ctr st b)) = length b"
  by (simp add: XORKeyStream_def)

lemma XOR_append:
  "fst (XORKeyStream ctr st (a @ b)) = fst (XORKeyStream ctr st a) @ fst (XORKeyStream ctr (snd (XORKeyStream ctr st a)) b)"
  "snd (XORKeyStream ctr st (a @ b)) = snd (XORKeyStream ctr (snd (XORKeyStream ctr st a)) b)"
  by (auto simp: XORKeyStream_def nth_append add.assoc intro!: nth_equalityI)

lemma XOR_Nil [simp]: "XORKeyStream ctr st [] = ([], st)"
  by (simp add: XORKeyStream_def)

lemma XOR_inverse [simp]: "fst (XORKeyStream ctr st (fst (XORKeyStream ctr st b))) = b"
  by (auto simp: XORKeyStream_def xor.assoc intro!: nth_equalityI)

lemma net_read_chunks:
  assumes "chunks \<noteq> []" "[] \<notin> set chunks" "0 < n"
  shows "\<exists>d rest. net_read n (map Ok chunks) = Some (Ok d, map Ok rest) \<and> d @ concat rest = concat chunks \<and>
    [] \<notin> set rest \<and> d \<noteq> [] \<and> length d \<le> n"
proof -
  obtain ch cs where c: "chunks = ch # cs" using assms(1) by (cases chunks) auto
  show ?thesis
  proof (cases "length ch \<le> n")
    case True
    with c assms show ?thesis by (auto simp: net_read_def)
  next
    case False
    then have "net_read n (map Ok chunks) = Some (Ok (take n ch), map Ok (drop n ch # cs))" using c by (simp add: net_read_def)
    moreover have "take n ch @ concat (drop n ch # cs) = concat chunks" "[] \<notin> set (drop n ch # cs)" "take n ch \<noteq> []"
      "length (take n ch) \<le> n" using False c assms by auto
    ultimately show ?thesis by blast
  qed
qed

lemma ReadFull_chunks:
  assumes "n \<le> length (got @ concat chunks)" "length got \<le> n" "[] \<notin> set chunks"
  shows "\<exists>rest. ReadFull n got (map Ok chunks) = Some (Ok (take n (got @ concat chunks)), map Ok rest) \<and>
    concat rest = drop n (got @ concat chunks) \<and> [] \<notin> set rest"
  using assms
proof (induction chunks arbitrary: got)
  case (Cons ch cs)
  consider "n \<le> length got" | "length got < n" "length ch \<le> n - length got" | "length got < n" "n - length got < length ch" by linarith
  then show ?case
  proof cases
    case 1
    with Cons.prems show ?thesis by (auto intro!: exI [of _ "ch # cs"])
  next
    case 2
    with Cons.IH [of "got @ ch"] Cons.prems show ?thesis by (auto simp: Let_def)
  next
    case 3
    with Cons.prems show ?thesis by (auto simp: Let_def intro!: exI [of _ "drop (n - length got) ch # cs"])
  qed
qed auto

lemma occurs_at_append: "length m \<le> length a - i \<Longrightarrow> i \<le> length a \<Longrightarrow> occurs_at (a @ b) m i \<longleftrightarrow> occurs_at a m i"
  by (simp add: occurs_at_def)

lemma bytes_Index_bound: "bytes_Index s m = Some p \<Longrightarrow> p + length m \<le> length s"
  by (auto simp: bytes_Index_Some occurs_at_def dest!: arg_cong [where f = length])

lemma bytes_Index_prefix: "bytes_Index a m = Some p \<Longrightarrow> bytes_Index (a @ b) m = Some p"
proof -
  assume A: "bytes_Index a m = Some p"
  note bytes_Index_bound [OF A]
  then have "occurs_at (a @ b) m j \<longleftrightarrow> occurs_at a m j" if "j \<le> p" for j using that by (intro occurs_at_append) auto
  with A show ?thesis by (simp add: bytes_Index_Some)
qed

lemma bytes_Index_long: "bytes_Index (a @ b) m = Some p \<Longrightarrow> p + length m \<le> length a \<Longrightarrow> bytes_Index a m = Some p"
proof -
  assume A: "bytes_Index (a @ b) m = Some p" "p + length m \<le> length a"
  then have "occurs_at (a @ b) m j \<longleftrightarrow> occurs_at a m j" if "j \<le> p" for j using that by (intro occurs_at_append) auto
  with A(1) show ?thesis by (simp add: bytes_Index_Some)
qed

lemma findPeerMagic_finds:
  assumes "bytes_Index (buf @ concat chunks) m = Some pos" "bytes_Index buf m = None" "pos \<le> obfs3_maxPadding"
    "length m = sha256_Size" "[] \<notin> set chunks"
  shows "\<exists>b rest. findPeerMagic m buf (map Ok chunks) = Some (Ok (), b, map Ok rest) \<and>
    b @ concat rest = drop (pos + length m) (buf @ concat chunks) \<and> [] \<notin> set rest"
  using assms
proof (induction "load (map Ok chunks)" arbitrary: buf chunks rule: less_induct)
  case less
  have "chunks \<noteq> []" using less.prems(1,2) by auto
  from net_read_chunks [OF this less.prems(5), of "obfs3_maxPadding + sha256_Size"]
  obtain d rest where N: "net_read (obfs3_maxPadding + sha256_Size) (map Ok chunks) = Some (Ok d, map Ok rest)"
    and D: "d @ concat rest = concat chunks" "[] \<notin> set rest" by auto
  show ?case
  proof (cases "bytes_Index (buf @ d) m")
    case None
    have T: "bytes_Index ((buf @ d) @ concat rest) m = Some pos" using less.prems(1) D(1) by simp
    have short: "length (buf @ d) < obfs3_maxPadding + sha256_Size"
    proof (rule ccontr)
      assume "\<not> ?thesis"
      then have "pos + length m \<le> length (buf @ d)" using less.prems(3,4) by simp
      with bytes_Index_long [OF T] None show False by simp
    qed
    have "load (map Ok rest) < load (map Ok chunks)" using net_read_load [OF N] by simp
    from less.hyps [OF this T None less.prems(3,4) D(2)] None short N D(1) show ?thesis
      by (subst findPeerMagic.simps) (auto simp: Let_def)
  next
    case (Some p)
    from bytes_Index_prefix [OF Some, of "concat rest"] less.prems(1) D(1) have p: "p = pos" by simp
    have "pos + length m \<le> length (buf @ d)" using bytes_Index_bound [OF Some] p by simp
    then have "drop (pos + length m) (buf @ d) @ concat rest = drop (pos + length m) (buf @ concat chunks)"
      unfolding D(1) [symmetric] by simp
    with Some p less.prems(3) N D(2) show ?thesis by (subst findPeerMagic.simps) (auto simp: Let_def)
  qed
qed

section \<open>What a connection still has to deliver\<close>

text \<open>\<open>pending ctr conn chunks plain\<close>: when the network brings \<open>chunks\<close>, \<open>plain\<close> is what the reader gets.\<close>

definition pending :: "keystream \<Rightarrow> obfs3Conn \<Rightarrow> bytes list \<Rightarrow> bytes \<Rightarrow> bool" where
  "pending ctr conn chunks plain \<longleftrightarrow> [] \<notin> set chunks \<and>
    (\<exists>st. o3_rx conn = Some st \<and>
      (case rxMagic conn of
         Some m \<Rightarrow> rxBuf conn = Some [] \<and> length m = sha256_Size \<and>
           (\<exists>pos \<le> obfs3_maxPadding. bytes_Index (concat chunks) m = Some pos \<and>
             plain = fst (XORKeyStream ctr st (drop (pos + length m) (concat chunks))))
       | None \<Rightarrow> plain = fst (XORKeyStream ctr st (case_option [] id (rxBuf conn) @ concat chunks))))"

lemma stream_read_delivers:
  assumes "o3_rx conn = Some st" "rxMagic conn = None" "rxBuf conn \<noteq> Some []" "[] \<notin> set chunks" "0 < n"
    "plain = fst (XORKeyStream ctr st (case_option [] id (rxBuf conn) @ concat chunks))" "plain \<noteq> []"
  shows "\<exists>d rest conn' plain'. stream_read ctr n (map Ok chunks) conn = Some (Ok d, map Ok rest, conn') \<and>
    d \<noteq> [] \<and> plain = d @ plain' \<and> pending ctr conn' rest plain'"
proof (cases "rxBuf conn")
  case None
  then have "chunks \<noteq> []" using assms(6,7) by auto
  from net_read_chunks [OF this assms(4,5)] obtain d rest where
    N: "net_read n (map Ok chunks) = Some (Ok d, map Ok rest)" "d @ concat rest = concat chunks" "[] \<notin> set rest" "d \<noteq> []" by blast
  let ?x = "XORKeyStream ctr st d"
  have "stream_read ctr n (map Ok chunks) conn = Some (Ok (fst ?x), map Ok rest, conn\<lparr>o3_rx := Some (snd ?x)\<rparr>)"
    using None assms(1) N(1) by (simp add: stream_read_def split_beta)
  moreover have "plain = fst ?x @ fst (XORKeyStream ctr (snd ?x) (concat rest))"
    using assms(6) None N(2) by (simp flip: XOR_append)
  moreover have "fst ?x \<noteq> []" using N(4) by (metis length_XOR length_0_conv)
  ultimately show ?thesis using None assms(2) N(3) by (fastforce simp: pending_def)
next
  case (Some b)
  then have b: "b \<noteq> []" using assms(3) by simp
  let ?x = "XORKeyStream ctr st (take n b)"
  have "stream_read ctr n (map Ok chunks) conn =
      Some (Ok (fst ?x), map Ok chunks, conn\<lparr>rxBuf := Some (drop n b), o3_rx := Some (snd ?x)\<rparr>)"
    using Some assms(1) b by (simp add: stream_read_def buf_read_def split_beta)
  moreover have "plain = fst ?x @ fst (XORKeyStream ctr (snd ?x) (drop n b @ concat chunks))"
    unfolding XOR_append(1) [symmetric] append.assoc [symmetric] append_take_drop_id using assms(6) Some by simp
  moreover have "fst ?x \<noteq> []" using b assms(5) by (metis length_XOR length_0_conv take_eq_Nil neq0_conv)
  ultimately show ?thesis using assms(2,4) by (fastforce simp: pending_def)
qed

lemma Read_delivers:
  assumes "pending ctr conn chunks plain" "plain \<noteq> []" "0 < n"
  shows "\<exists>d rest conn' plain'. obfs3_Read ctr n (map Ok chunks) conn = Some (Ok d, map Ok rest, conn') \<and>
    d \<noteq> [] \<and> plain = d @ plain' \<and> pending ctr conn' rest plain'"
proof -
  let ?trim = "\<lambda>conn. if rxBuf conn = Some [] then conn\<lparr>rxBuf := None\<rparr> else conn"
  have tail: "\<exists>d rest conn' plain'. stream_read ctr n (map Ok cs) (?trim co) = Some (Ok d, map Ok rest, conn') \<and>
      d \<noteq> [] \<and> plain = d @ plain' \<and> pending ctr conn' rest plain'"
    if "o3_rx co = Some st" "rxMagic co = None" "[] \<notin> set cs"
      "plain = fst (XORKeyStream ctr st (case_option [] id (rxBuf co) @ concat cs))" for co cs st
    by (rule stream_read_delivers [OF _ _ _ that(3) assms(3) _ assms(2)]) (use that in auto)
  from assms(1) obtain st where st: "o3_rx conn = Some st" "[] \<notin> set chunks" by (auto simp: pending_def)
  show ?thesis
  proof (cases "rxMagic conn")
    case None
    with tail [OF st(1) None st(2)] assms(1) st(1) show ?thesis by (simp add: obfs3_Read_def pending_def)
  next
    case (Some m)
    with assms(1) st(1) obtain pos where P: "rxBuf conn = Some []" "length m = sha256_Size" "pos \<le> obfs3_maxPadding"
      "bytes_Index (concat chunks) m = Some pos" "plain = fst (XORKeyStream ctr st (drop (pos + length m) (concat chunks)))"
      by (auto simp: pending_def)
    have "bytes_Index [] m = None" using P(2) by auto
    with findPeerMagic_finds [of "[]" chunks m pos] P st(2) obtain b rest where
      F: "findPeerMagic m [] (map Ok chunks) = Some (Ok (), b, map Ok rest)"
        "b @ concat rest = drop (pos + length m) (concat chunks)" "[] \<notin> set rest" by auto
    let ?c = "conn\<lparr>rxBuf := Some b, rxMagic := None\<rparr>"
    have "obfs3_Read ctr n (map Ok chunks) conn = stream_read ctr n (map Ok rest) (?trim ?c)"
      using Some P(1) F(1) by (simp add: obfs3_Read_def)
    with tail [of ?c st rest] st(1) F(2,3) P(5) show ?thesis by simp
  qed
qed

lemma reads_deliver:
  assumes "pending ctr conn chunks plain" "0 \<notin> set sizes" "length plain \<le> length sizes"
  shows "\<exists>k \<le> length plain. \<exists>rest conn'. obfs3_reads ctr (take k sizes) (map Ok chunks) conn = Some (Ok plain, map Ok rest, conn') \<and>
    pending ctr conn' rest []"
  using assms
proof (induction sizes arbitrary: conn chunks plain)
  case (Cons n ns)
  show ?case
  proof (cases "plain = []")
    case False
    then obtain d rest conn' plain' where R: "obfs3_Read ctr n (map Ok chunks) conn = Some (Ok d, map Ok rest, conn')"
      "d \<noteq> []" "plain = d @ plain'" "pending ctr conn' rest plain'"
      using Read_delivers [OF Cons.prems(1) False, of n] Cons.prems(2) by auto
    then have "length plain' \<le> length ns" using Cons.prems(3) by (cases d) auto
    from Cons.IH [OF R(4) _ this] Cons.prems(2) obtain k rest' conn'' where
      "k \<le> length plain'" "obfs3_reads ctr (take k ns) (map Ok rest) conn' = Some (Ok plain', map Ok rest', conn'')"
      "pending ctr conn'' rest' []" by auto
    with R show ?thesis by (intro exI [of _ "Suc k"]) (cases d, auto)
  qed (use Cons.prems in \<open>auto intro!: exI [of _ 0]\<close>)
qed auto

section \<open>Writing\<close>

lemma writes_plain:
  assumes "txMagic conn = None" "o3_tx conn = Some st"
  shows "\<exists>conn'. obfs3_writes ctr intn rp ws conn = (fst (XORKeyStream ctr st (concat ws)), Ok (length (concat ws)), conn')"
  using assms
proof (induction ws arbitrary: conn st)
  case (Cons w ws)
  let ?x = "XORKeyStream ctr st w"
  have "obfs3_Write ctr intn rp None None w conn = (fst ?x, Ok (length w), conn\<lparr>o3_tx := Some (snd ?x)\<rparr>)"
    using Cons.prems by (simp add: obfs3_Write_def stream_write_def split_beta)
  with Cons.IH [of "conn\<lparr>o3_tx := Some (snd ?x)\<rparr>" "snd ?x"] Cons.prems(1) show ?case by (auto simp: XOR_append)
qed simp

lemma padLen_Ok: "intn_ok intn \<Longrightarrow> \<exists>v. IntRange intn 0 (int obfs3_maxPadding div 2) = Ok v \<and> 0 \<le> v \<and> v \<le> 4097"
  using IntRange_ok [of intn 0 4097] by (simp add: in_i64_def)

lemma writes_first:
  assumes "intn_ok intn" "good_entropy rp" "txMagic conn = Some m" "o3_tx conn = Some st" "ws \<noteq> []"
  shows "\<exists>pad conn'. obfs3_writes ctr intn rp ws conn = (pad @ m @ fst (XORKeyStream ctr st (concat ws)), Ok (length (concat ws)), conn') \<and>
    length pad \<le> 4097"
proof -
  obtain v where v: "IntRange intn 0 (int obfs3_maxPadding div 2) = (Ok v :: (obfs3_error, int) outcome)" "0 \<le> v" "v \<le> 4097"
    using padLen_Ok [OF assms(1)] by blast
  obtain pad where pad: "csrand_Bytes rp (nat v) = Ok pad" "length pad = nat v"
    using assms(2) unfolding good_entropy_def csrand_Bytes_def by blast
  obtain w ws' where ws: "ws = w # ws'" using assms(5) by (cases ws) auto
  let ?x = "XORKeyStream ctr st w" and ?c = "conn\<lparr>txMagic := None, o3_tx := Some (snd (XORKeyStream ctr st w))\<rparr>"
  have "obfs3_Write ctr intn rp None None w conn = (pad @ m @ fst ?x, Ok (length w), ?c)"
    using assms(3,4) v(1) pad(1) by (simp add: obfs3_Write_def stream_write_def split_beta)
  with writes_plain [of ?c "snd ?x" ctr intn rp ws'] ws pad(2) v show ?thesis by (auto simp: XOR_append)
qed

section \<open>Both ends\<close>

lemma hello_Ok:
  assumes "intn_ok intn" "good_entropy rk" "good_entropy rp"
  shows "\<exists>raw k pub pad. length raw = udh_Size \<and> generateKey raw = Ok k \<and> udh_Bytes (udh_pub k) = Ok pub \<and> length pub = 192 \<and>
    length pad \<le> 4097 \<and> obfs3_hello intn rk rp = Ok (k, pub @ pad) \<and> (intn 4098 = 0 \<longrightarrow> pad = [])"
proof -
  obtain raw where raw: "rk udh_Size = Ok raw" "length raw = udh_Size" using assms(2) unfolding good_entropy_def by blast
  from generateKey_facts [OF raw(2)] obtain k where k: "generateKey raw = Ok k" "length (udh_bytes (udh_pub k)) = udh_Size" by blast
  obtain v where v: "IntRange intn 0 (int obfs3_maxPadding div 2) = (Ok v :: (obfs3_error, int) outcome)" "0 \<le> v" "v \<le> 4097"
    using padLen_Ok [OF assms(1)] by blast
  obtain pad where pad: "csrand_Bytes rp (nat v) = Ok pad" "length pad = nat v"
    using assms(3) unfolding good_entropy_def csrand_Bytes_def by blast
  have "obfs3_hello intn rk rp = Ok (k, udh_bytes (udh_pub k) @ pad)" "udh_Bytes (udh_pub k) = Ok (udh_bytes (udh_pub k))"
    using raw k v(1) pad(1) by (simp_all add: obfs3_hello_def GenerateKey_def lift_udh_def udh_Bytes_def)
  moreover have "pad = []" if "intn 4098 = 0" using that v(1) pad by (simp add: IntRange_def csrand_Intn_def i64_def)
  ultimately show ?thesis using raw(2) k pad(2) v(2,3) by (intro exI [of _ raw] exI [of _ k] exI [of _ "udh_bytes (udh_pub k)"] exI [of _ pad]) simp
qed

text \<open>The connection after the key derivation.\<close>

definition keyed :: "crypto \<Rightarrow> bytes \<Rightarrow> bool \<Rightarrow> obfs3Conn" where
  "keyed c secret initiator =
    (let st = (\<lambda>s. \<lparr>ks_key = take 16 (hmac256 c secret s), ks_counter = drop 16 (hmac256 c secret s), ks_pos = 0\<rparr>);
         i = (st initiatorKdfString, hmac256 c secret initiatorMagicString);
         r = (st responderKdfString, hmac256 c secret responderMagicString);
         (tx, rx) = (if initiator then (i, r) else (r, i))
     in \<lparr>isInitiator = initiator, rxMagic = Some (snd rx), txMagic = Some (snd tx), rxBuf = Some [], o3_rx = Some (fst rx),
       o3_tx = Some (fst tx), o3_closed = False\<rparr>)"

lemma kdf_keyed: "hmac_ok c \<Longrightarrow> obfs3_kdf c secret (new_obfs3 b) = Ok (keyed c secret b)"
  by (simp add: obfs3_kdf_def keyed_def new_obfs3_def new_stream_def Let_def)

lemma handshake_keyed:
  assumes "hmac_ok c" "obfs3_hello intn rk rp = Ok (k, blob)" "udh_SetBytes pub = Ok peer" "udh_Handshake k peer = Ok secret"
    "length pub = 192" "concat chunks = pub @ x" "[] \<notin> set chunks"
  shows "\<exists>rest. newObfs3Conn b c intn rk rp None None None (map Ok chunks) = (blob, Some (Ok (keyed c secret b), map Ok rest)) \<and>
    concat rest = x \<and> [] \<notin> set rest"
proof -
  from ReadFull_chunks [of udh_Size "[]" chunks] assms(5-7) obtain rest where
    "ReadFull udh_Size [] (map Ok chunks) = Some (Ok pub, map Ok rest)" "concat rest = x" "[] \<notin> set rest" by auto
  moreover from this(1) have "newObfs3Conn b c intn rk rp None None None (map Ok chunks) = (blob, Some (Ok (keyed c secret b), map Ok rest))"
    using assms(1-4) by (simp add: newObfs3Conn_def obfs3_handshake_def lift_udh_def kdf_keyed)
  ultimately show ?thesis by blast
qed

lemma sent_hello: "obfs3_hello intn rk rp = Ok (k, blob) \<Longrightarrow> fst (newObfs3Conn b c intn rk rp None None None []) = blob"
  by (simp add: newObfs3Conn_def obfs3_handshake_def)

text \<open>C24: obfs3 delivers. Two ends, one of them the initiator, each send their key and padding and read the other's, in any
  segmentation, possibly with data behind it. Both handshakes succeed, whatever the entropy; whatever one end then
  writes, in any number of writes, the other end reads back: with buffers of any sizes it gets all of it, in order and nothing
  else, in at most as many reads as there are bytes, provided that the magic value does not occur by chance in the padding
  before it.\<close>

theorem obfs3_delivers:
  assumes "hmac_ok c" "intn_ok iA" "intn_ok iB" "intn_ok iW" "good_entropy kA" "good_entropy pA" "good_entropy kB" "good_entropy pB"
    "good_entropy pW"
    "outA = fst (newObfs3Conn b c iA kA pA None None None [])" "outB = fst (newObfs3Conn (\<not> b) c iB kB pB None None None [])"
    "concat ca = outB @ laterB" "[] \<notin> set ca" "ws \<noteq> []"
  shows "\<exists>connA connA' ra wire pad magic cipher.
    newObfs3Conn b c iA kA pA None None None (map Ok ca) = (outA, Some (Ok connA, ra)) \<and> txMagic connA = Some magic \<and>
    obfs3_writes ctr iW pW ws connA = (wire, Ok (length (concat ws)), connA') \<and>
    wire = pad @ magic @ cipher \<and> length magic = 32 \<and> length cipher = length (concat ws) \<and> 192 \<le> length outA \<and>
    length outA - 192 + length pad \<le> obfs3_maxPadding \<and>
    (\<forall>cb. concat cb = outA @ wire \<and> [] \<notin> set cb \<and>
        bytes_Index (drop 192 outA @ wire) magic = Some (length outA - 192 + length pad) \<longrightarrow>
      (\<exists>connB rb. newObfs3Conn (\<not> b) c iB kB pB None None None (map Ok cb) = (outB, Some (Ok connB, rb)) \<and>
        (\<forall>sizes. 0 \<notin> set sizes \<and> length (concat ws) \<le> length sizes \<longrightarrow>
          (\<exists>k rest connB'. k \<le> length (concat ws) \<and>
            obfs3_reads ctr (take k sizes) rb connB = Some (Ok (concat ws), rest, connB')))))"
proof -
  obtain rawA ka pubA padA where A: "length rawA = udh_Size" "generateKey rawA = Ok ka" "udh_Bytes (udh_pub ka) = Ok pubA"
    "length pubA = 192" "length padA \<le> 4097" "obfs3_hello iA kA pA = Ok (ka, pubA @ padA)"
    using hello_Ok [OF assms(2,5,6)] by blast
  obtain rawB kb pubB padB where B: "length rawB = udh_Size" "generateKey rawB = Ok kb" "udh_Bytes (udh_pub kb) = Ok pubB"
    "length pubB = 192" "obfs3_hello iB kB pB = Ok (kb, pubB @ padB)"
    using hello_Ok [OF assms(3,7,8)] by blast
  obtain peerA peerB secret where S: "udh_SetBytes pubA = Ok peerA" "udh_SetBytes pubB = Ok peerB"
    "udh_Handshake ka peerB = Ok secret" "udh_Handshake kb peerA = Ok secret"
    using uniformdh_keys [OF A(1) B(1)] A(2,3) B(2,3) by auto
  have out: "outA = pubA @ padA" "outB = pubB @ padB" using assms(10,11) sent_hello [OF A(6)] sent_hello [OF B(5)] by simp_all
  let ?cA = "keyed c secret b" and ?cB = "keyed c secret (\<not> b)"
  obtain ra where HA: "newObfs3Conn b c iA kA pA None None None (map Ok ca) = (outA, Some (Ok ?cA, map Ok ra))"
    using handshake_keyed [OF assms(1) A(6) S(2,3) B(4), of ca "padB @ laterB" b] assms(12,13) out by auto
  obtain m st where L: "txMagic ?cA = Some m" "o3_tx ?cA = Some st" "rxMagic ?cB = Some m" "o3_rx ?cB = Some st" "rxBuf ?cB = Some []"
    "length m = sha256_Size" using assms(1) by (cases b) (auto simp: keyed_def Let_def)
  obtain pad connA' where W: "obfs3_writes ctr iW pW ws ?cA =
      (pad @ m @ fst (XORKeyStream ctr st (concat ws)), Ok (length (concat ws)), connA')" "length pad \<le> 4097"
    using writes_first [OF assms(4,9) L(1,2) assms(14)] by blast
  let ?wire = "pad @ m @ fst (XORKeyStream ctr st (concat ws))"
  have "\<exists>connB rb. newObfs3Conn (\<not> b) c iB kB pB None None None (map Ok cb) = (outB, Some (Ok connB, rb)) \<and>
        (\<forall>sizes. 0 \<notin> set sizes \<and> length (concat ws) \<le> length sizes \<longrightarrow>
          (\<exists>k rest connB'. k \<le> length (concat ws) \<and>
            obfs3_reads ctr (take k sizes) rb connB = Some (Ok (concat ws), rest, connB')))"
    if cb: "concat cb = outA @ ?wire" "[] \<notin> set cb"
      and I: "bytes_Index (drop 192 outA @ ?wire) m = Some (length outA - 192 + length pad)" for cb
  proof -
    obtain rb where HB: "newObfs3Conn (\<not> b) c iB kB pB None None None (map Ok cb) = (outB, Some (Ok ?cB, map Ok rb))"
      "concat rb = padA @ ?wire" "[] \<notin> set rb"
      using handshake_keyed [OF assms(1) B(5) S(1,4) A(4), of cb "padA @ ?wire" "\<not> b"] cb out by auto
    have d: "drop 192 outA = padA" using out A(4) by simp
    have pos: "bytes_Index (concat rb) m = Some (length padA + length pad)" using I HB(2) A(4) unfolding d by (simp add: out)
    have "drop (length padA + length pad + length m) (concat rb) = fst (XORKeyStream ctr st (concat ws))" using HB(2) by simp
    with pos A(5) W(2) L HB(3) have "pending ctr ?cB rb (concat ws)" by (simp add: pending_def)
    from reads_deliver [OF this] HB(1) show ?thesis by fastforce
  qed
  moreover have "length m = 32" "length (fst (XORKeyStream ctr st (concat ws))) = length (concat ws)" "192 \<le> length outA"
    "length outA - 192 + length pad \<le> obfs3_maxPadding" using L(6) out(1) A(4,5) W(2) by simp_all
  ultimately show ?thesis using HA L(1) W(1) by blast
qed

lemma demo_first_write:
  "txMagic conn = Some m \<Longrightarrow> obfs3_writes ctr (\<lambda>_. 0) demo_entropy [w] conn = (wire, Ok n, conn') \<Longrightarrow>
     \<exists>out. wire = m @ out \<and> length out = length w"
  by (auto simp: obfs3_Write_def stream_write_def IntRange_def csrand_Intn_def csrand_Bytes_def demo_entropy_def i64_def split_beta
      split: option.splits)

theorem obfs3_delivers_witness:
  "\<exists>outA outB connA connA' ra wire connB rb k rest connB'.
     newObfs3Conn True demo_crypto (\<lambda>_. 0) demo_entropy demo_entropy None None None [Ok outB] = (outA, Some (Ok connA, ra)) \<and>
     obfs3_writes (\<lambda>key iv p. of_nat p) (\<lambda>_. 0) demo_entropy [[1, 2, 3]] connA = (wire, Ok 3, connA') \<and>
     newObfs3Conn False demo_crypto (\<lambda>_. 0) demo_entropy demo_entropy None None None [Ok (outA @ wire)] = (outB, Some (Ok connB, rb)) \<and>
     obfs3_reads (\<lambda>key iv p. of_nat p) (take k [1, 1, 5]) rb connB = Some (Ok [1, 2, 3], rest, connB')"
proof -
  let ?o = "\<lambda>b. fst (newObfs3Conn b demo_crypto (\<lambda>_. 0) demo_entropy demo_entropy None None None [])"
  let ?ks = "\<lambda>(key :: bytes) (iv :: bytes) p. of_nat p :: byte"
  obtain k pub where "obfs3_hello (\<lambda>_. 0) demo_entropy demo_entropy = Ok (k, pub)" "length pub = 192"
    using hello_Ok [OF demo_intn demo_entropy_ok demo_entropy_ok] by auto
  then have o: "length (?o b) = 192" for b by (simp add: sent_hello)
  then have ne: "[] \<notin> set [?o b]" for b using o [of b] by (cases "?o b") auto
  have "concat [?o False] = ?o (\<not> True) @ []" "[] \<notin> set [?o False]" "[[1, 2, 3]] \<noteq> ([] :: bytes list)" using ne by simp_all
  note T = obfs3_delivers [OF demo_crypto_ok(1) demo_intn demo_intn demo_intn demo_entropy_ok demo_entropy_ok demo_entropy_ok
      demo_entropy_ok demo_entropy_ok refl refl this, of ?ks]
  obtain connA connA' ra wire pad magic cipher where W:
    "newObfs3Conn True demo_crypto (\<lambda>_. 0) demo_entropy demo_entropy None None None (map Ok [?o False]) = (?o True, Some (Ok connA, ra))"
    "txMagic connA = Some magic" "obfs3_writes ?ks (\<lambda>_. 0) demo_entropy [[1, 2, 3]] connA = (wire, Ok (length (concat [[1, 2, 3 :: byte]])), connA')"
    "wire = pad @ magic @ cipher" "length cipher = length (concat [[1, 2, 3 :: byte]])" "length magic = 32"
    and R: "\<And>cb. concat cb = ?o True @ wire \<and> [] \<notin> set cb \<and>
        bytes_Index (drop 192 (?o True) @ wire) magic = Some (length (?o True) - 192 + length pad) \<Longrightarrow>
      \<exists>connB rb. newObfs3Conn (\<not> True) demo_crypto (\<lambda>_. 0) demo_entropy demo_entropy None None None (map Ok cb) = (?o (\<not> True), Some (Ok connB, rb)) \<and>
        (\<forall>sizes. 0 \<notin> set sizes \<and> length (concat [[1, 2, 3 :: byte]]) \<le> length sizes \<longrightarrow>
          (\<exists>k rest connB'. k \<le> length (concat [[1, 2, 3 :: byte]]) \<and>
            obfs3_reads ?ks (take k sizes) rb connB = Some (Ok (concat [[1, 2, 3]]), rest, connB')))"
    using T by blast
  obtain out where "wire = magic @ out" "length out = 3" using demo_first_write [OF W(2,3)] by auto
  then have "length (pad @ magic @ cipher) = length magic + 3" using W(4) by (metis length_append)
  then have pad: "pad = []" using W(5) by simp
  have "bytes_Index wire magic = Some 0" using W(4) pad by (simp add: bytes_Index_Some occurs_at_def)
  then have "concat [?o True @ wire] = ?o True @ wire \<and> [] \<notin> set [?o True @ wire] \<and>
        bytes_Index (drop 192 (?o True) @ wire) magic = Some (length (?o True) - 192 + length pad)"
    using o [of True] pad W(4,6) by auto
  from R [OF this] obtain connB rb where B: "newObfs3Conn False demo_crypto (\<lambda>_. 0) demo_entropy demo_entropy None None None (map Ok [?o True @ wire])
      = (?o False, Some (Ok connB, rb))"
    "\<forall>sizes. 0 \<notin> set sizes \<and> length (concat [[1, 2, 3 :: byte]]) \<le> length sizes \<longrightarrow>
      (\<exists>k rest connB'. k \<le> length (concat [[1, 2, 3 :: byte]]) \<and>
        obfs3_reads ?ks (take k sizes) rb connB = Some (Ok (concat [[1, 2, 3]]), rest, connB'))"
    by (simp only: simp_thms) blast
  have "\<exists>k rest connB'. obfs3_reads ?ks (take k [1, 1, 5]) rb connB = Some (Ok (concat [[1, 2, 3]]), rest, connB')"
    using B(2) [rule_format, of "[1, 1, 5]"] by auto
  then obtain k rest connB' where "obfs3_reads ?ks (take k [1, 1, 5]) rb connB = Some (Ok [1, 2, 3], rest, connB')" by auto
  moreover have "obfs3_writes ?ks (\<lambda>_. 0) demo_entropy [[1, 2, 3]] connA = (wire, Ok 3, connA')"
    using W(3) by (simp add: numeral_3_eq_3 del: obfs3_writes.simps)
  moreover have "newObfs3Conn True demo_crypto (\<lambda>_. 0) demo_entropy demo_entropy None None None [Ok (?o False)] = (?o True, Some (Ok connA, ra))"
    "newObfs3Conn False demo_crypto (\<lambda>_. 0) demo_entropy demo_entropy None None None [Ok (?o True @ wire)] = (?o False, Some (Ok connB, rb))"
    using W(1) B(1) by simp_all
  ultimately show ?thesis by blast
qed

end
