(* ===== verification/Obfs2.thy ===== *)
theory Obfs2
  imports Obfs3 StateFile
begin

text \<open>
  \<open>transports/obfs2/obfs2.go\<close>: the seeds, the encrypted header with its padding, the key derivation, \<open>Read\<close> and \<open>Write\<close>.
  Streams and the network are those of \<open>Obfs3\<close>.
\<close>

section \<open>Constants and keys\<close>

definition sharedSecretArg :: string where "sharedSecretArg = ''shared-secret''"
definition magicValue :: u32 where "magicValue = 0x2bf5ca7e"
definition initiatorPadString :: bytes where "initiatorPadString = bytes_of_string ''Initiator obfuscation padding''"
definition responderPadString :: bytes where "responderPadString = bytes_of_string ''Responder obfuscation padding''"
definition obfs2_maxPadding :: nat where [simp]: "obfs2_maxPadding = 8192"
definition obfs2_seedLen :: nat where [simp]: "obfs2_seedLen = 16"
definition obfs2_hsLen :: nat where [simp]: "obfs2_hsLen = 4 + 4"

definition validateArgs :: "pt_args \<Rightarrow> (args_error, unit) outcome" where
  "validateArgs args = (if args sharedSecretArg \<noteq> None then Err (InvalidParams sharedSecretArg) else Ok ())"

record obfs2Conn =
  o2_isInitiator :: bool
  o2_rx :: "stream option"
  o2_tx :: "stream option"

definition obfs2_mac :: "crypto \<Rightarrow> bytes \<Rightarrow> bytes \<Rightarrow> bytes" where
  "obfs2_mac c s x = sha256 c (s @ x @ s)"

definition hsKdf :: "crypto \<Rightarrow> bytes \<Rightarrow> bytes \<Rightarrow> (obfs3_error, bytes \<times> bytes) outcome" where
  "hsKdf c magic seed = (let m = obfs2_mac c magic seed
     in if length m < obfs3_keyLen then Panic else Ok (take obfs3_keyLen m, drop obfs3_keyLen m))"

definition kdf_stream :: "crypto \<Rightarrow> bytes \<Rightarrow> bytes \<Rightarrow> (obfs3_error, stream) outcome" where
  "kdf_stream c magic seed = and_then (hsKdf c magic seed) (\<lambda>(key, iv). new_stream key iv)"

definition obfs2_kdf :: "crypto \<Rightarrow> bytes \<Rightarrow> bytes \<Rightarrow> obfs2Conn \<Rightarrow> (obfs3_error, obfs2Conn) outcome" where
  "obfs2_kdf c seed peerSeed conn =
    (let combSeed = (if o2_isInitiator conn then seed @ peerSeed else peerSeed @ seed)
     in and_then (kdf_stream c initiatorKdfString combSeed) (\<lambda>initStream.
        and_then (kdf_stream c responderKdfString combSeed) (\<lambda>respStream.
          Ok (if o2_isInitiator conn then conn\<lparr>o2_tx := Some initStream, o2_rx := Some respStream\<rparr>
              else conn\<lparr>o2_tx := Some respStream, o2_rx := Some initStream\<rparr>))))"

section \<open>The handshake\<close>

definition pad_magic :: "bool \<Rightarrow> bytes" where
  "pad_magic initiator = (if initiator then initiatorPadString else responderPadString)"

text \<open>What an end sends: the seed in the clear, and magic value, padding length and padding under the padding key.\<close>

definition obfs2_hello :: "crypto \<Rightarrow> keystream \<Rightarrow> (int \<Rightarrow> int) \<Rightarrow> nat entropy \<Rightarrow> nat entropy \<Rightarrow> bool \<Rightarrow>
    (obfs3_error, bytes \<times> bytes \<times> stream) outcome" where
  "obfs2_hello c ctr intn rs rp initiator =
    (case csrand_Bytes rs obfs2_seedLen of Err e \<Rightarrow> Err (O3Rand e) | Panic \<Rightarrow> Panic
     | Ok seed \<Rightarrow>
        and_then (hsKdf c (pad_magic initiator) seed) (\<lambda>(padKey, padIV).
        and_then (IntRange intn 0 (int obfs2_maxPadding)) (\<lambda>n.
          (let padLen = word_of_int n :: u32
           in (case (if padLen > 0 then csrand_Bytes rp (unat padLen) else Ok []) of Err e \<Rightarrow> Err (O3Rand e) | Panic \<Rightarrow> Panic
               | Ok pad \<Rightarrow>
                  and_then (new_stream padKey padIV) (\<lambda>txStream.
                    (let (hsBlob, txStream') = XORKeyStream ctr txStream (put_u32 magicValue @ put_u32 padLen @ pad)
                     in Ok (seed, hsBlob, txStream'))))))))"

text \<open>What it makes of the answer. The header is read through the cipher, the padding is not.\<close>

definition obfs2_answer :: "crypto \<Rightarrow> keystream \<Rightarrow> bytes \<Rightarrow> net_reads \<Rightarrow> obfs2Conn \<Rightarrow>
    ((obfs3_error, obfs2Conn) outcome \<times> net_reads) option" where
  "obfs2_answer c ctr seed reads conn =
    (case ReadFull obfs2_seedLen [] reads of
       None \<Rightarrow> None | Some (Err e, rs) \<Rightarrow> Some (Err e, rs) | Some (Panic, rs) \<Rightarrow> Some (Panic, rs)
     | Some (Ok peerSeed, rs) \<Rightarrow>
        (case kdf_stream c (pad_magic (\<not> o2_isInitiator conn)) peerSeed of
           Err e \<Rightarrow> Some (Err e, rs) | Panic \<Rightarrow> Some (Panic, rs)
         | Ok rxStream \<Rightarrow>
            (case ReadFull obfs2_hsLen [] rs of
               None \<Rightarrow> None | Some (Err e, rs) \<Rightarrow> Some (Err e, rs) | Some (Panic, rs) \<Rightarrow> Some (Panic, rs)
             | Some (Ok cipher, rs) \<Rightarrow>
                (let (hsHdr, rxStream') = XORKeyStream ctr rxStream cipher
                 in (case (get_u32 hsHdr :: (obfs3_error, u32) outcome, get_u32 (drop 4 hsHdr) :: (obfs3_error, u32) outcome) of
                       (Ok peerMagic, Ok padLen) \<Rightarrow>
                         (if peerMagic \<noteq> magicValue then Some (Err (O3Msg ''invalid magic value''), rs)
                          else if unat padLen > obfs2_maxPadding then Some (Err (O3Msg ''padlen too long''), rs)
                          else (case ReadFull (unat padLen) [] rs of
                               None \<Rightarrow> None | Some (Err e, rs) \<Rightarrow> Some (Err e, rs) | Some (Panic, rs) \<Rightarrow> Some (Panic, rs)
                             | Some (Ok _, rs) \<Rightarrow> Some (obfs2_kdf c seed peerSeed (conn\<lparr>o2_rx := Some rxStream'\<rparr>), rs)))
                     | _ \<Rightarrow> Some (Panic, rs))))))"

definition obfs2_handshake :: "crypto \<Rightarrow> keystream \<Rightarrow> (int \<Rightarrow> int) \<Rightarrow> nat entropy \<Rightarrow> nat entropy \<Rightarrow> nat option \<Rightarrow> nat option \<Rightarrow>
    net_reads \<Rightarrow> obfs2Conn \<Rightarrow> bytes \<times> ((obfs3_error, obfs2Conn) outcome \<times> net_reads) option" where
  "obfs2_handshake c ctr intn rs rp wr1 wr2 reads conn =
    (case obfs2_hello c ctr intn rs rp (o2_isInitiator conn) of
       Err e \<Rightarrow> ([], Some (Err e, reads)) | Panic \<Rightarrow> ([], Some (Panic, reads))
     | Ok (seed, hsBlob, txStream) \<Rightarrow>
        (case wr1 of Some e \<Rightarrow> ([], Some (Err (O3Net e), reads))
         | None \<Rightarrow>
            (case wr2 of Some e \<Rightarrow> (seed, Some (Err (O3Net e), reads))
             | None \<Rightarrow> (seed @ hsBlob, obfs2_answer c ctr seed reads (conn\<lparr>o2_tx := Some txStream\<rparr>)))))"

text \<open>\<open>newObfs2ClientConn\<close> and \<open>newObfs2ServerConn\<close>.\<close>

definition newObfs2Conn :: "bool \<Rightarrow> crypto \<Rightarrow> keystream \<Rightarrow> (int \<Rightarrow> int) \<Rightarrow> nat entropy \<Rightarrow> nat entropy \<Rightarrow> nat option \<Rightarrow> nat option \<Rightarrow>
    nat option \<Rightarrow> nat option \<Rightarrow> net_reads \<Rightarrow> bytes \<times> ((obfs3_error, obfs2Conn) outcome \<times> net_reads) option" where
  "newObfs2Conn initiator c ctr intn rs rp dl1 dl2 wr1 wr2 reads =
    (case dl1 of Some e \<Rightarrow> ([], Some (Err (O3Net e), reads))
     | None \<Rightarrow>
        (case obfs2_handshake c ctr intn rs rp wr1 wr2 reads \<lparr>o2_isInitiator = initiator, o2_rx = None, o2_tx = None\<rparr> of
           (out, Some (Ok conn, rest)) \<Rightarrow> (out, Some (case dl2 of Some e \<Rightarrow> Err (O3Net e) | None \<Rightarrow> Ok conn, rest))
         | r \<Rightarrow> r))"

definition newObfs2ClientConn :: "crypto \<Rightarrow> keystream \<Rightarrow> (int \<Rightarrow> int) \<Rightarrow> nat entropy \<Rightarrow> nat entropy \<Rightarrow> nat option \<Rightarrow> nat option \<Rightarrow>
    nat option \<Rightarrow> nat option \<Rightarrow> net_reads \<Rightarrow> bytes \<times> ((obfs3_error, obfs2Conn) outcome \<times> net_reads) option" where
  "newObfs2ClientConn = newObfs2Conn True"

definition newObfs2ServerConn :: "crypto \<Rightarrow> keystream \<Rightarrow> (int \<Rightarrow> int) \<Rightarrow> nat entropy \<Rightarrow> nat entropy \<Rightarrow> nat option \<Rightarrow> nat option \<Rightarrow>
    nat option \<Rightarrow> nat option \<Rightarrow> net_reads \<Rightarrow> bytes \<times> ((obfs3_error, obfs2Conn) outcome \<times> net_reads) option" where
  "newObfs2ServerConn = newObfs2Conn False"

definition obfs2_Dial :: "crypto \<Rightarrow> keystream \<Rightarrow> (int \<Rightarrow> int) \<Rightarrow> nat entropy \<Rightarrow> nat entropy \<Rightarrow> nat option \<Rightarrow> nat option \<Rightarrow>
    nat option \<Rightarrow> nat option \<Rightarrow> (nat, net_reads) outcome \<Rightarrow> ((obfs3_error, obfs2Conn) outcome \<times> bool) option" where
  "obfs2_Dial c ctr intn rs rp dl1 dl2 wr1 wr2 dial =
    (case dial of
       Err e \<Rightarrow> Some (Err (O3Net e), False) | Panic \<Rightarrow> Some (Panic, False)
     | Ok reads \<Rightarrow> map_option (\<lambda>(r, _). (r, case r of Err _ \<Rightarrow> True | _ \<Rightarrow> False))
         (snd (newObfs2ClientConn c ctr intn rs rp dl1 dl2 wr1 wr2 reads)))"

section \<open>Data\<close>

definition obfs2_Read :: "keystream \<Rightarrow> nat \<Rightarrow> net_reads \<Rightarrow> obfs2Conn \<Rightarrow> ((obfs3_error, bytes) outcome \<times> net_reads \<times> obfs2Conn) option" where
  "obfs2_Read ctr n reads conn =
    (case o2_rx conn of None \<Rightarrow> Some (Panic, reads, conn)
     | Some st \<Rightarrow>
        (case net_read n reads of
           None \<Rightarrow> None
         | Some (Ok d, rs) \<Rightarrow> (let (p, st') = XORKeyStream ctr st d in Some (Ok p, rs, conn\<lparr>o2_rx := Some st'\<rparr>))
         | Some (Err e, rs) \<Rightarrow> Some (Err e, rs, conn)
         | Some (Panic, rs) \<Rightarrow> Some (Panic, rs, conn)))"

definition obfs2_Write :: "keystream \<Rightarrow> nat option \<Rightarrow> bytes \<Rightarrow> obfs2Conn \<Rightarrow> bytes \<times> (obfs3_error, nat) outcome \<times> obfs2Conn" where
  "obfs2_Write ctr wr b conn =
    (case o2_tx conn of None \<Rightarrow> ([], Panic, conn)
     | Some st \<Rightarrow>
        (let (p, st') = XORKeyStream ctr st b; conn' = conn\<lparr>o2_tx := Some st'\<rparr>
         in case wr of Some e \<Rightarrow> ([], Err (O3Net e), conn') | None \<Rightarrow> (p, Ok (length b), conn')))"

fun obfs2_writes :: "keystream \<Rightarrow> bytes list \<Rightarrow> obfs2Conn \<Rightarrow> bytes \<times> (obfs3_error, nat) outcome \<times> obfs2Conn" where
  "obfs2_writes ctr [] conn = ([], Ok 0, conn)"
| "obfs2_writes ctr (w # ws) conn =
    (case obfs2_Write ctr None w conn of
       (out, Ok n, conn1) \<Rightarrow>
         (case obfs2_writes ctr ws conn1 of (out', r, conn2) \<Rightarrow> (out @ out', and_then r (\<lambda>m. Ok (n + m)), conn2))
     | r \<Rightarrow> r)"

fun obfs2_reads :: "keystream \<Rightarrow> nat list \<Rightarrow> net_reads \<Rightarrow> obfs2Conn \<Rightarrow> ((obfs3_error, bytes) outcome \<times> net_reads \<times> obfs2Conn) option" where
  "obfs2_reads ctr [] reads conn = Some (Ok [], reads, conn)"
| "obfs2_reads ctr (n # ns) reads conn =
    (case obfs2_Read ctr n reads conn of
       Some (Ok d, rs, conn1) \<Rightarrow> map_option (\<lambda>(r, x). (and_then r (\<lambda>d'. Ok (d @ d')), x)) (obfs2_reads ctr ns rs conn1)
     | r \<Rightarrow> r)"

lemma obfs2_writes_all:
  "o2_tx conn = Some st \<Longrightarrow> \<exists>conn'. obfs2_writes ctr ws conn = (fst (XORKeyStream ctr st (concat ws)), Ok (length (concat ws)), conn')"
proof (induction ws arbitrary: conn st)
  case (Cons w ws)
  let ?x = "XORKeyStream ctr st w"
  have "obfs2_Write ctr None w conn = (fst ?x, Ok (length w), conn\<lparr>o2_tx := Some (snd ?x)\<rparr>)"
    using Cons.prems by (simp add: obfs2_Write_def split_beta)
  with Cons.IH [of "conn\<lparr>o2_tx := Some (snd ?x)\<rparr>" "snd ?x"] show ?case by (auto simp: XOR_append)
qed simp

lemma obfs2_reads_all:
  assumes "o2_rx conn = Some st" "[] \<notin> set chunks" "0 \<notin> set sizes" "length (concat chunks) \<le> length sizes"
  shows "\<exists>k \<le> length (concat chunks). \<exists>conn'.
    obfs2_reads ctr (take k sizes) (map Ok chunks) conn = Some (Ok (fst (XORKeyStream ctr st (concat chunks))), [], conn')"
  using assms
proof (induction sizes arbitrary: conn st chunks)
  case Nil
  then have "chunks = []" by (cases chunks) auto
  then show ?case by simp
next
  case (Cons n ns)
  show ?case
  proof (cases "chunks = []")
    case False
    with net_read_chunks [OF False Cons.prems(2), of n] Cons.prems(3) obtain d rest where
      N: "net_read n (map Ok chunks) = Some (Ok d, map Ok rest)" "d @ concat rest = concat chunks" "[] \<notin> set rest" "d \<noteq> []" by auto
    let ?x = "XORKeyStream ctr st d"
    have R: "obfs2_Read ctr n (map Ok chunks) conn = Some (Ok (fst ?x), map Ok rest, conn\<lparr>o2_rx := Some (snd ?x)\<rparr>)"
      using Cons.prems(1) N(1) by (simp add: obfs2_Read_def split_beta)
    have len: "length d + length (concat rest) = length (concat chunks)" using N(2) by (metis length_append)
    then have le: "length (concat rest) \<le> length ns" "Suc (length (concat rest)) \<le> length (concat chunks)"
      using Cons.prems(4) N(4) by (cases d; simp)+
    from Cons.IH [of "conn\<lparr>o2_rx := Some (snd ?x)\<rparr>" "snd ?x" rest] N(3) Cons.prems(3) le(1)
    obtain k conn' where K: "k \<le> length (concat rest)"
      "obfs2_reads ctr (take k ns) (map Ok rest) (conn\<lparr>o2_rx := Some (snd ?x)\<rparr>) = Some (Ok (fst (XORKeyStream ctr (snd ?x) (concat rest))), [], conn')"
      by auto
    have "fst (XORKeyStream ctr st (concat chunks)) = fst ?x @ fst (XORKeyStream ctr (snd ?x) (concat rest))"
      using N(2) by (simp flip: XOR_append)
    with R K le(2) show ?thesis by (intro exI [of _ "Suc k"]) simp
  qed (auto intro!: exI [of _ 0])
qed

section \<open>Both ends\<close>

lemma kdf_stream_Ok: "sha256_ok c \<Longrightarrow> \<exists>st. kdf_stream c m s = Ok st"
  by (simp add: kdf_stream_def hsKdf_def obfs2_mac_def new_stream_def Let_def)

lemma obfs2_hello_Ok:
  assumes "sha256_ok c" "intn_ok intn" "good_entropy rs" "good_entropy rp"
  shows "\<exists>seed pad st st' padLen. length seed = 16 \<and> unat (padLen :: u32) = length pad \<and> length pad \<le> 8192 \<and>
    kdf_stream c (pad_magic b) seed = Ok st \<and>
    obfs2_hello c ctr intn rs rp b = Ok (seed, fst (XORKeyStream ctr st (put_u32 magicValue @ put_u32 padLen @ pad)), st')"
proof -
  obtain seed where seed: "csrand_Bytes rs obfs2_seedLen = Ok seed" "length seed = 16"
    using assms(3) unfolding good_entropy_def csrand_Bytes_def by auto
  obtain n where n: "IntRange intn 0 (int obfs2_maxPadding) = (Ok n :: (obfs3_error, int) outcome)" "0 \<le> n" "n \<le> 8192"
    using IntRange_ok [of intn 0 8192, OF assms(2)] by (auto simp: in_i64_def)
  have u: "unat (word_of_int n :: u32) = nat n" using n(2,3) by (simp add: unat_eq_nat_uint uint_word_of_int)
  obtain pad where pad: "(if (word_of_int n :: u32) > 0 then csrand_Bytes rp (unat (word_of_int n :: u32)) else Ok []) = Ok pad" "length pad = nat n"
  proof (cases "(word_of_int n :: u32) > 0")
    case True
    with assms(4) that u show ?thesis unfolding good_entropy_def csrand_Bytes_def by auto
  next
    case False
    then have "(word_of_int n :: u32) = 0" by (simp add: word_gt_0)
    with u have "nat n = 0" by simp
    with False that show ?thesis by simp
  qed
  obtain key iv where K: "hsKdf c (pad_magic b) seed = Ok (key, iv)" "length key = 16" "length iv = 16"
    using assms(1) by (simp add: hsKdf_def obfs2_mac_def Let_def)
  then obtain st where st: "new_stream key iv = Ok st" by (simp add: new_stream_def)
  have "obfs2_hello c ctr intn rs rp b = Ok (seed, fst (XORKeyStream ctr st (put_u32 magicValue @ put_u32 (word_of_int n) @ pad)),
      snd (XORKeyStream ctr st (put_u32 magicValue @ put_u32 (word_of_int n) @ pad)))"
    using seed(1) n(1) K(1) st unfolding obfs2_hello_def by (simp add: Let_def pad(1) split: prod.splits split del: if_split)
  moreover have "kdf_stream c (pad_magic b) seed = Ok st" using K(1) st by (simp add: kdf_stream_def)
  ultimately show ?thesis using seed(2) pad(2) n(2,3) u by (metis nat_le_iff of_nat_numeral)
qed

definition obfs2_keyed :: "crypto \<Rightarrow> bytes \<Rightarrow> bytes \<Rightarrow> bool \<Rightarrow> obfs2Conn \<Rightarrow> bool" where
  "obfs2_keyed c initSeed respSeed initiator conn \<longleftrightarrow>
    (\<exists>i r. kdf_stream c initiatorKdfString (initSeed @ respSeed) = Ok i \<and> kdf_stream c responderKdfString (initSeed @ respSeed) = Ok r \<and>
      o2_tx conn = Some (if initiator then i else r) \<and> o2_rx conn = Some (if initiator then r else i))"

lemma obfs2_answer_keyed:
  assumes "sha256_ok c" "length peer = 16" "unat (padLen :: u32) = length pad" "length pad \<le> 8192"
    "kdf_stream c (pad_magic (\<not> o2_isInitiator conn)) peer = Ok st" "[] \<notin> set chunks"
    "concat chunks = peer @ fst (XORKeyStream ctr st (put_u32 magicValue @ put_u32 padLen @ pad)) @ x"
  shows "\<exists>conn' rest. obfs2_answer c ctr seed (map Ok chunks) conn = Some (Ok conn', map Ok rest) \<and> concat rest = x \<and>
    [] \<notin> set rest \<and> obfs2_keyed c (if o2_isInitiator conn then seed else peer) (if o2_isInitiator conn then peer else seed)
      (o2_isInitiator conn) conn'"
proof -
  let ?h = "put_u32 magicValue @ put_u32 padLen"
  let ?p = "fst (XORKeyStream ctr (snd (XORKeyStream ctr st ?h)) pad)"
  have blob: "fst (XORKeyStream ctr st (put_u32 magicValue @ put_u32 padLen @ pad)) = fst (XORKeyStream ctr st ?h) @ ?p"
    using XOR_append(1) [of ctr st ?h pad] by simp
  obtain r1 where R1: "ReadFull 16 [] (map Ok chunks) = Some (Ok peer, map Ok r1)"
    "concat r1 = fst (XORKeyStream ctr st ?h) @ ?p @ x" "[] \<notin> set r1"
    using ReadFull_chunks [of 16 "[]" chunks] assms(2,6,7) blob by auto
  obtain r2 where R2: "ReadFull 8 [] (map Ok r1) = Some (Ok (fst (XORKeyStream ctr st ?h)), map Ok r2)" "concat r2 = ?p @ x" "[] \<notin> set r2"
    using ReadFull_chunks [of 8 "[]" r1] R1(2,3) by auto
  obtain r3 where R3: "ReadFull (length pad) [] (map Ok r2) = Some (Ok ?p, map Ok r3)" "concat r3 = x" "[] \<notin> set r3"
    using ReadFull_chunks [of "length pad" "[]" r2] R2(2,3) by auto
  let ?st = "snd (XORKeyStream ctr st (fst (XORKeyStream ctr st ?h)))"
  have A: "obfs2_answer c ctr seed (map Ok chunks) conn = Some (obfs2_kdf c seed peer (conn\<lparr>o2_rx := Some ?st\<rparr>), map Ok r3)"
    using assms(3-5) R1(1) R2(1) R3(1) by (simp add: obfs2_answer_def split_beta)
  obtain i r where "kdf_stream c initiatorKdfString (if o2_isInitiator conn then seed @ peer else peer @ seed) = Ok i"
    "kdf_stream c responderKdfString (if o2_isInitiator conn then seed @ peer else peer @ seed) = Ok r"
    using kdf_stream_Ok [OF assms(1)] by blast
  then have "\<exists>conn'. obfs2_kdf c seed peer (conn\<lparr>o2_rx := Some ?st\<rparr>) = Ok conn' \<and>
      obfs2_keyed c (if o2_isInitiator conn then seed else peer) (if o2_isInitiator conn then peer else seed) (o2_isInitiator conn) conn'"
    by (cases "o2_isInitiator conn") (simp_all add: obfs2_kdf_def obfs2_keyed_def)
  with A R3 show ?thesis by auto
qed

lemma obfs2_end:
  assumes "obfs2_hello c ctr intn rs rp b = Ok (seed, blob, st')" "sha256_ok c" "length peer = 16" "unat (padLen :: u32) = length pad"
    "length pad \<le> 8192" "kdf_stream c (pad_magic (\<not> b)) peer = Ok st" "[] \<notin> set chunks"
    "concat chunks = peer @ fst (XORKeyStream ctr st (put_u32 magicValue @ put_u32 padLen @ pad)) @ x"
  shows "\<exists>conn rest. newObfs2Conn b c ctr intn rs rp None None None None (map Ok chunks) = (seed @ blob, Some (Ok conn, map Ok rest)) \<and>
    concat rest = x \<and> [] \<notin> set rest \<and> obfs2_keyed c (if b then seed else peer) (if b then peer else seed) b conn"
proof -
  let ?c = "\<lparr>o2_isInitiator = b, o2_rx = None, o2_tx = Some st'\<rparr>"
  obtain conn rest where "obfs2_answer c ctr seed (map Ok chunks) ?c = Some (Ok conn, map Ok rest)" "concat rest = x" "[] \<notin> set rest"
    "obfs2_keyed c (if b then seed else peer) (if b then peer else seed) b conn"
    using obfs2_answer_keyed [OF assms(2-5), of ?c st chunks ctr x seed] assms(6-8) by auto
  moreover from this(1) have "newObfs2Conn b c ctr intn rs rp None None None None (map Ok chunks) = (seed @ blob, Some (Ok conn, map Ok rest))"
    using assms(1) by (simp add: newObfs2Conn_def obfs2_handshake_def)
  ultimately show ?thesis by blast
qed

text \<open>obfs2 delivers. Two ends, one of them the initiator, each send their seed, header and padding and read the other's,
  in any segmentation, possibly with data behind it. Both handshakes succeed, whatever the entropy; whatever one end then
  writes, in any number of writes, the other end reads back with buffers of any sizes: all of it, in order and nothing else, in
  at most as many reads as there are bytes.\<close>

lemma obfs2_delivers:
  assumes "sha256_ok c" "intn_ok iA" "intn_ok iB" "good_entropy sA" "good_entropy pA" "good_entropy sB" "good_entropy pB"
    "outA = fst (newObfs2Conn b c ctr iA sA pA None None None None [])"
    "outB = fst (newObfs2Conn (\<not> b) c ctr iB sB pB None None None None [])"
    "concat ca = outB @ laterB" "[] \<notin> set ca"
  shows "\<exists>connA connA' ra wire.
    newObfs2Conn b c ctr iA sA pA None None None None (map Ok ca) = (outA, Some (Ok connA, map Ok ra)) \<and> concat ra = laterB \<and>
    obfs2_writes ctr ws connA = (wire, Ok (length (concat ws)), connA') \<and> length wire = length (concat ws) \<and>
    (\<forall>cb. concat cb = outA @ wire \<and> [] \<notin> set cb \<longrightarrow>
      (\<exists>connB rb. newObfs2Conn (\<not> b) c ctr iB sB pB None None None None (map Ok cb) = (outB, Some (Ok connB, rb)) \<and>
        (\<forall>sizes. 0 \<notin> set sizes \<and> length (concat ws) \<le> length sizes \<longrightarrow>
          (\<exists>k connB'. k \<le> length (concat ws) \<and>
            obfs2_reads ctr (take k sizes) rb connB = Some (Ok (concat ws), [], connB')))))"
proof -
  obtain seedA padA stA stA' lA where A: "length seedA = 16" "unat (lA :: u32) = length padA" "length padA \<le> 8192"
    "kdf_stream c (pad_magic b) seedA = Ok stA"
    "obfs2_hello c ctr iA sA pA b = Ok (seedA, fst (XORKeyStream ctr stA (put_u32 magicValue @ put_u32 lA @ padA)), stA')"
    using obfs2_hello_Ok [OF assms(1,2,4,5)] by blast
  obtain seedB padB stB stB' lB where B: "length seedB = 16" "unat (lB :: u32) = length padB" "length padB \<le> 8192"
    "kdf_stream c (pad_magic (\<not> b)) seedB = Ok stB"
    "obfs2_hello c ctr iB sB pB (\<not> b) = Ok (seedB, fst (XORKeyStream ctr stB (put_u32 magicValue @ put_u32 lB @ padB)), stB')"
    using obfs2_hello_Ok [OF assms(1,3,6,7)] by blast
  have out: "outA = seedA @ fst (XORKeyStream ctr stA (put_u32 magicValue @ put_u32 lA @ padA))"
    "outB = seedB @ fst (XORKeyStream ctr stB (put_u32 magicValue @ put_u32 lB @ padB))"
    using assms(8,9) A(5) B(5) by (simp_all add: newObfs2Conn_def obfs2_handshake_def obfs2_answer_def)
  let ?i = "if b then seedA else seedB" and ?r = "if b then seedB else seedA"
  have B4: "kdf_stream c (pad_magic (\<not> b)) seedB = Ok stB" "kdf_stream c (pad_magic (\<not> \<not> b)) seedA = Ok stA" using A(4) B(4) by simp_all
  obtain connA ra where HA: "newObfs2Conn b c ctr iA sA pA None None None None (map Ok ca) = (outA, Some (Ok connA, map Ok ra))"
    "concat ra = laterB" "obfs2_keyed c ?i ?r b connA"
    using obfs2_end [OF A(5) assms(1) B(1-3) B4(1) assms(11), of laterB] assms(10) out by auto
  obtain i r where K: "kdf_stream c initiatorKdfString (?i @ ?r) = Ok i" "kdf_stream c responderKdfString (?i @ ?r) = Ok r"
    "o2_tx connA = Some (if b then i else r)" using HA(3) by (auto simp: obfs2_keyed_def)
  let ?t = "if b then i else r"
  let ?wire = "fst (XORKeyStream ctr ?t (concat ws))"
  obtain connA' where W: "obfs2_writes ctr ws connA = (?wire, Ok (length (concat ws)), connA')" using obfs2_writes_all [OF K(3)] by blast
  have "\<exists>connB rb. newObfs2Conn (\<not> b) c ctr iB sB pB None None None None (map Ok cb) = (outB, Some (Ok connB, rb)) \<and>
        (\<forall>sizes. 0 \<notin> set sizes \<and> length (concat ws) \<le> length sizes \<longrightarrow>
          (\<exists>k connB'. k \<le> length (concat ws) \<and> obfs2_reads ctr (take k sizes) rb connB = Some (Ok (concat ws), [], connB')))"
    if cb: "concat cb = outA @ ?wire" "[] \<notin> set cb" for cb
  proof -
    obtain connB rb where HB: "newObfs2Conn (\<not> b) c ctr iB sB pB None None None None (map Ok cb) = (outB, Some (Ok connB, map Ok rb))"
      "concat rb = ?wire" "[] \<notin> set rb" "obfs2_keyed c ?i ?r (\<not> b) connB"
      using obfs2_end [OF B(5) assms(1) A(1-3) B4(2) cb(2), of ?wire] cb(1) out by (cases b) auto
    have rx: "o2_rx connB = Some ?t" using HB(4) K(1,2) by (cases b) (auto simp: obfs2_keyed_def)
    have "\<exists>k connB'. k \<le> length (concat ws) \<and> obfs2_reads ctr (take k sizes) (map Ok rb) connB = Some (Ok (concat ws), [], connB')"
      if "0 \<notin> set sizes" "length (concat ws) \<le> length sizes" for sizes
      using obfs2_reads_all [OF rx HB(3) that(1), of ctr] that(2) HB(2) by auto
    with HB(1) show ?thesis by blast
  qed
  with HA(1,2) W show ?thesis by (metis length_XOR)
qed

lemma obfs2_delivers_example:
  "\<exists>outA outB connA connA' ra wire connB rb k connB'.
     newObfs2Conn True demo_crypto (\<lambda>key iv p. of_nat p) (\<lambda>n. n - 1) demo_entropy demo_entropy None None None None [Ok outB] =
       (outA, Some (Ok connA, ra)) \<and>
     obfs2_writes (\<lambda>key iv p. of_nat p) [[1, 2], [3]] connA = (wire, Ok 3, connA') \<and>
     newObfs2Conn False demo_crypto (\<lambda>key iv p. of_nat p) (\<lambda>_. 0) demo_entropy demo_entropy None None None None [Ok (outA @ wire)] =
       (outB, Some (Ok connB, rb)) \<and>
     obfs2_reads (\<lambda>key iv p. of_nat p) (take k [1, 1, 5]) rb connB = Some (Ok [1, 2, 3], [], connB')"
proof -
  let ?ks = "\<lambda>(key :: bytes) (iv :: bytes) p. of_nat p :: byte"
  let ?N = "\<lambda>b i. newObfs2Conn b demo_crypto ?ks i demo_entropy demo_entropy None None None None"
  let ?oA = "fst (?N True (\<lambda>n. n - 1) [])" and ?oB = "fst (?N (\<not> True) (\<lambda>_. 0) [])"
  have i: "intn_ok (\<lambda>n. n - 1)" by (simp add: intn_ok_def)
  obtain seed blob st where "obfs2_hello demo_crypto ?ks (\<lambda>_. 0) demo_entropy demo_entropy False = Ok (seed, blob, st)" "length seed = 16"
    using obfs2_hello_Ok [OF demo_crypto_ok(4) demo_intn demo_entropy_ok demo_entropy_ok] by blast
  then have "?oB \<noteq> []" by (auto simp: newObfs2Conn_def obfs2_handshake_def obfs2_answer_def)
  then have "concat [?oB] = ?oB @ []" "[] \<notin> set [?oB]" by auto
  note T = obfs2_delivers [OF demo_crypto_ok(4) i demo_intn demo_entropy_ok demo_entropy_ok demo_entropy_ok demo_entropy_ok refl refl this,
      of "[[1, 2], [3]]"]
  then obtain connA connA' ra wire where W: "?N True (\<lambda>n. n - 1) (map Ok [?oB]) = (?oA, Some (Ok connA, map Ok ra))"
    "obfs2_writes ?ks [[1, 2], [3]] connA = (wire, Ok (length (concat [[1, 2], [3 :: byte]])), connA')"
    "length wire = length (concat [[1, 2], [3 :: byte]])"
    "\<forall>cb. concat cb = ?oA @ wire \<and> [] \<notin> set cb \<longrightarrow>
      (\<exists>connB rb. ?N (\<not> True) (\<lambda>_. 0) (map Ok cb) = (?oB, Some (Ok connB, rb)) \<and>
        (\<forall>sizes. 0 \<notin> set sizes \<and> length (concat [[1, 2], [3 :: byte]]) \<le> length sizes \<longrightarrow>
          (\<exists>k connB'. k \<le> length (concat [[1, 2], [3 :: byte]]) \<and>
            obfs2_reads ?ks (take k sizes) rb connB = Some (Ok (concat [[1, 2], [3]]), [], connB'))))" by blast
  have "concat [?oA @ wire] = ?oA @ wire \<and> [] \<notin> set [?oA @ wire]" using W(3) by auto
  with W(4) obtain connB rb where B: "?N (\<not> True) (\<lambda>_. 0) (map Ok [?oA @ wire]) = (?oB, Some (Ok connB, rb))"
    "\<forall>sizes. 0 \<notin> set sizes \<and> length (concat [[1, 2], [3 :: byte]]) \<le> length sizes \<longrightarrow>
          (\<exists>k connB'. k \<le> length (concat [[1, 2], [3 :: byte]]) \<and>
            obfs2_reads ?ks (take k sizes) rb connB = Some (Ok (concat [[1, 2], [3]]), [], connB'))" by blast
  obtain k connB' where "obfs2_reads ?ks (take k [1, 1, 5]) rb connB = Some (Ok [1, 2, 3], [], connB')"
    using B(2) [rule_format, of "[1, 1, 5]"] by auto
  moreover have "obfs2_writes ?ks [[1, 2], [3]] connA = (wire, Ok 3, connA')"
    using W(2) by (simp add: numeral_3_eq_3 del: obfs2_writes.simps)
  moreover have "?N True (\<lambda>n. n - 1) [Ok ?oB] = (?oA, Some (Ok connA, map Ok ra))" "?N False (\<lambda>_. 0) [Ok (?oA @ wire)] = (?oB, Some (Ok connB, rb))"
    using W(1) B(1) by simp_all
  ultimately show ?thesis by blast
qed

end
