(* ===== verification/ScrambleSuit.thy ===== *)
theory ScrambleSuit
  imports Obfs3 StateFile
begin

text \<open>
  \<open>transports/scramblesuit\<close>, a client transport: \<open>hkdf_expand.go\<close>, the packets and the burst padding of \<open>conn.go\<close>, the UniformDH
  handshake (\<open>handshake_uniformdh.go\<close>), the tickets (\<open>handshake_ticket.go\<close>) and the connection that uses them. The key stream
  of AES is a parameter as in \<open>Obfs3\<close>; the length distribution is its seed, its samples are parameters; \<open>base32\<close> is a
  parameter.
\<close>

section \<open>Constants\<close>

definition ss_maxSegmentLength :: nat where [simp]: "ss_maxSegmentLength = 1448"
definition ss_maxPayloadLength :: nat where [simp]: "ss_maxPayloadLength = 1427"
definition sharedSecretLength :: nat where [simp]: "sharedSecretLength = 160 div 8"
definition ss_keyLength :: nat where [simp]: "ss_keyLength = 32 + 8 + 32"
definition ss_macLength :: nat where [simp]: "ss_macLength = 128 div 8"
definition pktHdrLength :: nat where [simp]: "pktHdrLength = 2 + 2 + 1"
definition pktOverhead :: nat where [simp]: "pktOverhead = ss_macLength + pktHdrLength"
definition pktPrngSeedLength :: nat where [simp]: "pktPrngSeedLength = 32"
definition pktPayload :: byte where [simp]: "pktPayload = 1"
definition pktNewTicket :: byte where [simp]: "pktNewTicket = 2"
definition pktPrngSeed :: byte where [simp]: "pktPrngSeed = 4"
definition ss_minHandshakeLength :: nat where [simp]: "ss_minHandshakeLength = udh_Size + ss_macLength * 2"
definition ss_maxHandshakeLength :: nat where [simp]: "ss_maxHandshakeLength = 1532"
definition dhMaxPadLength :: nat where [simp]: "dhMaxPadLength = 1308"
definition kdfSecretLength :: nat where [simp]: "kdfSecretLength = ss_keyLength * 2"
definition ticketKeyLength :: nat where [simp]: "ticketKeyLength = 32"
definition ticketLength :: nat where [simp]: "ticketLength = 112"
definition ticketLifetime :: int where [simp]: "ticketLifetime = 60 * 60 * 24 * 7"
definition ticketMaxPadLength :: nat where [simp]: "ticketMaxPadLength = 1388"

datatype ss_error = ErrInvalidPacket | SsMarkNotFoundYet | SsInvalidHandshake | SsUdh udh_error | SsRand nat | SsNet obfs3_error | SsMsg string

section \<open>Keys\<close>

text \<open>\<open>hkdfExpand\<close> with SHA-256; \<open>ctr\<close> is a byte and does not wrap below the bound.\<close>

function hkdf_loop :: "crypto \<Rightarrow> bytes \<Rightarrow> bytes \<Rightarrow> bytes \<Rightarrow> byte \<Rightarrow> nat \<Rightarrow> bytes" where
  "hkdf_loop c prk info t n toAppend =
    (if toAppend = 0 then []
     else let t' = hmac256 c prk (t @ info @ [n]); aLen = (if toAppend < 32 then toAppend else 32)
          in take aLen t' @ hkdf_loop c prk info t' (n + 1) (toAppend - aLen))"
  by auto
termination by (relation "measure (\<lambda>(c, prk, info, t, n, toAppend). toAppend)") (auto simp: Let_def)

declare hkdf_loop.simps [simp del]

definition hkdfExpand :: "crypto \<Rightarrow> bytes \<Rightarrow> bytes \<Rightarrow> nat \<Rightarrow> ('e, bytes) outcome" where
  "hkdfExpand c prk info l = (if l > 255 * 32 then Panic else Ok (hkdf_loop c prk info [] 1 l))"

text \<open>\<open>ssCryptoState\<close>; an HMAC object is its key and what was written since the last \<open>Reset\<close>.\<close>

record ssCryptoState =
  cs_s :: stream
  cs_macKey :: bytes
  cs_macBuf :: bytes

definition newCryptoState :: "bytes \<Rightarrow> bytes \<Rightarrow> bytes \<Rightarrow> (obfs3_error, ssCryptoState) outcome" where
  "newCryptoState aesKey ivPrefix macKey =
    and_then (new_stream aesKey (ivPrefix @ [0, 0, 0, 0, 0, 0, 0, 1])) (\<lambda>s. Ok \<lparr>cs_s = s, cs_macKey = macKey, cs_macBuf = []\<rparr>)"

section \<open>Connections\<close>

record ssTicket =
  tk_key :: bytes
  tk_ticket :: bytes
  tk_issuedAt :: int

type_synonym ssTicketStore = "string \<rightharpoonup> ssTicket"

record ssRxState =
  rs_mac :: "bytes option"
  rs_hdr :: "bytes option"
  rs_totalLen :: nat
  rs_payloadLen :: nat

record ssConn =
  ss_isServer :: bool
  ss_lenDist :: bytes
  ss_receiveBuffer :: bytes
  ss_receiveDecodedBuffer :: bytes
  ss_receiveState :: ssRxState
  ss_tx :: "ssCryptoState option"
  ss_rx :: "ssCryptoState option"
  ss_tickets :: ssTicketStore
  ss_addr :: string \<comment> \<open>\<open>conn.RemoteAddr().String()\<close>\<close>

definition empty_rx :: ssRxState where
  "empty_rx = \<lparr>rs_mac = None, rs_hdr = None, rs_totalLen = 0, rs_payloadLen = 0\<rparr>"

definition initCrypto :: "crypto \<Rightarrow> bytes \<Rightarrow> ssConn \<Rightarrow> (obfs3_error, ssConn) outcome" where
  "initCrypto c seed conn =
    and_then (hkdfExpand c seed [] kdfSecretLength) (\<lambda>okm.
    and_then (newCryptoState (take 32 okm) (take 8 (drop 32 okm)) (take 32 (drop 80 okm))) (\<lambda>tx.
    and_then (newCryptoState (take 32 (drop 40 okm)) (take 8 (drop 72 okm)) (take 32 (drop 112 okm))) (\<lambda>rx.
      Ok (conn\<lparr>ss_tx := Some tx, ss_rx := Some rx\<rparr>))))"

section \<open>Packets\<close>

definition ss_makePacket :: "crypto \<Rightarrow> keystream \<Rightarrow> byte \<Rightarrow> bytes \<Rightarrow> int \<Rightarrow> ssCryptoState \<Rightarrow> (ss_error, bytes) outcome \<times> ssCryptoState" where
  "ss_makePacket c ctr pktType data padLen tx =
    (let payloadLen = length data; totalLen = int payloadLen + padLen
     in if totalLen > int ss_maxPayloadLength \<or> padLen < 0 then (Panic, tx)
        else let plain = put_u16 (word_of_int totalLen) @ put_u16 (word_of_int (int payloadLen)) @ [pktType] @ data @ replicate (nat padLen) 0;
                 (pkt, s') = XORKeyStream ctr (cs_s tx) plain;
                 mac = take ss_macLength (hmac256 c (cs_macKey tx) pkt)
             in (Ok (mac @ pkt), tx\<lparr>cs_s := s', cs_macBuf := pkt\<rparr>))"

text \<open>One turn of the loop of \<open>readPackets\<close>: \<open>Wait\<close> is \<open>break\<close>, \<open>Bad\<close> returns \<open>ErrInvalidPacket\<close>, \<open>Crash\<close> is a panic,
  \<open>Next\<close> the end of the body.\<close>

datatype ss_result = Wait ssConn | Bad ssConn | Crash ssConn | Next ssConn

definition take_mac :: "ssConn \<Rightarrow> ssConn option" where
  "take_mac conn =
    (if rs_mac (ss_receiveState conn) \<noteq> None then Some conn
     else if length (ss_receiveBuffer conn) < ss_macLength then None
     else Some (conn\<lparr>ss_receiveBuffer := drop ss_macLength (ss_receiveBuffer conn),
       ss_receiveState := (ss_receiveState conn)\<lparr>rs_mac := Some (take ss_macLength (ss_receiveBuffer conn))\<rparr>\<rparr>))"

definition take_hdr :: "keystream \<Rightarrow> ssCryptoState \<Rightarrow> ssConn \<Rightarrow> ss_result" where
  "take_hdr ctr rx conn =
    (if rs_hdr (ss_receiveState conn) \<noteq> None then Next conn
     else if length (ss_receiveBuffer conn) < pktHdrLength then Wait conn
     else (let cipher = take pktHdrLength (ss_receiveBuffer conn);
               (hdr, s') = XORKeyStream ctr (cs_s rx) cipher;
               totalLen = nat_of_be (take 2 hdr); payloadLen = nat_of_be (take 2 (drop 2 hdr));
               conn1 = conn\<lparr>ss_receiveBuffer := drop pktHdrLength (ss_receiveBuffer conn), ss_rx := Some (rx\<lparr>cs_s := s', cs_macBuf := cipher\<rparr>)\<rparr>
           in if payloadLen > totalLen \<or> totalLen > ss_maxPayloadLength then Bad conn1
              else Next (conn1\<lparr>ss_receiveState := (ss_receiveState conn)\<lparr>rs_hdr := Some hdr, rs_totalLen := totalLen, rs_payloadLen := payloadLen\<rparr>\<rparr>)))"

text \<open>The \<open>switch\<close> on the packet type.\<close>

definition newTicket :: "int \<Rightarrow> bytes \<Rightarrow> ssTicket option" where
  "newTicket now raw = (if length raw \<noteq> ticketKeyLength + ticketLength then None
     else Some \<lparr>tk_key = take ticketKeyLength raw, tk_ticket = take ticketLength (drop ticketKeyLength raw), tk_issuedAt = now\<rparr>)"

definition storeTicket :: "int \<Rightarrow> string \<Rightarrow> bytes \<Rightarrow> ssTicketStore \<Rightarrow> ssTicketStore" where
  "storeTicket now addr rawT store = (case newTicket now rawT of None \<Rightarrow> store | Some t \<Rightarrow> store(addr \<mapsto> t))"

definition ss_handle :: "int \<Rightarrow> byte \<Rightarrow> bytes \<Rightarrow> ssConn \<Rightarrow> ssConn option" where
  "ss_handle now pktType data conn =
    (if pktType = pktPayload then Some (conn\<lparr>ss_receiveDecodedBuffer := ss_receiveDecodedBuffer conn @ data\<rparr>)
     else if pktType = pktNewTicket then
       (if ss_isServer conn \<or> length data \<noteq> ticketKeyLength + ticketLength then None
        else Some (conn\<lparr>ss_tickets := storeTicket now (ss_addr conn) data (ss_tickets conn)\<rparr>))
     else if pktType = pktPrngSeed then
       (if ss_isServer conn \<or> length data \<noteq> pktPrngSeedLength then None
        else (case SeedFromBytes data of Ok seed \<Rightarrow> Some (conn\<lparr>ss_lenDist := seed\<rparr>) | _ \<Rightarrow> None))
     else None)"

text \<open>The last part of the body.\<close>

definition take_body :: "crypto \<Rightarrow> keystream \<Rightarrow> int \<Rightarrow> ssCryptoState \<Rightarrow> ssConn \<Rightarrow> ss_result" where
  "take_body c ctr now rx conn =
    (let st = ss_receiveState conn; n = rs_totalLen st
     in if n > 0 \<and> length (ss_receiveBuffer conn) < n then Wait conn
        else (let cipher = take n (ss_receiveBuffer conn); (data, s') = XORKeyStream ctr (cs_s rx) cipher;
                  rx1 = rx\<lparr>cs_s := s', cs_macBuf := cs_macBuf rx @ cipher\<rparr>;
                  conn1 = conn\<lparr>ss_receiveBuffer := drop n (ss_receiveBuffer conn), ss_rx := Some rx1\<rparr>;
                  cmpMAC = take ss_macLength (hmac256 c (cs_macKey rx1) (cs_macBuf rx1))
              in if Some cmpMAC \<noteq> rs_mac st then Bad conn1
                 else (case rs_hdr st of None \<Rightarrow> Crash conn1
                   | Some hdr \<Rightarrow>
                      (case ss_handle now (hdr ! 4) (take (rs_payloadLen st) data) conn1 of
                         None \<Rightarrow> Bad conn1 | Some conn2 \<Rightarrow> Next (conn2\<lparr>ss_receiveState := empty_rx\<rparr>)))))"

definition ss_turn :: "crypto \<Rightarrow> keystream \<Rightarrow> int \<Rightarrow> ssConn \<Rightarrow> ss_result" where
  "ss_turn c ctr now conn =
    (case take_mac conn of None \<Rightarrow> Wait conn
     | Some conn1 \<Rightarrow>
        (case ss_rx conn1 of None \<Rightarrow> Crash conn1
         | Some rx \<Rightarrow>
            (case take_hdr ctr rx conn1 of
               Wait conn2 \<Rightarrow> Wait conn2 | Bad conn2 \<Rightarrow> Bad conn2 | Crash conn2 \<Rightarrow> Crash conn2
             | Next conn2 \<Rightarrow> (case ss_rx conn2 of None \<Rightarrow> Crash conn2 | Some rx2 \<Rightarrow> take_body c ctr now rx2 conn2))))"

definition ss_load :: "ssConn \<Rightarrow> nat" where
  "ss_load conn = 2 * length (ss_receiveBuffer conn) + (if rs_mac (ss_receiveState conn) = None then 0 else 1)"

lemma take_mac_facts:
  "take_mac conn = Some conn1 \<Longrightarrow> ss_load conn1 \<le> ss_load conn \<and> rs_mac (ss_receiveState conn1) \<noteq> None"
  by (auto simp: take_mac_def ss_load_def split: if_splits)

lemma take_hdr_facts:
  "take_hdr ctr rx conn = Next conn' \<Longrightarrow> ss_load conn' \<le> ss_load conn \<and>
     rs_mac (ss_receiveState conn') = rs_mac (ss_receiveState conn) \<and> rs_hdr (ss_receiveState conn') \<noteq> None"
  by (auto simp: take_hdr_def ss_load_def Let_def split: if_splits prod.splits)

lemma ss_handle_facts: "ss_handle now t d conn = Some conn' \<Longrightarrow> ss_receiveBuffer conn' = ss_receiveBuffer conn"
  by (auto simp: ss_handle_def split: if_splits outcome.splits)

lemma take_body_facts:
  "take_body c ctr now rx conn = Next conn' \<Longrightarrow> rs_mac (ss_receiveState conn) \<noteq> None \<Longrightarrow> ss_load conn' < ss_load conn"
  by (auto simp: take_body_def ss_load_def empty_rx_def Let_def split: if_splits prod.splits option.splits dest!: ss_handle_facts)

lemma ss_turn_load: "ss_turn c ctr now conn = Next conn' \<Longrightarrow> ss_load conn' < ss_load conn"
  by (auto simp: ss_turn_def split: option.splits ss_result.splits dest!: take_mac_facts take_hdr_facts take_body_facts)

function ss_loop :: "crypto \<Rightarrow> keystream \<Rightarrow> int \<Rightarrow> ssConn \<Rightarrow> (ss_error, unit) outcome \<times> ssConn" where
  "ss_loop c ctr now conn =
    (if ss_receiveBuffer conn = [] then (Ok (), conn)
     else (case ss_turn c ctr now conn of
         Wait conn' \<Rightarrow> (Ok (), conn') | Bad conn' \<Rightarrow> (Err ErrInvalidPacket, conn') | Crash conn' \<Rightarrow> (Panic, conn')
       | Next conn' \<Rightarrow> ss_loop c ctr now conn'))"
  by auto
termination by (relation "measure (\<lambda>(c, ctr, now, conn). ss_load conn)") (auto dest: ss_turn_load)

declare ss_loop.simps [simp del]

definition ss_readPackets :: "crypto \<Rightarrow> keystream \<Rightarrow> int \<Rightarrow> net_reads \<Rightarrow> ssConn \<Rightarrow> ((ss_error, unit) outcome \<times> net_reads \<times> ssConn) option" where
  "ss_readPackets c ctr now reads conn =
    (case net_read ss_maxSegmentLength reads of
       None \<Rightarrow> None
     | Some (Ok d, rs) \<Rightarrow>
        (let (r, conn') = ss_loop c ctr now (conn\<lparr>ss_receiveBuffer := ss_receiveBuffer conn @ d\<rparr>) in Some (r, rs, conn'))
     | Some (Err e, rs) \<Rightarrow> (let (r, conn') = ss_loop c ctr now conn in Some (and_then r (\<lambda>_. Err (SsNet e)), rs, conn'))
     | Some (Panic, rs) \<Rightarrow> Some (Panic, rs, conn))"

lemma ss_readPackets_load: "ss_readPackets c ctr now reads conn = Some (Ok u, rs, conn') \<Longrightarrow> load rs < load reads"
proof -
  assume A: "ss_readPackets c ctr now reads conn = Some (Ok u, rs, conn')"
  then obtain d where "net_read ss_maxSegmentLength reads = Some (Ok d, rs)"
    by (auto simp: ss_readPackets_def and_then_Ok_iff split: option.splits prod.splits outcome.splits)
  from net_read_load [OF this] show ?thesis by simp
qed

text \<open>\<open>Read\<close> gives data and error together: what is buffered is served after an error, too.\<close>

definition ss_serve :: "nat \<Rightarrow> ss_error option \<Rightarrow> net_reads \<Rightarrow> ssConn \<Rightarrow>
    ((ss_error, bytes \<times> ss_error option) outcome \<times> net_reads \<times> ssConn) option" where
  "ss_serve n err reads conn =
    Some (Ok (take n (ss_receiveDecodedBuffer conn), err), reads, conn\<lparr>ss_receiveDecodedBuffer := drop n (ss_receiveDecodedBuffer conn)\<rparr>)"

function ss_Read :: "crypto \<Rightarrow> keystream \<Rightarrow> int \<Rightarrow> nat \<Rightarrow> net_reads \<Rightarrow> ssConn \<Rightarrow>
    ((ss_error, bytes \<times> ss_error option) outcome \<times> net_reads \<times> ssConn) option" where
  "ss_Read c ctr now n reads conn =
    (if ss_receiveDecodedBuffer conn \<noteq> [] then ss_serve n None reads conn
     else (case ss_readPackets c ctr now reads conn of
         None \<Rightarrow> None
       | Some (Ok _, rs, conn') \<Rightarrow> ss_Read c ctr now n rs conn'
       | Some (Err e, rs, conn') \<Rightarrow> ss_serve n (Some e) rs conn'
       | Some (Panic, rs, conn') \<Rightarrow> Some (Panic, rs, conn')))"
  by auto
termination by (relation "measure (\<lambda>(c, ctr, now, n, reads, conn). load reads)") (auto dest: ss_readPackets_load)

declare ss_Read.simps [simp del]

section \<open>Writing\<close>

fun ss_frames :: "crypto \<Rightarrow> keystream \<Rightarrow> (bytes \<times> int) list \<Rightarrow> ssCryptoState \<Rightarrow> (ss_error, bytes) outcome \<times> ssCryptoState" where
  "ss_frames c ctr [] tx = (Ok [], tx)"
| "ss_frames c ctr ((data, padLen) # ps) tx =
    (case ss_makePacket c ctr pktPayload data padLen tx of
       (Ok frame, tx1) \<Rightarrow> (case ss_frames c ctr ps tx1 of (r, tx2) \<Rightarrow> (and_then r (\<lambda>out. Ok (frame @ out)), tx2))
     | r \<Rightarrow> r)"

text \<open>\<open>padBurst\<close>: the padding packets to append.\<close>

definition ss_padBurst :: "nat \<Rightarrow> int \<Rightarrow> int list" where
  "ss_padBurst burstLen sampleLen =
    (let dataLen = int (burstLen mod ss_maxSegmentLength);
         padLen = (if sampleLen \<ge> dataLen then sampleLen - dataLen else (int ss_maxSegmentLength - dataLen) + sampleLen);
         padLen = (if padLen < int pktOverhead then padLen + int ss_maxSegmentLength else padLen)
     in if padLen = 0 then []
        else if padLen > int ss_maxSegmentLength then [700 - int pktOverhead, padLen - (700 + 2 * int pktOverhead)]
        else [padLen - int pktOverhead])"

text \<open>\<open>Write\<close>; \<open>sample\<close> is what the length distribution gives, \<open>wr\<close> the error of the write.\<close>

definition ss_Write :: "crypto \<Rightarrow> keystream \<Rightarrow> int \<Rightarrow> nat option \<Rightarrow> bytes \<Rightarrow> ssConn \<Rightarrow> bytes \<times> (ss_error, nat) outcome \<times> ssConn" where
  "ss_Write c ctr sample wr b conn =
    (case ss_tx conn of None \<Rightarrow> ([], Panic, conn)
     | Some tx \<Rightarrow>
        (case ss_frames c ctr (map (\<lambda>d. (d, 0)) (chop ss_maxPayloadLength b)) tx of
           (Err e, tx1) \<Rightarrow> ([], Err e, conn\<lparr>ss_tx := Some tx1\<rparr>) | (Panic, tx1) \<Rightarrow> ([], Panic, conn\<lparr>ss_tx := Some tx1\<rparr>)
         | (Ok frames, tx1) \<Rightarrow>
            (case ss_frames c ctr (map (\<lambda>n. ([], n)) (ss_padBurst (length frames) sample)) tx1 of
               (Err e, tx2) \<Rightarrow> ([], Err e, conn\<lparr>ss_tx := Some tx2\<rparr>) | (Panic, tx2) \<Rightarrow> ([], Panic, conn\<lparr>ss_tx := Some tx2\<rparr>)
             | (Ok pads, tx2) \<Rightarrow>
                (case wr of Some e \<Rightarrow> ([], Err (SsNet (O3Net e)), conn\<lparr>ss_tx := Some tx2\<rparr>)
                 | None \<Rightarrow> (frames @ pads, Ok (length b), conn\<lparr>ss_tx := Some tx2\<rparr>)))))"

section \<open>Segmentation\<close>

abbreviation arrived :: "bytes \<Rightarrow> ssConn \<Rightarrow> ssConn" where
  "arrived x conn \<equiv> conn\<lparr>ss_receiveBuffer := ss_receiveBuffer conn @ x\<rparr>"

fun more_result :: "bytes \<Rightarrow> ss_result \<Rightarrow> ss_result" where
  "more_result x (Wait conn) = Wait (arrived x conn)"
| "more_result x (Bad conn) = Bad (arrived x conn)"
| "more_result x (Crash conn) = Crash (arrived x conn)"
| "more_result x (Next conn) = Next (arrived x conn)"

lemma take_mac_more: "take_mac conn = Some conn1 \<Longrightarrow> take_mac (arrived x conn) = Some (arrived x conn1)"
  by (auto simp: take_mac_def split: if_splits)

lemma take_mac_done: "rs_mac (ss_receiveState conn) \<noteq> None \<Longrightarrow> take_mac conn = Some conn"
  by (simp add: take_mac_def)

lemma take_hdr_more: "take_hdr ctr rx conn \<noteq> Wait conn \<Longrightarrow> take_hdr ctr rx (arrived x conn) = more_result x (take_hdr ctr rx conn)"
proof -
  assume "take_hdr ctr rx conn \<noteq> Wait conn"
  then have "rs_hdr (ss_receiveState conn) \<noteq> None \<or> \<not> length (ss_receiveBuffer conn) < pktHdrLength" by (auto simp: take_hdr_def)
  then show ?thesis by (auto simp: take_hdr_def Let_def split: prod.splits)
qed

lemma take_hdr_wait: "take_hdr ctr rx conn = Wait conn' \<Longrightarrow> conn' = conn"
  by (auto simp: take_hdr_def Let_def split: if_splits prod.splits)

lemma ss_handle_more: "ss_handle now t d (arrived x conn) = map_option (arrived x) (ss_handle now t d conn)"
  by (auto simp: ss_handle_def split: outcome.splits)

lemma take_body_more: "take_body c ctr now rx conn \<noteq> Wait conn \<Longrightarrow>
   take_body c ctr now rx (arrived x conn) = more_result x (take_body c ctr now rx conn)"
proof -
  assume A: "take_body c ctr now rx conn \<noteq> Wait conn"
  let ?n = "rs_totalLen (ss_receiveState conn)"
  have n: "?n \<le> length (ss_receiveBuffer conn)" using A by (auto simp: take_body_def Let_def split: if_splits)
  define k where "k = conn\<lparr>ss_receiveBuffer := drop ?n (ss_receiveBuffer conn), ss_rx := Some
     (rx\<lparr>cs_s := snd (XORKeyStream ctr (cs_s rx) (take ?n (ss_receiveBuffer conn))),
       cs_macBuf := cs_macBuf rx @ take ?n (ss_receiveBuffer conn)\<rparr>)\<rparr>"
  let ?d = "take (rs_payloadLen (ss_receiveState conn)) (fst (XORKeyStream ctr (cs_s rx) (take ?n (ss_receiveBuffer conn))))"
  let ?mac = "Some (take ss_macLength (hmac256 c (cs_macKey rx) (cs_macBuf rx @ take ?n (ss_receiveBuffer conn))))"
  let ?result = "\<lambda>k. if ?mac \<noteq> rs_mac (ss_receiveState conn) then Bad k
     else (case rs_hdr (ss_receiveState conn) of None \<Rightarrow> Crash k
       | Some h \<Rightarrow> (case ss_handle now (h ! 4) ?d k of None \<Rightarrow> Bad k | Some conn2 \<Rightarrow> Next (conn2\<lparr>ss_receiveState := empty_rx\<rparr>)))"
  have swap: "conn\<lparr>ss_receiveBuffer := b, ss_rx := r\<rparr> = conn\<lparr>ss_rx := r, ss_receiveBuffer := b\<rparr>" for b r by simp
  have "take_body c ctr now rx conn = ?result k" "take_body c ctr now rx (arrived x conn) = ?result (arrived x k)"
    using n by (simp_all add: take_body_def Let_def split_beta k_def swap cong: option.case_cong)
  then show ?thesis by (auto simp: ss_handle_more split: option.splits)
qed

lemma take_body_wait: "take_body c ctr now rx conn = Wait conn' \<Longrightarrow> conn' = conn"
  by (auto simp: take_body_def Let_def split: if_splits prod.splits option.splits)

text \<open>More data does not change what a turn has decided; a turn that waits is taken up where it stopped.\<close>

lemma ss_turn_more:
  "ss_turn c ctr now (arrived x conn) = (case ss_turn c ctr now conn of Wait conn' \<Rightarrow> ss_turn c ctr now (arrived x conn') | r \<Rightarrow> more_result x r)"
proof (cases "take_mac conn")
  case None
  then show ?thesis by (simp add: ss_turn_def)
next
  case (Some conn1)
  note m = take_mac_more [OF Some, of x] and m1 = take_mac_facts [OF Some, THEN conjunct2]
  show ?thesis
  proof (cases "ss_rx conn1")
    case None
    with Some m show ?thesis by (simp add: ss_turn_def)
  next
    case rx: (Some rx)
    show ?thesis
    proof (cases "take_hdr ctr rx conn1")
      case (Wait conn2)
      then have "conn2 = conn1" by (rule take_hdr_wait)
      with Some m rx Wait take_mac_done [of "arrived x conn1"] m1 show ?thesis by (simp add: ss_turn_def)
    next
      case (Bad conn2)
      with Some m rx take_hdr_more [where ctr = ctr and rx = rx and conn = conn1 and x = x] show ?thesis by (simp add: ss_turn_def)
    next
      case (Crash conn2)
      with Some m rx take_hdr_more [where ctr = ctr and rx = rx and conn = conn1 and x = x] show ?thesis by (simp add: ss_turn_def)
    next
      case (Next conn2)
      note f = take_hdr_facts [OF Next]
      have h: "take_hdr ctr rx (arrived x conn1) = Next (arrived x conn2)" using Next take_hdr_more [where ctr = ctr and rx = rx and conn = conn1 and x = x] by simp
      show ?thesis
      proof (cases "ss_rx conn2")
        case None
        with Some m rx Next h show ?thesis by (simp add: ss_turn_def)
      next
        case rx2: (Some rx2)
        have idem: "ss_turn c ctr now (arrived x conn2) = take_body c ctr now rx2 (arrived x conn2)"
          using f m1 rx2 by (auto simp: ss_turn_def take_mac_def take_hdr_def)
        show ?thesis
        proof (cases "take_body c ctr now rx2 conn2 = Wait conn2")
          case True
          with Some m rx Next h rx2 idem show ?thesis by (simp add: ss_turn_def)
        next
          case False
          then have "\<forall>conn3. take_body c ctr now rx2 conn2 \<noteq> Wait conn3" using take_body_wait by fastforce
          with Some m rx Next h rx2 take_body_more [OF False, of x] show ?thesis
            by (cases "take_body c ctr now rx2 conn2") (simp_all add: ss_turn_def)
        qed
      qed
    qed
  qed
qed

lemma ss_loop_more:
  "ss_loop c ctr now (arrived x conn) =
     (case ss_loop c ctr now conn of (Ok _, conn') \<Rightarrow> ss_loop c ctr now (arrived x conn') | (r, conn') \<Rightarrow> (r, arrived x conn'))"
proof (induction c ctr now conn rule: ss_loop.induct)
  case (1 c ctr now conn)
  show ?case
  proof (cases "ss_receiveBuffer conn = []")
    case True
    then show ?thesis by (simp add: ss_loop.simps [of c ctr now conn])
  next
    case False
    then have ne: "ss_receiveBuffer (arrived x conn) \<noteq> []" by simp
    show ?thesis
    proof (cases "ss_turn c ctr now conn")
      case (Wait conn')
      then have L: "ss_loop c ctr now conn = (Ok (), conn')" using False by (simp add: ss_loop.simps [of c ctr now conn])
      have W: "ss_turn c ctr now conn' = Wait conn'" using ss_turn_more [where x = "[]" and conn = conn and c = c and ctr = ctr and now = now] Wait by simp
      have T: "ss_turn c ctr now (arrived x conn) = ss_turn c ctr now (arrived x conn')" using ss_turn_more [where x = x and conn = conn and c = c and ctr = ctr and now = now] Wait by simp
      show ?thesis
      proof (cases "ss_receiveBuffer (arrived x conn') = []")
        case True
        then have e: "arrived x conn' = conn'" by simp
        have "ss_loop c ctr now (arrived x conn) = (Ok (), conn')"
          using ne T W unfolding e by (subst ss_loop.simps) auto
        moreover have "ss_loop c ctr now (arrived x conn') = (Ok (), conn')"
          using True unfolding e by (simp add: ss_loop.simps [of c ctr now conn'])
        ultimately show ?thesis using L by simp
      next
        case f: False
        then show ?thesis unfolding L using T ne
          by (simp only: ss_loop.simps [of c ctr now "arrived x conn"] ss_loop.simps [of c ctr now "arrived x conn'"] if_False prod.case outcome.case)
      qed
    next
      case (Next conn')
      then have "ss_turn c ctr now (arrived x conn) = Next (arrived x conn')" using ss_turn_more [where x = x and conn = conn and c = c and ctr = ctr and now = now] by simp
      with 1 [OF False Next] Next False ne show ?thesis
        by (simp add: ss_loop.simps [of c ctr now conn] ss_loop.simps [of c ctr now "arrived x conn"])
    next
      case (Bad conn')
      with ss_turn_more [where x = x and conn = conn and c = c and ctr = ctr and now = now] False show ?thesis
        by (simp add: ss_loop.simps [of c ctr now conn] ss_loop.simps [of c ctr now "arrived x conn"])
    next
      case (Crash conn')
      with ss_turn_more [where x = x and conn = conn and c = c and ctr = ctr and now = now] False show ?thesis
        by (simp add: ss_loop.simps [of c ctr now conn] ss_loop.simps [of c ctr now "arrived x conn"])
    qed
  qed
qed

section \<open>Delivery\<close>

definition ss_paired :: "ssCryptoState \<Rightarrow> ssCryptoState \<Rightarrow> bool" where
  "ss_paired tx rx \<longleftrightarrow> cs_s tx = cs_s rx \<and> cs_macKey tx = cs_macKey rx"

lemma XOR_snd: "snd (XORKeyStream ctr st (fst (XORKeyStream ctr st a))) = snd (XORKeyStream ctr st a)"
  by (simp add: XORKeyStream_def)

lemma nat_of_be_put_u16: "nat_of_be (put_u16 w) = unat w"
  using unsigned_less [where ?'a = nat, of w] by (simp add: put_u16_def del: be_of_nat.simps)

lemma ss_makePacket_facts:
  assumes "ss_makePacket c ctr t data padLen tx = (Ok frame, tx')"
  shows "\<exists>hdr body. let s = cs_s tx; s1 = snd (XORKeyStream ctr s hdr); pkt = fst (XORKeyStream ctr s hdr) @ fst (XORKeyStream ctr s1 body)
    in frame = take 16 (hmac256 c (cs_macKey tx) pkt) @ pkt \<and> length hdr = 5 \<and> nat_of_be (take 2 hdr) = length body \<and>
       nat_of_be (take 2 (drop 2 hdr)) = length data \<and> hdr ! 4 = t \<and> length data \<le> length body \<and> length body \<le> 1427 \<and>
       take (length data) body = data \<and> cs_s tx' = snd (XORKeyStream ctr s1 body) \<and> cs_macKey tx' = cs_macKey tx"
proof -
  define hdr where "hdr = put_u16 (word_of_int (int (length data) + padLen)) @ put_u16 (word_of_int (int (length data))) @ [t]"
  define body where "body = data @ replicate (nat padLen) 0"
  have g: "int (length data) + padLen \<le> 1427" "0 \<le> padLen" using assms by (auto simp: ss_makePacket_def Let_def split: if_splits)
  have "take 2 hdr = put_u16 (word_of_int (int (length data) + padLen))" "take 2 (drop 2 hdr) = put_u16 (word_of_int (int (length data)))"
    by (simp_all add: hdr_def)
  moreover have "unat (word_of_int (int (length data) + padLen) :: u16) = nat (int (length data) + padLen)"
    "unat (word_of_int (int (length data)) :: u16) = nat (int (length data))" using g by (intro unat_u16_of_int; simp)+
  ultimately have n: "nat_of_be (take 2 hdr) = length body" "nat_of_be (take 2 (drop 2 hdr)) = length data"
    using g by (simp_all only: nat_of_be_put_u16) (simp_all add: body_def nat_add_distrib)
  have p: "put_u16 (word_of_int (int (length data) + padLen)) @ put_u16 (word_of_int (int (length data))) @ [t] @ data @ replicate (nat padLen) 0
      = hdr @ body" by (simp add: hdr_def body_def)
  have "hdr ! 4 = t" by (simp add: hdr_def nth_append)
  moreover have "length hdr = 5" "length data \<le> length body" "length body \<le> 1427" "take (length data) body = data"
    using g by (simp_all add: hdr_def body_def)
  ultimately show ?thesis using assms g n XOR_append [of ctr "cs_s tx" hdr body] p
    by (intro exI [of _ hdr] exI [of _ body]) (auto simp: ss_makePacket_def Let_def split_beta split: if_splits)
qed

lemma frame_turn:
  assumes "hmac_ok c" "ss_makePacket c ctr pktPayload data padLen tx = (Ok frame, tx')" "ss_paired tx rx" "ss_rx conn = Some rx"
    "ss_receiveState conn = empty_rx"
  shows "\<exists>rx'. ss_paired tx' rx' \<and> ss_turn c ctr now (conn\<lparr>ss_receiveBuffer := frame @ rest\<rparr>) =
    Next (conn\<lparr>ss_receiveBuffer := rest, ss_receiveDecodedBuffer := ss_receiveDecodedBuffer conn @ data, ss_rx := Some rx'\<rparr>)"
proof -
  obtain hdr body where H: "length hdr = 5" "nat_of_be (take 2 hdr) = length body" "nat_of_be (take 2 (drop 2 hdr)) = length data"
    "hdr ! 4 = pktPayload" "length data \<le> length body" "length body \<le> 1427" "take (length data) body = data"
    "cs_macKey tx' = cs_macKey tx"
    and F: "frame = take 16 (hmac256 c (cs_macKey tx) (fst (XORKeyStream ctr (cs_s tx) hdr) @
        fst (XORKeyStream ctr (snd (XORKeyStream ctr (cs_s tx) hdr)) body))) @
      fst (XORKeyStream ctr (cs_s tx) hdr) @ fst (XORKeyStream ctr (snd (XORKeyStream ctr (cs_s tx) hdr)) body)"
      "cs_s tx' = snd (XORKeyStream ctr (snd (XORKeyStream ctr (cs_s tx) hdr)) body)"
    using ss_makePacket_facts [OF assms(2)] by (auto simp: Let_def)
  have P: "cs_s rx = cs_s tx" "cs_macKey rx = cs_macKey tx" using assms(3) by (simp_all add: ss_paired_def)
  let ?s = "cs_s tx" and ?hc = "fst (XORKeyStream ctr (cs_s tx) hdr)" and ?bc = "fst (XORKeyStream ctr (snd (XORKeyStream ctr (cs_s tx) hdr)) body)"
  let ?m = "take 16 (hmac256 c (cs_macKey tx) (?hc @ ?bc))"
  have lm: "length ?m = 16" using assms(1) by simp
  let ?rx1 = "rx\<lparr>cs_s := snd (XORKeyStream ctr ?s hdr), cs_macBuf := ?hc\<rparr>"
  let ?rx2 = "rx\<lparr>cs_s := cs_s tx', cs_macBuf := ?hc @ ?bc\<rparr>"
  let ?c0 = "conn\<lparr>ss_receiveBuffer := frame @ rest\<rparr>"
  let ?c1 = "conn\<lparr>ss_receiveBuffer := ?hc @ ?bc @ rest, ss_receiveState := empty_rx\<lparr>rs_mac := Some ?m\<rparr>\<rparr>"
  let ?c2 = "conn\<lparr>ss_receiveBuffer := ?bc @ rest, ss_rx := Some ?rx1, ss_receiveState := empty_rx\<lparr>rs_mac := Some ?m, rs_hdr := Some hdr,
     rs_totalLen := length body, rs_payloadLen := length data\<rparr>\<rparr>"
  have 1: "take_mac ?c0 = Some ?c1" using F(1) lm assms(5) by (simp add: take_mac_def empty_rx_def)
  have 2: "take_hdr ctr rx ?c1 = Next ?c2"
    using H(1-3,5,6) P(1) by (simp add: take_hdr_def empty_rx_def XOR_snd split_beta Let_def)
  have 3: "take_body c ctr now ?rx1 ?c2 =
      Next (conn\<lparr>ss_receiveBuffer := rest, ss_receiveDecodedBuffer := ss_receiveDecodedBuffer conn @ data, ss_rx := Some ?rx2\<rparr>)"
    using H(4,7) F(2) P(2) assms(5) by (simp add: take_body_def ss_handle_def XOR_snd split_beta Let_def)
  have "ss_turn c ctr now ?c0 = take_body c ctr now ?rx1 ?c2" using 1 2 assms(4) by (simp add: ss_turn_def)
  moreover have "ss_paired tx' ?rx2" using H(8) P by (simp add: ss_paired_def)
  ultimately show ?thesis using 3 by metis
qed

lemma frames_loop:
  assumes "hmac_ok c" "ss_frames c ctr ps tx = (Ok wire, tx')" "ss_paired tx rx" "ss_rx conn = Some rx" "ss_receiveState conn = empty_rx"
  shows "\<exists>rx'. ss_paired tx' rx' \<and> ss_loop c ctr now (conn\<lparr>ss_receiveBuffer := wire @ rest\<rparr>) =
    ss_loop c ctr now (conn\<lparr>ss_receiveBuffer := rest, ss_receiveDecodedBuffer := ss_receiveDecodedBuffer conn @ concat (map fst ps), ss_rx := Some rx'\<rparr>)"
  using assms(2-)
proof (induction ps arbitrary: tx rx conn wire)
  case Nil
  have e: "conn\<lparr>ss_receiveBuffer := rest, ss_rx := Some rx\<rparr> = conn\<lparr>ss_receiveBuffer := rest\<rparr>"
    using Nil.prems(3) by (cases conn) simp
  show ?case using Nil.prems(1,2) by (intro exI [of _ rx]) (simp add: e)
next
  case (Cons p ps)
  obtain data padLen where p: "p = (data, padLen)" by (cases p)
  obtain frame tx1 wire1 where F: "ss_makePacket c ctr pktPayload data padLen tx = (Ok frame, tx1)"
    "ss_frames c ctr ps tx1 = (Ok wire1, tx')" "wire = frame @ wire1"
    using Cons.prems(1) p by (auto simp: and_then_Ok_iff split: prod.splits outcome.splits)
  obtain rx1 where T: "ss_paired tx1 rx1" "ss_turn c ctr now (conn\<lparr>ss_receiveBuffer := frame @ wire1 @ rest\<rparr>) =
      Next (conn\<lparr>ss_receiveBuffer := wire1 @ rest, ss_receiveDecodedBuffer := ss_receiveDecodedBuffer conn @ data, ss_rx := Some rx1\<rparr>)"
    using frame_turn [OF assms(1) F(1) Cons.prems(2-4), of now "wire1 @ rest"] by blast
  have ne: "frame \<noteq> []" using ss_makePacket_facts [OF F(1)] by (auto simp: Let_def) (metis length_0_conv length_XOR zero_neq_numeral)
  let ?c = "conn\<lparr>ss_receiveDecodedBuffer := ss_receiveDecodedBuffer conn @ data, ss_rx := Some rx1\<rparr>"
  obtain rx' where R: "ss_paired tx' rx'" "ss_loop c ctr now (?c\<lparr>ss_receiveBuffer := wire1 @ rest\<rparr>) =
      ss_loop c ctr now (?c\<lparr>ss_receiveBuffer := rest, ss_receiveDecodedBuffer := ss_receiveDecodedBuffer ?c @ concat (map fst ps), ss_rx := Some rx'\<rparr>)"
    using Cons.IH [of tx1 wire1 rx1 ?c] F(2) T(1) Cons.prems(4) by auto
  have swap: "conn\<lparr>ss_receiveBuffer := b, ss_receiveDecodedBuffer := d, ss_rx := r\<rparr> = conn\<lparr>ss_receiveDecodedBuffer := d, ss_rx := r, ss_receiveBuffer := b\<rparr>"
    for b d r by simp
  have "ss_loop c ctr now (conn\<lparr>ss_receiveBuffer := wire @ rest\<rparr>) = ss_loop c ctr now (?c\<lparr>ss_receiveBuffer := wire1 @ rest\<rparr>)"
    using T(2) ne F(3) by (subst ss_loop.simps) (simp add: swap)
  with R show ?case using p by (intro exI [of _ rx']) (simp add: swap)
qed

text \<open>Reading everything that arrives.\<close>

function ss_read_all :: "crypto \<Rightarrow> keystream \<Rightarrow> int \<Rightarrow> net_reads \<Rightarrow> ssConn \<Rightarrow> (ss_error, unit) outcome \<times> ssConn" where
  "ss_read_all c ctr now reads conn =
    (if reads = [] then (Ok (), conn)
     else (case ss_readPackets c ctr now reads conn of
         None \<Rightarrow> (Ok (), conn)
       | Some (Ok _, rs, conn') \<Rightarrow> ss_read_all c ctr now rs conn'
       | Some (r, rs, conn') \<Rightarrow> (r, conn')))"
  by auto
termination by (relation "measure (\<lambda>(c, ctr, now, reads, conn). load reads)") (auto dest: ss_readPackets_load)

declare ss_read_all.simps [simp del]

lemma ss_read_all_loop:
  assumes "ss_loop c ctr now (arrived (concat chunks) conn) = (Ok (), conn')" "[] \<notin> set chunks"
    "ss_loop c ctr now conn = (Ok (), conn)"
  shows "ss_read_all c ctr now (map Ok chunks) conn = (Ok (), conn')"
  using assms
proof (induction "load (map Ok chunks)" arbitrary: chunks conn rule: less_induct)
  case less
  show ?case
  proof (cases "chunks = []")
    case True
    with less.prems(1,3) show ?thesis by (simp add: ss_read_all.simps)
  next
    case False
    from net_read_chunks [OF this less.prems(2), of ss_maxSegmentLength] obtain d rest where
      N: "net_read ss_maxSegmentLength (map Ok chunks) = Some (Ok d, map Ok rest)" "d @ concat rest = concat chunks" "[] \<notin> set rest" by auto
    have full: "ss_loop c ctr now (arrived (concat rest) (arrived d conn)) = (Ok (), conn')"
      using less.prems(1) N(2) by simp
    obtain conn1 where L: "ss_loop c ctr now (arrived d conn) = (Ok (), conn1)"
      using full unfolding ss_loop_more [where x = "concat rest" and conn = "arrived d conn"]
      by (auto split: prod.splits outcome.splits)
    have "ss_loop c ctr now (arrived (concat rest) conn1) = (Ok (), conn')"
      using full L unfolding ss_loop_more [where x = "concat rest" and conn = "arrived d conn"] by simp
    moreover have "ss_loop c ctr now conn1 = (Ok (), conn1)"
      using ss_loop_more [where x = "[]" and conn = "arrived d conn" and c = c and ctr = ctr and now = now] L by simp
    moreover have "ss_readPackets c ctr now (map Ok chunks) conn = Some (Ok (), map Ok rest, conn1)" using N(1) L by (simp add: ss_readPackets_def)
    moreover have "load (map Ok rest) < load (map Ok chunks)" using net_read_load [OF N(1)] by simp
    ultimately show ?thesis using less.hyps [of rest conn1] N(3) False by (simp add: ss_read_all.simps [of c ctr now "map Ok chunks"])
  qed
qed

section \<open>Bursts\<close>

lemma ss_frames_append:
  "ss_frames c ctr ps tx = (Ok a, tx1) \<Longrightarrow> ss_frames c ctr qs tx1 = (Ok b, tx2) \<Longrightarrow> ss_frames c ctr (ps @ qs) tx = (Ok (a @ b), tx2)"
  by (induction ps arbitrary: tx a) (auto simp: and_then_Ok_iff split: prod.splits outcome.splits)

lemma ss_frames_Ok:
  assumes "hmac_ok c" "\<forall>(d, n) \<in> set ps. 0 \<le> n \<and> int (length d) + n \<le> 1427"
  shows "\<exists>wire tx'. ss_frames c ctr ps tx = (Ok wire, tx') \<and> int (length wire) = (\<Sum>(d, n) \<leftarrow> ps. 21 + int (length d) + n)"
  using assms(2)
proof (induction ps arbitrary: tx)
  case (Cons p ps)
  obtain d n where p: "p = (d, n)" by (cases p)
  then have g: "0 \<le> n" "int (length d) + n \<le> 1427" using Cons.prems by auto
  have "\<exists>frame tx1. ss_makePacket c ctr pktPayload d n tx = (Ok frame, tx1) \<and> int (length frame) = 21 + int (length d) + n"
    using g assms(1) by (simp add: ss_makePacket_def Let_def split_beta)
  then obtain frame tx1 where "ss_makePacket c ctr pktPayload d n tx = (Ok frame, tx1)" "int (length frame) = 21 + int (length d) + n" by blast
  with Cons.IH [of tx1] Cons.prems p show ?case by auto
qed simp

lemma ss_padBurst_range: "0 \<le> sample \<Longrightarrow> sample \<le> 1448 \<Longrightarrow> n \<in> set (ss_padBurst b sample) \<Longrightarrow> 0 \<le> n \<and> n \<le> 1427"
  by (auto simp: ss_padBurst_def Let_def split: if_splits)

lemma ss_padBurst_sum:
  assumes "0 \<le> sample" "sample \<le> 1448" "d = (sample - int b) mod 1448"
  shows "(int b + (\<Sum>n \<leftarrow> ss_padBurst b sample. 21 + n)) mod 1448 = (if 1 \<le> d \<and> d \<le> 20 then sample - 21 else sample) mod 1448"
proof -
  define r where "r = int b mod 1448"
  have r: "0 \<le> r" "r < 1448" "int (b mod 1448) = r" by (simp_all add: r_def zmod_int)
  define q where "q = int b div 1448"
  have b: "int b = q * 1448 + r" by (simp add: q_def r_def)
  define e where "e = (if sample \<ge> r then sample - r else 1448 - r + sample)"
  obtain k where k: "e = sample - r + 1448 * k" by (cases "sample \<ge> r") (auto simp: e_def intro: that [of 0] that [of 1])
  have d: "d = (if e = 1448 then 0 else e)"
  proof -
    have "(sample - int b) mod 1448 = (sample - r) mod 1448" by (simp add: r_def mod_diff_right_eq)
    also have "\<dots> = e mod 1448" unfolding k by simp
    finally have "d = e mod 1448" using assms(3) by simp
    moreover have "0 \<le> e" "e \<le> 1448" using assms(1,2) r by (auto simp: e_def)
    ultimately show ?thesis by auto
  qed
  have sum: "(\<Sum>n \<leftarrow> ss_padBurst b sample. 21 + n) = (if e < 21 then (if e = 0 then 1448 else e + 1427) else e)"
    using assms(1,2) r by (auto simp: ss_padBurst_def Let_def e_def)
  have e: "0 \<le> e" "e \<le> 1448" using assms(1,2) r by (auto simp: e_def)
  let ?T = "if 1 \<le> d \<and> d \<le> 20 then sample - 21 else sample"
  have "int b + (\<Sum>n \<leftarrow> ss_padBurst b sample. 21 + n) = ?T + 1448 * (q + k + (if e < 21 then 1 else 0))"
    unfolding b sum d using e k by auto
  then show ?thesis by (simp only: mod_mult_self2)
qed

text \<open>A write gives frames with its bytes. Its burst ends with a segment of the sampled length, but 21 bytes short when between
  1 and 20 bytes are missing before the padding.\<close>

lemma ss_Write_Ok:
  assumes "hmac_ok c" "0 \<le> sample" "sample \<le> 1448" "ss_tx conn = Some tx"
    "d = (sample - int (length b + 21 * length (chop 1427 b))) mod 1448"
  shows "\<exists>out tx' ps. ss_Write c ctr sample None b conn = (out, Ok (length b), conn\<lparr>ss_tx := Some tx'\<rparr>) \<and>
    ss_frames c ctr ps tx = (Ok out, tx') \<and> concat (map fst ps) = b \<and>
    int (length out) mod 1448 = (if 1 \<le> d \<and> d \<le> 20 then sample - 21 else sample) mod 1448"
proof -
  let ?ps = "map (\<lambda>d. (d, 0 :: int)) (chop 1427 b)"
  have "\<forall>(d, n) \<in> set ?ps. 0 \<le> n \<and> int (length d) + n \<le> 1427" using chop_cells [of _ 1427 b] by auto
  from ss_frames_Ok [OF assms(1) this] obtain frames tx1 where F: "ss_frames c ctr ?ps tx = (Ok frames, tx1)"
    "int (length frames) = (\<Sum>(d, n) \<leftarrow> ?ps. 21 + int (length d) + n)" by blast
  have "(\<Sum>(d, n) \<leftarrow> map (\<lambda>d. (d, 0 :: int)) xs. 21 + int (length d) + n) = int (length (concat xs) + 21 * length xs)" for xs :: "bytes list"
    by (induction xs) auto
  with F(2) have len: "length frames = length b + 21 * length (chop 1427 b)" by (metis concat_chop of_nat_eq_iff zero_less_numeral)
  let ?qs = "map (\<lambda>n. ([] :: bytes, n)) (ss_padBurst (length frames) sample)"
  have "\<forall>(d, n) \<in> set ?qs. 0 \<le> n \<and> int (length d) + n \<le> 1427" using ss_padBurst_range [OF assms(2,3)] by auto
  from ss_frames_Ok [OF assms(1) this] obtain pads tx2 where P: "ss_frames c ctr ?qs tx1 = (Ok pads, tx2)"
    "int (length pads) = (\<Sum>(d, n) \<leftarrow> ?qs. 21 + int (length d) + n)" by blast
  have "(\<Sum>(d, n) \<leftarrow> map (\<lambda>n. ([] :: bytes, n)) xs. 21 + int (length d) + n) = (\<Sum>n \<leftarrow> xs. 21 + n)" for xs by (induction xs) auto
  with P(2) have "int (length (frames @ pads)) = int (length frames) + (\<Sum>n \<leftarrow> ss_padBurst (length frames) sample. 21 + n)" by simp
  with ss_padBurst_sum [OF assms(2,3), of d "length frames"] assms(5) len
  have "int (length (frames @ pads)) mod 1448 = (if 1 \<le> d \<and> d \<le> 20 then sample - 21 else sample) mod 1448" by simp
  moreover have "ss_Write c ctr sample None b conn = (frames @ pads, Ok (length b), conn\<lparr>ss_tx := Some tx2\<rparr>)"
    using assms(4) F(1) P(1) by (simp add: ss_Write_def)
  moreover have "concat (map fst (?ps @ ?qs)) = b" by (simp add: comp_def map_replicate_const)
  ultimately show ?thesis using ss_frames_append [OF F(1) P(1)] by blast
qed

fun ss_writes :: "crypto \<Rightarrow> keystream \<Rightarrow> (int \<times> bytes) list \<Rightarrow> ssConn \<Rightarrow> bytes \<times> (ss_error, nat) outcome \<times> ssConn" where
  "ss_writes c ctr [] conn = ([], Ok 0, conn)"
| "ss_writes c ctr ((sample, b) # ws) conn =
    (case ss_Write c ctr sample None b conn of
       (out, Ok n, conn1) \<Rightarrow> (case ss_writes c ctr ws conn1 of (out', r, conn2) \<Rightarrow> (out @ out', and_then r (\<lambda>m. Ok (n + m)), conn2))
     | r \<Rightarrow> r)"

lemma ss_writes_Ok:
  assumes "hmac_ok c" "\<forall>w \<in> set ws. 0 \<le> fst w \<and> fst w \<le> 1448" "ss_tx conn = Some tx"
  shows "\<exists>wire conn' tx' ps. ss_writes c ctr ws conn = (wire, Ok (length (concat (map snd ws))), conn') \<and>
    ss_frames c ctr ps tx = (Ok wire, tx') \<and> concat (map fst ps) = concat (map snd ws)"
  using assms(2,3)
proof (induction ws arbitrary: conn tx)
  case Nil
  show ?case by (intro exI [of _ "[]"] exI [of _ conn] exI [of _ tx]) simp
next
  case (Cons w ws)
  obtain sample b where w: "w = (sample, b)" by (cases w)
  then have sample: "0 \<le> sample" "sample \<le> 1448" using Cons.prems(1) by simp_all
  obtain out tx1 ps where W: "ss_Write c ctr sample None b conn = (out, Ok (length b), conn\<lparr>ss_tx := Some tx1\<rparr>)"
    "ss_frames c ctr ps tx = (Ok out, tx1)" "concat (map fst ps) = b"
    using ss_Write_Ok [where ctr = ctr and b = b, OF assms(1) sample Cons.prems(2) refl] by blast
  from Cons.IH [of "conn\<lparr>ss_tx := Some tx1\<rparr>" tx1] Cons.prems(1) obtain wire conn' tx' qs where
    R: "ss_writes c ctr ws (conn\<lparr>ss_tx := Some tx1\<rparr>) = (wire, Ok (length (concat (map snd ws))), conn')"
    "ss_frames c ctr qs tx1 = (Ok wire, tx')" "concat (map fst qs) = concat (map snd ws)" by auto
  have "concat (map fst (ps @ qs)) = concat (map snd (w # ws))" using w W(3) R(3) by simp
  moreover have "ss_writes c ctr (w # ws) conn = (out @ wire, Ok (length (concat (map snd (w # ws)))), conn')" using w W(1) R(1) by simp
  ultimately show ?case using ss_frames_append [OF W(2) R(2)] by blast
qed

text \<open>C25: ScrambleSuit delivers. What is written on a connection, in any number of writes with any lengths that the distribution may
  sample, is framed without a panic; the peer, whose receive state is in step, gets exactly the written bytes from it, however the
  network cuts it, accepts every packet, drops all padding, and has nothing left over.\<close>

theorem ss_delivers:
  assumes "hmac_ok c" "\<forall>w \<in> set ws. 0 \<le> fst w \<and> fst w \<le> 1448" "ss_tx connA = Some tx" "ss_rx connB = Some rx"
    "ss_paired tx rx" "ss_receiveBuffer connB = []" "ss_receiveState connB = empty_rx"
  shows "\<exists>wire connA'. ss_writes c ctr ws connA = (wire, Ok (length (concat (map snd ws))), connA') \<and>
    (\<forall>chunks. concat chunks = wire \<and> [] \<notin> set chunks \<longrightarrow>
      (\<exists>connB'. ss_read_all c ctr now (map Ok chunks) connB = (Ok (), connB') \<and>
        ss_receiveDecodedBuffer connB' = ss_receiveDecodedBuffer connB @ concat (map snd ws) \<and>
        ss_receiveBuffer connB' = [] \<and> ss_receiveState connB' = empty_rx))"
proof -
  obtain wire connA' tx' ps where W: "ss_writes c ctr ws connA = (wire, Ok (length (concat (map snd ws))), connA')"
    "ss_frames c ctr ps tx = (Ok wire, tx')" "concat (map fst ps) = concat (map snd ws)" using ss_writes_Ok [OF assms(1-3)] by blast
  obtain rx' where L: "ss_loop c ctr now (connB\<lparr>ss_receiveBuffer := wire @ []\<rparr>) =
      ss_loop c ctr now (connB\<lparr>ss_receiveBuffer := [], ss_receiveDecodedBuffer := ss_receiveDecodedBuffer connB @ concat (map fst ps), ss_rx := Some rx'\<rparr>)"
    using frames_loop [OF assms(1) W(2) assms(5,4,7), of now "[]"] by blast
  let ?B = "connB\<lparr>ss_receiveBuffer := [], ss_receiveDecodedBuffer := ss_receiveDecodedBuffer connB @ concat (map fst ps), ss_rx := Some rx'\<rparr>"
  have full: "ss_loop c ctr now (arrived wire connB) = (Ok (), ?B)" using L assms(6) by (simp add: ss_loop.simps [of c ctr now ?B])
  have start: "ss_loop c ctr now connB = (Ok (), connB)" using assms(6) by (simp add: ss_loop.simps)
  have "ss_read_all c ctr now (map Ok chunks) connB = (Ok (), ?B)" if "concat chunks = wire" "[] \<notin> set chunks" for chunks
    using ss_read_all_loop [where chunks = chunks and conn = connB and conn' = ?B] full start that by simp
  moreover have "ss_receiveDecodedBuffer ?B = ss_receiveDecodedBuffer connB @ concat (map snd ws)" "ss_receiveBuffer ?B = []"
    "ss_receiveState ?B = empty_rx" using W(3) assms(7) by simp_all
  ultimately show ?thesis using W(1) by blast
qed

definition demo_ss :: "ssConn" where
  "demo_ss = (let cs = \<lparr>cs_s = \<lparr>ks_key = replicate 32 1, ks_counter = replicate 16 2, ks_pos = 0\<rparr>, cs_macKey = [7], cs_macBuf = []\<rparr>
     in \<lparr>ss_isServer = False, ss_lenDist = [], ss_receiveBuffer = [], ss_receiveDecodedBuffer = [], ss_receiveState = empty_rx,
       ss_tx = Some cs, ss_rx = Some cs, ss_tickets = Map.empty, ss_addr = ''192.0.2.1:443''\<rparr>)"

theorem ss_delivers_witness:
  "\<exists>wire connA' connB'. ss_writes demo_crypto (\<lambda>key iv p. of_nat p) [(100, [1, 2, 3]), (0, []), (1448, replicate 2000 9)] demo_ss =
       (wire, Ok 2003, connA') \<and>
     ss_read_all demo_crypto (\<lambda>key iv p. of_nat p) 0 (map Ok (map (\<lambda>b. [b]) wire)) demo_ss = (Ok (), connB') \<and>
     ss_receiveDecodedBuffer connB' = [1, 2, 3] @ replicate 2000 9"
proof -
  let ?ws = "[(100 :: int, [1, 2, 3 :: byte]), (0, []), (1448, replicate 2000 9)]"
  let ?ks = "\<lambda>(key :: bytes) (iv :: bytes) p. of_nat p :: byte"
  obtain tx where D: "ss_tx demo_ss = Some tx" "ss_rx demo_ss = Some tx" "ss_paired tx tx" "ss_receiveBuffer demo_ss = []"
    "ss_receiveState demo_ss = empty_rx" "ss_receiveDecodedBuffer demo_ss = []"
    by (simp add: demo_ss_def ss_paired_def Let_def)
  have "\<forall>w \<in> set ?ws. 0 \<le> fst w \<and> fst w \<le> 1448" by simp
  from ss_delivers [OF demo_crypto_ok(1) this D(1,2,3,4,5), of ?ks 0] obtain wire connA' where
    W: "ss_writes demo_crypto ?ks ?ws demo_ss = (wire, Ok (length (concat (map snd ?ws))), connA')"
    "\<And>chunks. concat chunks = wire \<and> [] \<notin> set chunks \<Longrightarrow>
      \<exists>connB'. ss_read_all demo_crypto ?ks 0 (map Ok chunks) demo_ss = (Ok (), connB') \<and>
        ss_receiveDecodedBuffer connB' = ss_receiveDecodedBuffer demo_ss @ concat (map snd ?ws)" by blast
  have n: "length (concat (map snd ?ws)) = 2003" "concat (map snd ?ws) = [1, 2, 3] @ replicate 2000 9" by simp_all
  from W(1) have "ss_writes demo_crypto ?ks ?ws demo_ss = (wire, Ok 2003, connA')" unfolding n(1) .
  moreover from W(2) [OF concat_singletons] obtain connB' where "ss_read_all demo_crypto ?ks 0 (map Ok (map (\<lambda>b. [b]) wire)) demo_ss = (Ok (), connB')"
    "ss_receiveDecodedBuffer connB' = [1, 2, 3] @ replicate 2000 9" unfolding n(2) D(6) append_Nil by blast
  ultimately show ?thesis by blast
qed

section \<open>The UniformDH handshake\<close>

record ssDHClientHandshake =
  dh_macKey :: bytes
  dh_macBuf :: bytes
  dh_keypair :: udh_PrivateKey
  dh_epochHour :: bytes
  dh_padLen :: int
  dh_serverPublicKey :: "udh_PublicKey option"
  dh_serverMark :: bytes

definition newDHClientHandshake :: "(int \<Rightarrow> int) \<Rightarrow> bytes \<Rightarrow> udh_PrivateKey \<Rightarrow> (ss_error, ssDHClientHandshake) outcome" where
  "newDHClientHandshake intn kB sessionKey = and_then (IntRange intn 0 (int dhMaxPadLength)) (\<lambda>padLen.
     Ok \<lparr>dh_macKey = kB, dh_macBuf = [], dh_keypair = sessionKey, dh_epochHour = [], dh_padLen = padLen, dh_serverPublicKey = None, dh_serverMark = []\<rparr>)"

definition ss_mac :: "crypto \<Rightarrow> bytes \<Rightarrow> bytes \<Rightarrow> bytes" where
  "ss_mac c key data = take ss_macLength (hmac256 c key data)"

definition dh_generateHandshake :: "crypto \<Rightarrow> nat entropy \<Rightarrow> int \<Rightarrow> ssDHClientHandshake \<Rightarrow> (ss_error, bytes) outcome \<times> ssDHClientHandshake" where
  "dh_generateHandshake c rnd now hs =
    (case udh_Bytes (udh_pub (dh_keypair hs)) of
       Err e \<Rightarrow> (Err (SsUdh e), hs\<lparr>dh_macBuf := []\<rparr>) | Panic \<Rightarrow> (Panic, hs)
     | Ok x \<Rightarrow>
        (let mC = ss_mac c (dh_macKey hs) x
         in (case makePad rnd (dh_padLen hs) of
               Err e \<Rightarrow> (Err (SsRand e), hs\<lparr>dh_macBuf := x\<rparr>) | Panic \<Rightarrow> (Panic, hs)
             | Ok pC \<Rightarrow>
                (let e = epoch_bytes (getEpochHour now); buf = x @ pC @ mC @ e
                 in (Ok (x @ pC @ mC @ ss_mac c (dh_macKey hs) buf), hs\<lparr>dh_epochHour := e, dh_macBuf := buf\<rparr>)))))"

text \<open>\<open>parseServerHandshake\<close>. A slice expression may reach beyond the length of a slice into its capacity: \<open>stale\<close> are the bytes of the
  receive buffer's array behind the data.\<close>

definition dh_learn :: "crypto \<Rightarrow> bytes \<Rightarrow> udh_PublicKey \<Rightarrow> ssDHClientHandshake \<Rightarrow> ssDHClientHandshake" where
  "dh_learn c y pk hs = hs\<lparr>dh_serverPublicKey := Some pk, dh_macBuf := y, dh_serverMark := ss_mac c (dh_macKey hs) y\<rparr>"

definition dh_finish :: "crypto \<Rightarrow> bytes \<Rightarrow> bytes \<Rightarrow> udh_PublicKey \<Rightarrow> ssDHClientHandshake \<Rightarrow> (ss_error, nat \<times> bytes) outcome \<times> ssDHClientHandshake" where
  "dh_finish c resp stale pk hs =
    (let endPos = min (length resp) (ss_maxHandshakeLength - ss_macLength)
     in (case bytes_Index (take (endPos - udh_Size) (drop udh_Size resp)) (dh_serverMark hs) of
           None \<Rightarrow> (if length resp \<ge> ss_maxHandshakeLength then (Err SsInvalidHandshake, hs) else (Err SsMarkNotFoundYet, hs))
         | Some p \<Rightarrow>
            (if length resp < p + 2 * ss_macLength then (Err SsMarkNotFoundYet, hs)
             else (let pos = p + udh_Size;
                       buf = dh_macBuf hs @ take (pos + ss_macLength - udh_Size) (drop udh_Size resp) @ dh_epochHour hs;
                       hs1 = hs\<lparr>dh_macBuf := buf\<rparr>
                   in if length (resp @ stale) < pos + 2 * ss_macLength then (Panic, hs1)
                      else if ss_mac c (dh_macKey hs) buf \<noteq> take ss_macLength (drop (pos + ss_macLength) (resp @ stale))
                      then (Err SsInvalidHandshake, hs1)
                      else (case udh_Handshake (dh_keypair hs) pk of
                          Err e \<Rightarrow> (Err (SsUdh e), hs1) | Panic \<Rightarrow> (Panic, hs1)
                        | Ok ss \<Rightarrow> (Ok (pos + 2 * ss_macLength, sha256 c ss), hs1))))))"

definition dh_parseServerHandshake :: "crypto \<Rightarrow> bytes \<Rightarrow> bytes \<Rightarrow> ssDHClientHandshake \<Rightarrow>
    (ss_error, nat \<times> bytes) outcome \<times> ssDHClientHandshake" where
  "dh_parseServerHandshake c resp stale hs =
    (if length resp < ss_minHandshakeLength then (Err SsMarkNotFoundYet, hs)
     else (case dh_serverPublicKey hs of
         Some pk \<Rightarrow> dh_finish c resp stale pk hs
       | None \<Rightarrow>
          (let y = take udh_Size resp
           in (case udh_SetBytes y of
                 Err e \<Rightarrow> (Err (SsUdh e), hs) | Panic \<Rightarrow> (Panic, hs)
               | Ok pk \<Rightarrow> dh_finish c resp stale pk (dh_learn c y pk hs)))))"

section \<open>Tickets\<close>

definition ticket_isValid :: "int \<Rightarrow> ssTicket \<Rightarrow> bool" where
  "ticket_isValid now t \<longleftrightarrow> i64 (tk_issuedAt t + ticketLifetime) > now"

text \<open>\<open>getTicket\<close>; \<open>werr\<close> is the error of writing the ticket file.\<close>

definition getTicket :: "int \<Rightarrow> nat option \<Rightarrow> string \<Rightarrow> ssTicketStore \<Rightarrow> (nat, ssTicket option) outcome \<times> ssTicketStore" where
  "getTicket now werr addr store =
    (case store addr of
       None \<Rightarrow> (Ok None, store)
     | Some t \<Rightarrow> (case werr of Some e \<Rightarrow> Err e | None \<Rightarrow> Ok (if ticket_isValid now t then Some t else None), store(addr := None)))"

definition ticket_generateHandshake :: "crypto \<Rightarrow> (int \<Rightarrow> int) \<Rightarrow> nat entropy \<Rightarrow> int \<Rightarrow> bytes \<Rightarrow> ssTicket \<Rightarrow> (ss_error, bytes) outcome" where
  "ticket_generateHandshake c intn rnd now macKey t =
    and_then (IntRange intn 0 (int ticketMaxPadLength)) (\<lambda>padLen.
      (let m = ss_mac c macKey (tk_ticket t)
       in (case makePad rnd padLen of Err e \<Rightarrow> Err (SsRand e) | Panic \<Rightarrow> Panic
           | Ok p \<Rightarrow> Ok (tk_ticket t @ p @ m @ ss_mac c macKey (tk_ticket t @ p @ m @ epoch_bytes (getEpochHour now))))))"

section \<open>Opening a connection\<close>

function ss_wait :: "crypto \<Rightarrow> (bytes \<Rightarrow> bytes) \<Rightarrow> ssDHClientHandshake \<Rightarrow> net_reads \<Rightarrow> ssConn \<Rightarrow> ((ss_error, ssConn) outcome \<times> net_reads) option" where
  "ss_wait c stale hs reads conn =
    (case net_read ss_maxHandshakeLength reads of
       None \<Rightarrow> None | Some (Err e, rs) \<Rightarrow> Some (Err (SsNet e), rs) | Some (Panic, rs) \<Rightarrow> Some (Panic, rs)
     | Some (Ok d, rs) \<Rightarrow>
        (let conn1 = arrived d conn
         in (case dh_parseServerHandshake c (ss_receiveBuffer conn1) (stale (ss_receiveBuffer conn1)) hs of
               (Err e, hs') \<Rightarrow> if e = SsMarkNotFoundYet then ss_wait c stale hs' rs conn1 else Some (Err e, rs)
             | (Panic, hs') \<Rightarrow> Some (Panic, rs)
             | (Ok (n, seed), hs') \<Rightarrow>
                 Some (case initCrypto c seed (conn1\<lparr>ss_receiveBuffer := drop n (ss_receiveBuffer conn1)\<rparr>) of
                     Ok conn2 \<Rightarrow> Ok conn2 | Err e \<Rightarrow> Err (SsNet e) | Panic \<Rightarrow> Panic, rs))))"
  by auto
termination by (relation "measure (\<lambda>(c, stale, hs, reads, conn). load reads)") (auto dest: net_read_load)

definition ss_udh_handshake :: "crypto \<Rightarrow> (int \<Rightarrow> int) \<Rightarrow> nat entropy \<Rightarrow> int \<Rightarrow> (bytes \<Rightarrow> bytes) \<Rightarrow> nat option \<Rightarrow> bytes \<Rightarrow> udh_PrivateKey \<Rightarrow>
    net_reads \<Rightarrow> ssConn \<Rightarrow> bytes \<times> ((ss_error, ssConn) outcome \<times> net_reads) option" where
  "ss_udh_handshake c intn rnd now stale wr kB sessionKey reads conn =
    (case newDHClientHandshake intn kB sessionKey of
       Err e \<Rightarrow> ([], Some (Err e, reads)) | Panic \<Rightarrow> ([], Some (Panic, reads))
     | Ok hs \<Rightarrow>
        (case dh_generateHandshake c rnd now hs of
           (Err e, hs') \<Rightarrow> ([], Some (Err e, reads)) | (Panic, hs') \<Rightarrow> ([], Some (Panic, reads))
         | (Ok blob, hs') \<Rightarrow>
            (case wr of Some e \<Rightarrow> ([], Some (Err (SsNet (O3Net e)), reads)) | None \<Rightarrow> (blob, ss_wait c stale hs' reads conn))))"

text \<open>The ticket store is shared by all connections of the factory and is returned. The ticket handshake uses the new keys, which
  \<open>initCrypto\<close> has set when it succeeds.\<close>

definition ss_clientHandshake :: "crypto \<Rightarrow> (int \<Rightarrow> int) \<Rightarrow> nat entropy \<Rightarrow> int \<Rightarrow> (bytes \<Rightarrow> bytes) \<Rightarrow> nat option \<Rightarrow> nat option \<Rightarrow> bytes \<Rightarrow>
    udh_PrivateKey \<Rightarrow> net_reads \<Rightarrow> ssConn \<Rightarrow> bytes \<times> ((ss_error, ssConn) outcome \<times> net_reads) option \<times> ssTicketStore" where
  "ss_clientHandshake c intn rnd now stale werr wr kB sessionKey reads conn =
    (if ss_isServer conn then ([], Some (Err (SsMsg ''clientHandshake called on server connection''), reads), ss_tickets conn)
     else (let (ticket, store) = getTicket (now div 1000000000) werr (ss_addr conn) (ss_tickets conn);
               udh = (\<lambda>conn. case ss_udh_handshake c intn rnd now stale wr kB sessionKey reads conn of (out, r) \<Rightarrow> (out, r, store));
               conn1 = conn\<lparr>ss_tickets := store\<rparr>
           in (case ticket of
                 Err e \<Rightarrow> ([], Some (Err (SsNet (O3Net e)), reads), store) | Panic \<Rightarrow> ([], Some (Panic, reads), store)
               | Ok None \<Rightarrow> udh conn1
               | Ok (Some t) \<Rightarrow>
                  (case initCrypto c (tk_key t) conn1 of
                     Err e \<Rightarrow> udh conn1 | Panic \<Rightarrow> ([], Some (Panic, reads), store)
                   | Ok conn2 \<Rightarrow>
                      (case ticket_generateHandshake c intn rnd now (case ss_tx conn2 of Some tx \<Rightarrow> cs_macKey tx | None \<Rightarrow> []) t of
                         Err e \<Rightarrow> udh conn2 | Panic \<Rightarrow> ([], Some (Panic, reads), store)
                       | Ok blob \<Rightarrow>
                          (case wr of Some e \<Rightarrow> ([], Some (Err (SsNet (O3Net e)), reads), store)
                           | None \<Rightarrow> (blob, Some (Ok conn2, reads), store)))))))"

text \<open>\<open>newScrambleSuitClientConn\<close>; \<open>dl1\<close> and \<open>dl2\<close> are the errors of the two \<open>SetDeadline\<close> calls.\<close>

definition newScrambleSuitClientConn :: "crypto \<Rightarrow> (int \<Rightarrow> int) \<Rightarrow> nat entropy \<Rightarrow> int \<Rightarrow> (bytes \<Rightarrow> bytes) \<Rightarrow> nat option \<Rightarrow> nat option \<Rightarrow> nat option \<Rightarrow>
    nat option \<Rightarrow> bytes \<times> udh_PrivateKey \<Rightarrow> string \<Rightarrow> net_reads \<Rightarrow> ssTicketStore \<Rightarrow>
    bytes \<times> ((ss_error, ssConn) outcome \<times> net_reads) option \<times> ssTicketStore" where
  "newScrambleSuitClientConn c intn rnd now stale werr wr dl1 dl2 ca addr reads store =
    (case NewSeed rnd of
       Err e \<Rightarrow> ([], Some (Err (SsRand e), reads), store) | Panic \<Rightarrow> ([], Some (Panic, reads), store)
     | Ok seed \<Rightarrow>
        (case dl1 of Some e \<Rightarrow> ([], Some (Err (SsNet (O3Net e)), reads), store)
         | None \<Rightarrow>
            (case ss_clientHandshake c intn rnd now stale werr wr (fst ca) (snd ca) reads
                \<lparr>ss_isServer = False, ss_lenDist = seed, ss_receiveBuffer = [], ss_receiveDecodedBuffer = [], ss_receiveState = empty_rx,
                  ss_tx = None, ss_rx = None, ss_tickets = store, ss_addr = addr\<rparr> of
               (out, Some (Ok conn, rs), store') \<Rightarrow>
                 (out, Some (case dl2 of Some e \<Rightarrow> Err (SsNet (O3Net e)) | None \<Rightarrow> Ok conn, rs), store')
             | r \<Rightarrow> r)))"

text \<open>\<open>newClientArgs\<close> with \<open>parsePasswordArg\<close>; \<open>b32\<close> is \<open>base32.StdEncoding.DecodeString\<close>.\<close>

definition passwordArg :: string where "passwordArg = ''password''"

definition parsePasswordArg :: "(string \<Rightarrow> bytes option) \<Rightarrow> pt_args \<Rightarrow> (args_error, bytes) outcome" where
  "parsePasswordArg b32 args =
    (case args passwordArg of None \<Rightarrow> Err (MissingArgument passwordArg)
     | Some str \<Rightarrow>
        (case b32 str of None \<Rightarrow> Err (Malformed passwordArg)
         | Some decoded \<Rightarrow> if length decoded \<noteq> sharedSecretLength then Err (InvalidParams passwordArg)
             else Ok (go_copy (replicate sharedSecretLength 0) decoded)))"

definition newClientArgs :: "(string \<Rightarrow> bytes option) \<Rightarrow> nat entropy \<Rightarrow> pt_args \<Rightarrow> (args_error, bytes \<times> udh_PrivateKey) outcome" where
  "newClientArgs b32 rk args = and_then (parsePasswordArg b32 args) (\<lambda>kB.
     (case GenerateKey rk of Ok sessionKey \<Rightarrow> Ok (kB, sessionKey) | Err (UdhRand e) \<Rightarrow> Err (ArgRand e)
      | Err _ \<Rightarrow> Err (InvalidParams passwordArg) | Panic \<Rightarrow> Panic))"

text \<open>\<open>Dial\<close>: the second component tells whether the dialled connection was closed again.\<close>

definition ss_Dial :: "crypto \<Rightarrow> (int \<Rightarrow> int) \<Rightarrow> nat entropy \<Rightarrow> int \<Rightarrow> (bytes \<Rightarrow> bytes) \<Rightarrow> nat option \<Rightarrow> nat option \<Rightarrow> nat option \<Rightarrow> nat option \<Rightarrow>
    (bytes \<times> udh_PrivateKey) option \<Rightarrow> string \<Rightarrow> (nat, net_reads) outcome \<Rightarrow> ssTicketStore \<Rightarrow>
    ((ss_error, ssConn) outcome \<times> bool \<times> ssTicketStore) option" where
  "ss_Dial c intn rnd now stale werr wr dl1 dl2 args addr dial store =
    (case args of None \<Rightarrow> Some (Err (SsMsg ''invalid argument type for args''), False, store)
     | Some ca \<Rightarrow>
        (case dial of
           Err e \<Rightarrow> Some (Err (SsNet (O3Net e)), False, store) | Panic \<Rightarrow> Some (Panic, False, store)
         | Ok reads \<Rightarrow>
            (case newScrambleSuitClientConn c intn rnd now stale werr wr dl1 dl2 ca addr reads store of
               (out, None, store') \<Rightarrow> None
             | (out, Some (r, _), store') \<Rightarrow> Some (r, (case r of Err _ \<Rightarrow> True | _ \<Rightarrow> False), store'))))"

section \<open>The ticket file\<close>

text \<open>\<open>serialize\<close> and \<open>loadTicketStore\<close>: a JSON object from addresses to the encoded key with the ticket, and the time of issue.\<close>

type_synonym ticket_file = "string \<rightharpoonup> string \<times> int"

definition ss_serialize :: "(bytes \<Rightarrow> string) \<Rightarrow> ssTicketStore \<Rightarrow> ticket_file" where
  "ss_serialize enc store = (\<lambda>k. map_option (\<lambda>t. (enc (tk_key t @ tk_ticket t), tk_issuedAt t)) (store k))"

datatype ticket_read = NoFile | ReadError nat | BadJson | TicketFile ticket_file

definition load_ticket :: "int \<Rightarrow> (string \<Rightarrow> bytes option) \<Rightarrow> string \<times> int \<Rightarrow> ssTicket option" where
  "load_ticket now b32 v =
    (case b32 (fst v) of None \<Rightarrow> None
     | Some raw \<Rightarrow>
        (if length raw \<noteq> ticketKeyLength + ticketLength then None
         else let t = \<lparr>tk_key = take ticketKeyLength raw, tk_ticket = take ticketLength (drop ticketKeyLength raw), tk_issuedAt = snd v\<rparr>
              in if ticket_isValid now t then Some t else None))"

definition loadTicketStore :: "int \<Rightarrow> (string \<Rightarrow> bytes option) \<Rightarrow> ticket_read \<Rightarrow> (args_error, ssTicketStore) outcome" where
  "loadTicketStore now b32 f =
    (case f of NoFile \<Rightarrow> Ok Map.empty | ReadError e \<Rightarrow> Err (ArgIO e) | BadJson \<Rightarrow> Err BadStateFile
     | TicketFile m \<Rightarrow> Ok (\<lambda>k. Option.bind (m k) (load_ticket now b32)))"

definition ticket_wf :: "ssTicket \<Rightarrow> bool" where
  "ticket_wf t \<longleftrightarrow> length (tk_key t) = ticketKeyLength \<and> length (tk_ticket t) = ticketLength"

text \<open>What is written is read back, but for the tickets that have expired.\<close>

lemma tickets_persist:
  assumes "\<And>b. b32 (enc b) = Some b" "\<forall>t \<in> ran store. ticket_wf t"
  shows "loadTicketStore now b32 (TicketFile (ss_serialize enc store)) =
    Ok (\<lambda>k. case store k of Some t \<Rightarrow> if ticket_isValid now t then Some t else None | None \<Rightarrow> None)"
proof -
  have "load_ticket now b32 (enc (tk_key t @ tk_ticket t), tk_issuedAt t) = (if ticket_isValid now t then Some t else None)"
    if "ticket_wf t" for t
    using that assms(1) by (cases t) (simp add: load_ticket_def ticket_wf_def ticket_isValid_def Let_def)
  moreover have "ticket_wf t" if "store k = Some t" for k t using that assms(2) by (auto simp: ran_def)
  ultimately show ?thesis by (auto simp: loadTicketStore_def ss_serialize_def fun_eq_iff split: option.splits)
qed

text \<open>Tickets have the right lengths whatever arrives, and none is used twice: after \<open>getTicket\<close> the address has none.\<close>

lemma storeTicket_wf: "\<forall>t \<in> ran store. ticket_wf t \<Longrightarrow> \<forall>t \<in> ran (storeTicket now addr raw store). ticket_wf t"
  by (auto simp: storeTicket_def newTicket_def ticket_wf_def ran_def split: option.splits if_splits)

lemma getTicket_once: "getTicket now werr addr store = (r, store') \<Longrightarrow> store' addr = None \<and> getTicket now' werr' addr store' = (Ok None, store')"
  by (auto simp: getTicket_def split: option.splits)

section \<open>The answer of the server\<close>

definition dh_response :: "crypto \<Rightarrow> bytes \<Rightarrow> bytes \<Rightarrow> bytes \<Rightarrow> bytes \<Rightarrow> bytes" where
  "dh_response c kB epoch y pad = (let mark = ss_mac c kB y in y @ pad @ mark @ ss_mac c kB (y @ pad @ mark @ epoch))"

lemma length_ss_mac [simp]: "hmac_ok c \<Longrightarrow> length (ss_mac c k d) = 16"
  by (simp add: ss_mac_def)

lemma parse_learned:
  assumes "dh_serverPublicKey hs0 = None" "udh_SetBytes y = Ok pk" "hs \<in> {hs0, dh_learn c y pk hs0}" "take 192 X = y" "224 \<le> length X"
  shows "dh_parseServerHandshake c X stale hs = dh_finish c X stale pk (dh_learn c y pk hs0)"
  using assms by (auto simp: dh_parseServerHandshake_def dh_learn_def Let_def)

text \<open>The position of the mark, once the data reach its end.\<close>

lemma mark_found:
  assumes "bytes_Index (pad @ mark) mark = Some (length pad)" "length y = 192" "length mark = 16" "length pad \<le> 1308" "X = y @ pad @ mark @ tail"
  shows "bytes_Index (take (min (length X) 1516 - 192) (drop 192 X)) mark = Some (length pad)"
proof -
  have "take (min (length X) 1516 - 192) (drop 192 X) = (pad @ mark) @ take (min (length X) 1516 - 192 - length pad - 16) tail"
    using assms(2-5) by simp
  then show ?thesis using bytes_Index_prefix [OF assms(1)] by metis
qed

lemma dh_finish_mac:
  assumes "hmac_ok c" "mark = ss_mac c kB y" "bytes_Index (pad @ mark) mark = Some (length pad)" "length y = 192" "length pad \<le> 1308"
    "X = y @ pad @ mark @ tail" "dh_macKey hs = kB" "dh_serverMark hs = mark" "dh_macBuf hs = y"
  shows "fst (dh_finish c X stale pk hs) =
    (if length (tail @ stale) < 16 then Panic
     else if take 16 (tail @ stale) \<noteq> ss_mac c kB (y @ pad @ mark @ dh_epochHour hs) then Err SsInvalidHandshake
     else (case udh_Handshake (dh_keypair hs) pk of Err e \<Rightarrow> Err (SsUdh e) | Panic \<Rightarrow> Panic
       | Ok ss \<Rightarrow> Ok (192 + length pad + 32, sha256 c ss)))"
proof -
  have m: "length mark = 16" using assms(1,2) by simp
  note I = mark_found [OF assms(3,4) m assms(5,6)]
  have "\<not> length X < length pad + 32" "take (length pad + 192 + 16 - 192) (drop 192 X) = pad @ mark"
    "drop (length pad + 192 + 16) (X @ stale) = tail @ stale" "length (X @ stale) < length pad + 192 + 32 \<longleftrightarrow> length (tail @ stale) < 16"
    using assms(4,6) m by simp_all
  with I assms(7-9) show ?thesis by (auto simp: dh_finish_def Let_def eq_commute [of "ss_mac c kB _"] split: outcome.splits)
qed

text \<open>The client after the public key \<open>y\<close>, of a server with the secret \<open>secret\<close>, has arrived.\<close>

lemma answer_parsed:
  assumes "hmac_ok c" "length y = 192" "udh_SetBytes y = Ok pk" "dh_serverPublicKey hs0 = None" "hs \<in> {hs0, dh_learn c y pk hs0}"
    "length pad \<le> 1308" "mark = ss_mac c (dh_macKey hs0) y" "bytes_Index (pad @ mark) mark = Some (length pad)"
    "udh_Handshake (dh_keypair hs0) pk = Ok secret" "224 \<le> length (y @ pad @ mark @ tail)"
  shows "fst (dh_parseServerHandshake c (y @ pad @ mark @ tail) stale hs) =
    (if length (tail @ stale) < 16 then Panic
     else if take 16 (tail @ stale) \<noteq> ss_mac c (dh_macKey hs0) (y @ pad @ mark @ dh_epochHour hs0) then Err SsInvalidHandshake
     else Ok (192 + length pad + 32, sha256 c secret))"
proof -
  let ?H = "dh_learn c y pk hs0"
  have H: "dh_macKey ?H = dh_macKey hs0" "dh_serverMark ?H = mark" "dh_macBuf ?H = y" "dh_epochHour ?H = dh_epochHour hs0"
    "dh_keypair ?H = dh_keypair hs0" using assms(7) by (simp_all add: dh_learn_def)
  have eq: "dh_parseServerHandshake c (y @ pad @ mark @ tail) stale hs = dh_finish c (y @ pad @ mark @ tail) stale pk ?H"
    by (rule parse_learned [OF assms(4,3,5) _ assms(10)]) (simp add: assms(2))
  show ?thesis unfolding eq dh_finish_mac [OF assms(1,7,8,2,6) refl H(1-3)] H(4,5) assms(9) by simp
qed

lemma dh_learned_mark: "dh_serverMark (dh_learn c y pk hs) = ss_mac c (dh_macKey hs) y"
  by (simp add: dh_learn_def)

lemma dh_finish_waits: "bytes_Index (take (min (length X) 1516 - 192) (drop 192 X)) (dh_serverMark hs) = None \<Longrightarrow> \<not> 1532 \<le> length X \<Longrightarrow>
    fst (dh_finish c X stale pk hs) = Err SsMarkNotFoundYet"
  by (simp add: dh_finish_def Let_def)

lemma answer_early:
  assumes "length y = 192" "udh_SetBytes y = Ok pk" "dh_serverPublicKey hs0 = None" "hs \<in> {hs0, dh_learn c y pk hs0}"
    "length pad \<le> 1308" "mark = ss_mac c (dh_macKey hs0) y" "bytes_Index (pad @ mark) mark = Some (length pad)" "length mark = 16"
    "k < 192 + length pad + 16"
  shows "fst (dh_parseServerHandshake c (take k (y @ pad @ mark @ tail)) stale hs) = Err SsMarkNotFoundYet"
proof (cases "k < 224")
  case True
  then have "length (take k (y @ pad @ mark @ tail)) < ss_minHandshakeLength" by simp
  then show ?thesis unfolding dh_parseServerHandshake_def by simp
next
  case False
  let ?z = "take (k - 192) (pad @ mark)" and ?X = "take k (y @ pad @ mark @ tail)"
  have X: "?X = y @ ?z" "length ?X = k" using assms(1,8,9) False by simp_all
  have none: "bytes_Index ?z mark = None"
  proof (rule ccontr)
    assume "bytes_Index ?z mark \<noteq> None"
    then obtain p where p: "bytes_Index ?z mark = Some p" by blast
    from bytes_Index_prefix [OF p, of "drop (k - 192) (pad @ mark)"] assms(7) have "p = length pad"
      by (simp only: append_take_drop_id option.inject)
    with bytes_Index_bound [OF p] assms(8,9) False show False by simp
  qed
  have k: "min k 1516 = k" "\<not> 1532 \<le> k" using assms(5,9) by simp_all
  have d: "drop 192 ?X = ?z" "take 192 ?X = y" unfolding X(1) using assms(1) by (metis append_eq_conv_conj)+
  have "take (min (length ?X) 1516 - 192) (drop 192 ?X) = ?z" unfolding X(2) k(1) d(1) by (simp only: take_take min.idem)
  with none assms(6) have "bytes_Index (take (min (length ?X) 1516 - 192) (drop 192 ?X)) (dh_serverMark (dh_learn c y pk hs0)) = None"
    by (simp only: dh_learned_mark)
  then have "fst (dh_finish c ?X stale pk (dh_learn c y pk hs0)) = Err SsMarkNotFoundYet"
    by (rule dh_finish_waits) (use k(2) X(2) in argo)
  moreover have "224 \<le> length ?X" unfolding X(2) using False by simp
  ultimately show ?thesis using parse_learned [OF assms(3,2,4) d(2), of stale] by argo
qed

lemma take_complete: "length mac = 16 \<Longrightarrow> j < 16 \<Longrightarrow> take 16 (take j mac @ st) = mac \<longleftrightarrow> take (16 - j) st = drop j mac"
proof -
  assume "length mac = 16" "j < 16"
  then have "take 16 (take j mac @ st) = take j mac @ take (16 - j) st" by simp
  then show ?thesis by (metis append_take_drop_id same_append_eq)
qed

text \<open>C26: How a ScrambleSuit client takes the server's answer. The whole answer, with or without data behind it, is accepted and gives
  the secret that the server computes from the client's key. A part that ends before the end of the mark makes the client wait for
  more. But a part that ends inside the MAC, or just before it, is not waited on: the client compares with what happens to be
  behind the data in its buffer, and fails the handshake, or panics at the end of the buffer. So the handshake depends on how the network
  cuts an honest answer.\<close>

theorem ss_server_answer:
  assumes "hmac_ok c" "length rawA = udh_Size" "length rawB = udh_Size" "generateKey rawA = Ok ka" "generateKey rawB = Ok kb"
    "udh_Bytes (udh_pub ka) = Ok x" "udh_SetBytes x = Ok pkA" "udh_Bytes (udh_pub kb) = Ok y" "udh_SetBytes y = Ok pkB"
    "dh_keypair hs0 = ka" "dh_serverPublicKey hs0 = None" "hs \<in> {hs0, dh_learn c y pkB hs0}"
    "length pad \<le> dhMaxPadLength" "mark = ss_mac c (dh_macKey hs0) y" "bytes_Index (pad @ mark) mark = Some (length pad)"
    "resp = dh_response c (dh_macKey hs0) (dh_epochHour hs0) y pad"
  shows "(\<exists>secret. udh_Handshake kb pkA = Ok secret \<and>
      fst (dh_parseServerHandshake c (resp @ later) stale hs) = Ok (length resp, sha256 c secret)) \<and>
    (\<forall>k < length resp - ss_macLength. fst (dh_parseServerHandshake c (take k resp) stale hs) = Err SsMarkNotFoundYet) \<and>
    (\<forall>k. ss_minHandshakeLength \<le> k \<and> length resp - ss_macLength \<le> k \<and> k < length resp \<longrightarrow>
      fst (dh_parseServerHandshake c (take k resp) stale hs) =
        (if length stale < length resp - k then Panic
         else if take (length resp - k) stale \<noteq> drop k resp then Err SsInvalidHandshake
         else fst (dh_parseServerHandshake c resp [] hs)))"
proof -
  obtain secret where S: "udh_Handshake (dh_keypair hs0) pkB = Ok secret" "udh_Handshake kb pkA = Ok secret"
    using uniformdh_keys [OF assms(2,3)] assms(4-10) by auto
  have y: "length y = 192" using assms(8) by (auto simp: udh_Bytes_def split: if_splits)
  define mac where "mac = ss_mac c (dh_macKey hs0) (y @ pad @ mark @ dh_epochHour hs0)"
  have r: "resp = y @ pad @ mark @ mac" using assms(14,16) by (simp add: dh_response_def mac_def Let_def)
  have l: "length mark = 16" "length mac = 16" "length pad \<le> 1308" using assms(1,13,14) by (simp_all add: mac_def)
  have L: "length resp = 192 + length pad + 32" using r y l by simp
  note parsed = answer_parsed [OF assms(1) y assms(9,11,12) l(3) assms(14,15) S(1), folded mac_def]
  have whole: "fst (dh_parseServerHandshake c (resp @ z) st hs) = Ok (length resp, sha256 c secret)" for z st
    using parsed [of "mac @ z" st] r y l(1,2) by simp
  have cut: "fst (dh_parseServerHandshake c (take k resp) stale hs) =
        (if length stale < length resp - k then Panic
         else if take (length resp - k) stale \<noteq> drop k resp then Err SsInvalidHandshake
         else fst (dh_parseServerHandshake c resp [] hs))"
    if k: "224 \<le> k" "length resp - 16 \<le> k" "k < length resp" for k
  proof -
    define j where "j = k - (length resp - 16)"
    have j: "j < 16" "length resp - k = 16 - j" "k = 192 + length pad + 16 + j" using k L by (simp_all add: j_def)
    have X: "take k resp = y @ pad @ mark @ take j mac" "drop k resp = drop j mac" using r y l j by simp_all
    have "length (take j mac @ stale) < 16 \<longleftrightarrow> length stale < 16 - j" "224 \<le> length (y @ pad @ mark @ take j mac)" using l j y k(1) by auto
    with parsed [of "take j mac" stale] show ?thesis using whole [of "[]" "[]"] take_complete [OF l(2) j(1), of stale] j(2) X L by simp
  qed
  have "fst (dh_parseServerHandshake c (take k resp) stale hs) = Err SsMarkNotFoundYet" if "k < length resp - 16" for k
    unfolding r by (rule answer_early [OF y assms(9,11,12) l(3) assms(14,15) l(1)]) (use that L in simp)
  with whole cut S(2) show ?thesis by auto
qed

theorem ss_server_answer_witness:
  "\<exists>hs y a resp secret. resp = dh_response demo_crypto [7] [49] y [a] \<and>
     fst (dh_parseServerHandshake demo_crypto resp [] hs) = Ok (225, sha256 demo_crypto secret) \<and>
     fst (dh_parseServerHandshake demo_crypto (take 208 resp) [] hs) = Err SsMarkNotFoundYet \<and>
     fst (dh_parseServerHandshake demo_crypto (take 224 resp) [] hs) = Panic"
proof -
  let ?A = "replicate 192 3 :: bytes" and ?B = "replicate 192 4 :: bytes"
  have l: "length ?A = udh_Size" "length ?B = udh_Size" by simp_all
  obtain ka kb x y pkA pkB where K: "generateKey ?A = Ok ka" "generateKey ?B = Ok kb"
    "udh_Bytes (udh_pub ka) = Ok x" "udh_SetBytes x = Ok pkA" "udh_Bytes (udh_pub kb) = Ok y" "udh_SetBytes y = Ok pkB"
    using uniformdh_keys [OF l] by blast
  define hs where "hs = \<lparr>dh_macKey = [7], dh_macBuf = [], dh_keypair = ka, dh_epochHour = [49], dh_padLen = 0, dh_serverPublicKey = None,
    dh_serverMark = []\<rparr>"
  have h: "dh_keypair hs = ka" "dh_serverPublicKey hs = None" "hs \<in> {hs, dh_learn demo_crypto y pkB hs}" "dh_macKey hs = [7]" "dh_epochHour hs = [49]"
    by (simp_all add: hs_def)
  define mark where "mark = ss_mac demo_crypto (dh_macKey hs) y"
  have lm: "length mark = 16" by (simp add: mark_def demo_crypto_ok)
  define a where "a = hd mark + 1"
  have "\<not> occurs_at ([a] @ mark) mark 0" using lm by (cases mark) (auto simp: occurs_at_def a_def)
  then have idx: "bytes_Index ([a] @ mark) mark = Some (length [a])" by (simp add: bytes_Index_Some occurs_at_def)
  define resp where "resp = dh_response demo_crypto (dh_macKey hs) (dh_epochHour hs) y [a]"
  have y: "length y = 192" using K(5) by (auto simp: udh_Bytes_def split: if_splits)
  have lr: "length resp = 225" using y by (simp add: resp_def dh_response_def Let_def demo_crypto_ok)
  have pad: "length [a] \<le> dhMaxPadLength" by simp
  note T = ss_server_answer [OF demo_crypto_ok(1) l K(1,2,3,4,5,6) h(1-3) pad mark_def idx resp_def, of "[]" "[]"]
  from T obtain secret where "fst (dh_parseServerHandshake demo_crypto (resp @ []) [] hs) = Ok (length resp, sha256 demo_crypto secret)" by blast
  moreover from T have "208 < length resp - ss_macLength \<longrightarrow> fst (dh_parseServerHandshake demo_crypto (take 208 resp) [] hs) = Err SsMarkNotFoundYet" by blast
  moreover from T have "ss_minHandshakeLength \<le> 224 \<and> length resp - ss_macLength \<le> 224 \<and> 224 < length resp \<longrightarrow>
      fst (dh_parseServerHandshake demo_crypto (take 224 resp) [] hs) =
        (if length ([] :: bytes) < length resp - 224 then Panic
         else if take (length resp - 224) [] \<noteq> drop 224 resp then Err SsInvalidHandshake
         else fst (dh_parseServerHandshake demo_crypto resp [] hs))" by blast
  moreover have "resp = dh_response demo_crypto [7] [49] y [a]" by (simp add: resp_def h)
  ultimately show ?thesis using lr by (intro exI [of _ hs] exI [of _ y] exI [of _ a] exI [of _ resp] exI [of _ secret]) simp
qed

end
