(* ===== verification/Spec2Isabelle.thy ===== *)
theory Spec2Isabelle
  imports Connect RandomWT Elligator Socks5 Obfs4 Obfs2 ScrambleSuit
begin

text \<open>
  \<^bold>\<open>Verification of wfdef\<close>

  wfdef is a Tor pluggable transport, a fork of obfs4proxy, that hides which website a client visits. A
  connection has an obfs4 handshake (\<open>common/ntor\<close>, \<open>transports/defconn/handshake_ntor.go\<close>), frames
  with authenticated encryption (\<open>transports/defconn/framing\<close>), packets of type, length, payload and
  padding (\<open>packet.go\<close>), and a copy loop (\<open>ReadFrom\<close>) whose goroutines shape the traffic: the plain loop of
  \<open>defconn\<close>, FRONT, Tamaraw, RegulaTor, WFGAN and Random-WT. The peer's \<open>readPackets\<close> strips what the
  defence added.

  \<^bold>\<open>Theories and what they model\<close>

  \<^item> \<open>Prelude\<close>: Go values: bytes, fixed-width integers, \<open>outcome\<close> (\<open>Ok\<close>, \<open>Err\<close>, \<open>Panic\<close>),
    big-endian encoding, \<open>copy\<close>, 64-bit and 32-bit wrap-around.
  \<^item> \<open>External\<close>: the record \<open>crypto\<close> of the primitives that the protocol calls (secretbox, SipHash, HMAC,
    HKDF, Curve25519 from other packages, and the Elligator maps) with the laws the code relies on as predicates
    (\<open>link_crypto_ok\<close>, \<open>x25519_ok\<close>, \<open>hmac_ok\<close>, \<open>hkdf_ok\<close>), and an instance \<open>demo_crypto\<close> that satisfies them.
  \<^item> \<open>Encoding\<close>: \<open>encoding/hex\<close> as the code uses it.
  \<^item> \<open>Rand\<close>: \<open>common/csrand\<close>, \<open>common/drbg\<close>, \<open>common/utils/mathutils.go\<close>.
  \<^item> \<open>Framing\<close>: \<open>framing.go\<close>. The locale \<open>frame_codec\<close> is the contract of a stream of frames.
  \<^item> \<open>ConnState\<close>, \<open>Packet\<close>: \<open>state.go\<close>, \<open>packet.go\<close>, \<open>DefConn\<close>, \<open>Send\<close>, \<open>MyRead\<close>. The locale
    \<open>packet_handler\<close> is what the read loop promises for a \<open>switch\<close> over packet types.
  \<^item> \<open>ReplayFilter\<close>: \<open>common/replayfilter\<close>.
  \<^item> \<open>Ntor\<close>, \<open>Handshake\<close>, \<open>Session\<close>: \<open>common/ntor\<close>, \<open>handshake_ntor.go\<close>, and the handshakes, \<open>Dial\<close>,
    \<open>WrapConn\<close> and \<open>closeAfterDelay\<close> of \<open>defconn.go\<close>.
  \<^item> \<open>Defence\<close>: the contract of a copy loop, locales \<open>defence\<close>, \<open>tunnel\<close> and \<open>relay_tunnel\<close>, with the delivery
    theorem proved once, and the plain loop as its first interpretation. \<open>Front\<close>, \<open>Tamaraw\<close>, \<open>Regulator\<close>,
    \<open>Wfgan\<close> and \<open>RandomWT\<close> model the five defences (\<open>transports/*/*.go\<close>) and interpret it.
  \<^item> \<open>StateFile\<close>, \<open>Factories\<close>: certificates, state file and bridge line (\<open>statefile.go\<close> of \<open>defconn\<close> and of four defences),
    \<open>ServerFactory\<close> and \<open>ParseArgs\<close>. The locale \<open>defence_factory\<close> is what the four factories share.
    \<open>Connect\<close>: \<open>Dial\<close> and \<open>WrapConn\<close> of FRONT and Tamaraw.
  \<^item> \<open>Socks5\<close>: \<open>common/socks5\<close>, the front end that Tor talks to: arguments, authentication, request and replies.
  \<^item> \<open>Obfs4\<close>: the data phase of \<open>transports/obfs4\<close>: packets, burst padding, \<open>Write\<close> with its inter-arrival modes and
    the packet handler, which interprets \<open>packet_handler\<close>. \<open>UniformDH\<close>, \<open>Obfs3\<close>, \<open>Obfs2\<close>,
    \<open>ScrambleSuit\<close>: \<open>common/uniformdh\<close> and the older transports \<open>transports/obfs3\<close>, \<open>obfs2\<close> and \<open>scramblesuit\<close>.
  \<^item> \<open>Field25519\<close>, \<open>FieldCodec\<close>, \<open>EdGroup\<close>, \<open>EdTable\<close>: \<open>internal/edwards25519\<close> at its machine widths: the field
    arithmetic, its byte conversions, the group formulas with the multiplication of the base point, and the table of
    its multiples. \<open>Elligator\<close>: \<open>internal/extra25519\<close>, both maps.

  \<^bold>\<open>How state and concurrency are represented\<close>

  A struct is a record; a struct that embeds \<open>*DefConn\<close> is a record extension. A fallible function returns an
  \<open>outcome\<close>; \<open>Panic\<close> is a Go panic. A copy loop with its goroutines is a step function
  \<open>event \<Rightarrow> state \<Rightarrow> state option\<close>: every iteration of a goroutine up to its next blocking operation is one
  event, \<open>None\<close> means that the step is not enabled (or panics), and a theorem over all event lists is a theorem
  over all interleavings at this granularity. Data races inside an iteration are not represented. Channels are
  lists; \<open>queued\<close> is everything ever sent to the send channel, and the send routine is \<open>Send_all\<close>. Clock
  readings, samples of distributions, entropy, generator answers and the pieces in which the network delivers a
  stream are parameters, so that the theorems hold for all of them. Floating-point expressions that are rounded to
  integers are parameters as well (\<open>rate_floats\<close>, \<open>burst_floats\<close>).

  \<^bold>\<open>What is shown\<close>

  \<^item> Framing and packets: round trip, independence of segmentation, no nonce twice, nothing is delivered after an
    invalid length, end-to-end delivery of packets.
  \<^item> Handshake: agreement of the two ntor computations, rejection of replays, bounds of all lengths, establishment
    of linked encoders and decoders on both ends, draining of failed connections; the replay filter refines a list
    of all digests seen.
  \<^item> Defences: each relays the stream unchanged and in order; budgets of dummies (FRONT, RegulaTor), schedule
    (FRONT), padding to a multiple and constant rate (Tamaraw), rates (RegulaTor), burst sizes (WFGAN), half duplex
    and absence of deadlock for a client and a server together (Random-WT).
  \<^item> Configuration: the published certificate identifies the server, identities survive restarts, parameters are
    checked, and what the clients of the defences do with their arguments.
  \<^item> obfs4: what \<open>Write\<close> sends in any mode is what the peer reads; the length of a padded burst. obfs2 and obfs3:
    agreement of UniformDH, and delivery from the handshake on. ScrambleSuit: delivery between ends in step, tickets used
    once, and when the answer of a server is accepted, waited for or refused.
  \<^item> SOCKS front end: the grammar of the arguments, the service of an honest client in any segmentation, answers to
    all failures.
  \<^item> Curve arithmetic: products, squares and powers modulo \<open>2^255 - 19\<close> without overflow, canonical bytes, the
    Edwards addition law behind the group formulas, the multiplication of the base point for any table of multiples,
    and what the two maps of Elligator compute. The power \<open>p - 2\<close> stands for the inverse: Fermat's theorem for this
    prime, and with it the statement that the two maps are inverse to each other, is not proved; the handshake
    theorems have it as a hypothesis (\<open>x25519_ok\<close>). That the numbers of the table are the multiples of the base point
    is not proved either.
  \<^item> This theory composes configuration, handshake and defence: from the arguments of a bridge and its client, through
    the bytes of the two handshakes, to the relayed stream.

  Loops are total functions (structural recursion or a measure: bytes in a buffer, entries in a list); the loops
  that wait for the network recurse over the list of reads, and key generation over the list of entropy draws, where
  running out is the value \<open>None\<close>. There is no fuel.

  \<^bold>\<open>Not modelled\<close>

  The argument parsing and state files of obfs4 and Random-WT, the process main, logging
  and trace logging, generated protocol-buffer code, the transports meek (HTTP requests through a third-party TLS stack) and null, the
  weighted distributions, whose samples are parameters, and of \<open>internal/edwards25519\<close> what
  nothing calls: the scalar arithmetic modulo the group order, the point encodings and the double multiplication.
  \<open>obfs4\<close> and \<open>randomwt\<close> contain textual copies of the framing and handshake code modelled here.
\<close>

section \<open>From the handshake to the stream\<close>

text \<open>The client \<open>cconn\<close> with the encoder \<open>ec\<close> can hand its stream to the server \<open>sconn\<close>: whatever the
  goroutines of the client do, all packets can be sent, and the server gets from them, in any
  segmentation, the upstream bytes of the client but for the tail in the client's buffer.\<close>

definition carries_stream :: "crypto \<Rightarrow> (int \<Rightarrow> int) \<Rightarrow> (real \<Rightarrow> int) \<Rightarrow> encoder \<Rightarrow> frontConn \<Rightarrow> frontConn \<Rightarrow> bool" where
  "carries_stream c intn dur ec cconn sconn \<longleftrightarrow>
    (\<forall>evs conn'. front_relay.run dur evs cconn = Some conn' \<and> length (queued conn') < 2 ^ 64 \<longrightarrow>
      (\<exists>wire e'. Send_all c ec (queued conn') = (Ok wire, e') \<and> length wire = 557 * length (queued conn') \<and>
        (\<forall>segs. concat segs = wire \<and> [] \<notin> set segs \<longrightarrow>
          (\<exists>sconn'. read_all (front_readPackets c intn) sconn segs = (Ok None, sconn') \<and>
            ReceiveDecodedBuffer sconn' @ recvBuf conn' = concat (map front_input evs)))))"

lemma linked_carries_stream:
  assumes "link_ok c ec ds" "counter (e_nonce ec) = 1" "intn_ok intn"
    "queued cconn = []" "recvBuf cconn = []" "\<not> IsServer cconn"
    "Decoder sconn = Some ds" "ReceiveBuffer sconn = []" "ReceiveDecodedBuffer sconn = []" "IsServer sconn"
  shows "carries_stream c intn dur ec cconn sconn"
  unfolding carries_stream_def
proof (intro allI impI, elim conjE)
  fix evs conn'
  assume R: "front_relay.run dur evs cconn = Some conn'" "length (queued conn') < 2 ^ 64"
  have "counter (e_nonce ec) \<noteq> 0" "unat (counter (e_nonce ec)) + length (queued conn') \<le> 2 ^ 64"
    "IsServer sconn = (\<not> IsServer cconn)" using assms(2,6,10) R(2) by simp_all
  from front_relay.relay_delivery [OF R(1) assms(4,5,1,3) this assms(7-9)]
  show "\<exists>wire e'. Send_all c ec (queued conn') = (Ok wire, e') \<and> length wire = 557 * length (queued conn') \<and>
      (\<forall>segs. concat segs = wire \<and> [] \<notin> set segs \<longrightarrow>
        (\<exists>sconn'. read_all (front_readPackets c intn) sconn segs = (Ok None, sconn') \<and>
          ReceiveDecodedBuffer sconn' @ recvBuf conn' = concat (map front_input evs)))"
    unfolding front_readPackets_def by blast
qed

lemma parsed_identity:
  assumes "front_ParseArgs fl c draws args = Some (Ok (ca, cp))" "parse_identity args = Ok (nid, pk)"
  shows "ca_nodeID ca = nid \<and> ca_publicKey ca = pk"
  using assms by (cases "front_client_params fl args") (auto simp: front_ParseArgs_def embed_args_def ParseArgs_def
      split: outcome.splits option.splits prod.splits)

lemma front_ServerFactory_base:
  "front_ServerFactory fl c rnd rng args fs = (Ok (sfp, fp), fs') \<Longrightarrow> \<exists>fs1. ServerFactory c rnd rng args fs = (Ok sfp, fs1)"
  by (auto simp: front_ServerFactory_def defence_ServerFactory_def split: outcome.splits prod.splits)

text \<open>C1: A whole session of a FRONT client and server, from their configuration to the relayed stream. A server is
  configured by \<open>ServerFactory\<close>; a client gets the published certificate among its arguments and parses them. In a session
  setting \<open>WrapConn\<close> and \<open>Dial\<close> then succeed, however the network cuts their messages; the client's connection is
  a fresh connection with the keys of the handshake; and from there every interleaving of the client's goroutines leaves
  packets that the negotiated encoder can send, 557 bytes for each, and the server, reading them in any segmentation, gets
  the client's upstream bytes, but for the tail that is still in the client's buffer.\<close>

theorem configured_session:
  assumes "front_ServerFactory fl c rnd0 rng args fs = (Ok ((sf, published), fp), fs')"
    "front_ParseArgs fl c cdraws cargs = Some (Ok (ca, cp))" "cargs certArg = published certArg"
    "NewKeypair c True sdraws = Some (Ok sk, rest)"
    "session_setting c intn intn' rnd rnd' now clks H sf (ca_sessionKey ca) sk blob"
    "fst (newdefconnClientConn c intn rnd now None None None [] ca) = blob"
    "concat chunks = blob" "[] \<notin> set chunks"
  shows "\<exists>out sconn sf'. front_WrapConn fp c intn' sdraws rnd' None None dl None clks t0 t1 (map Ok chunks @ later) sf =
      Some (out, Ok sconn, None, sf') \<and>
    (\<forall>rchunks. concat rchunks = out \<and>
        first_mark out (take 16 (drop (length out - 589) out)) (length out - 589) \<longrightarrow>
      (\<exists>cconn seed b ec dc. front_Dial c intn rnd now None None None (Ok (map Ok rchunks)) (ca, cp) = Some (Ok cconn, False) \<and>
        cconn = front_conn cp ((new_conn False seed)\<lparr>ReceiveBuffer := b, Encoder := Some ec, Decoder := Some dc\<rparr>) \<and>
        carries_stream c intn' dur ec cconn sconn))"
proof -
  have ok: "intn_ok intn'" "x25519_ok c" using assms(5) by (simp_all add: session_setting_def)
  obtain fs1 where "ServerFactory c rnd0 rng args fs = (Ok (sf, published), fs1)"
    using front_ServerFactory_base [OF assms(1)] by blast
  then have "parse_identity cargs = Ok (sf_nodeID sf, kp_public (sf_identityKey sf))"
    using published_identity [OF ok(2), of rnd0 rng args fs sf published fs1 cargs] assms(3) by simp
  from parsed_identity [OF assms(2) this]
  have id: "ca_nodeID ca = sf_nodeID sf" "ca_publicKey ca = kp_public (sf_identityKey sf)" by simp_all
  have carry: "carries_stream c intn' dur ec (front_conn cp ((new_conn False seed)\<lparr>ReceiveBuffer := b, Encoder := Some ec,
      Decoder := Some dc\<rparr>)) (front_conn fp sconn)"
    if "counter (e_nonce ec) = 1" "link_ok c ec ds" "Decoder sconn = Some ds" "ReceiveBuffer sconn = []"
      "ReceiveDecodedBuffer sconn = []" "IsServer sconn" for ec seed b dc sconn ds
    by (rule linked_carries_stream [OF that(2,1) ok(1)]) (use that in \<open>simp_all add: new_conn_def\<close>)
  from endpoints_linked [OF assms(5) id assms(4,6-8), of dl t0 t1 later]
  obtain out sconn sf' where W: "WrapConn c intn' sdraws rnd' None None dl None clks t0 t1 (map Ok chunks @ later) sf =
      Some (out, Ok sconn, None, sf')"
    and D: "\<And>rchunks. concat rchunks = out \<and> first_mark out (take 16 (drop (length out - 589) out)) (length out - 589) \<Longrightarrow>
      \<exists>seed b ec dc ds. Dial c intn rnd now None None None (Ok (map Ok rchunks)) (Some ca) =
          Some (Ok ((new_conn False seed)\<lparr>ReceiveBuffer := b, Encoder := Some ec, Decoder := Some dc\<rparr>), False) \<and>
        counter (e_nonce ec) = 1 \<and> link_ok c ec ds \<and>
        Decoder sconn = Some ds \<and> ReceiveBuffer sconn = [] \<and> ReceiveDecodedBuffer sconn = [] \<and> IsServer sconn" by blast
  from W have "front_WrapConn fp c intn' sdraws rnd' None None dl None clks t0 t1 (map Ok chunks @ later) sf =
      Some (out, Ok (front_conn fp sconn), None, sf')" by (simp add: front_WrapConn_def wrap_server_def)
  moreover have "\<exists>cconn seed b ec dc. front_Dial c intn rnd now None None None (Ok (map Ok rchunks)) (ca, cp) = Some (Ok cconn, False) \<and>
        cconn = front_conn cp ((new_conn False seed)\<lparr>ReceiveBuffer := b, Encoder := Some ec, Decoder := Some dc\<rparr>) \<and>
        carries_stream c intn' dur ec cconn (front_conn fp sconn)"
    if R: "concat rchunks = out \<and> first_mark out (take 16 (drop (length out - 589) out)) (length out - 589)" for rchunks
  proof -
    from D [OF R] obtain seed b ec dc ds where
      "Dial c intn rnd now None None None (Ok (map Ok rchunks)) (Some ca) =
          Some (Ok ((new_conn False seed)\<lparr>ReceiveBuffer := b, Encoder := Some ec, Decoder := Some dc\<rparr>), False)"
      and L: "counter (e_nonce ec) = 1" "link_ok c ec ds" "Decoder sconn = Some ds" "ReceiveBuffer sconn = []"
        "ReceiveDecodedBuffer sconn = []" "IsServer sconn" by blast
    then have "front_Dial c intn rnd now None None None (Ok (map Ok rchunks)) (ca, cp) =
        Some (Ok (front_conn cp ((new_conn False seed)\<lparr>ReceiveBuffer := b, Encoder := Some ec, Decoder := Some dc\<rparr>)), False)"
      by (simp add: front_Dial_def wrap_dial_def)
    with carry [OF L] show ?thesis by blast
  qed
  ultimately show ?thesis by blast
qed

definition demo_front_params :: frontParams where
  "demo_front_params = \<lparr>fp_wMin = Finite 1, fp_wMax = Finite 1, fp_nServer = 4, fp_nClient = 3\<rparr>"

definition demo_server_args :: pt_args where
  "demo_server_args = [nodeIDArg \<mapsto> hex_encode (replicate 20 9), privateKeyArg \<mapsto> hex_encode (replicate 32 3),
     seedArg \<mapsto> hex_encode (replicate 24 8), wMinArg \<mapsto> ''1'', wMaxArg \<mapsto> ''1'', nServerArg \<mapsto> ''4'', nClientArg \<mapsto> ''3'']"

definition demo_client_args :: "pt_args \<Rightarrow> pt_args" where
  "demo_client_args published = published ++ [wMinArg \<mapsto> ''1'', wMaxArg \<mapsto> ''1'', nServerArg \<mapsto> ''4'', nClientArg \<mapsto> ''3'']"

lemmas front_arg_names = arg_names wMinArg_def wMaxArg_def nServerArg_def nClientArg_def

lemma demo_params:
  "front_params demo_float_ops demo_server_args = Ok demo_front_params"
  "front_client_params demo_float_ops (demo_client_args published) = Ok demo_front_params"
  by (simp_all add: front_params_def front_client_params_def required_def GetIntArgFromStr_def GetFloatArgFromStr_def
      demo_server_args_def demo_client_args_def demo_float_ops_def demo_front_params_def Atoi_def ParseInt_def front_arg_names)

lemma demo_configured:
  "\<exists>fs' published. front_ServerFactory demo_float_ops demo_crypto (\<lambda>n. Ok (replicate n 0)) (\<lambda>_. 10) demo_server_args demo_fs =
     (Ok ((demo_sf, published), demo_front_params), fs')"
proof -
  define js where "js = \<lparr>js_NodeID = hex_encode (replicate 20 9), js_PrivateKey = hex_encode (replicate 32 3), js_PublicKey = [],
    js_DrbgSeed = hex_encode (replicate 24 8)\<rparr>"
  have js: "ServerStateFromArgsInternal demo_crypto rnd demo_server_args fs = (Ok js, fs)" for rnd fs
    by (simp add: ServerStateFromArgsInternal_def demo_server_args_def arg_or_empty_def js_def front_arg_names Let_def)
  obtain st where st: "ServerStateFromJsonServerStateInternal demo_crypto js = Ok st" "st_nodeID st = replicate 20 9"
    "st_identityKey st = demo_identity" "st_drbgSeed st = replicate 24 8"
    by (simp add: ServerStateFromJsonServerStateInternal_def js_def NodeIDFromHex_def NewNodeID_def KeypairFromHex_def
        SeedFromHex_def SeedFromBytes_def demo_identity_def demo_crypto_def pad_to_def Let_def)
  have written: "\<exists>fs'. write_state line extra js x fs = (Ok x, fs') \<and> wr_err fs' = wr_err fs"
    if "wr_err fs = (\<lambda>_. None)" "\<forall>f \<in> {PosInf, NegInf, NaN}. JNumber f \<notin> snd ` set extra" for line extra fs and x :: 'a
    using that by (simp add: write_state_Ok)
  obtain fs1 where fs1: "ServerStateFromArgs demo_crypto rnd demo_server_args demo_fs = (Ok st, fs1)"
    "wr_err fs1 = (\<lambda>_. None)" for rnd :: "nat entropy"
    using written [of demo_fs "[]" "ClientString st" st] js st(1)
    by (fastforce simp: ServerStateFromArgs_def ServerStateFromJsonServerState_def demo_fs_def)
  let ?z = "\<lambda>n. Ok (replicate n 0) :: (nat, bytes) outcome"
  have "rf_New ?z replayTTL = Ok demo_filter"
    by (simp add: rf_New_def csrand_Bytes_def get_u64_def demo_filter_def nat_of_be_def eval_nat_numeral)
  then have "\<exists>published. ServerFactory demo_crypto ?z (\<lambda>_. 10) demo_server_args demo_fs = (Ok (demo_sf, published), fs1)"
    using fs1 st by (auto simp: ServerFactory_Ok NewHashDrbg_def demo_sf_def)
  moreover have "\<exists>fs2. front_serverStateFromJSONServerState demo_float_ops demo_crypto demo_front_params js fs1 =
      (Ok (Some st, demo_front_params), fs2)"
    using fs1(2) st(1) by (simp add: front_serverStateFromJSONServerState_def defence_state_def demo_front_params_def
        json_int_def write_state_Ok)
  ultimately show ?thesis
    using js demo_params(1) by (fastforce simp: front_ServerFactory_def defence_ServerFactory_def with_params_def)
qed

lemma demo_keys:
  "NewKeypair demo_crypto True [Ok (replicate 32 0) :: (nat, bytes) outcome] = Some (Ok demo_client_key, [])"
  "NewKeypair demo_crypto True [Ok (replicate 31 8 @ [72]) :: (nat, bytes) outcome] = Some (Ok demo_server_key, [])"
  by (simp_all add: demo_crypto_def demo_client_key_def demo_server_key_def pad_to_def clamp_def numeral_eq_Suc Let_def)

lemma demo_front_session:
  "\<exists>conn'. front_relay.run demo_dur demo_front_run
       (front_conn demo_front_params ((new_conn False seed)\<lparr>ReceiveBuffer := b, Encoder := e, Decoder := d\<rparr>)) = Some conn' \<and>
     length (queued conn') = 4 \<and> recvBuf conn' = []"
  by (simp add: demo_front_run_def front_conn_def new_conn_def defConn.defs relay.defs frontConn.defs demo_front_params_def
      front_step_def front_upstream_def client_wakes_def
      real_cell_def padding_factory_def padding_take_def padding_send_def initFrontArgs_def demo_dur_def
      signal_padding_def set_phase_def send_pkt_def maxPaddingN_def NRealSegSentIncrement_def Let_def)

lemma demo_wrapped:
  assumes "front_WrapConn p demo_crypto (\<lambda>_. 0) [Ok (replicate 31 8 @ [72])] demo_entropy None None None None
      (\<lambda>i. demo_clock 0) t0 t1 (map Ok [demo_hello] @ []) demo_sf = Some (out, Ok sconn, act, sf')"
  shows "first_mark out (take 16 (drop (length out - 589) out)) (length out - 589)"
proof -
  let ?cc = "new_conn False []" and ?sc = "new_conn True (sf_lenSeed demo_sf)"
  have I: "\<not> IsServer ?cc" "ReceiveBuffer ?cc = []" "IsServer ?sc" "ReceiveBuffer ?sc = []" "concat [demo_hello] = demo_hello"
    "[] \<notin> set [demo_hello]" by (simp_all add: new_conn_def demo_hello_bytes)
  obtain out' d f' where A: "defconn_serverHandshake demo_crypto (\<lambda>_. 0) demo_entropy None None None (\<lambda>i. demo_clock 0)
      (map Ok [demo_hello] @ []) demo_sf ?sc demo_server_key = (out', Some (Ok d, []), f')"
    using session_links [OF demo_session I(1-4) demo_hello_sent [OF I(1)] I(5,6), of "[]"] by blast
  have "out' = out"
    using assms A by (simp add: front_WrapConn_def wrap_server_def WrapConn_def demo_keys(2) del: NewKeypair.simps)
  with demo_answer [OF A I(3,4)] show ?thesis by simp
qed

theorem configured_session_witness:
  "\<exists>published fs' out sconn sf' cconn ec conn' wire e' sconn'.
     front_ServerFactory demo_float_ops demo_crypto (\<lambda>n. Ok (replicate n 0)) (\<lambda>_. 10) demo_server_args demo_fs =
       (Ok ((demo_sf, published), demo_front_params), fs') \<and>
     front_WrapConn demo_front_params demo_crypto (\<lambda>_. 0) [Ok (replicate 31 8 @ [72])] demo_entropy None None None None
       (\<lambda>i. demo_clock 0) 0 0 [Ok demo_hello] demo_sf = Some (out, Ok sconn, None, sf') \<and>
     front_Dial demo_crypto (\<lambda>_. 0) demo_entropy 3600000000000 None None None (Ok [Ok out])
       (\<lparr>ca_nodeID = replicate 20 9, ca_publicKey = replicate 32 3, ca_sessionKey = demo_client_key\<rparr>, demo_front_params) =
       Some (Ok cconn, False) \<and>
     Encoder cconn = Some ec \<and> front_relay.run demo_dur demo_front_run cconn = Some conn' \<and>
     Send_all demo_crypto ec (queued conn') = (Ok wire, e') \<and>
     read_all (front_readPackets demo_crypto (\<lambda>_. 0)) sconn (map (\<lambda>b. [b]) wire) = (Ok None, sconn') \<and>
     ReceiveDecodedBuffer sconn' = replicate 540 7"
proof -
  let ?ca = "\<lparr>ca_nodeID = replicate 20 9, ca_publicKey = replicate 32 3, ca_sessionKey = demo_client_key\<rparr>"
  obtain published fs' where F: "front_ServerFactory demo_float_ops demo_crypto (\<lambda>n. Ok (replicate n 0)) (\<lambda>_. 10)
      demo_server_args demo_fs = (Ok ((demo_sf, published), demo_front_params), fs')" using demo_configured by blast
  have cert: "demo_client_args published certArg = published certArg"
    by (simp add: demo_client_args_def front_arg_names map_add_def)
  obtain fs1 where "ServerFactory demo_crypto (\<lambda>n. Ok (replicate n 0)) (\<lambda>_. 10) demo_server_args demo_fs =
      (Ok (demo_sf, published), fs1)" using front_ServerFactory_base [OF F] by blast
  from published_identity [where client = "demo_client_args published", OF demo_crypto_ok(3) this cert]
  have P: "front_ParseArgs demo_float_ops demo_crypto [Ok (replicate 32 0)] (demo_client_args published) =
      Some (Ok (?ca, demo_front_params))"
    using demo_keys(1) by (simp add: front_ParseArgs_def embed_args_def ParseArgs_def demo_params demo_sf_def demo_identity_def)
  have S: "session_setting demo_crypto (\<lambda>_. 0) (\<lambda>_. 0) demo_entropy demo_entropy 3600000000000 (\<lambda>i. demo_clock 0) 1 demo_sf
      (ca_sessionKey ?ca) demo_server_key demo_hello" using demo_session by simp
  have B: "fst (newdefconnClientConn demo_crypto (\<lambda>_. 0) demo_entropy 3600000000000 None None None [] ?ca) = demo_hello"
    using demo_hello_sent [of "new_conn False (replicate 24 5)"] newdefconnClientConn_sent [of demo_entropy "replicate 24 5"]
    by (simp add: NewSeed_def csrand_Bytes_def demo_entropy_def [of 24] demo_sf_def demo_identity_def new_conn_def)
  have C: "concat [demo_hello] = demo_hello" "[] \<notin> set [demo_hello]" by (simp_all add: demo_hello_bytes)
  obtain out sconn sf' where W: "front_WrapConn demo_front_params demo_crypto (\<lambda>_. 0) [Ok (replicate 31 8 @ [72])] demo_entropy
      None None None None (\<lambda>i. demo_clock 0) 0 0 (map Ok [demo_hello] @ []) demo_sf = Some (out, Ok sconn, None, sf')"
    and D: "concat [out] = out \<and> first_mark out (take 16 (drop (length out - 589) out)) (length out - 589) \<Longrightarrow>
      \<exists>cconn seed b ec dc. front_Dial demo_crypto (\<lambda>_. 0) demo_entropy 3600000000000 None None None (Ok (map Ok [out]))
          (?ca, demo_front_params) = Some (Ok cconn, False) \<and>
        cconn = front_conn demo_front_params ((new_conn False seed)\<lparr>ReceiveBuffer := b, Encoder := Some ec, Decoder := Some dc\<rparr>) \<and>
        carries_stream demo_crypto (\<lambda>_. 0) demo_dur ec cconn sconn"
    using configured_session [OF F P cert demo_keys(2) S B C, of None 0 0 "[]" demo_dur] by blast
  have M: "concat [out] = out \<and> first_mark out (take 16 (drop (length out - 589) out)) (length out - 589)"
    using demo_wrapped [OF W] by simp
  from D [OF M] obtain cconn seed b ec dc where Di: "front_Dial demo_crypto (\<lambda>_. 0) demo_entropy 3600000000000 None None None
        (Ok (map Ok [out])) (?ca, demo_front_params) = Some (Ok cconn, False)"
    and cc: "cconn = front_conn demo_front_params ((new_conn False seed)\<lparr>ReceiveBuffer := b, Encoder := Some ec, Decoder := Some dc\<rparr>)"
    and carry: "carries_stream demo_crypto (\<lambda>_. 0) demo_dur ec cconn sconn" by blast
  obtain conn' where R: "front_relay.run demo_dur demo_front_run cconn = Some conn'"
    "length (queued conn') = 4" "recvBuf conn' = []" unfolding cc using demo_front_session by blast
  have "length (queued conn') < 2 ^ 64" using R(2) by simp
  with carry R(1) obtain wire e' where W': "Send_all demo_crypto ec (queued conn') = (Ok wire, e')"
    "\<forall>segs. concat segs = wire \<and> [] \<notin> set segs \<longrightarrow>
      (\<exists>sconn'. read_all (front_readPackets demo_crypto (\<lambda>_. 0)) sconn segs = (Ok None, sconn') \<and>
        ReceiveDecodedBuffer sconn' @ recvBuf conn' = concat (map front_input demo_front_run))"
    unfolding carries_stream_def by blast
  obtain sconn' where
    "read_all (front_readPackets demo_crypto (\<lambda>_. 0)) sconn (map (\<lambda>b. [b]) wire) = (Ok None, sconn')"
    "ReceiveDecodedBuffer sconn' @ recvBuf conn' = concat (map front_input demo_front_run)"
    using W'(2) [rule_format, OF concat_singletons] by blast
  moreover from this have "ReceiveDecodedBuffer sconn' = replicate 540 7" using R(3) by (simp add: demo_front_run_def)
  moreover have "Encoder cconn = Some ec" by (simp add: cc)
  moreover have "front_Dial demo_crypto (\<lambda>_. 0) demo_entropy 3600000000000 None None None (Ok [Ok out])
       (?ca, demo_front_params) = Some (Ok cconn, False)" using Di by simp
  moreover have "front_WrapConn demo_front_params demo_crypto (\<lambda>_. 0) [Ok (replicate 31 8 @ [72])] demo_entropy
      None None None None (\<lambda>i. demo_clock 0) 0 0 [Ok demo_hello] demo_sf = Some (out, Ok sconn, None, sf')" using W by simp
  ultimately show ?thesis using F R(1) W'(1) by blast
qed

end
